(* ===== verification/Prelude.thy ===== *)
theory Prelude
  imports Main "HOL-Library.List_Lexorder" "HOL-Library.Char_ord"
begin

text \<open>
  Shared vocabulary of the development: the Python exceptions the modelled code raises as values
  of a datatype, results (\<open>py_error + 'a\<close>) with their sequencing, stateful operations that keep
  the state they reached when they raise, Python's descending stable sort, dictionaries as association lists in insertion order, and the
  list lemmas the component theories share. Exception messages are not modelled; every raise is a branch.
\<close>

named_theorems res_simps \<open>unfolding rules for sequencing of results and stateful operations\<close>
named_theorems path_simps \<open>facts on POSIX path manipulation\<close>

subsection \<open>Exceptions and results\<close>

text \<open>
  The built-in exceptions and those of \<^verbatim>\<open>deltacat/exceptions.py\<close> that the modelled code raises or
  handles. \<open>FileNotFoundError\<close> and \<open>FileExistsError\<close> are subclasses of Python's
  \<open>OSError\<close>, see \<open>is_os_error\<close>.
\<close>

datatype py_error =
    ValueError | TypeError | RuntimeError | IndexError | KeyError | AttributeError
  | AssertionError | ZeroDivisionError | OverflowError | TimeoutError | NotImplementedError | UnboundLocalError
  | OSError | FileNotFoundError | FileExistsError
  | ObjectNotFoundError | ObjectDeletedError | ObjectAlreadyExistsError
  | ConcurrentModificationError | SchemaCompatibilityError | SchemaValidationError | RecursionError
  | NamespaceNotFoundError | TableNotFoundError | TableVersionNotFoundError | StreamNotFoundError
  | PartitionNotFoundError | DeltaNotFoundError | NamespaceAlreadyExistsError | TableAlreadyExistsError
  | TableVersionAlreadyExistsError | StreamAlreadyExistsError | PartitionAlreadyExistsError
  | DeltaAlreadyExistsError | TableValidationError

definition is_os_error :: "py_error \<Rightarrow> bool" where
  "is_os_error e \<longleftrightarrow> e \<in> {OSError, FileNotFoundError, FileExistsError, TimeoutError}"

type_synonym 'a res = "py_error + 'a"

fun rbind :: "'a res \<Rightarrow> ('a \<Rightarrow> 'b res) \<Rightarrow> 'b res" where
  "rbind (Inl e) f = Inl e"
| "rbind (Inr x) f = f x"

lemma rbind_Inr_iff: "rbind r f = Inr y \<longleftrightarrow> (\<exists>x. r = Inr x \<and> f x = Inr y)"
  by (cases r) auto

lemma rbind_Inl_iff: "rbind r f = Inl e \<longleftrightarrow> r = Inl e \<or> (\<exists>x. r = Inr x \<and> f x = Inl e)"
  by (cases r) auto

lemma rbind_assoc: "rbind (rbind r f) g = rbind r (\<lambda>x. rbind (f x) g)"
  by (cases r) auto

lemma rbind_cong [fundef_cong]:
  "r = r' \<Longrightarrow> (\<And>x. r' = Inr x \<Longrightarrow> f x = g x) \<Longrightarrow> rbind r f = rbind r' g"
  by (cases r') auto

text \<open>A Python comprehension whose body may raise: elements in order, the first error wins.\<close>

fun res_map :: "('a \<Rightarrow> 'b res) \<Rightarrow> 'a list \<Rightarrow> 'b list res" where
  "res_map f [] = Inr []"
| "res_map f (x # xs) = rbind (f x) (\<lambda>y. rbind (res_map f xs) (\<lambda>ys. Inr (y # ys)))"

lemma res_map_all_Inr: "(\<And>x. x \<in> set xs \<Longrightarrow> f x = Inr (g x)) \<Longrightarrow> res_map f xs = Inr (map g xs)"
  by (induction xs) auto

lemma res_map_Inr_length: "res_map f xs = Inr ys \<Longrightarrow> length ys = length xs"
  by (induction xs arbitrary: ys) (auto simp: rbind_Inr_iff)

definition of_option :: "py_error \<Rightarrow> 'a option \<Rightarrow> 'a res" where
  "of_option e x = (case x of None \<Rightarrow> Inl e | Some v \<Rightarrow> Inr v)"

lemma of_option_simps [simp]:
  "of_option e None = Inl e" "of_option e (Some v) = Inr v"
  by (simp_all add: of_option_def)

lemma of_option_Inr_iff [simp]: "of_option e x = Inr v \<longleftrightarrow> x = Some v"
  by (cases x) auto

subsection \<open>Stateful operations\<close>

text \<open>
  A call that changes a state and may raise: the state it reached is kept with the error, because
  handlers such as \<^verbatim>\<open>Transaction._fail_and_cleanup\<close> run on what was already written.
\<close>

type_synonym ('s, 'a) io = "'s \<Rightarrow> 'a res \<times> 's"

definition io_return :: "'a \<Rightarrow> ('s, 'a) io" where
  "io_return x s = (Inr x, s)"

definition io_raise :: "py_error \<Rightarrow> ('s, 'a) io" where
  "io_raise e s = (Inl e, s)"

definition io_lift :: "('s \<Rightarrow> 'a res) \<Rightarrow> ('s, 'a) io" where
  "io_lift f s = (f s, s)"

definition io_bind :: "('s, 'a) io \<Rightarrow> ('a \<Rightarrow> ('s, 'b) io) \<Rightarrow> ('s, 'b) io" where
  "io_bind m f s = (case m s of (Inl e, s') \<Rightarrow> (Inl e, s') | (Inr x, s') \<Rightarrow> f x s')"

definition io_try :: "('s, 'a) io \<Rightarrow> (py_error \<Rightarrow> ('s, 'a) io) \<Rightarrow> ('s, 'a) io" where
  "io_try m h s = (case m s of (Inl e, s') \<Rightarrow> h e s' | (Inr x, s') \<Rightarrow> (Inr x, s'))"

lemmas io_defs = io_return_def io_raise_def io_lift_def io_bind_def io_try_def

declare io_return_def [res_simps] io_raise_def [res_simps] io_lift_def [res_simps]

lemma io_bind_return [simp]: "io_bind (io_return x) f = f x"
  by (rule ext) (simp add: io_defs)

lemma io_bind_raise [simp]: "io_bind (io_raise e) f = io_raise e"
  by (rule ext) (simp add: io_defs)

lemma io_bind_Inr:
  "m s = (Inr x, s') \<Longrightarrow> io_bind m f s = f x s'"
  by (simp add: io_bind_def)

lemma io_bind_Inl:
  "m s = (Inl e, s') \<Longrightarrow> io_bind m f s = (Inl e, s')"
  by (simp add: io_bind_def)

lemma io_bind_Inr_iff:
  "io_bind m f s = (Inr y, t) \<longleftrightarrow> (\<exists>x s'. m s = (Inr x, s') \<and> f x s' = (Inr y, t))"
  by (auto simp: io_bind_def split: prod.splits sum.splits)

lemma io_bind_assoc: "io_bind (io_bind m f) g = io_bind m (\<lambda>x. io_bind (f x) g)"
  by (rule ext) (auto simp: io_bind_def split: prod.splits sum.splits)

lemma io_bind_cong [fundef_cong]:
  "s = s' \<Longrightarrow> m s' = m' s' \<Longrightarrow> (\<And>x t. m' s' = (Inr x, t) \<Longrightarrow> f x t = g x t) \<Longrightarrow>
   io_bind m f s = io_bind m' g s'"
  by (auto simp: io_bind_def split: prod.splits sum.splits)

lemma io_lift_simps [simp]: "io_lift f s = (f s, s)"
  by (simp add: io_lift_def)

lemma io_return_simps [simp]: "io_return x s = (Inr x, s)"
  by (simp add: io_return_def)

lemma io_raise_simps [simp]: "io_raise e s = (Inl e, s)"
  by (simp add: io_raise_def)

text \<open>A for-loop over a list whose body may raise.\<close>

fun io_iter :: "('a \<Rightarrow> ('s, unit) io) \<Rightarrow> 'a list \<Rightarrow> ('s, unit) io" where
  "io_iter f [] = io_return ()"
| "io_iter f (x # xs) = io_bind (f x) (\<lambda>_. io_iter f xs)"

text \<open>
  Stateful operations that call a loop which may not end: \<open>None\<close> is a call that does not return.
\<close>

type_synonym ('s, 'a) pio = "'s \<Rightarrow> ('a res \<times> 's) option"

definition pio_return :: "'a \<Rightarrow> ('s, 'a) pio" where
  "pio_return x s = Some (Inr x, s)"

definition pio_raise :: "py_error \<Rightarrow> ('s, 'a) pio" where
  "pio_raise e s = Some (Inl e, s)"

definition pio_ask :: "('s \<Rightarrow> 'a res option) \<Rightarrow> ('s, 'a) pio" where
  "pio_ask f s = map_option (\<lambda>r. (r, s)) (f s)"

definition pio_run :: "('s, 'a) io \<Rightarrow> ('s, 'a) pio" where
  "pio_run m s = Some (m s)"

definition pio_bind :: "('s, 'a) pio \<Rightarrow> ('a \<Rightarrow> ('s, 'b) pio) \<Rightarrow> ('s, 'b) pio" where
  "pio_bind m f s = (case m s of None \<Rightarrow> None
     | Some (Inl e, s') \<Rightarrow> Some (Inl e, s') | Some (Inr x, s') \<Rightarrow> f x s')"

definition pio_try :: "('s, 'a) pio \<Rightarrow> (py_error \<Rightarrow> ('s, 'a) pio) \<Rightarrow> ('s, 'a) pio" where
  "pio_try m h s = (case m s of None \<Rightarrow> None
     | Some (Inl e, s') \<Rightarrow> h e s' | Some (Inr x, s') \<Rightarrow> Some (Inr x, s'))"

lemmas pio_defs = pio_return_def pio_raise_def pio_ask_def pio_run_def pio_bind_def pio_try_def

lemma pio_simps [simp]:
  "pio_return x s = Some (Inr x, s)" "pio_raise e s = Some (Inl e, s)" "pio_run m s = Some (m s)"
  by (simp_all add: pio_defs)

lemma pio_bind_Inr: "m s = Some (Inr x, s') \<Longrightarrow> pio_bind m f s = f x s'"
  by (simp add: pio_bind_def)

lemma pio_bind_Inl: "m s = Some (Inl e, s') \<Longrightarrow> pio_bind m f s = Some (Inl e, s')"
  by (simp add: pio_bind_def)

lemma pio_bind_Inr_iff:
  "pio_bind m f s = Some (Inr y, t) \<longleftrightarrow> (\<exists>x s'. m s = Some (Inr x, s') \<and> f x s' = Some (Inr y, t))"
  by (auto simp: pio_bind_def split: option.splits prod.splits sum.splits)

lemma pio_ask_Inr_iff: "pio_ask f s = Some (Inr x, t) \<longleftrightarrow> f s = Some (Inr x) \<and> t = s"
  by (auto simp: pio_ask_def)

lemma pio_run_Inr_iff: "pio_run m s = Some (Inr x, t) \<longleftrightarrow> m s = (Inr x, t)"
  by simp

text \<open>Sequencing of results of calls that may not return.\<close>

fun dbind :: "'a res option \<Rightarrow> ('a \<Rightarrow> 'b res option) \<Rightarrow> 'b res option" where
  "dbind None f = None"
| "dbind (Some (Inl e)) f = Some (Inl e)"
| "dbind (Some (Inr x)) f = f x"

lemma dbind_Inr_iff: "dbind m f = Some (Inr y) \<longleftrightarrow> (\<exists>x. m = Some (Inr x) \<and> f x = Some (Inr y))"
  by (cases "(m, f)" rule: dbind.cases) auto

fun pio_iter :: "('a \<Rightarrow> ('s, unit) pio) \<Rightarrow> 'a list \<Rightarrow> ('s, unit) pio" where
  "pio_iter f [] = pio_return ()"
| "pio_iter f (x # xs) = pio_bind (f x) (\<lambda>_. pio_iter f xs)"

subsection \<open>Python's stable descending sort\<close>

text \<open>
  \<^verbatim>\<open>sorted(xs, key=k, reverse=True)\<close> and \<^verbatim>\<open>xs.sort(key=k, reverse=True)\<close>: descending by key, elements
  with equal keys in their original order.
\<close>

definition sort_desc :: "('a \<Rightarrow> 'k::linorder) \<Rightarrow> 'a list \<Rightarrow> 'a list" where
  "sort_desc k xs = rev (sort_key k (rev xs))"

lemma set_sort_desc [simp]: "set (sort_desc k xs) = set xs"
  by (simp add: sort_desc_def)

lemma length_sort_desc [simp]: "length (sort_desc k xs) = length xs"
  by (simp add: sort_desc_def)

lemma distinct_sort_desc [simp]: "distinct (sort_desc k xs) = distinct xs"
  by (simp add: sort_desc_def)

lemma sort_desc_Nil [simp]: "sort_desc k [] = []"
  by (simp add: sort_desc_def)

lemma sort_desc_eq_Nil [simp]: "sort_desc k xs = [] \<longleftrightarrow> xs = []"
  by (metis length_0_conv length_sort_desc)

lemma sorted_sort_desc: "sorted_wrt (\<lambda>x y. k y \<le> k x) (sort_desc k xs)"
proof -
  have "sorted (map k (sort_key k (rev xs)))" by simp
  then show ?thesis
    by (simp add: sort_desc_def sorted_wrt_rev sorted_wrt_map)
qed

lemma filter_sort_desc: "filter P (sort_desc k xs) = sort_desc k (filter P xs)"
  by (simp add: sort_desc_def rev_filter [symmetric] filter_sort)

subsection \<open>List lemmas\<close>

lemma sorted_wrt_hd: "sorted_wrt R (x # xs) \<Longrightarrow> y \<in> set xs \<Longrightarrow> R x y"
  by simp

lemma takeWhile_append_stop: "\<not> P x \<Longrightarrow> \<forall>y \<in> set xs. P y \<Longrightarrow> takeWhile P (xs @ x # ys) = xs"
  by (induction xs) auto

lemma dropWhile_append_stop: "\<not> P x \<Longrightarrow> \<forall>y \<in> set xs. P y \<Longrightarrow> dropWhile P (xs @ x # ys) = x # ys"
  by (induction xs) auto

lemma dropWhile_all [simp]: "\<forall>y \<in> set xs. P y \<Longrightarrow> dropWhile P xs = []"
  by (induction xs) auto

lemma snd_in_enumerate: "im \<in> set (enumerate k xs) \<Longrightarrow> snd im \<in> set xs"
  by (cases im) (auto simp: enumerate_eq_zip dest: set_zip_rightD)

lemma sorted_wrt_concat:
  "\<forall>xs \<in> set xss. sorted_wrt R xs \<Longrightarrow> sorted_wrt (\<lambda>xs ys. \<forall>x \<in> set xs. \<forall>y \<in> set ys. R x y) xss \<Longrightarrow>
   sorted_wrt R (concat xss)"
  by (induction xss) (auto simp: sorted_wrt_append)

lemma distinct_concat_map:
  "distinct cs \<Longrightarrow> \<forall>c \<in> set cs. distinct (g c) \<Longrightarrow>
   \<forall>c \<in> set cs. \<forall>c' \<in> set cs. c \<noteq> c' \<longrightarrow> set (g c) \<inter> set (g c') = {} \<Longrightarrow> distinct (concat (map g cs))"
  by (induction cs) auto

lemma less_append_same_prefix: "(xs @ ys < xs @ zs) = (ys < (zs :: 'a::order list))"
  by (induction xs) auto

lemma less_eq_append_same_prefix: "(xs @ ys \<le> xs @ zs) = (ys \<le> (zs :: 'a::linorder list))"
  by (simp add: less_append_same_prefix flip: not_less)

lemma less_append_equal_length:
  "(s :: 'a::linorder list) < t \<Longrightarrow> length s = length t \<Longrightarrow> s @ x < t @ y"
proof (induction s arbitrary: t)
  case (Cons c s)
  then show ?case by (cases t) auto
qed simp

lemma map_filter_all_Some: "(\<And>x. x \<in> set xs \<Longrightarrow> f x = Some (g x)) \<Longrightarrow> List.map_filter f xs = map g xs"
  by (induction xs) (auto simp: List.map_filter_simps)

subsection \<open>Dictionaries in insertion order\<close>

fun dict_set :: "'k \<Rightarrow> 'v \<Rightarrow> ('k \<times> 'v) list \<Rightarrow> ('k \<times> 'v) list" where
  "dict_set k v [] = [(k, v)]"
| "dict_set k v ((k', v') # d) = (if k' = k then (k, v) # d else (k', v') # dict_set k v d)"

definition dict_del :: "'k \<Rightarrow> ('k \<times> 'v) list \<Rightarrow> ('k \<times> 'v) list" where
  "dict_del k d = filter (\<lambda>p. fst p \<noteq> k) d"

definition dict_update :: "('k \<times> 'v) list \<Rightarrow> ('k \<times> 'v) list \<Rightarrow> ('k \<times> 'v) list" where
  "dict_update d e = fold (\<lambda>(k, v). dict_set k v) e d"

lemma map_of_dict_set [simp]: "map_of (dict_set k v d) = (map_of d)(k \<mapsto> v)"
  by (induction d) auto

lemma keys_dict_set: "fst ` set (dict_set k v d) = insert k (fst ` set d)"
  by (induction k v d rule: dict_set.induct) (simp_all add: insert_commute)

lemma map_of_dict_del [simp]: "map_of (dict_del k d) = (map_of d)(k := None)"
  by (induction d) (auto simp: dict_del_def)

lemma keys_dict_del [simp]: "fst ` set (dict_del k d) = fst ` set d - {k}"
  by (auto simp: dict_del_def)

lemma distinct_dict_set [simp]: "distinct (map fst d) \<Longrightarrow> distinct (map fst (dict_set k v d))"
  by (induction d) (auto simp: keys_dict_set)

lemma distinct_dict_del [simp]: "distinct (map fst d) \<Longrightarrow> distinct (map fst (dict_del k d))"
  by (simp add: dict_del_def distinct_map_filter)

lemma dict_set_fresh: "k \<notin> fst ` set d \<Longrightarrow> dict_set k v d = d @ [(k, v)]"
  by (induction d) auto

lemma dict_set_not_Nil [simp]: "dict_set k v d \<noteq> []"
  by (cases d) (auto split: if_splits)

lemma map_of_dict_update: "map_of (dict_update d e) = (map_of d) ++ map_of (rev e)"
  by (induction e arbitrary: d) (auto simp: dict_update_def map_add_def split: option.splits)

end
