(* ===== verification/PyStrings.thy ===== *)
theory PyStrings
  imports Prelude
begin

text \<open>
  The parts of Python's \<^verbatim>\<open>str\<close>, \<^verbatim>\<open>int\<close>, \<^verbatim>\<open>uuid\<close> and \<^verbatim>\<open>posixpath\<close> the sources use, on \<open>string\<close>
  (ASCII text; a path component or an identifier of the catalog is ASCII). Each function is the
  documented behaviour of the standard library on every input of its type, errors included; the
  lemmas are the round trips and path facts that the component theories rely on.
\<close>

subsection \<open>Splitting and joining\<close>

text \<open>\<^verbatim>\<open>s.split(c)\<close> for a one-character separator; \<^verbatim>\<open>sep.join(parts)\<close>.\<close>

fun split_on :: "char \<Rightarrow> string \<Rightarrow> string list" where
  "split_on c [] = [[]]"
| "split_on c (x # xs) =
     (if x = c then [] # split_on c xs
      else (case split_on c xs of [] \<Rightarrow> [[x]] | w # ws \<Rightarrow> (x # w) # ws))"

fun join_with :: "string \<Rightarrow> string list \<Rightarrow> string" where
  "join_with sep [] = []"
| "join_with sep [p] = p"
| "join_with sep (p # q # ps) = p @ sep @ join_with sep (q # ps)"

lemma split_on_not_Nil [simp]: "split_on c s \<noteq> []"
  by (induction s) (auto split: list.splits)

lemma split_on_no_sep [simp]: "c \<notin> set s \<Longrightarrow> split_on c s = [s]"
  by (induction s) auto

lemma split_on_append: "c \<notin> set p \<Longrightarrow> split_on c (p @ c # s) = p # split_on c s"
  by (induction p) auto

lemma split_on_append_sep: "split_on c (s @ c # t) = split_on c s @ split_on c t"
  by (induction s) (auto split: list.splits)

lemma split_on_join:
  "ps \<noteq> [] \<Longrightarrow> \<forall>p \<in> set ps. c \<notin> set p \<Longrightarrow> split_on c (join_with [c] ps) = ps"
  by (induction ps rule: induct_list012) (auto simp: split_on_append)

lemma join_split [simp]: "join_with [c] (split_on c s) = s"
proof (induction s)
  case Nil
  then show ?case by simp
next
  case (Cons x xs)
  show ?case
  proof (cases "split_on c xs")
    case Nil
    then show ?thesis by simp
  next
    case (Cons w ws)
    with Cons.IH show ?thesis by (cases ws) auto
  qed
qed

lemma split_on_parts: "p \<in> set (split_on c s) \<Longrightarrow> c \<notin> set p"
  by (induction s arbitrary: p) (force split: if_splits list.splits)+

subsection \<open>Suffixes and prefixes at a separator\<close>

text \<open>\<open>after_last c s\<close> is \<^verbatim>\<open>s[s.rfind(c)+1:]\<close>, \<open>upto_last c s\<close> is \<^verbatim>\<open>s[:s.rfind(c)+1]\<close>.\<close>

definition after_last :: "char \<Rightarrow> string \<Rightarrow> string" where
  "after_last c s = rev (takeWhile (\<lambda>x. x \<noteq> c) (rev s))"

definition upto_last :: "char \<Rightarrow> string \<Rightarrow> string" where
  "upto_last c s = rev (dropWhile (\<lambda>x. x \<noteq> c) (rev s))"

definition rstrip :: "char \<Rightarrow> string \<Rightarrow> string" where
  "rstrip c s = rev (dropWhile (\<lambda>x. x = c) (rev s))"

definition starts_with :: "string \<Rightarrow> string \<Rightarrow> bool" where
  "starts_with s p \<longleftrightarrow> take (length p) s = p"

lemma upto_after_last [simp]: "upto_last c s @ after_last c s = s"
  by (metis after_last_def rev_append rev_rev_ident takeWhile_dropWhile_id upto_last_def)

lemma takeWhile_neq_append: "c \<notin> set t \<Longrightarrow> takeWhile (\<lambda>x. x \<noteq> c) (t @ c # s) = t"
  by (induction t) auto

lemma dropWhile_neq_append: "c \<notin> set t \<Longrightarrow> dropWhile (\<lambda>x. x \<noteq> c) (t @ c # s) = c # s"
  by (induction t) auto

lemma takeWhile_neq_all: "c \<notin> set t \<Longrightarrow> takeWhile (\<lambda>x. x \<noteq> c) t = t"
  by (induction t) auto

lemma after_last_no_sep [simp]: "c \<notin> set s \<Longrightarrow> after_last c s = s"
  by (simp add: after_last_def takeWhile_neq_all)

lemma upto_last_no_sep [simp]: "c \<notin> set s \<Longrightarrow> upto_last c s = []"
  by (metis append_self_conv2 upto_after_last after_last_no_sep)

lemma after_last_append [simp]: "c \<notin> set t \<Longrightarrow> after_last c (s @ c # t) = t"
  by (simp add: after_last_def takeWhile_neq_append)

lemma upto_last_append [simp]: "c \<notin> set t \<Longrightarrow> upto_last c (s @ c # t) = s @ [c]"
  by (simp add: upto_last_def dropWhile_neq_append)

lemma sep_notin_after_last [simp]: "c \<notin> set (after_last c s)"
  by (auto simp: after_last_def dest: set_takeWhileD)

lemma rstrip_snoc_sep [simp]: "rstrip c (s @ [c]) = rstrip c s"
  by (simp add: rstrip_def)

lemma rstrip_no_sep [simp]: "s = [] \<or> last s \<noteq> c \<Longrightarrow> rstrip c s = s"
  by (cases s rule: rev_cases) (auto simp: rstrip_def)

lemma starts_with_self_append [simp]: "starts_with (p @ s) p"
  by (simp add: starts_with_def)

lemma starts_with_iff: "starts_with s p \<longleftrightarrow> (\<exists>t. s = p @ t)"
  by (metis append_eq_conv_conj append_take_drop_id starts_with_def)

subsection \<open>posixpath\<close>

abbreviation slash :: char where "slash \<equiv> CHR ''/''"
abbreviation dot :: char where "dot \<equiv> CHR ''.''"

definition basename :: "string \<Rightarrow> string" where
  "basename p = after_last slash p"

definition dirname :: "string \<Rightarrow> string" where
  "dirname p =
     (let head = upto_last slash p
      in if head \<noteq> [] \<and> (\<exists>x \<in> set head. x \<noteq> slash) then rstrip slash head else head)"

definition path_join :: "string \<Rightarrow> string \<Rightarrow> string" where
  "path_join a b =
     (if starts_with b [slash] then b
      else if a = [] \<or> last a = slash then a @ b
      else a @ slash # b)"

definition path_join_all :: "string \<Rightarrow> string list \<Rightarrow> string" where
  "path_join_all a ps = foldl path_join a ps"

text \<open>
  \<^verbatim>\<open>posixpath.splitext\<close>: the extension starts at the last dot of the last component, unless every
  character of that component before it is a dot.
\<close>

definition splitext :: "string \<Rightarrow> string \<times> string" where
  "splitext p =
     (let base = basename p; pre = upto_last slash p
      in if dot \<in> set base \<and> (\<exists>x \<in> set (butlast (upto_last dot base)). x \<noteq> dot)
         then (pre @ butlast (upto_last dot base), dot # after_last dot base)
         else (p, []))"

text \<open>A name that is one path component: not empty and without a separator.\<close>

definition component :: "string \<Rightarrow> bool" where
  "component n \<longleftrightarrow> n \<noteq> [] \<and> slash \<notin> set n"

text \<open>A directory path as the catalog uses them: not empty and without a trailing separator.\<close>

definition dir_path :: "string \<Rightarrow> bool" where
  "dir_path d \<longleftrightarrow> d \<noteq> [] \<and> last d \<noteq> slash"

lemma dir_path_not_Nil [simp]: "dir_path d \<Longrightarrow> d \<noteq> []"
  by (simp add: dir_path_def)

lemma path_join_component [path_simps]:
  "dir_path d \<Longrightarrow> component n \<Longrightarrow> path_join d n = d @ slash # n"
  by (auto simp: path_join_def dir_path_def component_def starts_with_def split: if_splits)
     (cases n; auto)+

lemma dir_path_join [path_simps, intro]:
  "dir_path d \<Longrightarrow> component n \<Longrightarrow> dir_path (path_join d n)"
  by (auto simp: path_join_component) (auto simp: dir_path_def component_def dest: last_in_set)

lemma basename_path_join [path_simps]:
  "dir_path d \<Longrightarrow> component n \<Longrightarrow> basename (path_join d n) = n"
  by (simp add: path_join_component basename_def component_def)

lemma basename_component [path_simps]: "component n \<Longrightarrow> basename n = n"
  by (simp add: basename_def component_def)

lemma dirname_path_join [path_simps]:
  assumes "dir_path d" "component n"
  shows "dirname (path_join d n) = d"
proof -
  have up: "upto_last slash (path_join d n) = d @ [slash]"
    using assms by (simp add: path_join_component component_def)
  have "\<exists>x \<in> set d. x \<noteq> slash" using assms(1) last_in_set unfolding dir_path_def by blast
  then show ?thesis
    using assms(1) by (simp add: dirname_def up dir_path_def)
qed

lemma splitext_component:
  assumes "slash \<notin> set pre" "slash \<notin> set ext" "dot \<notin> set ext" "\<exists>x \<in> set pre. x \<noteq> dot"
  shows "splitext (pre @ dot # ext) = (pre, dot # ext)"
proof -
  have "slash \<notin> set (pre @ dot # ext)" using assms by simp
  then have b: "basename (pre @ dot # ext) = pre @ dot # ext"
    and u: "upto_last slash (pre @ dot # ext) = []"
    unfolding basename_def by (rule after_last_no_sep, rule upto_last_no_sep)
  show ?thesis
    using assms(3,4) by (simp add: splitext_def b u)
qed

lemma splitext_no_dot: "dot \<notin> set p \<Longrightarrow> splitext p = (p, [])"
  using set_takeWhileD [of dot "\<lambda>x. x \<noteq> slash" "rev p"]
  by (auto simp: splitext_def basename_def after_last_def Let_def)

lemma splitext_path_join:
  assumes d: "dir_path d"
    and "slash \<notin> set pre" "slash \<notin> set ext" "dot \<notin> set ext" "\<exists>x \<in> set pre. x \<noteq> dot"
  shows "splitext (path_join d (pre @ dot # ext)) = (d @ slash # pre, dot # ext)"
proof -
  have c: "component (pre @ dot # ext)" using assms by (simp add: component_def)
  have "upto_last slash (path_join d (pre @ dot # ext)) = d @ [slash]"
    using d c by (simp add: path_join_component component_def)
  then show ?thesis
    using assms by (simp add: splitext_def basename_path_join [OF d c])
qed

lemma path_join_all_simps [simp]:
  "path_join_all d [] = d" "path_join_all d (n # ns) = path_join_all (path_join d n) ns"
  by (simp_all add: path_join_all_def)

lemma path_join_all_append: "path_join_all d (ms @ ns) = path_join_all (path_join_all d ms) ns"
  by (simp add: path_join_all_def)

lemma dir_path_join_all [path_simps]:
  "dir_path d \<Longrightarrow> \<forall>n \<in> set ns. component n \<Longrightarrow> dir_path (path_join_all d ns)"
  by (induction ns arbitrary: d) (auto simp: dir_path_join)

lemma split_on_path_join_all:
  "dir_path d \<Longrightarrow> \<forall>n \<in> set ns. component n \<Longrightarrow>
   split_on slash (path_join_all d ns) = split_on slash d @ ns"
proof (induction ns arbitrary: d)
  case Nil
  then show ?case by simp
next
  case (Cons n ns)
  then have "split_on slash (path_join_all (path_join d n) ns) = split_on slash (path_join d n) @ ns"
    by (auto simp: dir_path_join)
  moreover have "split_on slash (path_join d n) = split_on slash d @ [n]"
    using Cons.prems by (simp add: path_join_component split_on_append_sep) (simp add: component_def)
  ultimately show ?case by simp
qed

text \<open>Joining components below a directory keeps different names apart.\<close>

lemma path_join_inject:
  "dir_path d \<Longrightarrow> component m \<Longrightarrow> component n \<Longrightarrow> path_join d m = path_join d n \<longleftrightarrow> m = n"
  by (simp add: path_join_component)

lemma path_join_all_inject:
  assumes "dir_path d" "\<forall>n \<in> set ms. component n" "\<forall>n \<in> set ns. component n"
    "path_join_all d ms = path_join_all d ns"
  shows "ms = ns"
  by (metis assms same_append_eq split_on_path_join_all)

end
