(* ===== verification/PyNumbers.thy ===== *)
theory PyNumbers
  imports PyStrings
begin

text \<open>
  Decimal formatting and parsing of Python integers (\<^verbatim>\<open>str(n)\<close>, \<^verbatim>\<open>f"{n:020}"\<close>, \<^verbatim>\<open>int(s)\<close>,
  \<^verbatim>\<open>int(s, 16)\<close>, \<^verbatim>\<open>s.isdigit()\<close>) and the validation that \<^verbatim>\<open>uuid.UUID(s)\<close> performs, with the
  round trip between formatting and parsing.
\<close>

subsection \<open>Formatting\<close>

definition digit_char :: "nat \<Rightarrow> char" where
  "digit_char d = ''0123456789'' ! d"

fun nat_to_str :: "nat \<Rightarrow> string" where
  "nat_to_str n = (if n < 10 then [digit_char n] else nat_to_str (n div 10) @ [digit_char (n mod 10)])"

declare nat_to_str.simps [simp del]

definition int_to_str :: "int \<Rightarrow> string" where
  "int_to_str i = (if i < 0 then CHR ''-'' # nat_to_str (nat (- i)) else nat_to_str (nat i))"

text \<open>\<^verbatim>\<open>f"{i:0w}"\<close>: zero padding to width \<open>w\<close>, after the sign.\<close>

definition zero_pad :: "nat \<Rightarrow> int \<Rightarrow> string" where
  "zero_pad w i =
     (if i < 0
      then CHR ''-'' # replicate (w - 1 - length (nat_to_str (nat (- i)))) (CHR ''0'') @ nat_to_str (nat (- i))
      else replicate (w - length (nat_to_str (nat i))) (CHR ''0'') @ nat_to_str (nat i))"

subsection \<open>Parsing\<close>

definition digit_val :: "nat \<Rightarrow> char \<Rightarrow> nat option" where
  "digit_val b c =
     (case map_of (zip ''0123456789abcdefABCDEF'' [0,1,2,3,4,5,6,7,8,9,10,11,12,13,14,15,10,11,12,13,14,15]) c of
        None \<Rightarrow> None
      | Some d \<Rightarrow> if d < b then Some d else None)"

text \<open>
  Digits of base \<open>b\<close> with single underscores between them; the flag says that a digit must follow.
\<close>

fun parse_digits :: "nat \<Rightarrow> nat \<Rightarrow> bool \<Rightarrow> string \<Rightarrow> nat option" where
  "parse_digits b acc need [] = (if need then None else Some acc)"
| "parse_digits b acc need (c # cs) =
     (if c = CHR ''_'' then (if need then None else parse_digits b acc True cs)
      else (case digit_val b c of
              None \<Rightarrow> None
            | Some d \<Rightarrow> parse_digits b (acc * b + d) False cs))"

definition is_space :: "char \<Rightarrow> bool" where
  "is_space c \<longleftrightarrow> c \<in> set [CHR 0x20, CHR 0x09, CHR 0x0A, CHR 0x0B, CHR 0x0C, CHR 0x0D,
     CHR 0x1C, CHR 0x1D, CHR 0x1E, CHR 0x1F]"

definition strip_spaces :: "string \<Rightarrow> string" where
  "strip_spaces s = rev (dropWhile is_space (rev (dropWhile is_space s)))"

definition drop_base_prefix :: "nat \<Rightarrow> string \<Rightarrow> string" where
  "drop_base_prefix b s =
     (if b = 16 \<and> (starts_with s ''0x'' \<or> starts_with s ''0X'')
      then (if take 1 (drop 2 s) = ''_'' then drop 3 s else drop 2 s)
      else s)"

text \<open>\<^verbatim>\<open>int(s, b)\<close> for \<open>b\<close> 10 or 16; \<open>None\<close> is the \<^verbatim>\<open>ValueError\<close>.\<close>

definition py_int_base :: "nat \<Rightarrow> string \<Rightarrow> int option" where
  "py_int_base b s =
     (let t = strip_spaces s;
          neg = (take 1 t = ''-'');
          u = (if take 1 t = ''-'' \<or> take 1 t = ''+'' then drop 1 t else t)
      in map_option (\<lambda>n. if neg then - int n else int n)
           (parse_digits b 0 True (drop_base_prefix b u)))"

abbreviation py_int :: "string \<Rightarrow> int option" where
  "py_int s \<equiv> py_int_base 10 s"

definition is_decimal :: "char \<Rightarrow> bool" where
  "is_decimal c \<longleftrightarrow> c \<in> set ''0123456789''"

definition isdigit :: "string \<Rightarrow> bool" where
  "isdigit s \<longleftrightarrow> s \<noteq> [] \<and> list_all is_decimal s"

subsection \<open>Identifiers: the check of \<open>uuid.UUID\<close>\<close>

fun remove_sub :: "nat \<Rightarrow> string \<Rightarrow> string \<Rightarrow> string" where
  "remove_sub 0 p s = s"
| "remove_sub (Suc k) p [] = []"
| "remove_sub (Suc k) p (c # cs) =
     (if starts_with (c # cs) p then remove_sub k p (drop (length p) (c # cs))
      else c # remove_sub k p cs)"

text \<open>
  \<^verbatim>\<open>s.replace(p, '')\<close> for a non-empty \<open>p\<close>: \<open>remove_sub\<close> scans once from the left, and one
  unit of its first argument per character is enough to reach the end.
\<close>

definition replace_with_empty :: "string \<Rightarrow> string \<Rightarrow> string" where
  "replace_with_empty p s = remove_sub (length s) p s"

definition strip_braces :: "string \<Rightarrow> string" where
  "strip_braces s =
     (let brace = (\<lambda>c. c = CHR 0x7B \<or> c = CHR 0x7D)
      in rev (dropWhile brace (rev (dropWhile brace s))))"

text \<open>
  \<^verbatim>\<open>uuid.UUID(hex)\<close> drops \<^verbatim>\<open>urn:\<close>, \<^verbatim>\<open>uuid:\<close>, braces and hyphens, then wants 32 characters that
  \<^verbatim>\<open>int(hex, 16)\<close> accepts as a value in range.
\<close>

definition uuid_ok :: "string \<Rightarrow> bool" where
  "uuid_ok s =
     (let h = filter (\<lambda>c. c \<noteq> CHR ''-'')
                (strip_braces (replace_with_empty ''uuid:'' (replace_with_empty ''urn:'' s)))
      in length h = 32 \<and>
         (case py_int_base 16 h of None \<Rightarrow> False | Some v \<Rightarrow> 0 \<le> v \<and> v < 2 ^ 128))"

subsection \<open>Round trips\<close>

lemma nat_to_str_small: "n < 10 \<Longrightarrow> nat_to_str n = [digit_char n]"
  by (simp add: nat_to_str.simps [of n])

lemma nat_to_str_large: "10 \<le> n \<Longrightarrow> nat_to_str n = nat_to_str (n div 10) @ [digit_char (n mod 10)]"
  by (simp add: nat_to_str.simps [of n])

lemma lt10_cases:
  assumes "(d::nat) < 10"
  obtains "d = 0" | "d = 1" | "d = 2" | "d = 3" | "d = 4" | "d = 5" | "d = 6" | "d = 7" | "d = 8" | "d = 9"
proof -
  have "d = 0 \<or> d = 1 \<or> d = 2 \<or> d = 3 \<or> d = 4 \<or> d = 5 \<or> d = 6 \<or> d = 7 \<or> d = 8 \<or> d = 9"
    using assms by arith
  then show thesis using that by blast
qed

lemma digit_val_digit_char: "d < 10 \<Longrightarrow> digit_val 10 (digit_char d) = Some d"
  by (erule lt10_cases) (simp_all add: digit_val_def digit_char_def)

lemma digit_char_facts:
  assumes "d < 10"
  shows "is_decimal (digit_char d)" "digit_char d \<noteq> CHR ''_''" "digit_char d \<noteq> slash"
    "digit_char d \<noteq> dot" "\<not> is_space (digit_char d)" "digit_char d \<noteq> CHR ''-''" "digit_char d \<noteq> CHR ''+''"
  by (rule lt10_cases [OF assms]; simp add: is_decimal_def digit_char_def is_space_def)+

lemma list_all_nat_to_str:
  assumes "\<And>d. d < 10 \<Longrightarrow> P (digit_char d)"
  shows "list_all P (nat_to_str n)"
proof (induction n rule: less_induct)
  case (less n)
  show ?case
  proof (cases "n < 10")
    case True
    then show ?thesis by (simp add: nat_to_str_small assms)
  next
    case False
    then show ?thesis by (simp add: nat_to_str_large less.IH assms)
  qed
qed

lemma nat_to_str_not_Nil [simp]: "nat_to_str n \<noteq> []"
  by (simp add: nat_to_str.simps [of n])

lemma is_decimal_nat_to_str: "list_all is_decimal (nat_to_str n)"
  by (rule list_all_nat_to_str) (rule digit_char_facts)

lemma isdigit_nat_to_str [simp]: "isdigit (nat_to_str n)"
  by (simp add: isdigit_def is_decimal_nat_to_str)

lemma is_decimal_facts:
  "is_decimal c \<Longrightarrow> c \<noteq> CHR ''_'' \<and> c \<noteq> slash \<and> c \<noteq> dot \<and> \<not> is_space c \<and> c \<noteq> CHR ''-'' \<and> c \<noteq> CHR ''+''"
  by (auto simp: is_decimal_def is_space_def)

lemma isdigit_facts:
  assumes "isdigit s"
  shows "s \<noteq> []" "CHR ''_'' \<notin> set s" "slash \<notin> set s" "dot \<notin> set s" "\<forall>c \<in> set s. \<not> is_space c"
    "CHR ''-'' \<notin> set s" "CHR ''+'' \<notin> set s"
  using assms is_decimal_facts by (auto simp: isdigit_def list_all_iff)

text \<open>The value of a digit string, and that parsing computes it.\<close>

definition digits_value :: "nat \<Rightarrow> string \<Rightarrow> nat" where
  "digits_value acc s = foldl (\<lambda>a c. a * 10 + the (digit_val 10 c)) acc s"

lemma digits_value_append: "digits_value acc (s @ t) = digits_value (digits_value acc s) t"
  by (simp add: digits_value_def)

lemma is_decimal_digit_char:
  assumes "is_decimal c"
  obtains d where "d < 10" "c = digit_char d"
proof -
  from assms obtain d where "d < length ''0123456789''" "''0123456789'' ! d = c"
    unfolding is_decimal_def in_set_conv_nth by blast
  then show thesis using that [of d] by (simp add: digit_char_def)
qed

lemma digit_val_decimal: "is_decimal c \<Longrightarrow> \<exists>d. digit_val 10 c = Some d \<and> d < 10"
  by (erule is_decimal_digit_char) (simp add: digit_val_digit_char)

lemma parse_digits_decimal:
  "list_all is_decimal s \<Longrightarrow> s \<noteq> [] \<or> \<not> need \<Longrightarrow> parse_digits 10 acc need s = Some (digits_value acc s)"
proof (induction s arbitrary: acc need)
  case Nil
  then show ?case by (simp add: digits_value_def)
next
  case (Cons c cs)
  then obtain d where d: "digit_val 10 c = Some d" using digit_val_decimal [of c] by auto
  have c: "c \<noteq> CHR ''_''" using Cons.prems is_decimal_facts [of c] by simp
  have "parse_digits 10 (acc * 10 + d) False cs = Some (digits_value (acc * 10 + d) cs)"
    using Cons by simp
  then show ?case by (simp only: parse_digits.simps c d if_False option.case) (simp add: digits_value_def d)
qed

lemma digits_value_nat_to_str [simp]: "digits_value 0 (nat_to_str n) = n"
proof (induction n rule: less_induct)
  case (less n)
  show ?case
  proof (cases "n < 10")
    case True
    then show ?thesis by (simp add: nat_to_str_small digits_value_def digit_val_digit_char)
  next
    case False
    then have "digits_value 0 (nat_to_str (n div 10)) = n div 10" using less.IH by simp
    moreover have "the (digit_val 10 (digit_char (n mod 10))) = n mod 10"
      by (simp add: digit_val_digit_char)
    ultimately show ?thesis
      using False by (simp add: nat_to_str_large digits_value_append digits_value_def)
  qed
qed

lemma digits_value_zeros [simp]:
  "digits_value 0 (replicate k (CHR ''0'') @ s) = digits_value 0 s"
  by (induction k) (simp_all add: digits_value_def digit_val_def)

lemma strip_spaces_id: "\<forall>c \<in> set s. \<not> is_space c \<Longrightarrow> strip_spaces s = s"
proof -
  assume a: "\<forall>c \<in> set s. \<not> is_space c"
  then have "dropWhile is_space s = s" by (cases s) auto
  moreover have "dropWhile is_space (rev s) = rev s"
    using a by (auto simp: dropWhile_eq_self_iff hd_rev)
  ultimately show ?thesis by (simp add: strip_spaces_def)
qed

lemma py_int_isdigit:
  assumes "isdigit s"
  shows "py_int s = Some (int (digits_value 0 s))"
proof -
  have "take 1 s \<noteq> ''-''" "take 1 s \<noteq> ''+''"
    using isdigit_facts(1,6,7) [OF assms] by (cases s; auto)+
  moreover have "parse_digits 10 0 True s = Some (digits_value 0 s)"
    using assms by (intro parse_digits_decimal) (auto simp: isdigit_def)
  ultimately show ?thesis
    using strip_spaces_id [OF isdigit_facts(5) [OF assms]]
    by (simp add: py_int_base_def drop_base_prefix_def Let_def)
qed

lemma isdigit_zero_pad: "0 \<le> i \<Longrightarrow> isdigit (zero_pad w i)"
  using is_decimal_nat_to_str [of "nat i"] digit_char_facts(1) [of 0]
  by (auto simp: zero_pad_def isdigit_def list_all_iff digit_char_def)

lemma py_int_zero_pad [simp]: "0 \<le> i \<Longrightarrow> py_int (zero_pad w i) = Some i"
  using py_int_isdigit [OF isdigit_zero_pad, of i w] by (simp add: zero_pad_def)

lemma py_int_nat_to_str [simp]: "py_int (nat_to_str n) = Some (int n)"
  using py_int_isdigit [OF isdigit_nat_to_str] by simp

lemma py_int_int_to_str [simp]: "0 \<le> i \<Longrightarrow> py_int (int_to_str i) = Some i"
  by (simp add: int_to_str_def)

lemma isdigit_int_to_str [simp]: "0 \<le> i \<Longrightarrow> isdigit (int_to_str i)"
  by (simp add: int_to_str_def)

lemma int_to_str_inject:
  assumes "0 \<le> i" "0 \<le> j" "int_to_str i = int_to_str j"
  shows "i = j"
  using assms py_int_int_to_str by (metis option.inject)

lemma length_zero_pad:
  assumes "0 \<le> i"
  shows "w \<le> length (zero_pad w i)"
  using assms by (simp add: zero_pad_def)

subsection \<open>Order of padded numbers\<close>

text \<open>Zero-padded numbers of one width sort as text the way they sort as numbers.\<close>

lemma digits_value_Cons:
  assumes "is_decimal c"
  shows "digits_value acc (c # s) = digits_value (acc * 10 + the (digit_val 10 c)) s"
  using assms by (simp add: digits_value_def)

lemma digits_value_bounds:
  assumes "list_all is_decimal s"
  shows "acc * 10 ^ length s \<le> digits_value acc s \<and> digits_value acc s < (acc + 1) * 10 ^ length s"
  using assms
proof (induction s arbitrary: acc)
  case Nil
  then show ?case by (simp add: digits_value_def)
next
  case (Cons c s)
  then obtain d where d: "digit_val 10 c = Some d" "d < 10" using digit_val_decimal by auto
  then have e: "digits_value acc (c # s) = digits_value (acc * 10 + d) s" using Cons.prems by (simp add: digits_value_Cons)
  have "(acc * 10 + d) * 10 ^ length s \<le> digits_value (acc * 10 + d) s \<and>
    digits_value (acc * 10 + d) s < (acc * 10 + d + 1) * 10 ^ length s" using Cons by simp
  moreover have "acc * 10 * 10 ^ length s \<le> (acc * 10 + d) * 10 ^ length s" by simp
  moreover have "(acc * 10 + d + 1) * 10 ^ length s \<le> ((acc + 1) * 10) * 10 ^ length s" using d(2) by (intro mult_right_mono) simp_all
  moreover have "acc * 10 ^ length (c # s) = acc * 10 * 10 ^ length s"
    "(acc + 1) * 10 ^ length (c # s) = ((acc + 1) * 10) * 10 ^ length s" by (simp_all only: length_Cons power_Suc mult.assoc)
  ultimately show ?case unfolding e by linarith
qed

lemma is_decimal_less:
  assumes "is_decimal c" "is_decimal d" "the (digit_val 10 c) < the (digit_val 10 d)"
  shows "c < d"
  using assms by (auto simp: is_decimal_def digit_val_def less_char_def)

lemma digits_value_less:
  "list_all is_decimal s \<Longrightarrow> list_all is_decimal t \<Longrightarrow> length s = length t \<Longrightarrow>
   digits_value acc s < digits_value acc t \<Longrightarrow> s < t"
proof (induction s arbitrary: t acc)
  case Nil
  then show ?case by simp
next
  case (Cons c s)
  then obtain d t' where t: "t = d # t'" by (cases t) auto
  obtain m n where mn: "digit_val 10 c = Some m" "digit_val 10 d = Some n"
    using Cons.prems t digit_val_decimal [of c] digit_val_decimal [of d] by auto
  have v: "digits_value acc (c # s) = digits_value (acc * 10 + m) s" "digits_value acc t = digits_value (acc * 10 + n) t'"
    using Cons.prems t mn by (simp_all add: digits_value_Cons)
  consider "m < n" | "m = n" | "n < m" by linarith
  then show ?case
  proof cases
    case 1
    then have "c < d" using is_decimal_less [of c d] Cons.prems t mn by simp
    then show ?thesis by (simp add: t)
  next
    case 2
    then have "c = d" using Cons.prems(1,2) t mn by (auto simp: is_decimal_def digit_val_def)
    moreover have "s < t'" using Cons.IH [of t' "acc * 10 + m"] Cons.prems t v 2 by simp
    ultimately show ?thesis by (simp add: t)
  next
    case 3
    have "(acc * 10 + n + 1) * 10 ^ length s \<le> (acc * 10 + m) * 10 ^ length s" using 3 by (intro mult_right_mono) simp_all
    then have "digits_value acc t \<le> digits_value acc (c # s)"
      using digits_value_bounds [of t' "acc * 10 + n"] digits_value_bounds [of s "acc * 10 + m"] Cons.prems t v by simp
    then show ?thesis using Cons.prems by simp
  qed
qed

lemma length_nat_to_str: "0 < k \<Longrightarrow> n < 10 ^ k \<Longrightarrow> length (nat_to_str n) \<le> k"
proof (induction k arbitrary: n)
  case (Suc k)
  show ?case
  proof (cases "n < 10")
    case True
    then show ?thesis by (simp add: nat_to_str_small)
  next
    case False
    then have "0 < k" using Suc.prems(2) by (cases k) auto
    moreover have "n div 10 < 10 ^ k" using Suc.prems(2) by (simp add: less_mult_imp_div_less)
    ultimately show ?thesis using Suc.IH False by (simp add: nat_to_str_large)
  qed
qed simp

lemma length_zero_pad_eq: "0 < w \<Longrightarrow> 0 \<le> i \<Longrightarrow> i < 10 ^ w \<Longrightarrow> length (zero_pad w i) = w"
  using length_nat_to_str [of w "nat i"] by (simp add: zero_pad_def nat_less_iff)

lemma zero_pad_less:
  assumes "0 < w" "0 \<le> i" "i < j" "j < 10 ^ w"
  shows "zero_pad w i < zero_pad w j"
proof (rule digits_value_less [of _ _ 0])
  have d: "isdigit (zero_pad w i)" "isdigit (zero_pad w j)" using assms by (simp_all add: isdigit_zero_pad)
  then show "list_all is_decimal (zero_pad w i)" "list_all is_decimal (zero_pad w j)" by (simp_all add: isdigit_def)
  show "length (zero_pad w i) = length (zero_pad w j)" using assms by (simp add: length_zero_pad_eq)
  show "digits_value 0 (zero_pad w i) < digits_value 0 (zero_pad w j)" 
    using py_int_isdigit [OF d(1)] py_int_isdigit [OF d(2)] assms by simp
qed

subsection \<open>Evaluation\<close>

text \<open>
  Code equations over binary integers for the functions above, so that concrete paths and
  timestamps evaluate in the kernel.
\<close>

function int_digits :: "int \<Rightarrow> string" where
  "int_digits i = (if i < 10 then [digit_char (nat i)]
     else int_digits (i div 10) @ [digit_char (nat (i mod 10))])"
  by auto
termination
  by (relation "measure nat") auto

declare int_digits.simps [simp del]

lemma nat_to_str_int_digits: "nat_to_str n = int_digits (int n)"
proof (induction n rule: nat_to_str.induct)
  case (1 n)
  show ?case
  proof (cases "n < 10")
    case True
    then show ?thesis by (simp add: nat_to_str_small int_digits.simps)
  next
    case False
    then have "int_digits (int n) = int_digits (int (n div 10)) @ [digit_char (n mod 10)]"
      by (simp add: int_digits.simps [of "int n"] nat_mod_distrib zdiv_int)
    then show ?thesis using False 1 by (simp add: nat_to_str_large)
  qed
qed

lemma int_to_str_code [code]:
  "int_to_str i = (if i < 0 then CHR ''-'' # int_digits (- i) else int_digits i)"
  by (simp add: int_to_str_def nat_to_str_int_digits)

lemma zero_pad_code [code]:
  "zero_pad w i =
     (if i < 0
      then CHR ''-'' # replicate (w - 1 - length (int_digits (- i))) (CHR ''0'') @ int_digits (- i)
      else replicate (w - length (int_digits i)) (CHR ''0'') @ int_digits i)"
  by (simp add: zero_pad_def nat_to_str_int_digits)

fun int_parse_digits :: "nat \<Rightarrow> int \<Rightarrow> int \<Rightarrow> bool \<Rightarrow> string \<Rightarrow> int option" where
  "int_parse_digits b ib acc need [] = (if need then None else Some acc)"
| "int_parse_digits b ib acc need (c # cs) =
     (if c = CHR ''_'' then (if need then None else int_parse_digits b ib acc True cs)
      else (case digit_val b c of
              None \<Rightarrow> None
            | Some d \<Rightarrow> int_parse_digits b ib (acc * ib + int d) False cs))"

lemma int_parse_digits_eq:
  "int_parse_digits b (int b) (int acc) need s = map_option int (parse_digits b acc need s)"
proof (induction b acc need s rule: parse_digits.induct)
  case (2 b acc need c cs)
  show ?case
  proof (cases "c = CHR ''_''")
    case True
    then show ?thesis using 2(1) by simp
  next
    case False
    then show ?thesis using 2(2) [OF False] by (auto simp flip: of_nat_mult of_nat_add split: option.splits)
  qed
qed simp

lemma py_int_base_code [code]:
  "py_int_base b s =
     (let t = strip_spaces s;
          neg = (take 1 t = ''-'');
          u = (if take 1 t = ''-'' \<or> take 1 t = ''+'' then drop 1 t else t)
      in map_option (\<lambda>n. if neg then - n else n)
           (int_parse_digits b (int b) 0 True (drop_base_prefix b u)))"
  using int_parse_digits_eq [of b 0]
  by (simp add: py_int_base_def Let_def option.map_comp comp_def)

end
