(* ===== verification/Filesystem.thy ===== *)
theory Filesystem
  imports PyNumbers
begin

text \<open>
  The directory functions of \<^verbatim>\<open>deltacat/utils/filesystem.py\<close> over a \<^verbatim>\<open>pyarrow.fs.FileSystem\<close>.
  The file system itself is code outside the repository: it is the parameter \<open>F\<close>, a record of the
  calls the sources make, over a state type \<open>'fs\<close> and a file content type \<open>'d\<close>. Every
  function of the source is defined for any such record; what a theorem needs of it is a hypothesis
  of that theorem.
\<close>

subsection \<open>The calls on pyarrow's file system\<close>

datatype file_type = NotFound | File | Directory

record file_info =
  fi_path :: string
  fi_size :: "nat option"
  fi_type :: file_type

text \<open>
  \<open>fs_select fs d rec allow\<close> is \<^verbatim>\<open>get_file_info(FileSelector(d, recursive=rec, allow_not_found=allow))\<close>,
  \<open>fs_info\<close> is \<^verbatim>\<open>get_file_info(path)\<close>, \<open>fs_write\<close> is \<^verbatim>\<open>open_output_stream(path)\<close> with one
  \<^verbatim>\<open>write\<close>, \<open>fs_read\<close> is \<^verbatim>\<open>open_input_stream(path).readall()\<close>.
\<close>

record ('fs, 'd) filesystem =
  fs_select :: "'fs \<Rightarrow> string \<Rightarrow> bool \<Rightarrow> bool \<Rightarrow> file_info list res"
  fs_info :: "'fs \<Rightarrow> string \<Rightarrow> file_info res"
  fs_create_dir :: "string \<Rightarrow> bool \<Rightarrow> ('fs, unit) io"
  fs_write :: "string \<Rightarrow> 'd \<Rightarrow> ('fs, unit) io"
  fs_read :: "'fs \<Rightarrow> string \<Rightarrow> 'd res"
  fs_delete_file :: "string \<Rightarrow> ('fs, unit) io"

type_synonym entry = "string \<times> nat option"

subsection \<open>Listing one directory\<close>

definition default_exclude_prefixes :: "string list" where
  "default_exclude_prefixes = [''.'', ''_'']"

text \<open>The loop's filter: below the base path and not with an excluded prefix after it.\<close>

definition is_listed :: "string \<Rightarrow> string list \<Rightarrow> string \<Rightarrow> bool" where
  "is_listed base_path prefixes file_path \<longleftrightarrow>
     starts_with file_path base_path \<and>
     (let relative = drop (length base_path) file_path;
          relative' = (if starts_with relative [slash] then drop 1 relative else relative)
      in \<not> (\<exists>pre \<in> set prefixes. starts_with relative' pre))"

definition list_directory ::
  "('fs, 'd) filesystem \<Rightarrow> 'fs \<Rightarrow> string \<Rightarrow> string list option \<Rightarrow> bool \<Rightarrow> bool \<Rightarrow> entry list res" where
  "list_directory F fs path exclude_prefixes ignore_missing_path recursive =
     (let prefixes = (case exclude_prefixes of None \<Rightarrow> default_exclude_prefixes | Some ps \<Rightarrow> ps);
          files = (case fs_select F fs path recursive ignore_missing_path of
                     Inr files \<Rightarrow> Inr files
                   | Inl e \<Rightarrow> if e = FileNotFoundError \<and> ignore_missing_path then Inr [] else Inl e)
      in rbind files (\<lambda>files.
           Inr (sort_desc fst (map (\<lambda>f. (fi_path f, fi_size f))
                  (filter (\<lambda>f. is_listed path prefixes (fi_path f)) files)))))"

text \<open>\<^verbatim>\<open>xs[:n]\<close> for an integer \<open>n\<close>.\<close>

definition slice_to :: "int \<Rightarrow> 'a list \<Rightarrow> 'a list" where
  "slice_to n xs = (if 0 \<le> n then take (nat n) xs else take (nat (int (length xs) + n)) xs)"

definition slice_opt :: "int option \<Rightarrow> 'a list \<Rightarrow> 'a list" where
  "slice_opt n xs = (case n of None \<Rightarrow> xs | Some k \<Rightarrow> slice_to k xs)"

subsection \<open>Listing a partitioned directory\<close>

type_synonym file_parser = "string \<Rightarrow> int option res"
type_synonym dir_parser = "string list \<Rightarrow> int option"

fun parse_unpartitioned ::
  "file_parser \<Rightarrow> int \<Rightarrow> int option \<Rightarrow> entry list \<Rightarrow> (entry \<times> int) list res" where
  "parse_unpartitioned parser partition_value partition_start_value [] = Inr []"
| "parse_unpartitioned parser partition_value partition_start_value ((file_path, file_size) # rest) =
     (case file_size of
        None \<Rightarrow> parse_unpartitioned parser partition_value partition_start_value rest
      | Some _ \<Rightarrow>
          rbind (parser file_path) (\<lambda>v.
          rbind (parse_unpartitioned parser partition_value partition_start_value rest) (\<lambda>more.
            (case v of
               None \<Rightarrow> Inr more
             | Some x \<Rightarrow>
                 if x \<le> partition_value \<and>
                    (case partition_start_value of None \<Rightarrow> True | Some s \<Rightarrow> s \<le> x)
                 then Inr (((file_path, file_size), x) # more)
                 else Inr more))))"

definition collect_unpartitioned_files ::
  "('fs, 'd) filesystem \<Rightarrow> 'fs \<Rightarrow> string \<Rightarrow> int \<Rightarrow> file_parser \<Rightarrow> int option \<Rightarrow> string list option \<Rightarrow>
   bool \<Rightarrow> int option \<Rightarrow> entry list res" where
  "collect_unpartitioned_files F fs path partition_value parser remaining_limit exclude_prefixes
     ignore_missing_path partition_start_value =
     rbind (list_directory F fs path exclude_prefixes ignore_missing_path False) (\<lambda>base_files.
     rbind (parse_unpartitioned parser partition_value partition_start_value base_files) (\<lambda>valid.
       Inr (map fst (slice_opt remaining_limit (sort_desc snd valid)))))"

text \<open>File-level filtering in a partition on the boundary of the requested range.\<close>

fun filter_partition_files ::
  "file_parser \<Rightarrow> bool \<Rightarrow> bool \<Rightarrow> int \<Rightarrow> int option \<Rightarrow> entry list \<Rightarrow> entry list res" where
  "filter_partition_files parser upper lower partition_value start_value [] = Inr []"
| "filter_partition_files parser upper lower partition_value start_value ((file_path, file_size) # rest) =
     rbind (parser file_path) (\<lambda>v.
     rbind (filter_partition_files parser upper lower partition_value start_value rest) (\<lambda>more.
       (case v of
          None \<Rightarrow> Inr more
        | Some x \<Rightarrow>
            if upper \<and> partition_value < x then Inr more
            else if lower \<and> (case start_value of None \<Rightarrow> False | Some s \<Rightarrow> x < s) then Inr more
            else Inr ((file_path, file_size) # more))))"

text \<open>The loop over the candidate directories, with the limit that is left.\<close>

fun visit_candidates ::
  "(string \<Rightarrow> int option \<Rightarrow> (entry list \<times> int option) res) \<Rightarrow> string list \<Rightarrow> entry list \<Rightarrow> int option \<Rightarrow>
   (entry list \<times> int option) res" where
  "visit_candidates visit [] collected remaining_limit = Inr (collected, remaining_limit)"
| "visit_candidates visit (c # cs) collected remaining_limit =
     (if (case remaining_limit of None \<Rightarrow> True | Some l \<Rightarrow> 0 < l)
      then rbind (visit c remaining_limit) (\<lambda>(more, remaining').
             visit_candidates visit cs (collected @ more) remaining')
      else Inr (collected, remaining_limit))"

definition partition_candidates ::
  "dir_parser \<Rightarrow> int \<Rightarrow> int option \<Rightarrow> string list \<Rightarrow> entry list \<Rightarrow> string list" where
  "partition_candidates dir_parser target_value target_start_value current_partition_path items =
     (let names = map (\<lambda>(item_path, _). basename item_path) items;
          parsed = List.map_filter (\<lambda>n. map_option (\<lambda>v. (v, n)) (dir_parser (current_partition_path @ [n]))) names;
          cands = filter (\<lambda>(v, n). v \<le> target_value \<and>
                     (case target_start_value of None \<Rightarrow> True | Some s \<Rightarrow> s \<le> v)) parsed
      in map snd (sort_desc fst cands))"

text \<open>
  \<^verbatim>\<open>_traverse_partitions\<close>: the first argument is the number of levels still to descend,
  \<^verbatim>\<open>len(target_partitions) - depth\<close>; the depth is the length of \<^verbatim>\<open>current_partition_path\<close>. The result
  is the files collected in this subtree and the remaining limit.
\<close>

fun traverse_partitions ::
  "nat \<Rightarrow> ('fs, 'd) filesystem \<Rightarrow> 'fs \<Rightarrow> string list \<Rightarrow> string list option \<Rightarrow> bool \<Rightarrow> bool \<Rightarrow> dir_parser \<Rightarrow>
   int \<Rightarrow> file_parser \<Rightarrow> int option \<Rightarrow> string list option \<Rightarrow> string \<Rightarrow> string list \<Rightarrow> int option \<Rightarrow>
   (entry list \<times> int option) res" where
  "traverse_partitions 0 F fs target_partitions exclude_prefixes recursive ignore_missing_path
     dir_parser partition_value parser partition_start_value target_start_partitions
     current_path current_partition_path remaining_limit =
     rbind (list_directory F fs current_path exclude_prefixes False recursive) (\<lambda>partition_files.
       let upper = (current_partition_path = target_partitions);
           lower = (partition_start_value \<noteq> None \<and> target_start_partitions = Some current_partition_path)
       in rbind (if upper \<or> lower
                 then filter_partition_files parser upper lower partition_value partition_start_value
                        partition_files
                 else Inr partition_files) (\<lambda>filtered_files.
          (case remaining_limit of
             None \<Rightarrow> Inr (filtered_files, None)
           | Some l \<Rightarrow> let files_to_add = slice_to l filtered_files
                       in Inr (files_to_add, Some (l - int (length files_to_add))))))"
| "traverse_partitions (Suc levels) F fs target_partitions exclude_prefixes recursive ignore_missing_path
     dir_parser partition_value parser partition_start_value target_start_partitions
     current_path current_partition_path remaining_limit =
     (let depth = length current_partition_path;
          should_ignore_missing = (if depth = 0 then ignore_missing_path else False)
      in rbind (list_directory F fs current_path None should_ignore_missing False) (\<lambda>items.
         let target_value = (case dir_parser (take (depth + 1) target_partitions) of
                               None \<Rightarrow> 0 | Some v \<Rightarrow> v);
             target_start_value = (case target_start_partitions of
                 None \<Rightarrow> None
               | Some sp \<Rightarrow>
                   if depth < length sp
                   then Some (case dir_parser (take (depth + 1) sp) of None \<Rightarrow> 0 | Some v \<Rightarrow> v)
                   else None)
         in visit_candidates
              (\<lambda>candidate_name limit.
                 traverse_partitions levels F fs target_partitions exclude_prefixes recursive
                   ignore_missing_path dir_parser partition_value parser partition_start_value
                   target_start_partitions (path_join current_path candidate_name)
                   (current_partition_path @ [candidate_name]) limit)
              (partition_candidates dir_parser target_value target_start_value current_partition_path items)
              [] remaining_limit))"

definition find_existing_prior_partitions ::
  "('fs, 'd) filesystem \<Rightarrow> 'fs \<Rightarrow> string \<Rightarrow> string list \<Rightarrow> int option \<Rightarrow> string list option \<Rightarrow> bool \<Rightarrow>
   bool \<Rightarrow> dir_parser \<Rightarrow> int \<Rightarrow> file_parser \<Rightarrow> int option \<Rightarrow> string list option \<Rightarrow> entry list res" where
  "find_existing_prior_partitions F fs base_path target_partitions limit exclude_prefixes recursive
     ignore_missing_path dir_parser partition_value parser partition_start_value
     target_start_partitions =
     (if target_partitions = [] then Inr []
      else rbind (traverse_partitions (length target_partitions) F fs target_partitions exclude_prefixes
                    recursive ignore_missing_path dir_parser partition_value parser
                    partition_start_value target_start_partitions base_path [] limit)
             (\<lambda>(collected, _). Inr collected))"

definition list_directory_partitioned ::
  "('fs, 'd) filesystem \<Rightarrow> 'fs \<Rightarrow> string \<Rightarrow> int \<Rightarrow> (int \<Rightarrow> string list res) \<Rightarrow> file_parser \<Rightarrow> int option \<Rightarrow>
   dir_parser \<Rightarrow> string list option \<Rightarrow> bool \<Rightarrow> bool \<Rightarrow> bool \<Rightarrow> int option \<Rightarrow> entry list res" where
  "list_directory_partitioned F fs path partition_value transform parser limit dir_parser
     exclude_prefixes ignore_missing_path recursive return_unpartitioned partition_start_value =
     (let prefixes = (case exclude_prefixes of None \<Rightarrow> Some default_exclude_prefixes | Some ps \<Rightarrow> Some ps)
      in if (case limit of None \<Rightarrow> False | Some l \<Rightarrow> l \<le> 0) then Inl ValueError
      else if (case partition_start_value of None \<Rightarrow> False | Some s \<Rightarrow> partition_value < s)
      then Inl ValueError
      else
        rbind (transform partition_value) (\<lambda>target_partitions.
        rbind (case partition_start_value of
                 None \<Rightarrow> Inr None
               | Some s \<Rightarrow> rbind (transform s) (\<lambda>sp. Inr (Some sp))) (\<lambda>target_start_partitions.
          if \<exists>n \<in> set target_partitions. slash \<in> set n then Inl ValueError
          else
            rbind (find_existing_prior_partitions F fs path target_partitions limit prefixes recursive
                     ignore_missing_path dir_parser partition_value parser partition_start_value
                     target_start_partitions) (\<lambda>collected_files.
              if return_unpartitioned
              then let remaining_limit = map_option (\<lambda>l. l - int (length collected_files)) limit
                   in if (case remaining_limit of None \<Rightarrow> True | Some l \<Rightarrow> 0 < l)
                      then rbind (collect_unpartitioned_files F fs path partition_value parser
                                    remaining_limit prefixes ignore_missing_path partition_start_value)
                             (\<lambda>unpartitioned. Inr (collected_files @ unpartitioned))
                      else Inr collected_files
              else Inr collected_files))))"

subsection \<open>File information\<close>

definition get_file_info :: "('fs, 'd) filesystem \<Rightarrow> 'fs \<Rightarrow> string \<Rightarrow> bool \<Rightarrow> file_info res" where
  "get_file_info F fs path ignore_missing_path =
     rbind (fs_info F fs path) (\<lambda>info.
       if fi_type info = NotFound \<and> \<not> ignore_missing_path then Inl FileNotFoundError else Inr info)"

text \<open>Appending partition directories; a separator in a name is refused.\<close>

fun join_partition_dirs :: "string \<Rightarrow> string list \<Rightarrow> string res" where
  "join_partition_dirs path [] = Inr path"
| "join_partition_dirs path (n # ns) =
     (if slash \<in> set n then Inl ValueError else join_partition_dirs (path_join path n) ns)"

definition get_file_info_partitioned ::
  "('fs, 'd) filesystem \<Rightarrow> 'fs \<Rightarrow> string \<Rightarrow> int \<Rightarrow> (int \<Rightarrow> string list res) \<Rightarrow> bool \<Rightarrow> file_info res" where
  "get_file_info_partitioned F fs path partition_value transform ignore_missing_path =
     rbind (transform partition_value) (\<lambda>partition_dirs.
     rbind (join_partition_dirs (dirname path) partition_dirs) (\<lambda>partitioned_path.
       get_file_info F fs (path_join partitioned_path (basename path)) ignore_missing_path))"

subsection \<open>Writing files\<close>

text \<open>The file system is given (\<^verbatim>\<open>filesystem\<close> is not \<^verbatim>\<open>None\<close>), as every caller modelled here passes it.\<close>

definition write_file :: "('fs, 'd) filesystem \<Rightarrow> string \<Rightarrow> 'd \<Rightarrow> ('fs, unit) io" where
  "write_file F path data =
     (let dir = dirname path
      in if dir \<noteq> [] \<and> dir \<noteq> ''.''
         then io_bind (fs_create_dir F dir True) (\<lambda>_. fs_write F path data)
         else fs_write F path data)"

fun rebuild_below :: "nat \<Rightarrow> string \<Rightarrow> string \<Rightarrow> string" where
  "rebuild_below 0 base_dir path = path"
| "rebuild_below (Suc k) base_dir path =
     rebuild_below k (dirname base_dir) (path_join path (basename base_dir))"

definition partitioned_write_path ::
  "string \<Rightarrow> string list \<Rightarrow> nat \<Rightarrow> string res" where
  "partitioned_write_path path partition_dirs levels_above =
     (let base_dir = dirname path
      in rbind (join_partition_dirs ((dirname ^^ levels_above) base_dir) partition_dirs) (\<lambda>p.
           Inr (path_join (rebuild_below levels_above base_dir p) (basename path))))"

definition write_file_partitioned ::
  "('fs, 'd) filesystem \<Rightarrow> string \<Rightarrow> 'd \<Rightarrow> int \<Rightarrow> (int \<Rightarrow> string list res) \<Rightarrow> nat \<Rightarrow> ('fs, string) io" where
  "write_file_partitioned F path data partition_value transform levels_above =
     io_bind (io_lift (\<lambda>_. rbind (transform partition_value) (\<lambda>partition_dirs.
                partitioned_write_path path partition_dirs levels_above))) (\<lambda>partitioned_path.
       let dir = dirname partitioned_path
       in io_bind (if dir \<noteq> [] \<and> dir \<noteq> partitioned_path then fs_create_dir F dir True else io_return ())
            (\<lambda>_. io_bind (fs_write F partitioned_path data) (\<lambda>_. io_return partitioned_path)))"

subsection \<open>Relative paths\<close>

text \<open>
  \<^verbatim>\<open>PosixPath(p)\<close> as its root (empty, one or exactly two separators) and its parts, which drop empty
  components and dots; \<^verbatim>\<open>relative_to\<close> compares roots and takes the parts after the prefix.
\<close>

definition posix_root :: "string \<Rightarrow> string" where
  "posix_root p = (if \<not> starts_with p ''/'' then []
     else if starts_with p ''//'' \<and> \<not> starts_with p ''///'' then ''//'' else ''/'')"

definition posix_parts :: "string \<Rightarrow> string list" where
  "posix_parts p = filter (\<lambda>c. c \<noteq> [] \<and> c \<noteq> ''.'') (split_on slash p)"

definition absolute_path_to_relative :: "string \<Rightarrow> string \<Rightarrow> string res" where
  "absolute_path_to_relative root target =
     (let rp = posix_parts root; tp = posix_parts target
      in if posix_root root = posix_root target \<and> rp = tp then Inl ValueError
         else if posix_root root = posix_root target \<and> take (length rp) tp = rp
         then Inr (join_with ''/'' (drop (length rp) tp))
         else Inl ValueError)"

subsection \<open>Partitioned paths\<close>

lemma join_partition_dirs_ok:
  "\<forall>n \<in> set ns. slash \<notin> set n \<Longrightarrow> join_partition_dirs p ns = Inr (path_join_all p ns)"
  by (induction ns arbitrary: p) auto

lemma join_partition_dirs_refuses:
  "\<exists>n \<in> set ns. slash \<in> set n \<Longrightarrow> join_partition_dirs p ns = Inl ValueError"
  by (induction ns arbitrary: p) auto

lemma write_file_partitioned_path:
  assumes "write_file_partitioned F path data pv transform 0 fs = (Inr q, fs')"
  shows "\<exists>ds p. transform pv = Inr ds \<and> join_partition_dirs (dirname path) ds = Inr p \<and> q = path_join p (basename path)"
  using assms
  by (auto simp: write_file_partitioned_def partitioned_write_path_def io_bind_Inr_iff rbind_Inr_iff Let_def)

lemma posix_parts_path_join_all:
  assumes "dir_path d" "\<forall>n \<in> set ns. component n \<and> n \<noteq> ''.''"
  shows "posix_parts (path_join_all d ns) = posix_parts d @ ns"
  using assms split_on_path_join_all [of d ns] by (auto simp: posix_parts_def filter_id_conv component_def)

lemma path_join_all_extends:
  "dir_path d \<Longrightarrow> \<forall>n \<in> set ns. component n \<Longrightarrow> \<exists>t. path_join_all d ns = d @ t"
proof (induction ns arbitrary: d)
  case (Cons n ns)
  then obtain t where "path_join_all (path_join d n) ns = path_join d n @ t" using dir_path_join by fastforce
  then show ?case using Cons.prems by (simp add: path_join_component)
qed simp

lemma posix_root_append:
  assumes "dir_path d" "\<not> starts_with d ''//''"
  shows "posix_root (d @ t) = posix_root d"
proof -
  obtain c cs where d: "d = c # cs" using assms(1) by (cases d) (auto simp: dir_path_def)
  show ?thesis
  proof (cases "c = slash")
    case False
    then show ?thesis by (simp add: posix_root_def starts_with_def d)
  next
    case True
    then obtain e es where "cs = e # es" using assms(1) d by (cases cs) (auto simp: dir_path_def)
    then show ?thesis using assms(2) True by (auto simp: posix_root_def starts_with_def d)
  qed
qed

subsection \<open>Properties\<close>

text \<open>Reading the file information of a partitioned path looks exactly where a partitioned write put
  the file: after a write with the same partition value and transform, the lookup is the plain lookup
  of the path the write returned.\<close>

lemma partitioned_write_lookup:
  assumes "write_file_partitioned F path data pv transform 0 fs = (Inr q, fs')"
  shows "get_file_info_partitioned F fs' path pv transform ignore_missing = get_file_info F fs' q ignore_missing"
  using write_file_partitioned_path [OF assms] by (auto simp: get_file_info_partitioned_def)

definition ex_info_fs :: "(string \<Rightarrow> bool, nat) filesystem" where
  "ex_info_fs = \<lparr>fs_select = (\<lambda>_ _ _ _. Inr []),
     fs_info = (\<lambda>fs p. Inr \<lparr>fi_path = p, fi_size = None, fi_type = (if fs p then File else NotFound)\<rparr>),
     fs_create_dir = (\<lambda>_ _. io_return ()), fs_write = (\<lambda>p _ fs. (Inr (), fs(p := True))),
     fs_read = (\<lambda>_ _. Inr 0), fs_delete_file = (\<lambda>_. io_return ())\<rparr>"

lemma partitioned_write_lookup_witness:
  "\<exists>fs'. write_file_partitioned ex_info_fs ''d/f'' 1 5 (\<lambda>v. Inr [int_to_str v]) 0 (\<lambda>_. False) = (Inr ''d/5/f'', fs') \<and>
     get_file_info_partitioned ex_info_fs fs' ''d/f'' 5 (\<lambda>v. Inr [int_to_str v]) False = get_file_info ex_info_fs fs' ''d/5/f'' False"
proof -
  have p: "partitioned_write_path ''d/f'' [int_to_str 5] 0 = Inr ''d/5/f''" "dirname ''d/5/f'' = ''d/5''" by code_simp+
  have w: "write_file_partitioned ex_info_fs ''d/f'' 1 5 (\<lambda>v. Inr [int_to_str v]) 0 (\<lambda>_. False) =
      (Inr ''d/5/f'', (\<lambda>_. False)(''d/5/f'' := True))"
    by (simp add: write_file_partitioned_def p io_bind_def ex_info_fs_def del: fun_upd_apply)
  show ?thesis using w partitioned_write_lookup [OF w, of False] by blast
qed

text \<open> paths below the catalog root relativize to what is below it: the relative path of a target is the
  components after the root joined by the separator.\<close>

lemma relative_path_below_root:
  assumes "dir_path root" "\<not> starts_with root ''//''" "ns \<noteq> []" "\<forall>n \<in> set ns. component n \<and> n \<noteq> ''.''"
  shows "absolute_path_to_relative root (path_join_all root ns) = Inr (join_with ''/'' ns)"
proof -
  have "\<exists>t. path_join_all root ns = root @ t" using path_join_all_extends assms(1,4) by simp
  then have "posix_root (path_join_all root ns) = posix_root root" using posix_root_append [OF assms(1,2)] by auto
  then show ?thesis
    using assms(3) posix_parts_path_join_all [OF assms(1,4)] by (simp add: absolute_path_to_relative_def Let_def)
qed

lemma relative_path_below_root_witness:
  "absolute_path_to_relative ''/cat'' (path_join_all ''/cat'' [''ns'', ''rev'']) = Inr (join_with ''/'' [''ns'', ''rev''])"
  by (rule relative_path_below_root) (simp_all add: dir_path_def starts_with_def component_def)

text \<open>The directories above the file are rebuilt in reverse order when the partition directories are
  inserted two or more levels up, so the file does not end below its own parent directory.\<close>

lemma partition_levels_above_reversed:
  "partitioned_write_path ''data/a/b/f'' [''2023''] 1 = Inr ''data/a/2023/b/f'' \<and>
   partitioned_write_path ''data/a/b/f'' [''2023''] 2 = Inr ''data/2023/b/a/f''"
  by code_simp

text \<open>Relative paths are accepted, although the documentation of \<^verbatim>\<open>absolute_path_to_relative\<close> promises an
  error when either path is not absolute.\<close>

lemma relative_inputs_accepted:
  "absolute_path_to_relative ''cat'' ''cat/ns'' = Inr ''ns''"
  by code_simp

end
