(* ===== verification/ExponentialPartitions.thy ===== *)
theory ExponentialPartitions
  imports PyNumbers
begin

text \<open>
  The revision partitioning of \<^verbatim>\<open>deltacat/utils/filesystem.py\<close>: \<open>exponential_partition_transform\<close>
  turns a revision number into directory names, \<open>parse_exponential_partitions\<close> reads such names
  back as a number the directory traversal compares, and \<open>remove_exponential_partitions\<close> strips
  them from a path. The lemmas give the number a partition path stands for (the revision rounded up
  to a multiple of the base), from which monotonicity and injectivity of the layout follow.
\<close>

definition UNSIGNED_INT64_MAX_VALUE :: int where
  "UNSIGNED_INT64_MAX_VALUE = 2 ^ 64 - 1"

subsection \<open>Definitions\<close>

text \<open>The loop over \<^verbatim>\<open>range(levels)\<close> that collects one multiplier per level.\<close>

fun exponential_multipliers :: "int \<Rightarrow> nat \<Rightarrow> nat list \<Rightarrow> int \<Rightarrow> int list" where
  "exponential_multipliers base levels [] remaining_value = []"
| "exponential_multipliers base levels (level # rest) remaining_value =
     (let divisor = base ^ (levels - level);
          multiplier = (remaining_value + divisor - 1) div divisor;
          remaining' = (if level < levels - 1
                        then max 0 (remaining_value - (multiplier - 1) * divisor)
                        else remaining_value)
      in multiplier # exponential_multipliers base levels rest remaining')"

fun exponential_dir_names :: "int \<Rightarrow> nat \<Rightarrow> (nat \<times> int) list \<Rightarrow> string list res" where
  "exponential_dir_names base levels [] = Inr []"
| "exponential_dir_names base levels ((level, multiplier) # rest) =
     (let partition_value = multiplier * base ^ (levels - level)
      in if partition_value > UNSIGNED_INT64_MAX_VALUE then Inl ValueError
         else rbind (exponential_dir_names base levels rest)
                (\<lambda>ds. Inr (int_to_str partition_value # ds)))"

definition exponential_partition_transform :: "int \<Rightarrow> int \<Rightarrow> int \<Rightarrow> string list res" where
  "exponential_partition_transform value base levels =
     (if value \<le> 0 then Inl ValueError
      else if base \<le> 1 then Inl ValueError
      else if levels \<le> 0 then Inl ValueError
      else exponential_dir_names base (nat levels)
             (enumerate 0 (exponential_multipliers base (nat levels) [0..<nat levels] value)))"

text \<open>
  Reading directory names back. \<open>None\<close> is the source's \<^verbatim>\<open>None\<close>; a zero divisor is its handled
  \<^verbatim>\<open>ZeroDivisionError\<close>.
\<close>

fun parse_exponential_multipliers :: "int \<Rightarrow> nat \<Rightarrow> (nat \<times> string) list \<Rightarrow> int list option" where
  "parse_exponential_multipliers base working_levels [] = Some []"
| "parse_exponential_multipliers base working_levels ((i, dir_name) # rest) =
     (if \<not> isdigit dir_name then None
      else (case py_int dir_name of
              None \<Rightarrow> None
            | Some partition_value \<Rightarrow>
                if partition_value \<le> 0 then None
                else let divisor = base ^ (working_levels - i)
                     in if divisor = 0 then None
                        else if partition_value mod divisor \<noteq> 0 then None
                        else if partition_value div divisor = 0 then None
                        else map_option (Cons (partition_value div divisor))
                               (parse_exponential_multipliers base working_levels rest)))"

fun exponential_contributions :: "int \<Rightarrow> nat \<Rightarrow> int \<Rightarrow> (nat \<times> int) list \<Rightarrow> int option" where
  "exponential_contributions base working_levels total_contribution [] = Some total_contribution"
| "exponential_contributions base working_levels total_contribution ((i, multiplier) # rest) =
     (let divisor = base ^ (working_levels - i);
          contribution = (if i < working_levels - 1 then max 0 ((multiplier - 1) * divisor)
                          else multiplier * divisor)
      in if total_contribution > UNSIGNED_INT64_MAX_VALUE - contribution then None
         else exponential_contributions base working_levels (total_contribution + contribution) rest)"

definition parse_exponential_partitions :: "string list \<Rightarrow> int \<Rightarrow> int \<Rightarrow> int option" where
  "parse_exponential_partitions partition_dirs base levels =
     (if partition_dirs = [] then None
      else let actual_levels = length partition_dirs;
               working_levels = (if int actual_levels \<noteq> levels then actual_levels else nat levels)
           in (case parse_exponential_multipliers base working_levels (enumerate 0 partition_dirs) of
                 None \<Rightarrow> None
               | Some multipliers \<Rightarrow>
                   (case exponential_contributions base working_levels 0 (enumerate 0 multipliers) of
                      None \<Rightarrow> None
                    | Some total_contribution \<Rightarrow>
                        if total_contribution > UNSIGNED_INT64_MAX_VALUE then None
                        else Some (max 1 total_contribution))))"

definition remove_exponential_partitions :: "string \<Rightarrow> int \<Rightarrow> int \<Rightarrow> bool \<Rightarrow> string res" where
  "remove_exponential_partitions path base levels is_directory_path =
     (if base \<le> 1 then Inl ValueError
      else if levels \<le> 0 then Inl ValueError
      else let filename = (if is_directory_path then None else Some (basename path));
               base_dir = (if is_directory_path then path else dirname path);
               dir_parts = (if base_dir = [] then [] else split_on slash base_dir);
               n = nat levels
           in if length dir_parts < n then Inr path
              else let candidate_partitions = drop (length dir_parts - n) dir_parts
                   in (case parse_exponential_partitions candidate_partitions base levels of
                         None \<Rightarrow> Inr path
                       | Some _ \<Rightarrow>
                           let unpartitioned_dir =
                                 join_with [slash] (take (length dir_parts - n) dir_parts)
                           in (case filename of
                                 None \<Rightarrow> Inr unpartitioned_dir
                               | Some f \<Rightarrow>
                                   if f = [] then Inr unpartitioned_dir
                                   else Inr (path_join unpartitioned_dir f))))"

subsection \<open>Rounding up\<close>

text \<open>\<open>round_up b v\<close> is the least multiple of \<open>b\<close> that is not below \<open>v\<close>.\<close>

definition round_up :: "int \<Rightarrow> int \<Rightarrow> int" where
  "round_up b v = ((v + b - 1) div b) * b"

lemma round_up_bounds:
  assumes "0 < b"
  shows "v \<le> round_up b v" "round_up b v < v + b"
proof -
  have "(v + b - 1) div b * b = v + b - 1 - (v + b - 1) mod b"
    by (simp add: minus_mod_eq_div_mult)
  moreover have "0 \<le> (v + b - 1) mod b" "(v + b - 1) mod b < b" using assms by simp_all
  ultimately show "v \<le> round_up b v" "round_up b v < v + b" by (simp_all add: round_up_def)
qed

lemma round_up_pos: "0 < b \<Longrightarrow> 0 < v \<Longrightarrow> 0 < round_up b v"
  using round_up_bounds(1) [of b v] by linarith

lemma round_up_mono: "0 < b \<Longrightarrow> v \<le> w \<Longrightarrow> round_up b v \<le> round_up b w"
  unfolding round_up_def by (intro mult_right_mono zdiv_mono1) auto

lemma round_up_dvd [simp]: "b dvd round_up b v"
  by (simp add: round_up_def)

lemma round_up_add_multiple: "0 < b \<Longrightarrow> round_up b (v + k * b) = round_up b v + k * b"
proof -
  assume "0 < b"
  have "v + k * b + b - 1 = (v + b - 1) + k * b" by simp
  then have "(v + k * b + b - 1) div b = k + (v + b - 1) div b"
    using \<open>0 < b\<close> by (simp only: div_mult_self1)
  then show ?thesis by (simp add: round_up_def algebra_simps)
qed

lemma round_up_least: "0 < b \<Longrightarrow> v \<le> k * b \<Longrightarrow> round_up b v \<le> k * b"
  using round_up_mono [of b v "k * b"] round_up_add_multiple [of b 0 k]
  by (simp add: round_up_def)

subsection \<open>What a partition path stands for\<close>

lemma exponential_multipliers_Cons:
  assumes "k < n"
  shows "exponential_multipliers b n [k..<n] r =
    (let d = b ^ (n - k); m = (r + d - 1) div d
     in m # exponential_multipliers b n [Suc k..<n]
              (if k < n - 1 then max 0 (r - (m - 1) * d) else r))"
  using assms by (simp add: upt_conv_Cons Let_def)

text \<open>
  One level: the multiplier covers the remaining value, and what is left after it is positive, at
  most one unit of this level, and rounds up to the base accordingly.
\<close>

lemma exponential_level:
  assumes "1 < (b::int)" "0 < r" "d = b ^ Suc e" "m = (r + d - 1) div d"
  shows "0 < m" "m * d = round_up d r" "0 < r - (m - 1) * d" "r - (m - 1) * d \<le> d"
    "(m - 1) * d + round_up b (r - (m - 1) * d) = round_up b r"
proof -
  have d: "0 < d" using assms by simp
  show md: "m * d = round_up d r" by (simp add: round_up_def assms(4))
  show "0 < m" using round_up_pos [OF d assms(2)] d by (simp add: md [symmetric] zero_less_mult_iff)
  show "0 < r - (m - 1) * d" "r - (m - 1) * d \<le> d"
    using round_up_bounds [OF d, of r] by (simp_all add: md [symmetric] algebra_simps)
  have "round_up b (r - (m - 1) * d + ((m - 1) * b ^ e) * b) =
        round_up b (r - (m - 1) * d) + ((m - 1) * b ^ e) * b"
    using assms(1) by (intro round_up_add_multiple) simp
  then show "(m - 1) * d + round_up b (r - (m - 1) * d) = round_up b r"
    by (simp add: assms(3) algebra_simps)
qed

lemma exponential_multipliers_facts:
  assumes "1 < b" "k < n" "0 < r"
  shows "length (exponential_multipliers b n [k..<n] r) = n - k \<and>
    (\<forall>m \<in> set (exponential_multipliers b n [k..<n] r). 0 < m) \<and>
    (\<forall>t. 0 \<le> t \<longrightarrow> t + round_up b r \<le> UNSIGNED_INT64_MAX_VALUE \<longrightarrow>
       exponential_contributions b n t (enumerate k (exponential_multipliers b n [k..<n] r))
       = Some (t + round_up b r))"
  using assms(2,3)
proof (induction "n - k" arbitrary: k r)
  case 0
  then show ?case by simp
next
  case (Suc e)
  define d where "d = b ^ (n - k)"
  define m where "m = (r + d - 1) div d"
  have d': "d = b ^ Suc e" by (simp only: d_def Suc.hyps(2))
  note lvl = exponential_level [OF assms(1) Suc.prems(2) d' m_def]
  show ?case
  proof (cases "Suc k < n")
    case True
    let ?c = "(m - 1) * d" and ?ms = "exponential_multipliers b n [Suc k..<n] (r - (m - 1) * d)"
    have eq: "exponential_multipliers b n [k..<n] r = m # ?ms"
      using exponential_multipliers_Cons [OF Suc.prems(1), of b r] True lvl(3)
      by (auto simp: d_def [symmetric] m_def [symmetric] Let_def)
    have IH: "length ?ms = n - Suc k" "\<forall>m \<in> set ?ms. 0 < m"
      "\<And>t. 0 \<le> t \<Longrightarrow> t + round_up b (r - ?c) \<le> UNSIGNED_INT64_MAX_VALUE \<Longrightarrow>
         exponential_contributions b n t (enumerate (Suc k) ?ms) = Some (t + round_up b (r - ?c))"
      using Suc.hyps(1) [of "Suc k" "r - ?c"] Suc.hyps(2) True lvl(3) by auto
    have c: "0 \<le> ?c" using lvl(1) d' assms(1) by simp
    have pos: "0 < round_up b (r - ?c)" using lvl(3) assms(1) by (intro round_up_pos) auto
    show ?thesis
      using True IH(1,2) IH(3) [of "t + ?c" for t] lvl(1,5) c pos Suc.prems(1)
      by (auto simp: eq d_def [symmetric] Let_def Suc_diff_Suc)
  next
    case False
    then have k: "n = Suc k" using Suc.prems(1) by simp
    then have "d = b" by (simp add: d_def)
    then have "exponential_multipliers b n [k..<n] r = [m]" "m * b = round_up b r"
      using k lvl(2) by (simp_all add: m_def Let_def)
    then show ?thesis using k lvl(1) by (simp add: Let_def)
  qed
qed

text \<open>Directory names parse back to the multipliers they were made from.\<close>

lemma parse_dir_names:
  assumes "1 < b" "exponential_dir_names b n (enumerate k ms) = Inr ds"
    "\<forall>m \<in> set ms. 0 < m" "k + length ms \<le> n"
  shows "parse_exponential_multipliers b n (enumerate k ds) = Some ms \<and> length ds = length ms"
  using assms(2-4)
proof (induction ms arbitrary: k ds)
  case Nil
  then show ?case by simp
next
  case (Cons m ms)
  let ?d = "b ^ (n - k)"
  from Cons.prems obtain es where
    es: "exponential_dir_names b n (enumerate (Suc k) ms) = Inr es" "ds = int_to_str (m * ?d) # es"
    by (auto simp: Let_def rbind_Inr_iff split: if_splits)
  have d: "0 < ?d" using assms(1) by simp
  have md: "0 < m * ?d" using d Cons.prems by simp
  have "parse_exponential_multipliers b n (enumerate (Suc k) es) = Some ms \<and> length es = length ms"
    using es(1) Cons.prems by (intro Cons.IH) auto
  then show ?case using d md Cons.prems(2) assms(1) by (auto simp: es(2) Let_def not_le)
qed

lemma exponential_dir_names_ok:
  assumes "\<forall>(i, m) \<in> set (enumerate k ms). m * b ^ (n - i) \<le> UNSIGNED_INT64_MAX_VALUE"
  shows "exponential_dir_names b n (enumerate k ms) =
         Inr (map (\<lambda>(i, m). int_to_str (m * b ^ (n - i))) (enumerate k ms))"
  using assms by (induction ms arbitrary: k) (auto simp: Let_def)

text \<open>
  The transform succeeds exactly when the value rounded up to the coarsest unit is an unsigned
  64-bit number.
\<close>

lemma exponential_multiplier_bound:
  assumes "1 < b" "k < n" "0 < r" "(i, m) \<in> set (enumerate k (exponential_multipliers b n [k..<n] r))"
  shows "m * b ^ (n - i) \<le> round_up (b ^ (n - k)) r"
  using assms(2-4)
proof (induction "n - k" arbitrary: k r)
  case 0
  then show ?case by simp
next
  case (Suc e)
  define d where "d = b ^ (n - k)"
  define c where "c = (r + d - 1) div d"
  have d': "d = b ^ Suc e" by (simp only: d_def Suc.hyps(2))
  note lvl = exponential_level [OF assms(1) Suc.prems(2) d' c_def]
  define r' where "r' = (if k < n - 1 then max 0 (r - (c - 1) * d) else r)"
  have eq: "exponential_multipliers b n [k..<n] r = c # exponential_multipliers b n [Suc k..<n] r'"
    using exponential_multipliers_Cons [OF Suc.prems(1)] by (simp add: d_def c_def r'_def Let_def)
  from Suc.prems(3) consider "(i, m) = (k, c)"
    | "(i, m) \<in> set (enumerate (Suc k) (exponential_multipliers b n [Suc k..<n] r'))"
    by (auto simp: eq)
  then show ?case
  proof cases
    case 1
    then show ?thesis using lvl(2) by (simp add: d_def)
  next
    case 2
    then have k: "Suc k < n" by (cases "Suc k < n") auto
    then have "k < n - 1" by simp
    then have rr: "r' = r - (c - 1) * d" using lvl(3) by (simp add: r'_def)
    have "m * b ^ (n - i) \<le> round_up (b ^ (n - Suc k)) r'"
      using Suc.hyps(2) lvl(3) 2 k by (intro Suc.hyps(1)) (auto simp: rr)
    also have "\<dots> \<le> d"
    proof -
      have "d = b * b ^ (n - Suc k)" using k by (simp add: d_def Suc_diff_Suc flip: power_Suc)
      then show ?thesis using lvl(4) assms(1) by (metis rr round_up_least zero_less_power zero_less_one less_trans)
    qed
    also have "d \<le> round_up d r" using lvl(1,2) d' assms(1)
      by (metis mult.commute mult_le_cancel_left1 not_less order_less_le_trans zero_less_power zero_less_one less_trans one_le_mult_iff int_one_le_iff_zero_less)
    finally show ?thesis by (simp add: d_def)
  qed
qed

lemma component_isdigit: "isdigit s \<Longrightarrow> component s"
  by (simp add: component_def isdigit_facts)

lemma exponential_transform_facts:
  assumes "1 < b" "0 < levels" "0 < v" "round_up (b ^ nat levels) v \<le> UNSIGNED_INT64_MAX_VALUE"
  defines "ms \<equiv> exponential_multipliers b (nat levels) [0..<nat levels] v"
  shows "exponential_partition_transform v b levels =
      Inr (map (\<lambda>(i, m). int_to_str (m * b ^ (nat levels - i))) (enumerate 0 ms))"
    and "length ms = nat levels" and "\<forall>m \<in> set ms. 0 < m"
proof -
  have n: "0 < nat levels" using assms(2) by simp
  show len: "length ms = nat levels" and pos: "\<forall>m \<in> set ms. 0 < m"
    using exponential_multipliers_facts [OF assms(1) n assms(3)] by (simp_all add: ms_def)
  have "\<forall>(i, m) \<in> set (enumerate 0 ms). m * b ^ (nat levels - i) \<le> UNSIGNED_INT64_MAX_VALUE"
    using exponential_multiplier_bound [OF assms(1) n assms(3)] assms(4) order_trans
    unfolding ms_def by fastforce
  then show "exponential_partition_transform v b levels =
      Inr (map (\<lambda>(i, m). int_to_str (m * b ^ (nat levels - i))) (enumerate 0 ms))"
    using assms(1-3) exponential_dir_names_ok [of 0 ms b "nat levels"]
    by (simp add: exponential_partition_transform_def ms_def [symmetric])
qed

lemma exponential_transform_parse:
  assumes "1 < b" "0 < levels" "0 < v" "round_up (b ^ nat levels) v \<le> UNSIGNED_INT64_MAX_VALUE"
  shows "\<exists>ds. exponential_partition_transform v b levels = Inr ds \<and> length ds = nat levels \<and>
    list_all component ds \<and> parse_exponential_partitions ds b levels = Some (round_up b v)"
proof -
  let ?n = "nat levels"
  let ?ms = "exponential_multipliers b ?n [0..<?n] v"
  obtain ds where ds: "exponential_partition_transform v b levels = Inr ds"
    and len: "length ?ms = ?n" and pos: "\<forall>m \<in> set ?ms. 0 < m"
    and eq: "ds = map (\<lambda>(i, m). int_to_str (m * b ^ (?n - i))) (enumerate 0 ?ms)"
    using exponential_transform_facts [OF assms] by blast
  have n: "0 < ?n" using assms(2) by simp
  have dn: "exponential_dir_names b ?n (enumerate 0 ?ms) = Inr ds"
    using ds assms(1-3) by (simp add: exponential_partition_transform_def)
  have ms: "parse_exponential_multipliers b ?n (enumerate 0 ds) = Some ?ms" "length ds = ?n"
    using parse_dir_names [OF assms(1) dn pos] len by auto
  have "round_up b v \<le> round_up (b ^ ?n) v"
  proof -
    have "b dvd round_up (b ^ ?n) v"
      using n by (meson dvd_power dvd_trans round_up_dvd)
    then obtain k where "round_up (b ^ ?n) v = k * b" by (metis dvd_def mult.commute)
    moreover have "v \<le> round_up (b ^ ?n) v" using assms(1) by (simp add: round_up_bounds)
    ultimately show ?thesis using round_up_least [of b v k] assms(1) by simp
  qed
  then have le: "round_up b v \<le> UNSIGNED_INT64_MAX_VALUE" using assms(4) by simp
  then have "exponential_contributions b ?n 0 (enumerate 0 ?ms) = Some (round_up b v)"
    using exponential_multipliers_facts [OF assms(1) n assms(3)] by auto
  moreover have "1 \<le> round_up b v" using round_up_pos [of b v] assms by simp
  moreover have "ds \<noteq> []" using ms(2) n by auto
  ultimately have "parse_exponential_partitions ds b levels = Some (round_up b v)"
    using ms le assms(2) by (simp add: parse_exponential_partitions_def Let_def)
  moreover have "list_all component ds"
  proof -
    have "0 \<le> snd im * b ^ (?n - fst im)" if "im \<in> set (enumerate 0 ?ms)" for im
    proof -
      have "0 < snd im" using snd_in_enumerate [OF that] pos by blast
      then show ?thesis using assms(1) by simp
    qed
    then show ?thesis
      by (auto simp: eq list_all_iff case_prod_unfold intro!: component_isdigit isdigit_int_to_str)
  qed
  ultimately show ?thesis using ds ms(2) by blast
qed

text \<open>
  Stripping undoes the insertion: a path below partition directories that the transform made, or
  their directory, loses exactly those directories.
\<close>

lemma remove_exponential_partitions_inverse:
  assumes "1 < b" "0 < levels" "0 < v" "round_up (b ^ nat levels) v \<le> UNSIGNED_INT64_MAX_VALUE"
    and ds: "exponential_partition_transform v b levels = Inr ds"
    and d: "dir_path d" and f: "component f"
  shows "remove_exponential_partitions (path_join (path_join_all d ds) f) b levels False = Inr (path_join d f)"
    and "remove_exponential_partitions (path_join_all d ds) b levels True = Inr d"
proof -
  have ds': "length ds = nat levels" "\<forall>n \<in> set ds. component n"
      "parse_exponential_partitions ds b levels = Some (round_up b v)"
    using exponential_transform_parse [OF assms(1-4)] ds by (auto simp: list_all_iff)
  have D: "dir_path (path_join_all d ds)" using d ds'(2) by (rule dir_path_join_all)
  have sp: "split_on slash (path_join_all d ds) = split_on slash d @ ds"
    using d ds'(2) by (rule split_on_path_join_all)
  have ne: "f \<noteq> []" using f by (simp add: component_def)
  show "remove_exponential_partitions (path_join (path_join_all d ds) f) b levels False = Inr (path_join d f)"
    using assms(1,2) D f ne
    by (simp add: remove_exponential_partitions_def dirname_path_join basename_path_join sp ds'(1)
        ds'(3) Let_def)
  show "remove_exponential_partitions (path_join_all d ds) b levels True = Inr d"
    using assms(1,2) D
    by (simp add: remove_exponential_partitions_def sp ds'(1) ds'(3) Let_def)
qed

subsection \<open>The catalog's scheme: base 1000, two levels\<close>

text \<open>The defaults that every caller in \<^verbatim>\<open>metafile.py\<close> uses, as one-argument functions.\<close>

abbreviation rev_transform :: "int \<Rightarrow> string list res" where
  "rev_transform v \<equiv> exponential_partition_transform v 1000 2"

abbreviation rev_dir_parser :: "string list \<Rightarrow> int option" where
  "rev_dir_parser ds \<equiv> parse_exponential_partitions ds 1000 2"

definition MAX_REVISION_NUMBER :: int where
  "MAX_REVISION_NUMBER = 10000000000000000000"

definition rev_domain :: "int \<Rightarrow> bool" where
  "rev_domain v \<longleftrightarrow> 0 < v \<and> v \<le> MAX_REVISION_NUMBER"

lemma rev_domain_round_up:
  assumes "rev_domain v"
  shows "round_up (1000 ^ nat 2) v \<le> UNSIGNED_INT64_MAX_VALUE"
proof -
  have "round_up 1000000 v \<le> 10000000000000 * 1000000"
    using assms by (intro round_up_least) (auto simp: rev_domain_def MAX_REVISION_NUMBER_def)
  then show ?thesis by (simp add: UNSIGNED_INT64_MAX_VALUE_def)
qed

text \<open>The two directories of a revision and the numbers their prefixes stand for.\<close>

lemma rev_transform_eq:
  assumes "rev_domain v"
  shows "rev_transform v =
    Inr [int_to_str (round_up 1000000 v),
         int_to_str (round_up 1000 (v - (round_up 1000000 v - 1000000)))]"
proof -
  let ?m = "(v + 1000000 - 1) div 1000000"
  have pos: "0 < v" using assms by (simp add: rev_domain_def)
  have up: "[0..<2] = [0, Suc 0]" by (simp add: upt_conv_Cons numeral_2_eq_2)
  have "0 < v - (?m - 1) * 1000000"
    using exponential_level(3) [of 1000 v "1000 ^ Suc 1" 1 ?m] pos by simp
  then have "exponential_multipliers 1000 (nat 2) [0..<nat 2] v =
      [?m, (v - (?m - 1) * 1000000 + 1000 - 1) div 1000]"
    by (simp add: up Let_def max_def)
  then show ?thesis
    using exponential_transform_facts(1) [of 1000 2 v] rev_domain_round_up [OF assms] pos
    by (simp add: round_up_def algebra_simps)
qed

lemma rev_transform_ok:
  assumes "rev_domain v"
  obtains d0 d1 where "rev_transform v = Inr [d0, d1]" "component d0" "component d1"
    "rev_dir_parser [d0] = Some (round_up 1000000 v)"
    "rev_dir_parser [d0, d1] = Some (round_up 1000 v)"
proof -
  have pos: "0 < v" using assms by (simp add: rev_domain_def)
  obtain ds where ds: "rev_transform v = Inr ds" "list_all component ds"
    "rev_dir_parser ds = Some (round_up 1000 v)"
    using exponential_transform_parse [of 1000 2 v] rev_domain_round_up [OF assms] pos by auto
  define r where "r = round_up 1000000 v"
  have r: "0 < r" "1000 dvd r" "r \<le> UNSIGNED_INT64_MAX_VALUE" "1000 \<le> r"
  proof -
    show "0 < r" using pos by (simp add: r_def round_up_pos)
    have "(1000::int) dvd 1000000" by simp
    then show dvd: "1000 dvd r" unfolding r_def using round_up_dvd by (rule dvd_trans)
    show "r \<le> UNSIGNED_INT64_MAX_VALUE" using rev_domain_round_up [OF assms] by (simp add: r_def)
    show "1000 \<le> r" using \<open>0 < r\<close> dvd by (simp add: zdvd_imp_le)
  qed
  have "rev_dir_parser [int_to_str r] = Some r"
    using r by (simp add: parse_exponential_partitions_def Let_def dvd_eq_mod_eq_0 [symmetric]
        div_eq_0_iff)
  moreover have "ds = [int_to_str r, int_to_str (round_up 1000 (v - (r - 1000000)))]"
    using ds(1) rev_transform_eq [OF assms] by (simp add: r_def)
  ultimately show thesis
    using that ds by (simp add: r_def)
qed

lemma rev_transform_dirs:
  assumes "rev_domain v" "rev_transform v = Inr ds"
  shows "\<exists>d0 d1. ds = [d0, d1] \<and> rev_dir_parser [d0] = Some (round_up 1000000 v) \<and>
    rev_dir_parser [d0, d1] = Some (round_up 1000 v)"
  by (rule rev_transform_ok [OF assms(1)]) (use assms(2) in auto)

subsection \<open>Properties\<close>

text \<open>C33: every revision number up to the largest one the code asks for has partition directories:
  the exponential transform succeeds with two directory names, and parsing them gives the revision
  rounded up to the next multiple of 1000, so a directory never stands for less than its files.\<close>

theorem revision_partition_total:
  assumes "0 < v" "v \<le> MAX_REVISION_NUMBER"
  shows "\<exists>ds. exponential_partition_transform v 1000 2 = Inr ds \<and> length ds = 2 \<and>
    (\<exists>w. parse_exponential_partitions ds 1000 2 = Some w \<and> v \<le> w \<and> w < v + 1000 \<and> 1000 dvd w)"
proof -
  have v: "rev_domain v" using assms by (simp add: rev_domain_def)
  then show ?thesis
    using exponential_transform_parse [of 1000 2 v] rev_domain_round_up [OF v] round_up_bounds [of 1000 v] assms(1)
    by auto
qed

theorem revision_partition_total_witness:
  "\<exists>ds. exponential_partition_transform 1500000 1000 2 = Inr ds \<and> length ds = 2 \<and>
     (\<exists>w. parse_exponential_partitions ds 1000 2 = Some w \<and> 1500000 \<le> w \<and> w < 1500000 + 1000 \<and> 1000 dvd w)"
  by (rule revision_partition_total) (simp_all add: MAX_REVISION_NUMBER_def)

text \<open>Stripping the partition directories is a left inverse of adding them, for file paths and
  for directory paths, for every base, number of levels and value the transform accepts.\<close>

lemma remove_partitions_inverse:
  assumes "1 < b" "0 < levels" "0 < v" "round_up (b ^ nat levels) v \<le> UNSIGNED_INT64_MAX_VALUE"
    "exponential_partition_transform v b levels = Inr ds" "dir_path d" "component f"
  shows "remove_exponential_partitions (path_join (path_join_all d ds) f) b levels False = Inr (path_join d f) \<and>
    remove_exponential_partitions (path_join_all d ds) b levels True = Inr d"
  using remove_exponential_partitions_inverse [OF assms] by blast

lemma remove_partitions_inverse_witness:
  "remove_exponential_partitions ''root/rev/2000000/500000/f.mpk'' 1000 2 False = Inr ''root/rev/f.mpk'' \<and>
   remove_exponential_partitions ''root/rev/2000000/500000'' 1000 2 True = Inr ''root/rev''"
proof -
  have t: "exponential_partition_transform 1500000 1000 2 = Inr [''2000000'', ''500000'']" by code_simp
  have j: "path_join_all ''root/rev'' [''2000000'', ''500000''] = ''root/rev/2000000/500000''"
    "path_join ''root/rev/2000000/500000'' ''f.mpk'' = ''root/rev/2000000/500000/f.mpk''"
    "path_join ''root/rev'' ''f.mpk'' = ''root/rev/f.mpk''"
    by code_simp+
  have r: "round_up (1000 ^ nat 2) 1500000 \<le> UNSIGNED_INT64_MAX_VALUE" by code_simp
  show ?thesis
    using remove_partitions_inverse [OF _ _ _ r t, of "''root/rev''" "''f.mpk''"]
    unfolding j by (simp add: dir_path_def component_def)
qed

end
