(* ===== verification/PartitionedListing.thy ===== *)
theory PartitionedListing
  imports Filesystem ExponentialPartitions
begin

text \<open>
  Correctness of \<open>list_directory_partitioned\<close> for any partition scheme. The locale
  \<open>partition_scheme\<close> is the contract between the traversal and a pair of transform and directory
  parser: names parse at every level, larger values never parse to smaller numbers, and different
  directories parse to different numbers. Inside it the traversal is shown to return exactly the
  stored files up to the requested value, largest first, cut at the limit. The scheme of the
  metadata revisions (\<open>exponential_partition_transform\<close>) is an interpretation.
\<close>

subsection \<open>A partitioned directory tree\<close>

definition visible :: "string \<Rightarrow> bool" where
  "visible n \<longleftrightarrow> component n \<and> \<not> starts_with n ''.'' \<and> \<not> starts_with n ''_''"

lemma visible_component [simp]: "visible n \<Longrightarrow> component n"
  by (simp add: visible_def)

definition dirs_of :: "(int \<Rightarrow> string list res) \<Rightarrow> int \<Rightarrow> string list" where
  "dirs_of transform v = (case transform v of Inr ds \<Rightarrow> ds | Inl _ \<Rightarrow> [])"

record stored =
  st_name :: string
  st_value :: int
  st_size :: nat

definition stored_path :: "string \<Rightarrow> (int \<Rightarrow> string list res) \<Rightarrow> stored \<Rightarrow> string" where
  "stored_path base transform e =
     path_join (path_join_all base (dirs_of transform (st_value e))) (st_name e)"

definition stored_entry :: "string \<Rightarrow> (int \<Rightarrow> string list res) \<Rightarrow> stored \<Rightarrow> entry" where
  "stored_entry base transform e = (stored_path base transform e, Some (st_size e))"

definition prefixes_of :: "(int \<Rightarrow> string list res) \<Rightarrow> stored set \<Rightarrow> string list set" where
  "prefixes_of transform S = {take j (dirs_of transform (st_value e)) | j e. e \<in> S}"

text \<open>
  What a file system answers for a tree that holds the files \<open>S\<close>, each below the directories of
  its value: a directory above the last level lists its subdirectories, one at the last level its
  files, and a missing base directory lists as empty where that is allowed.
\<close>

definition lists_dirs :: "('fs, 'd) filesystem \<Rightarrow> 'fs \<Rightarrow> string \<Rightarrow> bool \<Rightarrow> string set \<Rightarrow> bool" where
  "lists_dirs F fs dir allow names \<longleftrightarrow>
     (\<exists>fis. fs_select F fs dir False allow = Inr fis \<and>
            fi_path ` set fis = path_join dir ` names \<and> distinct (map fi_path fis) \<and>
            (\<forall>fi \<in> set fis. fi_size fi = None))"

definition lists_files :: "('fs, 'd) filesystem \<Rightarrow> 'fs \<Rightarrow> string \<Rightarrow> entry set \<Rightarrow> bool" where
  "lists_files F fs dir entries \<longleftrightarrow>
     (\<exists>fis. fs_select F fs dir False False = Inr fis \<and>
            (\<lambda>fi. (fi_path fi, fi_size fi)) ` set fis = entries \<and> distinct (map fi_path fis))"

definition partitioned_layout ::
  "('fs, 'd) filesystem \<Rightarrow> 'fs \<Rightarrow> string \<Rightarrow> (int \<Rightarrow> string list res) \<Rightarrow> nat \<Rightarrow> file_parser \<Rightarrow> bool \<Rightarrow>
   stored set \<Rightarrow> bool" where
  "partitioned_layout F fs base transform levels parser allow S \<longleftrightarrow>
     dir_path base \<and>
     (\<forall>e \<in> S. visible (st_name e) \<and> parser (stored_path base transform e) = Inr (Some (st_value e))) \<and>
     (allow \<longrightarrow> lists_dirs F fs base True {d. [d] \<in> prefixes_of transform S}) \<and>
     (\<forall>pre \<in> prefixes_of transform S. length pre < levels \<longrightarrow>
        lists_dirs F fs (path_join_all base pre) False {d. pre @ [d] \<in> prefixes_of transform S}) \<and>
     (\<forall>ds \<in> prefixes_of transform S. length ds = levels \<longrightarrow>
        lists_files F fs (path_join_all base ds)
          {stored_entry base transform e | e. e \<in> S \<and> dirs_of transform (st_value e) = ds})"

lemma layout_dirs:
  "partitioned_layout F fs base transform levels parser allow S \<Longrightarrow> pre \<in> prefixes_of transform S \<Longrightarrow>
   length pre < levels \<Longrightarrow>
   lists_dirs F fs (path_join_all base pre) False {d. pre @ [d] \<in> prefixes_of transform S}"
  by (simp add: partitioned_layout_def)

lemma layout_base:
  "partitioned_layout F fs base transform levels parser True S \<Longrightarrow>
   lists_dirs F fs base True {d. [d] \<in> prefixes_of transform S}"
  by (simp add: partitioned_layout_def)

lemma layout_files:
  "partitioned_layout F fs base transform levels parser allow S \<Longrightarrow> ds \<in> prefixes_of transform S \<Longrightarrow>
   length ds = levels \<Longrightarrow>
   lists_files F fs (path_join_all base ds)
     (stored_entry base transform ` {e \<in> S. dirs_of transform (st_value e) = ds})"
  by (simp add: partitioned_layout_def setcompr_eq_image)

subsection \<open>Listing one directory of visible names\<close>

lemma is_listed_visible:
  "dir_path dir \<Longrightarrow> visible n \<Longrightarrow> is_listed dir default_exclude_prefixes (path_join dir n)"
  by (auto simp: is_listed_def path_join_component visible_def default_exclude_prefixes_def starts_with_def)

lemma list_directory_visible:
  assumes sel: "fs_select F fs dir False allow = Inr fis" and dir: "dir_path dir"
    and names: "\<forall>fi \<in> set fis. \<exists>n. visible n \<and> fi_path fi = path_join dir n"
    and ex: "ex = None \<or> ex = Some default_exclude_prefixes"
  shows "list_directory F fs dir ex allow False =
         Inr (sort_desc fst (map (\<lambda>fi. (fi_path fi, fi_size fi)) fis))"
proof -
  have "filter (\<lambda>f. is_listed dir default_exclude_prefixes (fi_path f)) fis = fis"
    using names is_listed_visible [OF dir] by (intro filter_True) fastforce
  then show ?thesis
    using ex sel by (auto simp: list_directory_def)
qed

subsection \<open>Collecting with a limit\<close>

text \<open>
  A visit that returns \<open>g c\<close> without a limit and its first \<open>l\<close> elements with limit \<open>l\<close>: the loop
  over the candidates then does the same for their concatenation.
\<close>

definition limited :: "(int option \<Rightarrow> (entry list \<times> int option) res) \<Rightarrow> entry list \<Rightarrow> bool" where
  "limited run out \<longleftrightarrow> run None = Inr (out, None) \<and>
     (\<forall>l \<ge> 0. run (Some l) = Inr (take (nat l) out, Some (l - int (length (take (nat l) out)))))"

lemma visit_candidates_limited:
  assumes "\<forall>c \<in> set cs. limited (visit c) (g c)"
  shows "visit_candidates visit cs acc None = Inr (acc @ concat (map g cs), None)"
    and "0 \<le> l \<Longrightarrow> visit_candidates visit cs acc (Some l) =
      Inr (acc @ take (nat l) (concat (map g cs)), Some (l - int (length (take (nat l) (concat (map g cs))))))"
  using assms
proof (induction cs arbitrary: acc l)
  case Nil
  { case 1 then show ?case by simp }
  { case 2 then show ?case by simp }
next
  case (Cons c cs)
  { case 1 then show ?case using Cons.IH(1) by (simp add: limited_def) }
  { case 2
    then have run: "visit c (Some l) = Inr (take (nat l) (g c), Some (l - int (length (take (nat l) (g c)))))"
      by (simp add: limited_def)
    show ?case
    proof (cases "l = 0")
      case True
      then show ?thesis by simp
    next
      case False
      let ?l' = "l - int (length (take (nat l) (g c)))"
      have "0 \<le> ?l'" using 2 by auto
      then have "visit_candidates visit (c # cs) acc (Some l) =
          Inr ((acc @ take (nat l) (g c)) @ take (nat ?l') (concat (map g cs)),
               Some (?l' - int (length (take (nat ?l') (concat (map g cs))))))"
        using 2 False run Cons.IH(2) [of ?l' "acc @ take (nat l) (g c)"] by simp
      moreover have "nat ?l' = nat l - length (g c)" using 2 by auto
      ultimately show ?thesis using 2 by (simp add: min_def split: if_splits)
    qed }
qed

subsection \<open>The contract of a partition scheme\<close>

locale partition_scheme =
  fixes transform :: "int \<Rightarrow> string list res"
    and dir_parser :: "string list \<Rightarrow> int option"
    and domain :: "int \<Rightarrow> bool"
    and levels :: nat
  assumes levels_pos: "0 < levels"
    and transform_ok: "domain v \<Longrightarrow> \<exists>ds. transform v = Inr ds \<and> length ds = levels \<and> list_all visible ds"
    and prefix_parses: "domain v \<Longrightarrow> transform v = Inr ds \<Longrightarrow> 0 < j \<Longrightarrow> j \<le> levels \<Longrightarrow>
      \<exists>n. dir_parser (take j ds) = Some n"
    and prefix_mono: "domain v \<Longrightarrow> domain w \<Longrightarrow> v \<le> w \<Longrightarrow> transform v = Inr ds \<Longrightarrow> transform w = Inr es \<Longrightarrow>
      0 < j \<Longrightarrow> j \<le> levels \<Longrightarrow> dir_parser (take j ds) = Some m \<Longrightarrow> dir_parser (take j es) = Some n \<Longrightarrow> m \<le> n"
    and prefix_inject: "domain v \<Longrightarrow> domain w \<Longrightarrow> transform v = Inr ds \<Longrightarrow> transform w = Inr es \<Longrightarrow>
      0 < j \<Longrightarrow> j \<le> levels \<Longrightarrow> dir_parser (take j ds) = dir_parser (take j es) \<Longrightarrow> take j ds = take j es"
begin

abbreviation dirs :: "int \<Rightarrow> string list" where
  "dirs v \<equiv> dirs_of transform v"

definition num :: "string list \<Rightarrow> int" where
  "num ds = the (dir_parser ds)"

lemma dirs_facts:
  assumes "domain v"
  shows "transform v = Inr (dirs v)" "length (dirs v) = levels" "\<forall>n \<in> set (dirs v). visible n"
  using transform_ok [OF assms] by (auto simp: dirs_of_def list_all_iff)

lemma parse_prefix:
  "domain v \<Longrightarrow> 0 < j \<Longrightarrow> j \<le> levels \<Longrightarrow> dir_parser (take j (dirs v)) = Some (num (take j (dirs v)))"
  using prefix_parses [OF _ dirs_facts(1)] by (fastforce simp: num_def)

lemma num_mono:
  "domain v \<Longrightarrow> domain w \<Longrightarrow> v \<le> w \<Longrightarrow> 0 < j \<Longrightarrow> j \<le> levels \<Longrightarrow>
   num (take j (dirs v)) \<le> num (take j (dirs w))"
  using prefix_mono [OF _ _ _ dirs_facts(1) dirs_facts(1)] parse_prefix by blast

lemma num_inject:
  "domain v \<Longrightarrow> domain w \<Longrightarrow> 0 < j \<Longrightarrow> j \<le> levels \<Longrightarrow>
   num (take j (dirs v)) = num (take j (dirs w)) \<Longrightarrow> take j (dirs v) = take j (dirs w)"
  using prefix_inject [OF _ _ dirs_facts(1) dirs_facts(1)] parse_prefix by metis

lemma num_less:
  "domain v \<Longrightarrow> domain w \<Longrightarrow> 0 < j \<Longrightarrow> j \<le> levels \<Longrightarrow>
   num (take j (dirs v)) < num (take j (dirs w)) \<Longrightarrow> v < w"
  using num_mono [of w v j] by (meson not_le)

text \<open>
  The directory comparisons of the traversal, together with the file comparison in the target
  partition, decide whether a value is at most the requested one.
\<close>

definition within :: "int \<Rightarrow> nat \<Rightarrow> int \<Rightarrow> bool" where
  "within pv depth v \<longleftrightarrow>
     (\<forall>j. depth < j \<and> j \<le> levels \<longrightarrow> num (take j (dirs v)) \<le> num (take j (dirs pv))) \<and>
     (dirs v = dirs pv \<longrightarrow> v \<le> pv)"

lemma within_iff:
  assumes "domain v" "domain pv"
  shows "within pv 0 v \<longleftrightarrow> v \<le> pv"
proof
  assume w: "within pv 0 v"
  show "v \<le> pv"
  proof (rule ccontr)
    assume "\<not> v \<le> pv"
    then have "num (take levels (dirs pv)) \<le> num (take levels (dirs v))"
      using assms levels_pos by (intro num_mono) auto
    moreover have "num (take levels (dirs v)) \<le> num (take levels (dirs pv))"
      using w levels_pos by (simp add: within_def)
    ultimately have "take levels (dirs v) = take levels (dirs pv)"
      using assms levels_pos by (intro num_inject) auto
    then have "dirs v = dirs pv" using assms by (simp add: dirs_facts)
    with w \<open>\<not> v \<le> pv\<close> show False by (simp add: within_def)
  qed
next
  assume "v \<le> pv"
  then show "within pv 0 v" using assms by (auto simp: within_def intro: num_mono)
qed

lemma within_Suc:
  "depth < levels \<Longrightarrow> within pv depth v \<longleftrightarrow>
   num (take (Suc depth) (dirs v)) \<le> num (take (Suc depth) (dirs pv)) \<and> within pv (Suc depth) v"
  unfolding within_def by (metis Suc_leI Suc_lessD lessI le_neq_implies_less)

end

subsection \<open>The traversal\<close>

text \<open>The value the file parser reads from a listed entry.\<close>

definition entry_value :: "file_parser \<Rightarrow> entry \<Rightarrow> int" where
  "entry_value parser x = (case parser (fst x) of Inr (Some v) \<Rightarrow> v | _ \<Rightarrow> 0)"

lemma filter_partition_files_eq:
  assumes "\<forall>x \<in> set xs. parser (fst x) = Inr (Some (entry_value parser x))"
  shows "filter_partition_files parser True False pv None xs = Inr (filter (\<lambda>x. entry_value parser x \<le> pv) xs)"
  using assms by (induction xs) auto

context partition_scheme
begin

text \<open>The files of \<open>S\<close> below the directories \<open>pre\<close> that the traversal may return.\<close>

definition reached :: "stored set \<Rightarrow> int \<Rightarrow> string list \<Rightarrow> stored set" where
  "reached S pv pre =
     {e \<in> S. take (length pre) (dirs (st_value e)) = pre \<and> within pv (length pre) (st_value e)}"

definition collected :: "string \<Rightarrow> file_parser \<Rightarrow> stored set \<Rightarrow> int \<Rightarrow> string list \<Rightarrow> entry list \<Rightarrow> bool" where
  "collected base parser S pv pre out \<longleftrightarrow>
     set out = stored_entry base transform ` reached S pv pre \<and> distinct out \<and>
     sorted_wrt (\<lambda>x y. entry_value parser y \<le> entry_value parser x) out"

definition ordered_names :: "stored set \<Rightarrow> bool" where
  "ordered_names S \<longleftrightarrow> (\<forall>e \<in> S. \<forall>f \<in> S. st_value e < st_value f \<longrightarrow> st_name e < st_name f)"

lemma entry_value_stored:
  assumes "partitioned_layout F fs base transform levels parser allow S" "e \<in> S"
  shows "parser (stored_path base transform e) = Inr (Some (st_value e))"
    and "entry_value parser (stored_entry base transform e) = st_value e"
  using assms by (auto simp: partitioned_layout_def entry_value_def stored_entry_def)

lemma prefix_visible:
  assumes "\<forall>e \<in> S. domain (st_value e)" "pre \<in> prefixes_of transform S"
  shows "\<forall>n \<in> set pre. visible n"
  using assms dirs_facts(3) by (fastforce simp: prefixes_of_def dest: in_set_takeD)

lemma child_visible:
  assumes "\<forall>e \<in> S. domain (st_value e)" "pre @ [n] \<in> prefixes_of transform S"
  shows "visible n"
  using prefix_visible [OF assms] by simp

lemma listed_visible:
  assumes "\<forall>e \<in> S. domain (st_value e)"
    "fi_path ` set fis = path_join D ` {d. pre @ [d] \<in> prefixes_of transform S}"
  shows "\<forall>fi \<in> set fis. \<exists>n. visible n \<and> fi_path fi = path_join D n"
proof
  fix fi assume "fi \<in> set fis"
  then have "fi_path fi \<in> path_join D ` {d. pre @ [d] \<in> prefixes_of transform S}"
    using assms(2) by blast
  then show "\<exists>n. visible n \<and> fi_path fi = path_join D n" using child_visible [OF assms(1)] by blast
qed

lemma prefix_dir_path:
  assumes "partitioned_layout F fs base transform levels parser allow S"
    "\<forall>e \<in> S. domain (st_value e)" "pre = [] \<or> pre \<in> prefixes_of transform S"
  shows "dir_path (path_join_all base pre)"
  using assms prefix_visible [OF assms(2)] by (auto simp: partitioned_layout_def intro!: dir_path_join_all)

text \<open>A complete partition path: its files, filtered by value in the target partition.\<close>

lemma traverse_leaf:
  assumes lay: "partitioned_layout F fs base transform levels parser allow S"
    and dom: "\<forall>e \<in> S. domain (st_value e)" and ord: "ordered_names S"
    and pre: "pre \<in> prefixes_of transform S" "length pre = levels"
  shows "\<exists>out. collected base parser S pv pre out \<and>
    limited (traverse_partitions 0 F fs (dirs pv) (Some default_exclude_prefixes) False ignore dir_parser
      pv parser None None (path_join_all base pre) pre) out"
proof -
  let ?D = "path_join_all base pre" and ?T = "{e \<in> S. dirs (st_value e) = pre}"
  have D: "dir_path ?D" using prefix_dir_path [OF lay dom] pre(1) by blast
  obtain fis where fis: "fs_select F fs ?D False False = Inr fis" "distinct (map fi_path fis)"
    "(\<lambda>fi. (fi_path fi, fi_size fi)) ` set fis = stored_entry base transform ` ?T"
    using layout_files [OF lay pre] unfolding lists_files_def by blast
  let ?L = "sort_desc fst (map (\<lambda>fi. (fi_path fi, fi_size fi)) fis)"
  have path: "stored_path base transform e = path_join ?D (st_name e)" if "e \<in> ?T" for e
    using that by (auto simp: stored_path_def)
  have vis: "visible (st_name e)" if "e \<in> S" for e using that lay by (simp add: partitioned_layout_def)
  have "\<forall>fi \<in> set fis. \<exists>n. visible n \<and> fi_path fi = path_join ?D n"
  proof
    fix fi assume "fi \<in> set fis"
    then have "(fi_path fi, fi_size fi) \<in> stored_entry base transform ` ?T"
      using fis(3) by (metis (mono_tags, lifting) imageI)
    then obtain e where "e \<in> ?T" "fi_path fi = stored_path base transform e"
      unfolding stored_entry_def by blast
    then show "\<exists>n. visible n \<and> fi_path fi = path_join ?D n" using path vis by auto
  qed
  then have ls: "list_directory F fs ?D (Some default_exclude_prefixes) False False = Inr ?L"
    using fis(1) D by (intro list_directory_visible) auto
  have setL: "set ?L = stored_entry base transform ` ?T" using fis(3) by simp
  have distL: "distinct ?L" using fis(2) by (auto simp: distinct_map inj_on_def)
  have val: "parser (fst x) = Inr (Some (entry_value parser x))" if "x \<in> set ?L" for x
    using that entry_value_stored [OF lay] unfolding setL by (auto simp: stored_entry_def)
  have desc: "entry_value parser y \<le> entry_value parser x"
    if xy: "x \<in> set ?L" "y \<in> set ?L" "fst y \<le> fst x" for x y
  proof -
    obtain e f where e: "e \<in> ?T" "x = stored_entry base transform e"
      and f: "f \<in> ?T" "y = stored_entry base transform f" using xy(1,2) unfolding setL by blast
    have "st_name f \<le> st_name e"
      using xy(3) e f path D vis by (auto simp: stored_entry_def path_join_component less_eq_append_same_prefix)
    then have "st_value f \<le> st_value e"
      using ord e f unfolding ordered_names_def by (metis (no_types, lifting) mem_Collect_eq not_le)
    then show ?thesis using e f entry_value_stored(2) [OF lay] by auto
  qed
  have sortL: "sorted_wrt (\<lambda>x y. entry_value parser y \<le> entry_value parser x) ?L"
    using sorted_sort_desc [of fst] desc by (rule sorted_wrt_mono_rel [rotated])
  define out where "out = (if pre = dirs pv then filter (\<lambda>x. entry_value parser x \<le> pv) ?L else ?L)"
  have reach: "reached S pv pre = {e \<in> ?T. pre = dirs pv \<longrightarrow> st_value e \<le> pv}"
  proof -
    have "take levels (dirs (st_value e)) = dirs (st_value e)" if "e \<in> S" for e
      using dirs_facts(2) dom that by simp
    then show ?thesis by (auto simp: reached_def within_def pre(2))
  qed
  have "collected base parser S pv pre out"
    using setL distL sortL entry_value_stored(2) [OF lay]
    by (auto simp: collected_def reach out_def sorted_wrt_filter)
  moreover have "filter_partition_files parser True False pv None ?L = Inr (filter (\<lambda>x. entry_value parser x \<le> pv) ?L)"
    using val by (intro filter_partition_files_eq) blast
  then have "limited (traverse_partitions 0 F fs (dirs pv) (Some default_exclude_prefixes) False ignore dir_parser
      pv parser None None ?D pre) out"
    by (auto simp: limited_def ls out_def Let_def slice_to_def)
  ultimately show ?thesis by blast
qed

text \<open>The candidates of an inner level: the subdirectories in range, largest number first.\<close>

lemma partition_candidates_spec:
  assumes dom: "\<forall>e \<in> S. domain (st_value e)" and dpv: "domain pv" and k: "length pre < levels"
    and D: "dir_path D"
    and items: "fst ` set items = path_join D ` {d. pre @ [d] \<in> prefixes_of transform S}"
      "distinct (map fst items)"
  defines "tv \<equiv> num (take (Suc (length pre)) (dirs pv))"
  defines "cs \<equiv> partition_candidates dir_parser tv None pre items"
  shows "set cs = {d. pre @ [d] \<in> prefixes_of transform S \<and> num (pre @ [d]) \<le> tv}"
    and "distinct cs" and "sorted_wrt (\<lambda>c d. num (pre @ [d]) \<le> num (pre @ [c])) cs"
proof -
  let ?N = "{d. pre @ [d] \<in> prefixes_of transform S}"
  let ?names = "map (\<lambda>(p, _). basename p) items"
  let ?g = "\<lambda>n. (num (pre @ [n]), n)"
  have comp: "component n" if "n \<in> ?N" for n
    using that prefix_visible [OF dom] by fastforce
  have bn: "basename (path_join D n) = n" if "n \<in> ?N" for n
    using comp [OF that] D by (rule basename_path_join [rotated])
  have names: "set ?names = ?N"
  proof -
    have "set ?names = basename ` (fst ` set items)" by (simp add: case_prod_unfold image_image)
    also have "\<dots> = ?N" unfolding items(1) using bn by (force simp: image_def)
    finally show ?thesis .
  qed
  have "inj_on basename (path_join D ` ?N)" using bn by (auto simp: inj_on_def)
  then have "distinct (map basename (map fst items))"
    using items comp_inj_on [of fst "set items" basename] by (simp add: distinct_map)
  then have dist: "distinct ?names" by (simp add: case_prod_unfold comp_def)
  have parse: "dir_parser (pre @ [n]) = Some (num (pre @ [n]))" if "n \<in> ?N" for n
  proof -
    obtain e j where e: "e \<in> S" "pre @ [n] = take j (dirs (st_value e))"
      using \<open>n \<in> ?N\<close> by (auto simp: prefixes_of_def)
    then have "pre @ [n] = take (Suc (length pre)) (dirs (st_value e))"
      by (metis length_append_singleton length_take min.cobounded1 take_all_iff take_take min_def nle_le)
    then show ?thesis using parse_prefix [of "st_value e" "Suc (length pre)"] dom e(1) k by simp
  qed
  have "List.map_filter (\<lambda>n. map_option (\<lambda>v. (v, n)) (dir_parser (pre @ [n]))) ?names = map ?g ?names"
    using parse names by (intro map_filter_all_Some) auto
  then have cs: "cs = map snd (sort_desc fst (map ?g (filter (\<lambda>n. num (pre @ [n]) \<le> tv) ?names)))"
    by (simp add: cs_def partition_candidates_def filter_map comp_def)
  show "set cs = {d. pre @ [d] \<in> prefixes_of transform S \<and> num (pre @ [d]) \<le> tv}"
    using names by (force simp: cs)
  have snd: "snd x = n \<longleftrightarrow> x = ?g n" if "x \<in> set (map ?g (filter (\<lambda>n. num (pre @ [n]) \<le> tv) ?names))" for x n
    using that by auto
  show "distinct cs"
    using dist snd by (auto simp: cs distinct_map inj_on_def)
  have "sorted_wrt (\<lambda>x y. fst y \<le> fst x) (sort_desc fst (map ?g (filter (\<lambda>n. num (pre @ [n]) \<le> tv) ?names)))"
    by (rule sorted_sort_desc)
  then show "sorted_wrt (\<lambda>c d. num (pre @ [d]) \<le> num (pre @ [c])) cs"
    unfolding cs sorted_wrt_map by (rule sorted_wrt_mono_rel [rotated]) (auto simp: image_iff)
qed

text \<open>One inner level: the loop over the candidates concatenates what the subtrees collect.\<close>

lemma collected_concat:
  assumes lay: "partitioned_layout F fs base transform levels parser allow S"
    and dom: "\<forall>e \<in> S. domain (st_value e)" and dpv: "domain pv" and k: "length pre < levels"
    and cs: "set cs = {d. pre @ [d] \<in> prefixes_of transform S \<and>
        num (pre @ [d]) \<le> num (take (Suc (length pre)) (dirs pv))}"
      "distinct cs" "sorted_wrt (\<lambda>c d. num (pre @ [d]) \<le> num (pre @ [c])) cs"
    and g: "\<forall>c \<in> set cs. collected base parser S pv (pre @ [c]) (g c)"
  shows "collected base parser S pv pre (concat (map g cs))"
proof -
  let ?val = "entry_value parser" and ?se = "stored_entry base transform"
  have ev: "?val (?se e) = st_value e" if "e \<in> S" for e using entry_value_stored(2) [OF lay that] .
  have gset: "set (g c) = ?se ` reached S pv (pre @ [c])" if "c \<in> set cs" for c
    using g that by (simp add: collected_def)
  have split: "reached S pv pre = (\<Union>c \<in> set cs. reached S pv (pre @ [c]))" (is "?A = ?B")
  proof (intro set_eqI iffI)
    fix e assume e: "e \<in> ?A"
    let ?d = "dirs (st_value e)"
    have len: "length ?d = levels" using e dom dirs_facts(2) by (auto simp: reached_def)
    then have tk: "take (Suc (length pre)) ?d = pre @ [?d ! length pre]"
      using e k by (simp add: reached_def take_Suc_conv_app_nth)
    moreover have "pre @ [?d ! length pre] \<in> prefixes_of transform S"
      unfolding prefixes_of_def tk [symmetric] using e by (auto simp: reached_def)
    ultimately have "?d ! length pre \<in> set cs"
      using e k within_Suc [OF k, of pv "st_value e"] by (simp add: cs(1) reached_def)
    moreover have "e \<in> reached S pv (pre @ [?d ! length pre])"
      using e tk within_Suc [OF k, of pv "st_value e"] by (simp add: reached_def)
    ultimately show "e \<in> ?B" by blast
  next
    fix e assume "e \<in> ?B"
    then obtain c where c: "c \<in> set cs" "e \<in> reached S pv (pre @ [c])" by blast
    then have tk: "take (Suc (length pre)) (dirs (st_value e)) = pre @ [c]" "e \<in> S"
      by (simp_all add: reached_def)
    then have "take (length pre) (take (Suc (length pre)) (dirs (st_value e))) = pre" by simp
    then have "take (length pre) (dirs (st_value e)) = pre" by simp
    then show "e \<in> ?A"
      using c tk within_Suc [OF k, of pv "st_value e"] by (simp add: reached_def cs(1))
  qed
  have set: "set (concat (map g cs)) = ?se ` reached S pv pre"
    using gset by (auto simp: split)
  have key: "take (Suc (length pre)) (dirs (?val x)) = pre @ [c]" "domain (?val x)" if cx: "c \<in> set cs" "x \<in> set (g c)" for c x
  proof -
    obtain e where "e \<in> reached S pv (pre @ [c])" "x = ?se e" using cx gset by blast
    then show "take (Suc (length pre)) (dirs (?val x)) = pre @ [c]" "domain (?val x)"
      using ev dom by (auto simp: reached_def)
  qed
  have disj: "set (g c) \<inter> set (g c') = {}" if cc: "c \<in> set cs" "c' \<in> set cs" "c \<noteq> c'" for c c'
  proof (rule ccontr)
    assume "set (g c) \<inter> set (g c') \<noteq> {}"
    then obtain x where "x \<in> set (g c)" "x \<in> set (g c')" by blast
    then have "pre @ [c] = pre @ [c']" using key(1) cc(1,2) by metis
    then show False using cc(3) by simp
  qed
  have "distinct (concat (map g cs))"
    using cs(2) g disj by (intro distinct_concat_map) (simp_all add: collected_def)
  moreover have "sorted_wrt (\<lambda>x y. ?val y \<le> ?val x) (concat (map g cs))"
  proof (rule sorted_wrt_concat)
    show "\<forall>xs \<in> set (map g cs). sorted_wrt (\<lambda>x y. ?val y \<le> ?val x) xs"
      using g by (auto simp: collected_def)
    have step: "?val y \<le> ?val x"
      if "c \<in> set cs" "d \<in> set cs" "num (pre @ [d]) \<le> num (pre @ [c])" "c \<noteq> d" "x \<in> set (g c)" "y \<in> set (g d)" for c d x y
    proof -
      have "num (pre @ [d]) \<noteq> num (pre @ [c])"
        using num_inject [of "?val x" "?val y" "Suc (length pre)"] key that k by auto
      then have "num (take (Suc (length pre)) (dirs (?val y))) < num (take (Suc (length pre)) (dirs (?val x)))"
        using key that by simp
      then show ?thesis using num_less key(2) that k by (meson Suc_leI less_imp_le zero_less_Suc)
    qed
    have "sorted_wrt (\<lambda>c d. c \<noteq> d \<and> num (pre @ [d]) \<le> num (pre @ [c])) cs"
      using cs(2,3) by (induction cs) auto
    then show "sorted_wrt (\<lambda>xs ys. \<forall>x \<in> set xs. \<forall>y \<in> set ys. ?val y \<le> ?val x) (map g cs)"
      unfolding sorted_wrt_map using step by (elim sorted_wrt_mono_rel [rotated]) blast
  qed
  ultimately show ?thesis unfolding collected_def using set by blast
qed

lemma take_Suc_target:
  assumes "domain pv" "depth < levels"
  shows "(case dir_parser (take (depth + 1) (dirs pv)) of None \<Rightarrow> 0 | Some v \<Rightarrow> v) =
         num (take (Suc depth) (dirs pv))"
  using parse_prefix [of pv "Suc depth"] assms by simp

lemma traverse_limited:
  assumes lay: "partitioned_layout F fs base transform levels parser ignore S"
    and dom: "\<forall>e \<in> S. domain (st_value e)" and dpv: "domain pv" and ord: "ordered_names S"
  shows "pre \<in> prefixes_of transform S \<or> pre = [] \<and> ignore \<Longrightarrow> k + length pre = levels \<Longrightarrow>
    \<exists>out. collected base parser S pv pre out \<and>
    limited (traverse_partitions k F fs (dirs pv) (Some default_exclude_prefixes) False ignore dir_parser
      pv parser None None (path_join_all base pre) pre) out"
proof (induction k arbitrary: pre)
  case 0
  then have "pre \<in> prefixes_of transform S" "length pre = levels" using levels_pos by auto
  then show ?case by (rule traverse_leaf [OF lay dom ord])
next
  case (Suc k)
  let ?D = "path_join_all base pre" and ?N = "{d. pre @ [d] \<in> prefixes_of transform S}"
  let ?ign = "if length pre = 0 then ignore else False"
  have k: "length pre < levels" using Suc.prems(2) by simp
  have D: "dir_path ?D" using prefix_dir_path [OF lay dom, of pre] Suc.prems(1) by blast
  have "\<exists>fis. fs_select F fs ?D False ?ign = Inr fis \<and> fi_path ` set fis = path_join ?D ` ?N \<and>
            distinct (map fi_path fis)"
  proof (cases "length pre = 0 \<and> ignore")
    case True
    then have "partitioned_layout F fs base transform levels parser True S" using lay by simp
    from layout_base [OF this] show ?thesis using True by (auto simp: lists_dirs_def)
  next
    case False
    then have "pre \<in> prefixes_of transform S" "?ign = False" using Suc.prems(1) by auto
    then show ?thesis using layout_dirs [OF lay _ k] by (auto simp: lists_dirs_def)
  qed
  then obtain fis where fis: "fs_select F fs ?D False ?ign = Inr fis"
    "fi_path ` set fis = path_join ?D ` ?N" "distinct (map fi_path fis)" by blast
  let ?items = "sort_desc fst (map (\<lambda>fi. (fi_path fi, fi_size fi)) fis)"
  have ls: "list_directory F fs ?D None ?ign False = Inr ?items"
    using list_directory_visible [OF fis(1) D listed_visible [OF dom fis(2)]] by simp
  define cs where "cs = partition_candidates dir_parser (num (take (Suc (length pre)) (dirs pv))) None pre ?items"
  have "fst ` set ?items = path_join ?D ` ?N" using fis(2) by (simp add: image_image)
  moreover have "distinct (map fst ?items)"
    using fis(3) by (auto simp: distinct_map comp_def inj_on_def)
  ultimately have cs: "set cs = {d. pre @ [d] \<in> prefixes_of transform S \<and>
      num (pre @ [d]) \<le> num (take (Suc (length pre)) (dirs pv))}"
    "distinct cs" "sorted_wrt (\<lambda>c d. num (pre @ [d]) \<le> num (pre @ [c])) cs"
    unfolding cs_def using partition_candidates_spec [OF dom dpv k D] by auto
  let ?visit = "\<lambda>c. traverse_partitions k F fs (dirs pv) (Some default_exclude_prefixes) False ignore dir_parser
      pv parser None None (path_join ?D c) (pre @ [c])"
  have "\<forall>c \<in> set cs. \<exists>out. collected base parser S pv (pre @ [c]) out \<and> limited (?visit c) out"
    using Suc.IH [of "pre @ [c]" for c] Suc.prems(2) by (auto simp: cs(1) path_join_all_append)
  then obtain g where g: "\<forall>c \<in> set cs. collected base parser S pv (pre @ [c]) (g c) \<and> limited (?visit c) (g c)"
    by metis
  have eq: "traverse_partitions (Suc k) F fs (dirs pv) (Some default_exclude_prefixes) False ignore dir_parser
      pv parser None None ?D pre lim = visit_candidates ?visit cs [] lim" for lim
    using ls by (simp add: Let_def take_Suc_target [OF dpv k, simplified] cs_def)
  have "limited (traverse_partitions (Suc k) F fs (dirs pv) (Some default_exclude_prefixes) False ignore dir_parser
      pv parser None None ?D pre) (concat (map g cs))"
    using visit_candidates_limited(1) [where cs = cs and visit = ?visit and g = g and acc = "[]"]
      visit_candidates_limited(2) [where cs = cs and visit = ?visit and g = g and acc = "[]"] g
    unfolding limited_def eq by simp
  moreover have "collected base parser S pv pre (concat (map g cs))"
    using collected_concat [OF lay dom dpv k cs] g by blast
  ultimately show ?case by blast
qed

text \<open>
  The listing returns the first \<open>limit\<close> entries of the list of all stored files up to the requested
  value, largest value first.
\<close>

lemma list_directory_partitioned_ok:
  assumes lay: "partitioned_layout F fs base transform levels parser True S"
    and dom: "\<forall>e \<in> S. domain (st_value e)" and dpv: "domain pv" and ord: "ordered_names S"
    and lim: "limit = None \<or> (\<exists>l > 0. limit = Some l)"
  shows "\<exists>out. list_directory_partitioned F fs base pv transform parser limit dir_parser None True False unp None
           = Inr (slice_opt limit out) \<and>
    set out = stored_entry base transform ` {e \<in> S. st_value e \<le> pv} \<and> distinct out \<and>
    sorted_wrt (\<lambda>x y. entry_value parser y \<le> entry_value parser x) out"
proof -
  obtain out where out: "collected base parser S pv [] out"
    and run: "limited (traverse_partitions levels F fs (dirs pv) (Some default_exclude_prefixes) False True dir_parser
      pv parser None None base []) out"
    using traverse_limited [OF lay dom dpv ord, of "[]" levels] by auto
  have T: "transform pv = Inr (dirs pv)" and len: "length (dirs pv) = levels"
    and sl: "\<not> (\<exists>n \<in> set (dirs pv). slash \<in> set n)"
    using dirs_facts [OF dpv] by (auto simp: visible_def component_def)
  have ne: "dirs pv \<noteq> []" using len levels_pos by auto
  have "reached S pv [] = {e \<in> S. st_value e \<le> pv}"
    using within_iff dom dpv by (auto simp: reached_def)
  then have spec: "set out = stored_entry base transform ` {e \<in> S. st_value e \<le> pv}" "distinct out"
    "sorted_wrt (\<lambda>x y. entry_value parser y \<le> entry_value parser x) out"
    using out by (auto simp: collected_def)
  have find: "find_existing_prior_partitions F fs base (dirs pv) limit (Some default_exclude_prefixes) False True
      dir_parser pv parser None None = Inr (slice_opt limit out)"
    using run lim ne by (auto simp: find_existing_prior_partitions_def len limited_def slice_opt_def slice_to_def)
  obtain items where items: "list_directory F fs base (Some default_exclude_prefixes) True False = Inr items"
    "\<forall>x \<in> set items. snd x = None"
  proof -
    obtain fis where fis: "fs_select F fs base False True = Inr fis"
      "fi_path ` set fis = path_join base ` {d. [d] \<in> prefixes_of transform S}" "\<forall>fi \<in> set fis. fi_size fi = None"
      using layout_base [OF lay] by (auto simp: lists_dirs_def)
    have "dir_path base" using lay by (simp add: partitioned_layout_def)
    moreover have "\<forall>fi \<in> set fis. \<exists>n. visible n \<and> fi_path fi = path_join base n"
      using listed_visible [OF dom, of fis base "[]"] fis(2) by simp
    ultimately have "list_directory F fs base (Some default_exclude_prefixes) True False =
        Inr (sort_desc fst (map (\<lambda>fi. (fi_path fi, fi_size fi)) fis))"
      using list_directory_visible [OF fis(1)] by blast
    then show thesis
      using that [of "sort_desc fst (map (\<lambda>fi. (fi_path fi, fi_size fi)) fis)"] fis(3) by auto
  qed
  have "parse_unpartitioned parser pv None items = Inr []"
    using items(2) by (induction items) auto
  then have unp: "collect_unpartitioned_files F fs base pv parser rl (Some default_exclude_prefixes) True None = Inr []" for rl
    using items(1) by (simp add: collect_unpartitioned_files_def slice_opt_def slice_to_def split: option.splits)
  have "list_directory_partitioned F fs base pv transform parser limit dir_parser None True False unp None
       = Inr (slice_opt limit out)"
    using lim T sl find unp by (auto simp: list_directory_partitioned_def Let_def)
  with spec show ?thesis by blast
qed

end

subsection \<open>The scheme of the metadata revisions\<close>

lemma int_to_str_visible: "0 \<le> i \<Longrightarrow> visible (int_to_str i)"
proof -
  assume "0 \<le> i"
  then have d: "isdigit (int_to_str i)" by simp
  then obtain c cs where c: "int_to_str i = c # cs" by (cases "int_to_str i") (auto simp: isdigit_def)
  then have "is_decimal c" using d by (simp add: isdigit_def)
  then have "c \<noteq> CHR ''.''" "c \<noteq> CHR ''_''" using is_decimal_facts by blast+
  then show ?thesis using component_isdigit [OF d] c by (simp add: visible_def starts_with_def)
qed

lemma round_up_round_up: "round_up 1000000 (round_up 1000 v) = round_up 1000000 v"
proof -
  let ?r = "round_up 1000 v" and ?s = "round_up 1000000 v"
  have dvd: "1000 dvd ?s" using dvd_trans [of 1000 1000000 ?s] by simp
  then obtain k where k: "?s = k * 1000" by (metis dvd_def mult.commute)
  have "?r \<le> ?s" using round_up_least [of 1000 v k] round_up_bounds(1) [of 1000000 v] k by simp
  then have "round_up 1000000 ?r \<le> ?s"
    using round_up_least [of 1000000 ?r "?s div 1000000"] by simp
  moreover have "?s \<le> round_up 1000000 ?r" using round_up_mono [of 1000000 v ?r] round_up_bounds(1) [of 1000 v] by simp
  ultimately show ?thesis by simp
qed

lemma round_up_shift: "round_up 1000 (v - (round_up 1000000 w - 1000000)) = round_up 1000 v - (round_up 1000000 w - 1000000)"
proof -
  have "1000 dvd round_up 1000000 w" using dvd_trans [of 1000 1000000 "round_up 1000000 w"] by simp
  then obtain k where "round_up 1000000 w = k * 1000" by (metis dvd_def mult.commute)
  then show ?thesis using round_up_add_multiple [of 1000 v "1000 - k"] by (simp add: algebra_simps)
qed

interpretation rev_scheme: partition_scheme rev_transform rev_dir_parser rev_domain 2
proof unfold_locales
  show "(0::nat) < 2" by simp
next
  fix v assume v: "rev_domain v"
  then have pos: "0 < v" by (simp add: rev_domain_def)
  have "0 < v - (round_up 1000000 v - 1000000)" using round_up_bounds(2) [of 1000000 v] by simp
  then have "0 < round_up 1000 (v - (round_up 1000000 v - 1000000))" by (intro round_up_pos) auto
  then have "list_all visible [int_to_str (round_up 1000000 v),
      int_to_str (round_up 1000 (v - (round_up 1000000 v - 1000000)))]"
    using round_up_pos [of 1000000 v] pos by (auto intro!: int_to_str_visible)
  then show "\<exists>ds. rev_transform v = Inr ds \<and> length ds = 2 \<and> list_all visible ds"
    using rev_transform_eq [OF v] by simp
next
  fix v ds and j :: nat
  assume v: "rev_domain v" "rev_transform v = Inr ds" and j: "0 < j" "j \<le> 2"
  show "\<exists>n. rev_dir_parser (take j ds) = Some n"
    by (rule rev_transform_ok [OF v(1)]) (use v j in \<open>auto simp: le_Suc_eq numeral_2_eq_2\<close>)
next
  fix v w ds es m n and j :: nat
  assume a: "rev_domain v" "rev_domain w" "v \<le> w" "rev_transform v = Inr ds" "rev_transform w = Inr es"
    "0 < j" "j \<le> 2" "rev_dir_parser (take j ds) = Some m" "rev_dir_parser (take j es) = Some n"
  obtain d0 d1 where d: "ds = [d0, d1]" "rev_dir_parser [d0] = Some (round_up 1000000 v)"
    "rev_dir_parser [d0, d1] = Some (round_up 1000 v)" using rev_transform_dirs [OF a(1) a(4)] by blast
  obtain e0 e1 where e: "es = [e0, e1]" "rev_dir_parser [e0] = Some (round_up 1000000 w)"
    "rev_dir_parser [e0, e1] = Some (round_up 1000 w)" using rev_transform_dirs [OF a(2) a(5)] by blast
  have "j = 1 \<or> j = 2" using a(6,7) by auto
  then show "m \<le> n"
    using a(3,8,9) d e round_up_mono [of 1000000 v w] round_up_mono [of 1000 v w] by auto
next
  fix v w ds es and j :: nat
  assume a: "rev_domain v" "rev_domain w" "rev_transform v = Inr ds" "rev_transform w = Inr es"
    "0 < j" "j \<le> 2" "rev_dir_parser (take j ds) = rev_dir_parser (take j es)"
  obtain d0 d1 where d: "ds = [d0, d1]" "rev_dir_parser [d0] = Some (round_up 1000000 v)"
    "rev_dir_parser [d0, d1] = Some (round_up 1000 v)" using rev_transform_dirs [OF a(1) a(3)] by blast
  obtain e0 e1 where e: "es = [e0, e1]" "rev_dir_parser [e0] = Some (round_up 1000000 w)"
    "rev_dir_parser [e0, e1] = Some (round_up 1000 w)" using rev_transform_dirs [OF a(2) a(4)] by blast
  have "round_up 1000000 v = round_up 1000000 w"
  proof (cases "j = 1")
    case True
    then show ?thesis using a(7) d e by simp
  next
    case False
    then have "j = 2" using a(5,6) by simp
    then have "round_up 1000 v = round_up 1000 w" using a(7) d e by simp
    then show ?thesis by (metis round_up_round_up)
  qed
  moreover have "round_up 1000 v = round_up 1000 w" if "j = 2" using that a(7) d e by simp
  moreover have "j = 1 \<or> j = 2" using a(5,6) by auto
  ultimately show "take j ds = take j es"
    using rev_transform_eq [OF a(1)] rev_transform_eq [OF a(2)] a(3,4) by (auto simp: round_up_shift)
qed

end
