(* ===== verification/MemoryFS.thy ===== *)
theory MemoryFS
  imports PartitionedListing
begin

text \<open>
  A concrete file system to run the model on: an association list from paths to contents with
  implicit directories, the way object stores behave. It instantiates the file system parameter in
  the witnesses of the development, and it satisfies \<open>partitioned_layout\<close> for every set of files
  stored below the directories of their values.
\<close>

subsection \<open>The file system\<close>

type_synonym 'd mem = "(string \<times> 'd) list"

text \<open>The components of a path below a directory.\<close>

definition below :: "string \<Rightarrow> string \<Rightarrow> string list option" where
  "below d p =
     (let a = split_on slash d; b = split_on slash p
      in if take (length a) b = a \<and> length a < length b then Some (drop (length a) b) else None)"

definition mem_child :: "('d \<Rightarrow> nat) \<Rightarrow> string \<Rightarrow> bool \<Rightarrow> string \<times> 'd \<Rightarrow> file_info option" where
  "mem_child sz d recursive pc =
     (case below d (fst pc) of
        None \<Rightarrow> None
      | Some [] \<Rightarrow> None
      | Some [n] \<Rightarrow> Some \<lparr>fi_path = path_join d n, fi_size = Some (sz (snd pc)), fi_type = File\<rparr>
      | Some (n # m # ns) \<Rightarrow>
          if recursive then Some \<lparr>fi_path = fst pc, fi_size = Some (sz (snd pc)), fi_type = File\<rparr>
          else Some \<lparr>fi_path = path_join d n, fi_size = None, fi_type = Directory\<rparr>)"

definition mem_select :: "('d \<Rightarrow> nat) \<Rightarrow> 'd mem \<Rightarrow> string \<Rightarrow> bool \<Rightarrow> bool \<Rightarrow> file_info list res" where
  "mem_select sz fs d recursive allow =
     (let found = remdups (List.map_filter (mem_child sz d recursive) fs)
      in if found = [] \<and> \<not> allow then Inl FileNotFoundError else Inr found)"

definition mem_info :: "('d \<Rightarrow> nat) \<Rightarrow> 'd mem \<Rightarrow> string \<Rightarrow> file_info res" where
  "mem_info sz fs p =
     (case map_of fs p of
        Some c \<Rightarrow> Inr \<lparr>fi_path = p, fi_size = Some (sz c), fi_type = File\<rparr>
      | None \<Rightarrow>
          if \<exists>q \<in> set fs. below p (fst q) \<noteq> None
          then Inr \<lparr>fi_path = p, fi_size = None, fi_type = Directory\<rparr>
          else Inr \<lparr>fi_path = p, fi_size = None, fi_type = NotFound\<rparr>)"

definition mem_delete :: "string \<Rightarrow> ('d mem, unit) io" where
  "mem_delete p fs =
     (if map_of fs p = None then (Inl FileNotFoundError, fs)
      else (Inr (), filter (\<lambda>q. fst q \<noteq> p) fs))"

definition mem_write :: "string \<Rightarrow> 'd \<Rightarrow> ('d mem, unit) io" where
  "mem_write p c fs = (Inr (), (p, c) # filter (\<lambda>q. fst q \<noteq> p) fs)"

definition mem_F :: "('d \<Rightarrow> nat) \<Rightarrow> ('d mem, 'd) filesystem" where
  "mem_F sz =
     \<lparr>fs_select = mem_select sz, fs_info = mem_info sz, fs_create_dir = (\<lambda>_ _. io_return ()),
      fs_write = mem_write, fs_read = (\<lambda>fs p. of_option FileNotFoundError (map_of fs p)),
      fs_delete_file = mem_delete\<rparr>"

lemma mem_F_simps [simp]:
  "fs_select (mem_F sz) = mem_select sz" "fs_info (mem_F sz) = mem_info sz"
  "fs_create_dir (mem_F sz) = (\<lambda>_ _. io_return ())" "fs_write (mem_F sz) = mem_write"
  "fs_read (mem_F sz) = (\<lambda>fs p. of_option FileNotFoundError (map_of fs p))"
  "fs_delete_file (mem_F sz) = mem_delete"
  by (simp_all add: mem_F_def)

lemma below_path_join_all:
  assumes "dir_path base" "\<forall>n \<in> set pre. component n" "\<forall>n \<in> set cs. component n"
  shows "below (path_join_all base pre) (path_join_all base cs) =
    (if take (length pre) cs = pre \<and> length pre < length cs then Some (drop (length pre) cs) else None)"
  using assms by (simp add: below_def split_on_path_join_all)

lemma below_join: "dir_path d \<Longrightarrow> component n \<Longrightarrow> below d (path_join d n) = Some [n]"
  using below_path_join_all [of d "[]" "[n]"] by simp

subsection \<open>Layouts of stored files\<close>

text \<open>\<open>mem_holds\<close>: the files below \<open>base\<close> are exactly those of \<open>S\<close>, each once.\<close>

definition mem_holds ::
  "('d \<Rightarrow> nat) \<Rightarrow> 'd mem \<Rightarrow> string \<Rightarrow> (int \<Rightarrow> string list res) \<Rightarrow> stored set \<Rightarrow> bool" where
  "mem_holds sz fs base transform S \<longleftrightarrow>
     distinct (map fst fs) \<and>
     (\<lambda>(p, c). (p, Some (sz c))) ` {q \<in> set fs. below base (fst q) \<noteq> None} = stored_entry base transform ` S"

lemma map_filter_set: "set (List.map_filter f xs) = {y. \<exists>x \<in> set xs. f x = Some y}"
  by (induction xs) (auto simp: List.map_filter_simps split: option.splits)

lemma mem_holds_stored:
  assumes "mem_holds sz fs base transform S" "q \<in> set fs" "below base (fst q) \<noteq> None"
  obtains e where "e \<in> S" "fst q = stored_path base transform e" "sz (snd q) = st_size e"
proof -
  have "(fst q, Some (sz (snd q))) \<in> (\<lambda>(p, c). (p, Some (sz c))) ` {q \<in> set fs. below base (fst q) \<noteq> None}"
    using assms(2,3) by (auto intro!: image_eqI [of _ _ q] split: prod.splits)
  then have "(fst q, Some (sz (snd q))) \<in> stored_entry base transform ` S"
    using assms(1) by (simp add: mem_holds_def)
  then show ?thesis using that by (auto simp: stored_entry_def)
qed

lemma stored_mem_holds:
  assumes "mem_holds sz fs base transform S" "e \<in> S"
  obtains c where "(stored_path base transform e, c) \<in> set fs" "sz c = st_size e"
proof -
  have "stored_entry base transform e \<in> (\<lambda>(p, c). (p, Some (sz c))) ` {q \<in> set fs. below base (fst q) \<noteq> None}"
    using assms by (simp add: mem_holds_def)
  then show ?thesis using that by (auto simp: stored_entry_def)
qed

lemma below_dir:
  assumes "dir_path base" "\<forall>n \<in> set pre. component n" "below (path_join_all base pre) p = Some r"
  shows "below base p = Some (pre @ r)"
proof -
  let ?a = "split_on slash base" and ?b = "split_on slash p"
  have t: "take (length ?a + length pre) ?b = ?a @ pre" "length ?a + length pre < length ?b"
    and r: "r = drop (length ?a + length pre) ?b"
    using assms(3) by (auto simp: below_def Let_def split_on_path_join_all [OF assms(1,2)] split: if_splits)
  have b: "?b = ?a @ pre @ r" by (metis append_assoc append_take_drop_id r t(1))
  moreover have "0 < length (pre @ r)" using t(2) b by auto
  ultimately show ?thesis by (simp add: below_def)
qed

text \<open>What a stored file contributes to the listing of a directory of the tree.\<close>

lemma mem_child_stored:
  assumes "dir_path base" "\<forall>n \<in> set pre. component n" "\<forall>n \<in> set ds. component n" "component nm"
    "length pre \<le> length ds"
  shows "mem_child sz (path_join_all base pre) False (path_join (path_join_all base ds) nm, c) =
    (if take (length pre) ds = pre
     then Some (if length pre < length ds
                then \<lparr>fi_path = path_join (path_join_all base pre) (ds ! length pre), fi_size = None, fi_type = Directory\<rparr>
                else \<lparr>fi_path = path_join (path_join_all base pre) nm, fi_size = Some (sz c), fi_type = File\<rparr>)
     else None)"
proof -
  have b: "below (path_join_all base pre) (path_join (path_join_all base ds) nm) =
    (if take (length pre) ds = pre then Some (drop (length pre) (ds @ [nm])) else None)"
    using below_path_join_all [of base pre "ds @ [nm]"] assms by (auto simp: path_join_all_append)
  show ?thesis
  proof (cases "length pre < length ds")
    case True
    then have "drop (length pre) (ds @ [nm]) = ds ! length pre # drop (Suc (length pre)) ds @ [nm]"
      by (simp add: Cons_nth_drop_Suc [OF True, symmetric])
    then show ?thesis using True b by (cases "drop (Suc (length pre)) ds") (auto simp: mem_child_def)
  next
    case False
    then have "drop (length pre) (ds @ [nm]) = [nm]" using assms(5) by simp
    with b have "below (path_join_all base pre) (path_join (path_join_all base ds) nm) =
        (if take (length pre) ds = pre then Some [nm] else None)" by (simp only:)
    then show ?thesis using False by (simp only: mem_child_def fst_conv snd_conv if_False) simp
  qed
qed

definition tree_child :: "string \<Rightarrow> (int \<Rightarrow> string list res) \<Rightarrow> string list \<Rightarrow> stored \<Rightarrow> file_info" where
  "tree_child base transform pre e =
     (let D = path_join_all base pre; ds = dirs_of transform (st_value e)
      in if length pre < length ds
         then \<lparr>fi_path = path_join D (ds ! length pre), fi_size = None, fi_type = Directory\<rparr>
         else \<lparr>fi_path = path_join D (st_name e), fi_size = Some (st_size e), fi_type = File\<rparr>)"

lemma mem_select_tree:
  assumes base: "dir_path base" and holds: "mem_holds sz fs base transform S"
    and dirs: "\<forall>e \<in> S. length (dirs_of transform (st_value e)) = levels \<and>
      (\<forall>n \<in> set (dirs_of transform (st_value e)). component n) \<and> component (st_name e)"
    and pre: "\<forall>n \<in> set pre. component n" "length pre \<le> levels"
  shows "set (List.map_filter (mem_child sz (path_join_all base pre) False) fs) =
    tree_child base transform pre ` {e \<in> S. take (length pre) (dirs_of transform (st_value e)) = pre}"
    (is "?L = ?R")
proof (intro set_eqI iffI)
  have child: "mem_child sz (path_join_all base pre) False (stored_path base transform e, c) =
      (if take (length pre) (dirs_of transform (st_value e)) = pre then Some (tree_child base transform pre e) else None)"
    if "e \<in> S" "sz c = st_size e" for e c
    using mem_child_stored [OF base pre(1), of "dirs_of transform (st_value e)" "st_name e" sz c] dirs that pre(2)
    by (simp add: stored_path_def tree_child_def Let_def)
  {
    fix fi assume "fi \<in> ?L"
    then obtain q where q: "q \<in> set fs" "mem_child sz (path_join_all base pre) False q = Some fi"
      by (auto simp: map_filter_set)
    then obtain r where "below (path_join_all base pre) (fst q) = Some r"
      by (auto simp: mem_child_def split: option.splits)
    then have "below base (fst q) \<noteq> None" using below_dir [OF base pre(1)] by blast
    then obtain e where e: "e \<in> S" "fst q = stored_path base transform e" "sz (snd q) = st_size e"
      using mem_holds_stored [OF holds q(1)] by blast
    then show "fi \<in> ?R" using child [of e "snd q"] q(2) by (cases q) (auto split: if_splits)
  next
    fix fi assume "fi \<in> ?R"
    then obtain e where e: "e \<in> S" "take (length pre) (dirs_of transform (st_value e)) = pre"
      "fi = tree_child base transform pre e" by blast
    obtain c where "(stored_path base transform e, c) \<in> set fs" "sz c = st_size e"
      using stored_mem_holds [OF holds e(1)] .
    then show "fi \<in> ?L" using child [of e c] e by (auto simp: map_filter_set)
  }
qed

lemma distinct_map_remdups:
  "inj_on f (set xs) \<Longrightarrow> distinct (map f (remdups xs))"
  by (simp add: distinct_map)

lemma mem_holds_size:
  assumes "mem_holds sz fs base transform S" "e \<in> S" "f \<in> S"
    "stored_path base transform e = stored_path base transform f"
  shows "st_size e = st_size f"
proof -
  obtain c where c: "(stored_path base transform e, c) \<in> set fs" "sz c = st_size e"
    using stored_mem_holds [OF assms(1,2)] .
  obtain d where d: "(stored_path base transform f, d) \<in> set fs" "sz d = st_size f"
    using stored_mem_holds [OF assms(1,3)] .
  have "distinct (map fst fs)" using assms(1) by (simp add: mem_holds_def)
  then have "c = d" using c(1) d(1) assms(4) by (metis eq_key_imp_eq_value)
  then show ?thesis using c d by simp
qed

text \<open>Stored files below a complete list of directories, each with proper names.\<close>

definition tree_ok :: "(int \<Rightarrow> string list res) \<Rightarrow> nat \<Rightarrow> stored set \<Rightarrow> bool" where
  "tree_ok transform levels S \<longleftrightarrow>
     (\<forall>e \<in> S. length (dirs_of transform (st_value e)) = levels \<and>
        (\<forall>n \<in> set (dirs_of transform (st_value e)). component n) \<and> component (st_name e))"

lemma tree_ok_prefix:
  assumes "tree_ok transform levels S" "pre \<in> prefixes_of transform S"
  shows "\<forall>n \<in> set pre. component n" "length pre \<le> levels"
  using assms by (fastforce simp: tree_ok_def prefixes_of_def dest: in_set_takeD)+

lemma prefixes_of_child:
  assumes ok: "tree_ok transform levels S" and short: "length pre < levels"
  shows "{dirs_of transform (st_value e) ! length pre | e. e \<in> S \<and> take (length pre) (dirs_of transform (st_value e)) = pre}
    = {d. pre @ [d] \<in> prefixes_of transform S}" (is "?L = ?R")
proof (intro set_eqI iffI)
  let ?d = "\<lambda>e. dirs_of transform (st_value e)"
  fix d assume "d \<in> ?L"
  then obtain e where e: "e \<in> S" "take (length pre) (?d e) = pre" "d = ?d e ! length pre" by blast
  then have "take (Suc (length pre)) (?d e) = pre @ [d]"
    using short ok by (simp add: take_Suc_conv_app_nth tree_ok_def)
  then show "d \<in> ?R" using e(1) by (auto simp: prefixes_of_def) metis
next
  let ?d = "\<lambda>e. dirs_of transform (st_value e)"
  fix d assume "d \<in> ?R"
  then obtain e j where e: "e \<in> S" "pre @ [d] = take j (?d e)" by (auto simp: prefixes_of_def)
  then have "?d e = pre @ [d] @ drop j (?d e)" by (metis append_assoc append_take_drop_id)
  then have "take (length pre) (?d e) = pre" "?d e ! length pre = d"
    by (metis append_eq_conv_conj, metis append_Cons append_Nil nth_append_length)
  then show "d \<in> ?L" using e(1) by blast
qed

lemma mem_select_prefix:
  assumes base: "dir_path base" and holds: "mem_holds sz fs base transform S" and ok: "tree_ok transform levels S"
    and pre: "pre \<in> prefixes_of transform S \<or> pre = [] \<and> allow"
  obtains fis where "mem_select sz fs (path_join_all base pre) False allow = Inr (remdups fis)"
    "set fis = tree_child base transform pre ` {e \<in> S. take (length pre) (dirs_of transform (st_value e)) = pre}"
proof -
  let ?fis = "List.map_filter (mem_child sz (path_join_all base pre) False) fs"
  have c: "\<forall>n \<in> set pre. component n" "length pre \<le> levels" using pre tree_ok_prefix [OF ok] by auto
  note tree = mem_select_tree [OF base holds ok [unfolded tree_ok_def] c]
  have "?fis \<noteq> []" if in_S: "pre \<in> prefixes_of transform S"
  proof -
    obtain e j where e: "e \<in> S" "pre = take j (dirs_of transform (st_value e))"
      using in_S by (auto simp: prefixes_of_def)
    then have "tree_child base transform pre e \<in> set ?fis" using tree by (auto simp: min_def)
    then show ?thesis by (metis empty_iff empty_set)
  qed
  then have "mem_select sz fs (path_join_all base pre) False allow = Inr (remdups ?fis)"
    using pre by (auto simp: mem_select_def Let_def)
  then show ?thesis using that tree by blast
qed

lemma mem_lists_dirs:
  assumes base: "dir_path base" and holds: "mem_holds sz fs base transform S" and ok: "tree_ok transform levels S"
    and pre: "pre \<in> prefixes_of transform S \<or> pre = [] \<and> allow" and short: "length pre < levels"
  shows "lists_dirs (mem_F sz) fs (path_join_all base pre) allow {d. pre @ [d] \<in> prefixes_of transform S}"
proof -
  let ?D = "path_join_all base pre" and ?d = "\<lambda>e. dirs_of transform (st_value e)"
  obtain fis where sel: "mem_select sz fs ?D False allow = Inr (remdups fis)"
    and tree: "set fis = tree_child base transform pre ` {e \<in> S. take (length pre) (?d e) = pre}"
    using mem_select_prefix [OF base holds ok pre] .
  have child: "tree_child base transform pre e =
      \<lparr>fi_path = path_join ?D (?d e ! length pre), fi_size = None, fi_type = Directory\<rparr>" if "e \<in> S" for e
    using that ok short by (simp add: tree_child_def Let_def tree_ok_def)
  have fis: "set fis = (\<lambda>d. \<lparr>fi_path = path_join ?D d, fi_size = None, fi_type = Directory\<rparr>) `
      {d. pre @ [d] \<in> prefixes_of transform S}"
    unfolding tree prefixes_of_child [OF ok short, symmetric] using child by (auto simp: image_iff)
  have "inj_on fi_path (set fis)" unfolding fis by (auto simp: inj_on_def)
  then have "distinct (map fi_path (remdups fis))" by (rule distinct_map_remdups)
  moreover have "fi_path ` set (remdups fis) = path_join ?D ` {d. pre @ [d] \<in> prefixes_of transform S}"
    "\<forall>fi \<in> set (remdups fis). fi_size fi = None" by (auto simp: fis image_image)
  ultimately show ?thesis unfolding lists_dirs_def mem_F_simps sel by blast
qed

lemma mem_lists_files:
  assumes base: "dir_path base" and holds: "mem_holds sz fs base transform S" and ok: "tree_ok transform levels S"
    and pre: "pre \<in> prefixes_of transform S" "length pre = levels"
  shows "lists_files (mem_F sz) fs (path_join_all base pre)
    {stored_entry base transform e | e. e \<in> S \<and> dirs_of transform (st_value e) = pre}"
proof -
  let ?D = "path_join_all base pre" and ?T = "{e \<in> S. dirs_of transform (st_value e) = pre}"
  obtain fis where sel: "mem_select sz fs ?D False False = Inr (remdups fis)"
    and tree: "set fis = tree_child base transform pre ` {e \<in> S. take (length pre) (dirs_of transform (st_value e)) = pre}"
    using mem_select_prefix [OF base holds ok, of pre False] pre(1) by blast
  have T: "{e \<in> S. take (length pre) (dirs_of transform (st_value e)) = pre} = ?T"
    using ok pre(2) by (auto simp: tree_ok_def)
  have child: "tree_child base transform pre e =
      \<lparr>fi_path = stored_path base transform e, fi_size = Some (st_size e), fi_type = File\<rparr>" if "e \<in> ?T" for e
    using that by (simp add: tree_child_def stored_path_def)
  have fis: "set fis = (\<lambda>e. \<lparr>fi_path = stored_path base transform e, fi_size = Some (st_size e), fi_type = File\<rparr>) ` ?T"
    unfolding tree T by (rule image_cong [OF refl child])
  have "inj_on fi_path (set fis)"
  proof (rule inj_onI)
    fix x y assume "x \<in> set fis" "y \<in> set fis" and eq: "fi_path x = fi_path y"
    then obtain e f where e: "e \<in> S" "f \<in> S"
      "x = \<lparr>fi_path = stored_path base transform e, fi_size = Some (st_size e), fi_type = File\<rparr>"
      "y = \<lparr>fi_path = stored_path base transform f, fi_size = Some (st_size f), fi_type = File\<rparr>"
      unfolding fis by blast
    then show "x = y" using mem_holds_size [OF holds e(1,2)] eq by simp
  qed
  then have "distinct (map fi_path (remdups fis))" by (rule distinct_map_remdups)
  moreover have "(\<lambda>fi. (fi_path fi, fi_size fi)) ` set (remdups fis) = {stored_entry base transform e | e. e \<in> ?T}"
    unfolding set_remdups fis by (auto simp: stored_entry_def image_image)
  ultimately show ?thesis unfolding lists_files_def mem_F_simps sel by auto
qed

lemma mem_partitioned_layout:
  assumes base: "dir_path base" and holds: "mem_holds sz fs base transform S" and lev: "0 < levels"
    and ok: "tree_ok transform levels S"
    and names: "\<forall>e \<in> S. visible (st_name e) \<and> parser (stored_path base transform e) = Inr (Some (st_value e))"
  shows "partitioned_layout (mem_F sz) fs base transform levels parser True S"
proof -
  have "lists_dirs (mem_F sz) fs base True {d. [d] \<in> prefixes_of transform S}"
    using mem_lists_dirs [OF base holds ok, of "[]" True] lev by simp
  then show ?thesis
    unfolding partitioned_layout_def
    using base names mem_lists_dirs [OF base holds ok, of _ False] mem_lists_files [OF base holds ok] by blast
qed

end
