(* ===== verification/EpochPartitions.thy ===== *)
theory EpochPartitions
  imports PyNumbers
begin

text \<open>
  The time partitioning of the transaction logs, from \<^verbatim>\<open>deltacat/utils/filesystem.py\<close>:
  \<open>epoch_timestamp_partition_transform\<close> names the UTC year, month, day, hour and minute of an
  epoch timestamp, \<open>parse_epoch_timestamp_partitions\<close> reads such names back as seconds. The parts
  of \<^verbatim>\<open>datetime\<close> they use (the proleptic Gregorian calendar, and the rounding of a float timestamp to
  microseconds) are modelled; the lemmas show that the names parse back to the start of the minute.
\<close>

subsection \<open>The calendar of \<open>datetime\<close>\<close>

definition is_leap :: "int \<Rightarrow> bool" where
  "is_leap y \<longleftrightarrow> y mod 4 = 0 \<and> (y mod 100 \<noteq> 0 \<or> y mod 400 = 0)"

definition days_in_month :: "bool \<Rightarrow> int \<Rightarrow> int" where
  "days_in_month leap m =
     (if m = 2 then (if leap then 29 else 28) else if m \<in> {4, 6, 9, 11} then 30 else 31)"

definition days_before_month :: "bool \<Rightarrow> int \<Rightarrow> int" where
  "days_before_month leap m =
     (\<Sum>k \<leftarrow> [1..m - 1]. days_in_month leap k)"

definition days_before_year :: "int \<Rightarrow> int" where
  "days_before_year y = (y - 1) * 365 + (y - 1) div 4 - (y - 1) div 100 + (y - 1) div 400"

text \<open>The ordinal of a date (1 January of year 1 is day 1), and the date of an ordinal.\<close>

definition ymd2ord :: "int \<Rightarrow> int \<Rightarrow> int \<Rightarrow> int" where
  "ymd2ord y m d = days_before_year y + days_before_month (is_leap y) m + d"

fun find_month :: "bool \<Rightarrow> nat \<Rightarrow> int \<Rightarrow> int \<Rightarrow> int \<times> int" where
  "find_month leap 0 m n = (m, n + 1)"
| "find_month leap (Suc k) m n =
     (if n < days_in_month leap m then (m, n + 1)
      else find_month leap k (m + 1) (n - days_in_month leap m))"

definition ord2ymd :: "int \<Rightarrow> int \<times> int \<times> int" where
  "ord2ymd ordinal =
     (let n0 = ordinal - 1;
          n400 = n0 div 146097; r400 = n0 mod 146097;
          n100 = r400 div 36524; r100 = r400 mod 36524;
          n4 = r100 div 1461; r4 = r100 mod 1461;
          n1 = r4 div 365; r1 = r4 mod 365;
          year = n400 * 400 + 1 + n100 * 100 + n4 * 4 + n1
      in if n1 = 4 \<or> n100 = 4 then (year - 1, 12, 31)
         else (case find_month (is_leap year) 11 1 r1 of (m, d) \<Rightarrow> (year, m, d)))"

definition EPOCH_ORDINAL :: int where
  "EPOCH_ORDINAL = 719163"

subsection \<open>Timestamps\<close>

definition round_half_even :: "int \<Rightarrow> int \<Rightarrow> int" where
  "round_half_even a b =
     (let q = a div b; r = a mod b
      in if 2 * r < b then q else if b < 2 * r then q + 1 else if even q then q else q + 1)"

fun bit_length_above :: "nat \<Rightarrow> int \<Rightarrow> nat" where
  "bit_length_above 0 n = 0"
| "bit_length_above (Suc fuel) n = (if n < 2 then 0 else Suc (bit_length_above fuel (n div 2)))"

text \<open>
  \<^verbatim>\<open>n / d\<close> for integers is the double nearest to the quotient, ties to even. For a quotient
  between 1 and 2 to the 52 it is \<open>m / 2 ^ e\<close> with the 53-bit numerator \<open>m\<close>; \<open>e\<close> is 52 less
  the position of the quotient's leading bit. (64 halvings reach the leading bit of every quotient
  that \<^verbatim>\<open>fromtimestamp\<close> does not refuse.)
\<close>

definition float_div :: "int \<Rightarrow> int \<Rightarrow> int \<times> nat" where
  "float_div n d =
     (let e = 52 - bit_length_above 64 (n div d)
      in (round_half_even (n * 2 ^ e) d, e))"

text \<open>
  The seconds of \<^verbatim>\<open>datetime.fromtimestamp(x, tz=timezone.utc)\<close> for such a double: the fraction is
  rounded to microseconds, ties to even, and may carry into the seconds.
\<close>

definition timestamp_seconds :: "int \<times> nat \<Rightarrow> int" where
  "timestamp_seconds x =
     (let m = fst x; unit = 2 ^ snd x;
          us = round_half_even (m mod unit * 1000000) unit
      in m div unit + (if 1000000 \<le> us then 1 else 0))"

definition check_timestamp :: "int \<Rightarrow> int res" where
  "check_timestamp s =
     (if 2 ^ 63 \<le> s then Inl OverflowError
      else if 67768036191676799 < s then Inl OSError
      else if 253402300799 < s then Inl ValueError
      else Inr s)"

definition partition_components :: "int \<Rightarrow> string list" where
  "partition_components s =
     (case ord2ymd (s div 86400 + EPOCH_ORDINAL) of (year, month, day) \<Rightarrow>
        [zero_pad 4 year, zero_pad 2 month, zero_pad 2 day,
         zero_pad 2 (s mod 86400 div 3600), zero_pad 2 (s mod 3600 div 60)])"

text \<open>The second an epoch timestamp falls into, by its precision (number of decimal digits).\<close>

definition epoch_seconds :: "int \<Rightarrow> int res" where
  "epoch_seconds epoch_timestamp =
     (let digits = length (int_to_str epoch_timestamp)
      in if 19 \<le> digits
         then (if 2 ^ 63 \<le> epoch_timestamp div 1000000000 then Inl OverflowError
               else check_timestamp (timestamp_seconds (float_div epoch_timestamp 1000000000)))
         else if 13 \<le> digits
         then check_timestamp (timestamp_seconds (float_div epoch_timestamp 1000))
         else if 10 \<le> digits then check_timestamp epoch_timestamp
         else Inl ValueError)"

definition epoch_timestamp_partition_transform :: "int \<Rightarrow> string list res" where
  "epoch_timestamp_partition_transform epoch_timestamp =
     (if epoch_timestamp < 0 then Inl ValueError
      else rbind (epoch_seconds epoch_timestamp) (\<lambda>s. Inr (partition_components s)))"

definition parse_epoch_timestamp_partitions :: "string list \<Rightarrow> int option" where
  "parse_epoch_timestamp_partitions partition_dirs =
     (case partition_dirs of
        [] \<Rightarrow> None
      | y # _ \<Rightarrow>
          let part = (\<lambda>i default. if i < length partition_dirs then py_int (partition_dirs ! i)
                                  else Some default)
          in (case (py_int y, part 1 1, part 2 1, part 3 0, part 4 0) of
                (Some year, Some month, Some day, Some hour, Some minute) \<Rightarrow>
                  if \<not> (1 \<le> month \<and> month \<le> 12) then None
                  else if \<not> (1 \<le> day \<and> day \<le> 31) then None
                  else if \<not> (0 \<le> hour \<and> hour \<le> 23) then None
                  else if \<not> (0 \<le> minute \<and> minute \<le> 59) then None
                  else if \<not> (1 \<le> year \<and> year \<le> 9999) then None
                  else if days_in_month (is_leap year) month < day then None
                  else Some ((ymd2ord year month day - EPOCH_ORDINAL) * 86400 + hour * 3600 + minute * 60)
              | _ \<Rightarrow> None))"

subsection \<open>Dates and ordinals\<close>

lemma days_before_month_1 [simp]: "days_before_month leap 1 = 0"
  by (simp add: days_before_month_def)

lemma days_before_month_step:
  assumes "1 \<le> m"
  shows "days_before_month leap (m + 1) = days_before_month leap m + days_in_month leap m"
proof -
  have "[1..m] = [1..m - 1] @ [m]" using assms by (simp add: upto_rec2)
  then show ?thesis by (simp add: days_before_month_def)
qed

lemma days_before_month_table:
  "days_before_month leap 12 = (if leap then 335 else 334)"
  "days_before_month leap 13 = (if leap then 366 else 365)"
  by (simp_all add: days_before_month_def upto.simps days_in_month_def)

lemma find_month_facts:
  assumes "find_month leap k m n = (m', d)" "0 \<le> n" "1 \<le> m" "m + int k = 12"
    "n < days_before_month leap 13 - days_before_month leap m"
  shows "days_before_month leap m' + d = days_before_month leap m + n + 1 \<and>
    1 \<le> m' \<and> m' \<le> 12 \<and> 1 \<le> d \<and> d \<le> days_in_month leap m'"
  using assms
proof (induction k arbitrary: m n)
  case 0
  have "days_before_month leap 13 = days_before_month leap 12 + days_in_month leap 12"
    using days_before_month_step [of 12 leap] by simp
  then show ?case using 0 by auto
next
  case (Suc k)
  show ?case
  proof (cases "n < days_in_month leap m")
    case True
    then show ?thesis using Suc.prems by auto
  next
    case False
    then show ?thesis
      using Suc.prems Suc.IH [of "m + 1" "n - days_in_month leap m"] days_before_month_step [of m leap]
      by auto
  qed
qed

lemma days_before_year_decomp:
  assumes "y - 1 = 400 * a + 100 * b + 4 * c + d" "0 \<le> b" "b \<le> 3" "0 \<le> c" "c \<le> 24" "0 \<le> d" "d \<le> 3"
  shows "days_before_year y = 146097 * a + 36524 * b + 1461 * c + 365 * d"
proof -
  have "(y - 1) div 4 = 100 * a + 25 * b + c" "(y - 1) div 100 = 4 * a + b" "(y - 1) div 400 = a"
    using assms by (auto intro!: int_div_pos_eq [where r = d] int_div_pos_eq [where r = "4 * c + d"]
        int_div_pos_eq [where r = "100 * b + 4 * c + d"])
  then show ?thesis using assms(1) by (simp add: days_before_year_def)
qed

lemma ord2ymd_facts:
  assumes "1 \<le> n" "ord2ymd n = (y, m, d)"
  shows "ymd2ord y m d = n \<and> 1 \<le> y \<and> 1 \<le> m \<and> m \<le> 12 \<and> 1 \<le> d \<and> d \<le> days_in_month (is_leap y) m"
proof -
  define n0 where "n0 = n - 1"
  define a where "a = n0 div 146097"
  define r400 where "r400 = n0 mod 146097"
  define b where "b = r400 div 36524"
  define r100 where "r100 = r400 mod 36524"
  define c where "c = r100 div 1461"
  define r4 where "r4 = r100 mod 1461"
  define e where "e = r4 div 365"
  define r1 where "r1 = r4 mod 365"
  note defs = n0_def a_def r400_def b_def r100_def c_def r4_def e_def r1_def
  have n0: "0 \<le> n0" using assms(1) by (simp add: n0_def)
  have eqs: "n0 = 146097 * a + r400" "r400 = 36524 * b + r100" "r100 = 1461 * c + r4" "r4 = 365 * e + r1"
    by (simp_all add: a_def r400_def b_def r100_def c_def r4_def e_def r1_def)
  have bnds: "0 \<le> a" "0 \<le> r400" "r400 < 146097" "0 \<le> r100" "r100 < 36524" "0 \<le> r4" "r4 < 1461"
    "0 \<le> r1" "r1 < 365"
    using n0 by (simp_all add: a_def r400_def r100_def r4_def r1_def pos_imp_zdiv_nonneg_iff)
  have lims: "0 \<le> b" "b \<le> 4" "0 \<le> c" "c \<le> 24" "0 \<le> e" "e \<le> 4"
    using eqs bnds by linarith+
  let ?y = "a * 400 + 1 + b * 100 + c * 4 + e"
  have unf: "ord2ymd n = (if e = 4 \<or> b = 4 then (?y - 1, 12, 31)
      else (case find_month (is_leap ?y) 11 1 r1 of (m, d) \<Rightarrow> (?y, m, d)))"
    unfolding ord2ymd_def Let_def defs by (rule refl)
  consider (normal) "e \<noteq> 4" "b \<noteq> 4" | (b4) "b = 4" | (e4) "e = 4" "b \<noteq> 4" by blast
  then show ?thesis
  proof cases
    case normal
    obtain m' d' where fm: "find_month (is_leap ?y) 11 1 r1 = (m', d')" by fastforce
    have res: "y = ?y" "m = m'" "d = d'" using assms(2) normal fm by (simp_all add: unf)
    have "days_before_year ?y = 146097 * a + 36524 * b + 1461 * c + 365 * e"
      using normal lims by (intro days_before_year_decomp) auto
    moreover have "r1 < days_before_month (is_leap ?y) 13 - days_before_month (is_leap ?y) 1"
      using bnds by (simp add: days_before_month_table)
    from find_month_facts [OF fm bnds(8) _ _ this] have "days_before_month (is_leap ?y) m' + d' = r1 + 1 \<and>
      1 \<le> m' \<and> m' \<le> 12 \<and> 1 \<le> d' \<and> d' \<le> days_in_month (is_leap ?y) m'" by simp
    ultimately show ?thesis
      using eqs bnds(1) lims by (auto simp: res ymd2ord_def n0_def)
  next
    case b4
    have z: "r100 = 0" "c = 0" "r4 = 0" "e = 0" "r1 = 0" using eqs bnds lims b4 by linarith+
    have res: "y = a * 400 + 400" "m = 12" "d = 31" using assms(2) b4 z by (simp_all add: unf)
    have "days_before_year y = 146097 * a + 36524 * 3 + 1461 * 24 + 365 * 3"
      by (rule days_before_year_decomp) (simp_all add: res)
    moreover have "is_leap y" by (simp add: res is_leap_def mod_mult_self3 mult.commute)
    ultimately show ?thesis
      using eqs b4 z bnds(1) by (simp add: res ymd2ord_def days_before_month_table days_in_month_def n0_def)
  next
    case e4
    have z: "r1 = 0" "c \<le> 23" "b \<le> 3" using eqs bnds lims e4 by linarith+
    have res: "y = a * 400 + b * 100 + c * 4 + 4" "m = 12" "d = 31" using assms(2) e4 by (simp_all add: unf)
    have "days_before_year y = 146097 * a + 36524 * b + 1461 * c + 365 * 3"
      using z lims by (intro days_before_year_decomp) (simp_all add: res)
    moreover have "is_leap y"
    proof -
      have "y mod 100 = 4 * c + 4" using z(2) lims(3) by (intro int_mod_pos_eq [where q = "a * 4 + b"]) (auto simp: res)
      moreover have "y mod 4 = 0" unfolding res by presburger
      ultimately show ?thesis using lims(3) by (simp add: is_leap_def)
    qed
    ultimately show ?thesis
      using eqs e4 z bnds(1) lims by (simp add: res ymd2ord_def days_before_month_table days_in_month_def n0_def)
  qed
qed

subsection \<open>Rounding of timestamps\<close>

lemma round_half_even_bounds:
  "a div b \<le> round_half_even a b" "round_half_even a b \<le> a div b + 1"
  by (simp_all add: round_half_even_def Let_def)

lemma timestamp_seconds_bounds:
  assumes "0 \<le> n" "0 < d"
  shows "n div d \<le> timestamp_seconds (float_div n d)" "timestamp_seconds (float_div n d) \<le> n div d + 1"
proof -
  obtain m e where me: "float_div n d = (m, e)" by fastforce
  let ?u = "(2::int) ^ e" and ?q = "n div d"
  have m: "m = round_half_even (n * ?u) d" using me by (auto simp: float_div_def Let_def)
  have u: "0 < ?u" by simp
  have q: "n * ?u div d div ?u = ?q"
    using zdiv_zmult2_eq [of ?u "n * ?u" d] div_mult_mult2 [of ?u n d] by simp
  have lo: "?q * ?u \<le> m"
  proof -
    have "(n * ?u div d) div ?u * ?u \<le> n * ?u div d"
      using u by (simp add: minus_mod_eq_div_mult [symmetric])
    then have "?q * ?u \<le> n * ?u div d" by (simp only: q)
    also have "\<dots> \<le> m" using round_half_even_bounds(1) by (simp add: m)
    finally show ?thesis .
  qed
  have hi: "m \<le> (?q + 1) * ?u"
  proof -
    have "n * ?u div d - (n * ?u div d) div ?u * ?u < ?u"
      using u by (simp add: minus_div_mult_eq_mod)
    then have "n * ?u div d < (?q + 1) * ?u" by (simp only: q) (simp add: algebra_simps)
    then show ?thesis using round_half_even_bounds(2) [of "n * ?u" d] by (simp add: m)
  qed
  show "?q \<le> timestamp_seconds (float_div n d)" "timestamp_seconds (float_div n d) \<le> ?q + 1"
  proof -
    have "?q \<le> m div ?u" using zdiv_mono1 [OF lo u] u by simp
    moreover have "m div ?u \<le> ?q + 1" using hi u by (metis nonzero_mult_div_cancel_right zdiv_mono1 less_irrefl)
    moreover have "m mod ?u = 0" if "m div ?u = ?q + 1"
      using hi that u by (smt (verit) mult.commute mult_div_mod_eq pos_mod_sign)
    moreover have "timestamp_seconds (float_div n d) = ?q + 1" if "m mod ?u = 0" "m div ?u = ?q + 1"
      using that by (simp add: me timestamp_seconds_def Let_def round_half_even_def)
    moreover have "m div ?u \<le> timestamp_seconds (float_div n d)"
      "timestamp_seconds (float_div n d) \<le> m div ?u + 1"
      by (simp_all add: me timestamp_seconds_def Let_def)
    ultimately show "?q \<le> timestamp_seconds (float_div n d)" "timestamp_seconds (float_div n d) \<le> ?q + 1"
      by (cases "m div ?u = ?q + 1"; linarith)+
  qed
qed

lemma epoch_seconds_bounds:
  assumes "0 \<le> t" "epoch_seconds t = Inr s"
  shows "0 \<le> s" "s \<le> 253402300799"
proof -
  have c: "s \<le> 253402300799" if "check_timestamp x = Inr s" for x
    using that by (auto simp: check_timestamp_def split: if_splits)
  show "s \<le> 253402300799" using assms(2) c by (auto simp: epoch_seconds_def Let_def split: if_splits)
  have n: "0 \<le> timestamp_seconds (float_div t 1000000000)" "0 \<le> timestamp_seconds (float_div t 1000)"
    using timestamp_seconds_bounds(1) [of t] assms(1) order_trans pos_imp_zdiv_nonneg_iff
    by (metis zero_less_numeral)+
  have "check_timestamp x = Inr s \<Longrightarrow> x = s" for x
    by (auto simp: check_timestamp_def split: if_splits)
  then show "0 \<le> s" using assms n by (auto simp: epoch_seconds_def Let_def split: if_splits)
qed

lemma year_bound:
  assumes "10000 \<le> y"
  shows "3652059 \<le> days_before_year y"
proof (cases "y = 10000")
  case True
  then show ?thesis by (simp add: days_before_year_def)
next
  case False
  then have z: "10000 \<le> y - 1" using assms by simp
  have "2500 \<le> (y - 1) div 4" "25 \<le> (y - 1) div 400"
    using zdiv_mono1 [OF z, of 4] zdiv_mono1 [OF z, of 400] by simp_all
  moreover have "100 * ((y - 1) div 100) \<le> y - 1"
    using div_mult_mod_eq [of "y - 1" 100] pos_mod_sign [of 100 "y - 1"] by linarith
  moreover have "2500 \<le> a \<Longrightarrow> 25 \<le> c \<Longrightarrow> 100 * b \<le> u \<Longrightarrow> 10000 \<le> u \<Longrightarrow>
      3652059 \<le> u * 365 + a - b + c" for a b c u :: int
    by linarith
  ultimately show ?thesis using z unfolding days_before_year_def by blast
qed

subsection \<open>Names parse back to the start of the minute\<close>

lemma days_in_month_le: "days_in_month leap m \<le> 31"
  by (simp add: days_in_month_def)

lemma days_before_month_nonneg: "0 \<le> days_before_month leap m"
  by (auto simp: days_before_month_def days_in_month_def intro!: sum_list_nonneg)

lemma parse_partition_components:
  assumes "0 \<le> s" "s \<le> 253402300799"
  shows "parse_epoch_timestamp_partitions (partition_components s) = Some (s - s mod 60)"
proof -
  let ?n = "s div 86400 + EPOCH_ORDINAL"
  obtain y m d where ymd: "ord2ymd ?n = (y, m, d)" using prod_cases3 by blast
  have n: "1 \<le> ?n" "?n \<le> 3652059"
    using assms pos_imp_zdiv_nonneg_iff [of 86400 s] by (simp_all add: EPOCH_ORDINAL_def)
  note f = ord2ymd_facts [OF n(1) ymd]
  have y: "y \<le> 9999"
  proof (rule ccontr)
    assume "\<not> y \<le> 9999"
    then have "3652059 < ymd2ord y m d"
      using year_bound [of y] f days_before_month_nonneg [of "is_leap y" m] by (simp add: ymd2ord_def)
    then show False using f n(2) by simp
  qed
  let ?h = "s mod 86400 div 3600" and ?mi = "s mod 3600 div 60"
  have hm: "0 \<le> ?h" "?h \<le> 23" "0 \<le> ?mi" "?mi \<le> 59"
    using zdiv_mono1 [of "s mod 86400" 86399 3600] zdiv_mono1 [of "s mod 3600" 3599 60]
    by (simp_all add: pos_imp_zdiv_nonneg_iff)
  have t: "s div 86400 * 86400 + ?h * 3600 + ?mi * 60 = s - s mod 60"
  proof -
    have "s mod 86400 mod 3600 = s mod 3600" "s mod 3600 mod 60 = s mod 60"
      by (simp_all add: mod_mod_cancel)
    then show ?thesis
      using div_mult_mod_eq [of s 86400] div_mult_mod_eq [of "s mod 86400" 3600]
        div_mult_mod_eq [of "s mod 3600" 60] by linarith
  qed
  have nth: "partition_components s ! 1 = zero_pad 2 m" "partition_components s ! 2 = zero_pad 2 d"
    "partition_components s ! 3 = zero_pad 2 ?h" "partition_components s ! 4 = zero_pad 2 ?mi"
    "length (partition_components s) = 5"
    by (simp_all add: partition_components_def ymd)
  have "parse_epoch_timestamp_partitions (partition_components s) =
        Some ((ymd2ord y m d - EPOCH_ORDINAL) * 86400 + ?h * 3600 + ?mi * 60)"
    using f y hm days_in_month_le [of "is_leap y" m]
    by (simp add: parse_epoch_timestamp_partitions_def partition_components_def ymd Let_def
        numeral_2_eq_2 [symmetric])
  then show ?thesis using f t by simp
qed

lemma epoch_transform_parse:
  assumes "epoch_timestamp_partition_transform t = Inr ds"
  shows "\<exists>s. epoch_seconds t = Inr s \<and> 0 \<le> t \<and> length ds = 5 \<and>
    parse_epoch_timestamp_partitions ds = Some (s - s mod 60)"
proof -
  obtain s where s: "0 \<le> t" "epoch_seconds t = Inr s" "ds = partition_components s"
    using assms by (auto simp: epoch_timestamp_partition_transform_def rbind_Inr_iff split: if_splits)
  have "length ds = 5" by (simp add: s(3) partition_components_def split: prod.splits)
  with s parse_partition_components [of s] epoch_seconds_bounds [of t s] show ?thesis by auto
qed

subsection \<open>Properties\<close>

lemma length_int_to_str_19:
  assumes "10 ^ 18 \<le> t"
  shows "19 \<le> length (int_to_str t)"
proof (rule ccontr)
  assume "\<not> 19 \<le> length (int_to_str t)"
  then have l: "length (int_to_str t) \<le> 18" by simp
  have t: "0 \<le> t" using assms by simp
  have d: "isdigit (int_to_str t)" using t by simp
  have "digits_value 0 (int_to_str t) < 1 * 10 ^ length (int_to_str t)"
    using digits_value_bounds [of "int_to_str t" 0] d by (simp add: isdigit_def)
  also have "\<dots> \<le> 10 ^ 18" using power_increasing [OF l, of "10::nat"] by simp
  finally have "int (digits_value 0 (int_to_str t)) < 10 ^ 18" by simp
  moreover have "int (digits_value 0 (int_to_str t)) = t" using py_int_isdigit [OF d] t by simp
  ultimately show False using assms by simp
qed

text \<open>The log directories of a nanosecond timestamp stand for its minute. Whenever the transform
  accepts a timestamp of at least 19 digits it gives five directories that parse back to the start of
  a minute, which is at most one second after the timestamp (the quotient is rounded to a double and
  then to microseconds) and less than a minute before it.\<close>

lemma epoch_partition_minute:
  assumes "10 ^ 18 \<le> t" "epoch_timestamp_partition_transform t = Inr ds"
  shows "length ds = 5 \<and> (\<exists>p. parse_epoch_timestamp_partitions ds = Some p \<and> p mod 60 = 0 \<and>
    p \<le> t div 10 ^ 9 + 1 \<and> t div 10 ^ 9 < p + 60)"
proof -
  obtain s where s: "epoch_seconds t = Inr s" "0 \<le> t" "length ds = 5"
    "parse_epoch_timestamp_partitions ds = Some (s - s mod 60)"
    using epoch_transform_parse [OF assms(2)] by blast
  have "s = timestamp_seconds (float_div t 1000000000)"
    using s(1) length_int_to_str_19 [OF assms(1)]
    by (auto simp: epoch_seconds_def Let_def check_timestamp_def split: if_splits)
  then have b: "t div 10 ^ 9 \<le> s" "s \<le> t div 10 ^ 9 + 1"
    using timestamp_seconds_bounds [of t 1000000000] s(2) by simp_all
  have m: "0 \<le> s mod 60" "s mod 60 < 60" by simp_all
  have "(s - s mod 60) mod 60 = 0" by (simp add: minus_mod_eq_mult_div)
  then show ?thesis using s(3,4) b m by (intro conjI exI [of _ "s - s mod 60"]) linarith+
qed

lemma epoch_partition_minute_witness:
  "length [''2023'', ''11'', ''14'', ''22'', ''13''] = 5 \<and>
   (\<exists>p. parse_epoch_timestamp_partitions [''2023'', ''11'', ''14'', ''22'', ''13''] = Some p \<and> p mod 60 = 0 \<and>
    p \<le> 1700000000123456789 div 10 ^ 9 + 1 \<and> 1700000000123456789 div 10 ^ 9 < p + 60)"
proof (rule epoch_partition_minute)
  show "epoch_timestamp_partition_transform 1700000000123456789 = Inr [''2023'', ''11'', ''14'', ''22'', ''13'']"
    by code_simp
qed simp

end
