(* ===== verification/TransactionTypes.thy ===== *)
theory TransactionTypes
  imports PyNumbers
begin

text \<open>
  The enumerations of \<^verbatim>\<open>deltacat/storage/model/types.py\<close> that transactions use, with their string
  values, and the constants of \<^verbatim>\<open>deltacat/constants.py\<close> that name log directories and revision files.
\<close>

subsection \<open>Operation types\<close>

datatype txn_op_type =
    CREATE | UPDATE | REPLACE | DELETE
  | READ_SIBLINGS | READ_CHILDREN | READ_LATEST | READ_EXISTS

fun op_value :: "txn_op_type \<Rightarrow> string" where
  "op_value CREATE = ''create''"
| "op_value UPDATE = ''update''"
| "op_value REPLACE = ''replace''"
| "op_value DELETE = ''delete''"
| "op_value READ_SIBLINGS = ''read_siblings''"
| "op_value READ_CHILDREN = ''read_children''"
| "op_value READ_LATEST = ''read_latest''"
| "op_value READ_EXISTS = ''read_exists''"

definition all_op_types :: "txn_op_type list" where
  "all_op_types = [CREATE, UPDATE, REPLACE, DELETE, READ_SIBLINGS, READ_CHILDREN, READ_LATEST, READ_EXISTS]"

text \<open>\<^verbatim>\<open>TransactionOperationType(value)\<close>; \<open>None\<close> is its \<^verbatim>\<open>ValueError\<close>.\<close>

definition op_of_value :: "string \<Rightarrow> txn_op_type option" where
  "op_of_value s = List.find (\<lambda>t. op_value t = s) all_op_types"

definition write_operations :: "txn_op_type list" where
  "write_operations = [CREATE, UPDATE, REPLACE, DELETE]"

definition read_operations :: "txn_op_type list" where
  "read_operations = [READ_SIBLINGS, READ_CHILDREN, READ_LATEST, READ_EXISTS]"

definition is_write_operation :: "txn_op_type \<Rightarrow> bool" where
  "is_write_operation t \<longleftrightarrow> t \<in> set write_operations"

definition is_read_operation :: "txn_op_type \<Rightarrow> bool" where
  "is_read_operation t \<longleftrightarrow> t \<in> set read_operations"

lemma is_read_iff_not_write: "is_read_operation t \<longleftrightarrow> \<not> is_write_operation t"
  by (cases t) (auto simp: is_read_operation_def is_write_operation_def read_operations_def write_operations_def)

lemma op_of_value_op_value [simp]: "op_of_value (op_value t) = Some t"
  by (cases t) (simp_all add: op_of_value_def all_op_types_def)

lemma op_of_value_Some: "op_of_value s = Some t \<Longrightarrow> op_value t = s"
  by (auto simp: op_of_value_def find_Some_iff)

lemma op_value_facts:
  "slash \<notin> set (op_value t)" "dot \<notin> set (op_value t)" "op_value t \<noteq> []"
  "is_write_operation t \<Longrightarrow> CHR ''_'' \<notin> set (op_value t)"
  by (cases t; simp add: is_write_operation_def write_operations_def)+

subsection \<open>Status, state and log directories\<close>

datatype txn_status = ST_SUCCESS | ST_RUNNING | ST_PAUSED | ST_FAILED

datatype txn_state = TS_FAILED | TS_PURGED | TS_TIMEOUT | TS_RUNNING | TS_SUCCESS | TS_PAUSED

definition REVISION_DIR_NAME :: string where "REVISION_DIR_NAME = ''rev''"
definition TXN_DIR_NAME :: string where "TXN_DIR_NAME = ''txn''"
definition RUNNING_TXN_DIR_NAME :: string where "RUNNING_TXN_DIR_NAME = ''running''"
definition FAILED_TXN_DIR_NAME :: string where "FAILED_TXN_DIR_NAME = ''failed''"
definition PAUSED_TXN_DIR_NAME :: string where "PAUSED_TXN_DIR_NAME = ''paused''"
definition SUCCESS_TXN_DIR_NAME :: string where "SUCCESS_TXN_DIR_NAME = ''success''"

lemmas log_dir_names = REVISION_DIR_NAME_def TXN_DIR_NAME_def RUNNING_TXN_DIR_NAME_def
  FAILED_TXN_DIR_NAME_def PAUSED_TXN_DIR_NAME_def SUCCESS_TXN_DIR_NAME_def

abbreviation TXN_PART_SEPARATOR :: char where "TXN_PART_SEPARATOR \<equiv> CHR ''_''"

definition METAFILE_EXT :: string where "METAFILE_EXT = ''.mpk''"
definition DEFAULT_PAGE_SIZE :: int where "DEFAULT_PAGE_SIZE = 1000"
definition MAX_CONCURRENT_CONFLICT_COUNT :: int where "MAX_CONCURRENT_CONFLICT_COUNT = DEFAULT_PAGE_SIZE"
definition NANOS_PER_SEC :: int where "NANOS_PER_SEC = 1000000000"

fun dir_name :: "txn_status \<Rightarrow> string" where
  "dir_name ST_RUNNING = RUNNING_TXN_DIR_NAME"
| "dir_name ST_PAUSED = PAUSED_TXN_DIR_NAME"
| "dir_name ST_FAILED = FAILED_TXN_DIR_NAME"
| "dir_name ST_SUCCESS = SUCCESS_TXN_DIR_NAME"

lemma dir_name_inject: "dir_name s = dir_name t \<longleftrightarrow> s = t"
  by (cases s; cases t) (simp_all add: log_dir_names)

lemma component_dir_name [simp]: "component (dir_name s)"
  by (cases s) (simp_all add: log_dir_names component_def)

end
