(* ===== verification/TransactionIds.thy ===== *)
theory TransactionIds
  imports Filesystem EpochPartitions TransactionTypes
begin

text \<open>
  Transaction identifiers and the transaction log paths derived from them, from
  \<^verbatim>\<open>deltacat/storage/model/transaction.py\<close>: an identifier is the start time and a UUID joined by the
  separator, a success log is a directory named by the identifier below the partition directories of
  the start time, and the name of its single file is the end time.
\<close>

subsection \<open>Definitions\<close>

text \<open>The identifier assigned by \<^verbatim>\<open>Transaction.id\<close>; \<open>u\<close> is the text of the fresh \<^verbatim>\<open>uuid.uuid4()\<close>.\<close>

definition txn_id_of :: "int \<Rightarrow> string \<Rightarrow> string" where
  "txn_id_of start_time u = int_to_str start_time @ [TXN_PART_SEPARATOR] @ u"

definition parse_transaction_id :: "string \<Rightarrow> (int \<times> string) res" where
  "parse_transaction_id transaction_id =
     (case split_on TXN_PART_SEPARATOR transaction_id of
        [t, u] \<Rightarrow>
          (case py_int t of
             None \<Rightarrow> Inl ValueError
           | Some start_time \<Rightarrow> if uuid_ok u then Inr (start_time, u) else Inl ValueError)
      | _ \<Rightarrow> Inl ValueError)"

definition partitioned_txn_log_path :: "string \<Rightarrow> string \<Rightarrow> string res" where
  "partitioned_txn_log_path txn_log_dir txn_id =
     rbind (parse_transaction_id txn_id) (\<lambda>(start_time, _).
     rbind (epoch_timestamp_partition_transform start_time) (\<lambda>partition_dirs.
       Inr (path_join (path_join_all txn_log_dir partition_dirs) txn_id)))"

definition success_txn_log_dir_path :: "string \<Rightarrow> string \<Rightarrow> string res" where
  "success_txn_log_dir_path success_txn_log_dir txn_id = partitioned_txn_log_path success_txn_log_dir txn_id"

definition failed_txn_log_path :: "string \<Rightarrow> string \<Rightarrow> string res" where
  "failed_txn_log_path failed_txn_log_dir txn_id = partitioned_txn_log_path failed_txn_log_dir txn_id"

definition parse_end_time :: "string \<Rightarrow> int res" where
  "parse_end_time txn_log_file_name_or_path = of_option ValueError (py_int (basename txn_log_file_name_or_path))"

definition read_end_time :: "('fs, 'd) filesystem \<Rightarrow> 'fs \<Rightarrow> string \<Rightarrow> int option res" where
  "read_end_time F fs path =
     rbind (list_directory F fs path None True False) (\<lambda>file_info_and_sizes.
       (case file_info_and_sizes of
          [] \<Rightarrow> Inr None
        | [(file_path, _)] \<Rightarrow> rbind (parse_end_time file_path) (\<lambda>t. Inr (Some t))
        | _ \<Rightarrow> Inl ValueError))"

definition validate_txn_log_file :: "string \<Rightarrow> unit res" where
  "validate_txn_log_file success_txn_log_file =
     rbind (parse_transaction_id (basename (dirname success_txn_log_file))) (\<lambda>(start_time, _).
     rbind (parse_end_time success_txn_log_file) (\<lambda>end_time.
       if end_time < start_time then Inl OSError else Inr ()))"

subsection \<open>Identifiers\<close>

text \<open>What the text of a UUID has: it is accepted by \<^verbatim>\<open>uuid.UUID\<close> and has no separator of ours.\<close>

definition uuid_text :: "string \<Rightarrow> bool" where
  "uuid_text u \<longleftrightarrow> uuid_ok u \<and> TXN_PART_SEPARATOR \<notin> set u \<and> slash \<notin> set u \<and> dot \<notin> set u"

lemma parse_transaction_id_of:
  assumes "0 \<le> t" "uuid_text u"
  shows "parse_transaction_id (txn_id_of t u) = Inr (t, u)"
  using assms isdigit_facts [OF isdigit_int_to_str [OF assms(1)]]
  by (simp add: parse_transaction_id_def txn_id_of_def split_on_append uuid_text_def py_int_int_to_str)

lemma component_txn_id_of:
  assumes "0 \<le> t" "uuid_text u"
  shows "component (txn_id_of t u)" "dot \<notin> set (txn_id_of t u)"
  using assms isdigit_facts [OF isdigit_int_to_str [OF assms(1)]] by (auto simp: component_def txn_id_of_def uuid_text_def)

lemma parse_transaction_id_Inr:
  assumes "parse_transaction_id i = Inr (t, u)"
  obtains a where "i = a @ CHR ''_'' # u" "CHR ''_'' \<notin> set a" "CHR ''_'' \<notin> set u" "py_int a = Some t" "uuid_ok u"
proof -
  obtain a where a: "split_on CHR ''_'' i = [a, u]" "py_int a = Some t" "uuid_ok u"
    using assms by (auto simp: parse_transaction_id_def split: list.splits option.splits if_splits)
  have "i = a @ CHR ''_'' # u" using join_split [of "CHR ''_''" i] a(1) by simp
  moreover have "CHR ''_'' \<notin> set a" "CHR ''_'' \<notin> set u"
    using split_on_parts [of _ "CHR ''_''" i] a(1) by auto
  ultimately show ?thesis using that a by blast
qed

end
