(* ===== verification/RevisionInfo.thy ===== *)
theory RevisionInfo
  imports MemoryFS TransactionIds
begin

text \<open>
  \<^verbatim>\<open>MetafileRevisionInfo\<close> of \<^verbatim>\<open>deltacat/storage/model/metafile.py\<close>: the name of a metafile revision
  carries its number, the operation and the transaction that wrote it. Listing walks down from the
  largest revision number, one page per revision, and keeps what the reading transaction may see; a
  new revision is numbered one above the latest visible one; and the conflict check compares the
  files of one revision number.
\<close>

subsection \<open>Revision records\<close>

record mri =
  mri_revision :: int
  mri_txn_id :: "string option"
  mri_txn_op_type :: "string option"
  mri_dir_path :: "string option"
  mri_extension :: "string option"

definition mri_undefined :: mri where
  "mri_undefined = \<lparr>mri_revision = 0, mri_txn_id = None, mri_txn_op_type = None, mri_dir_path = None, mri_extension = None\<rparr>"

text \<open>The getters that convert or default: an unknown operation is the \<^verbatim>\<open>ValueError\<close> of the enumeration.\<close>

definition get_txn_op_type :: "mri \<Rightarrow> txn_op_type option res" where
  "get_txn_op_type m =
     (case mri_txn_op_type m of
        None \<Rightarrow> Inr None
      | Some s \<Rightarrow> rbind (of_option ValueError (op_of_value s)) (\<lambda>t. Inr (Some t)))"

definition get_extension :: "mri \<Rightarrow> string" where
  "get_extension m = (case mri_extension m of None \<Rightarrow> METAFILE_EXT | Some e \<Rightarrow> if e = [] then METAFILE_EXT else e)"

definition mri_file_name :: "mri \<Rightarrow> string option res" where
  "mri_file_name m =
     rbind (get_txn_op_type m) (\<lambda>op.
       Inr (case (op, mri_txn_id m) of
              (Some t, Some i) \<Rightarrow>
                if i = [] then None
                else Some (join_with [TXN_PART_SEPARATOR]
                       [zero_pad 20 (mri_revision m), op_value t, i @ get_extension m])
            | _ \<Rightarrow> None))"

definition mri_path :: "mri \<Rightarrow> string option res" where
  "mri_path m =
     rbind (mri_file_name m) (\<lambda>file_name.
       Inr (case (mri_dir_path m, file_name) of
              (Some d, Some n) \<Rightarrow> if d = [] then None else Some (path_join d n)
            | _ \<Rightarrow> None))"

definition mri_exists :: "mri \<Rightarrow> bool" where
  "mri_exists m \<longleftrightarrow> mri_revision m \<noteq> 0"

definition mri_parse :: "string \<Rightarrow> mri res" where
  "mri_parse revision_file_path =
     (let dir = dirname revision_file_path;
          (root, ext) = splitext (basename revision_file_path);
          parts = split_on TXN_PART_SEPARATOR root
      in rbind (of_option ValueError (py_int (hd parts))) (\<lambda>revision.
           (case parts of
              _ # op # t # u # _ \<Rightarrow>
                Inr \<lparr>mri_revision = revision, mri_txn_id = Some (t @ [TXN_PART_SEPARATOR] @ u),
                     mri_txn_op_type = Some op, mri_dir_path = Some dir, mri_extension = Some ext\<rparr>
            | _ \<Rightarrow> Inl IndexError)))"

definition mri_parse_revision :: "string \<Rightarrow> int option res" where
  "mri_parse_revision file_path =
     (case mri_parse file_path of
        Inr m \<Rightarrow> Inr (Some (mri_revision m))
      | Inl e \<Rightarrow> if e \<in> {ValueError, IndexError, AttributeError} then Inr None else Inl e)"

subsection \<open>Listing revisions\<close>

definition sorted_file_paths ::
  "('fs, 'd) filesystem \<Rightarrow> 'fs \<Rightarrow> string \<Rightarrow> int \<Rightarrow> int option \<Rightarrow> bool \<Rightarrow> string list res" where
  "sorted_file_paths F fs revision_dir_path partition_value limit ignore_missing_revision =
     rbind (remove_exponential_partitions revision_dir_path 1000 2 True) (\<lambda>path.
     rbind (list_directory_partitioned F fs path partition_value rev_transform mri_parse_revision limit
              rev_dir_parser None True False True None) (\<lambda>file_paths_and_sizes.
       if file_paths_and_sizes = [] \<and> \<not> ignore_missing_revision then Inl ObjectNotFoundError
       else Inr (map fst file_paths_and_sizes)))"

text \<open>
  Whether the reading transaction may see a revision: its own, or one whose transaction ended before
  it started. Without a current transaction every revision is visible.
\<close>

definition revision_visible ::
  "('fs, 'd) filesystem \<Rightarrow> 'fs \<Rightarrow> string \<Rightarrow> int option \<Rightarrow> string option \<Rightarrow> mri \<Rightarrow> bool res" where
  "revision_visible F fs success_txn_log_dir current_txn_start_time current_txn_id m =
     (if current_txn_id = None \<or> current_txn_id = Some [] \<or> mri_txn_id m = current_txn_id then Inr True
      else (case current_txn_start_time of
              None \<Rightarrow> Inl ValueError
            | Some start_time \<Rightarrow>
                rbind (success_txn_log_dir_path success_txn_log_dir (the (mri_txn_id m))) (\<lambda>txn_log_dir_path.
                rbind (read_end_time F fs txn_log_dir_path) (\<lambda>txn_end_time.
                  Inr (case txn_end_time of None \<Rightarrow> False | Some t \<Rightarrow> t < start_time)))))"

text \<open>
  The while loop of \<^verbatim>\<open>list_revisions\<close>. It may run for ever on a directory whose files are not in the
  partition of their number, so its result is an option, \<open>None\<close> for a loop that does not end.
\<close>

partial_function (option) list_revisions_loop ::
  "('fs, 'd) filesystem \<Rightarrow> 'fs \<Rightarrow> string \<Rightarrow> string \<Rightarrow> int option \<Rightarrow> string option \<Rightarrow> int \<Rightarrow>
   string list \<Rightarrow> mri list \<Rightarrow> int \<Rightarrow> mri list res option" where
  "list_revisions_loop F fs revision_dir_path success_txn_log_dir start_time txn_id page_limit paths revisions limit =
     (case paths of
        [] \<Rightarrow> Some (Inr revisions)
      | latest_metafile_path # _ \<Rightarrow>
          (case rbind (mri_parse latest_metafile_path) (\<lambda>m.
                rbind (revision_visible F fs success_txn_log_dir start_time txn_id m) (\<lambda>v. Inr (m, v))) of
             Inl e \<Rightarrow> Some (Inl e)
           | Inr (m, v) \<Rightarrow>
               let revisions' = (if v then revisions @ [m] else revisions);
                   limit' = limit - int (length revisions')
               in if limit' \<le> 0 \<or> mri_revision m \<le> 1 then Some (Inr revisions')
                  else (case sorted_file_paths F fs revision_dir_path (mri_revision m - 1) (Some page_limit) True of
                          Inl e \<Rightarrow> Some (Inl e)
                        | Inr paths' \<Rightarrow>
                            list_revisions_loop F fs revision_dir_path success_txn_log_dir start_time txn_id
                              page_limit paths' revisions' limit')))"

declare list_revisions_loop.simps [code]

definition list_revisions ::
  "('fs, 'd) filesystem \<Rightarrow> 'fs \<Rightarrow> string \<Rightarrow> string option \<Rightarrow> int option \<Rightarrow> string option \<Rightarrow> int option \<Rightarrow>
   mri list res option" where
  "list_revisions F fs revision_dir_path success_txn_log_dir current_txn_start_time current_txn_id limit =
     (case success_txn_log_dir of
        None \<Rightarrow> Some (Inl ObjectNotFoundError)
      | Some log_dir \<Rightarrow>
          if log_dir = [] then Some (Inl ObjectNotFoundError)
          else (case limit of
                  None \<Rightarrow> Some (Inl TypeError)
                | Some n \<Rightarrow>
                    let page_limit = max n DEFAULT_PAGE_SIZE
                    in (case sorted_file_paths F fs revision_dir_path MAX_REVISION_NUMBER (Some page_limit) True of
                          Inl e \<Rightarrow> Some (Inl e)
                        | Inr paths \<Rightarrow>
                            list_revisions_loop F fs revision_dir_path log_dir current_txn_start_time current_txn_id
                              page_limit paths [] n)))"

definition latest_revision ::
  "('fs, 'd) filesystem \<Rightarrow> 'fs \<Rightarrow> string \<Rightarrow> string option \<Rightarrow> int option \<Rightarrow> string option \<Rightarrow> bool \<Rightarrow> mri res option" where
  "latest_revision F fs revision_dir_path success_txn_log_dir current_txn_start_time current_txn_id ignore_missing_revision =
     map_option (\<lambda>r. rbind r (\<lambda>revisions.
         if revisions = [] \<and> \<not> ignore_missing_revision then Inl ObjectNotFoundError
         else Inr (case revisions of [] \<Rightarrow> mri_undefined | m # _ \<Rightarrow> m)))
       (list_revisions F fs revision_dir_path success_txn_log_dir current_txn_start_time current_txn_id (Some 1))"

text \<open>The checks of \<^verbatim>\<open>new_revision\<close> on the latest revision, and the record of the next one.\<close>

definition next_revision :: "mri \<Rightarrow> string \<Rightarrow> txn_op_type \<Rightarrow> string \<Rightarrow> string \<Rightarrow> mri res" where
  "next_revision m revision_dir_path current_txn_op_type current_txn_id ext =
     (let is_create_txn = (current_txn_op_type = CREATE);
          new = \<lparr>mri_revision = mri_revision m + 1, mri_txn_id = Some current_txn_id,
                 mri_txn_op_type = Some (op_value current_txn_op_type),
                 mri_dir_path = Some revision_dir_path, mri_extension = Some ext\<rparr>
      in if mri_exists m
         then rbind (get_txn_op_type m) (\<lambda>latest.
                if latest = Some DELETE
                then (if current_txn_op_type \<noteq> CREATE then Inl ObjectDeletedError else Inr new)
                else if is_create_txn then Inl ObjectAlreadyExistsError
                else Inr new)
         else if \<not> is_create_txn then Inl ObjectNotFoundError
         else Inr new)"

definition new_revision ::
  "('fs, 'd) filesystem \<Rightarrow> 'fs \<Rightarrow> string \<Rightarrow> txn_op_type \<Rightarrow> int \<Rightarrow> string \<Rightarrow> string \<Rightarrow> string option \<Rightarrow> mri res option" where
  "new_revision F fs revision_dir_path current_txn_op_type current_txn_start_time current_txn_id ext success_txn_log_dir =
     map_option (\<lambda>r. rbind r (\<lambda>m. next_revision m revision_dir_path current_txn_op_type current_txn_id ext))
       (latest_revision F fs revision_dir_path success_txn_log_dir (Some current_txn_start_time) (Some current_txn_id)
          (current_txn_op_type = CREATE))"

subsection \<open>The conflict check\<close>

text \<open>
  The scan over the files of the revision directory, newest first: it stops at a smaller revision,
  fails at a conflicting transaction with a larger identifier and at too many conflicts, and
  otherwise collects the conflicting transactions.
\<close>

fun scan_conflicts :: "mri \<Rightarrow> string list \<Rightarrow> mri list \<Rightarrow> mri list res" where
  "scan_conflicts cur [] conflict_mris = Inr conflict_mris"
| "scan_conflicts cur (next_metafile_path # rest) conflict_mris =
     rbind (mri_parse next_metafile_path) (\<lambda>m.
       if mri_revision m < mri_revision cur then Inr conflict_mris
       else if mri_revision m = mri_revision cur \<and> mri_txn_id m \<noteq> mri_txn_id cur
       then (if the (mri_txn_id cur) < the (mri_txn_id m) then Inl ConcurrentModificationError
             else if MAX_CONCURRENT_CONFLICT_COUNT \<le> int (length (conflict_mris @ [m]))
             then Inl ConcurrentModificationError
             else scan_conflicts cur rest (conflict_mris @ [m]))
       else scan_conflicts cur rest conflict_mris)"

fun check_completed :: "('fs, 'd) filesystem \<Rightarrow> 'fs \<Rightarrow> string \<Rightarrow> mri list \<Rightarrow> unit res" where
  "check_completed F fs success_txn_log_dir [] = Inr ()"
| "check_completed F fs success_txn_log_dir (m # ms) =
     rbind (success_txn_log_dir_path success_txn_log_dir (the (mri_txn_id m))) (\<lambda>txn_log_dir_path.
     rbind (read_end_time F fs txn_log_dir_path) (\<lambda>txn_end_time.
       if txn_end_time \<noteq> None \<and> txn_end_time \<noteq> Some 0 then Inl ConcurrentModificationError
       else check_completed F fs success_txn_log_dir ms))"

definition check_for_concurrent_txn_conflict ::
  "('fs, 'd) filesystem \<Rightarrow> 'fs \<Rightarrow> string \<Rightarrow> string \<Rightarrow> unit res" where
  "check_for_concurrent_txn_conflict F fs success_txn_log_dir current_txn_revision_file_path =
     rbind (mri_parse current_txn_revision_file_path) (\<lambda>cur.
     rbind (sorted_file_paths F fs (dirname current_txn_revision_file_path) (mri_revision cur)
              (Some DEFAULT_PAGE_SIZE) False) (\<lambda>sorted_metafile_paths.
     rbind (scan_conflicts cur sorted_metafile_paths []) (\<lambda>conflict_mris.
       check_completed F fs success_txn_log_dir conflict_mris)))"

end
