(* ===== verification/RevisionHistory.thy ===== *)
theory RevisionHistory
  imports RevisionInfo
begin

text \<open>
  Correctness of \<open>RevisionInfo\<close> on well-formed revision directories: file names parse back, a page
  holds the revisions up to a number in descending order, the latest revision is the largest one
  the transaction may see, a new revision continues it, and the conflict check decides
  \<open>conflict_free\<close>. What the file system holds is described as data (\<open>rev_file\<close>,
  \<open>revision_dir\<close>, \<open>logs_end_times\<close>).
\<close>

subsection \<open>File names\<close>

text \<open>An identifier as it appears in a file name: two parts around one separator.\<close>

definition txn_id_text :: "string \<Rightarrow> bool" where
  "txn_id_text i \<longleftrightarrow> length (split_on TXN_PART_SEPARATOR i) = 2 \<and> slash \<notin> set i \<and> dot \<notin> set i"

lemma txn_id_text_parts:
  assumes "txn_id_text i"
  obtains t u where "i = t @ CHR ''_'' # u" "CHR ''_'' \<notin> set t" "CHR ''_'' \<notin> set u"
    "slash \<notin> set t" "slash \<notin> set u" "dot \<notin> set t" "dot \<notin> set u"
proof -
  obtain t u where tu: "split_on CHR ''_'' i = [t, u]"
    using assms by (auto simp: txn_id_text_def numeral_2_eq_2 length_Suc_conv)
  have i: "i = t @ CHR ''_'' # u" using join_split [of "CHR ''_''" i] tu by simp
  have "CHR ''_'' \<notin> set t" "CHR ''_'' \<notin> set u" using split_on_parts [of _ "CHR ''_''" i] tu by simp_all
  moreover have "slash \<notin> set (t @ CHR ''_'' # u)" "dot \<notin> set (t @ CHR ''_'' # u)"
    using assms unfolding i [symmetric] by (simp_all add: txn_id_text_def)
  ultimately show ?thesis using that [OF i] by simp
qed

lemma txn_id_text_of: "0 \<le> t \<Longrightarrow> uuid_text u \<Longrightarrow> txn_id_text (txn_id_of t u)"
  using isdigit_facts [OF isdigit_int_to_str [of t]]
  by (simp add: txn_id_text_def txn_id_of_def uuid_text_def split_on_append)

definition revision_file_name :: "int \<Rightarrow> txn_op_type \<Rightarrow> string \<Rightarrow> string \<Rightarrow> string" where
  "revision_file_name r op i ext = join_with [TXN_PART_SEPARATOR] [zero_pad 20 r, op_value op, i @ ext]"

lemma mri_file_name_eq:
  assumes "mri_txn_op_type m = Some (op_value op)" "mri_txn_id m = Some i" "i \<noteq> []"
  shows "mri_file_name m = Inr (Some (revision_file_name (mri_revision m) op i (get_extension m)))"
  using assms by (simp add: mri_file_name_def get_txn_op_type_def revision_file_name_def)

lemma revision_file_name_chars:
  assumes "0 \<le> r" "txn_id_text i" "slash \<notin> set ext"
  shows "component (revision_file_name r op i ext)"
    "\<exists>c cs. revision_file_name r op i ext = c # cs \<and> is_decimal c"
proof -
  have d: "isdigit (zero_pad 20 r)" using assms(1) by (rule isdigit_zero_pad)
  then obtain c cs where c: "zero_pad 20 r = c # cs" "is_decimal c" by (cases "zero_pad 20 r") (auto simp: isdigit_def)
  then show "\<exists>c cs. revision_file_name r op i ext = c # cs \<and> is_decimal c" by (simp add: revision_file_name_def)
  show "component (revision_file_name r op i ext)"
    using isdigit_facts(3) [OF d] c assms op_value_facts(1)
    by (auto simp: component_def revision_file_name_def txn_id_text_def)
qed

lemma mri_parse_path:
  assumes d: "dir_path d" and r: "0 \<le> r" and op: "is_write_operation op" and i: "txn_id_text i"
    and ext: "slash \<notin> set e" "dot \<notin> set e"
  shows "mri_parse (path_join d (revision_file_name r op i (dot # e))) =
    Inr \<lparr>mri_revision = r, mri_txn_id = Some i, mri_txn_op_type = Some (op_value op),
         mri_dir_path = Some d, mri_extension = Some (dot # e)\<rparr>"
proof -
  obtain t u where tu: "i = t @ CHR ''_'' # u" "CHR ''_'' \<notin> set t" "CHR ''_'' \<notin> set u"
    "slash \<notin> set t" "slash \<notin> set u" "dot \<notin> set t" "dot \<notin> set u" using txn_id_text_parts [OF i] .
  note z = isdigit_facts [OF isdigit_zero_pad [OF r, of 20]]
  let ?stem = "zero_pad 20 r @ CHR ''_'' # op_value op @ CHR ''_'' # i"
  have n: "revision_file_name r op i (dot # e) = ?stem @ dot # e" by (simp add: revision_file_name_def)
  have c: "component (revision_file_name r op i (dot # e))" by (rule revision_file_name_chars(1) [OF r i]) (simp add: ext)
  have s: "splitext (revision_file_name r op i (dot # e)) = (?stem, dot # e)"
    unfolding n
  proof (rule splitext_component)
    show "slash \<notin> set ?stem" using z(3) tu op_value_facts(1) by simp
    show "\<exists>x \<in> set ?stem. x \<noteq> dot" by (rule bexI [of _ "CHR ''_''"]) simp_all
  qed (use ext in simp_all)
  have p: "split_on CHR ''_'' ?stem = [zero_pad 20 r, op_value op, t, u]"
    using z tu op_value_facts(4) [OF op] by (simp add: split_on_append)
  show ?thesis
    unfolding mri_parse_def basename_path_join [OF d c] dirname_path_join [OF d c] s Let_def prod.case p
    by (simp add: tu(1) r)
qed


subsection \<open>Revision directories\<close>

text \<open>
  The contents of a revision directory as data: one record per revision file. \<open>revision_dir\<close>
  says that a file system holds exactly these files below \<open>dir\<close>, each in the partition of its
  revision number.
\<close>

record rev_file =
  rf_revision :: int
  rf_op :: txn_op_type
  rf_txn_id :: string
  rf_ext :: string

definition rf_ok :: "rev_file \<Rightarrow> bool" where
  "rf_ok f \<longleftrightarrow> rev_domain (rf_revision f) \<and> is_write_operation (rf_op f) \<and> txn_id_text (rf_txn_id f) \<and>
     slash \<notin> set (rf_ext f) \<and> dot \<notin> set (rf_ext f)"

definition rf_stored :: "(rev_file \<Rightarrow> nat) \<Rightarrow> rev_file \<Rightarrow> stored" where
  "rf_stored sz f = \<lparr>st_name = revision_file_name (rf_revision f) (rf_op f) (rf_txn_id f) (dot # rf_ext f),
     st_value = rf_revision f, st_size = sz f\<rparr>"

definition rf_dir :: "string \<Rightarrow> rev_file \<Rightarrow> string" where
  "rf_dir dir f = path_join_all dir (dirs_of rev_transform (rf_revision f))"

definition rf_path :: "string \<Rightarrow> rev_file \<Rightarrow> string" where
  "rf_path dir f = path_join (rf_dir dir f) (revision_file_name (rf_revision f) (rf_op f) (rf_txn_id f) (dot # rf_ext f))"

definition rf_mri :: "string \<Rightarrow> rev_file \<Rightarrow> mri" where
  "rf_mri dir f = \<lparr>mri_revision = rf_revision f, mri_txn_id = Some (rf_txn_id f),
     mri_txn_op_type = Some (op_value (rf_op f)), mri_dir_path = Some (rf_dir dir f), mri_extension = Some (dot # rf_ext f)\<rparr>"

lemma rf_mri_simps [simp]:
  "mri_revision (rf_mri dir f) = rf_revision f" "mri_txn_id (rf_mri dir f) = Some (rf_txn_id f)"
  "mri_txn_op_type (rf_mri dir f) = Some (op_value (rf_op f))" "get_txn_op_type (rf_mri dir f) = Inr (Some (rf_op f))"
  by (simp_all add: rf_mri_def get_txn_op_type_def)

lemma rf_stored_simps [simp]:
  "st_value (rf_stored sz f) = rf_revision f"
  "stored_path dir rev_transform (rf_stored sz f) = rf_path dir f"
  by (simp_all add: rf_stored_def stored_path_def rf_path_def rf_dir_def)

lemma rf_ok_facts:
  assumes "rf_ok f" "dir_path dir"
  shows "0 < rf_revision f" "rf_revision f < 10 ^ 20" "dir_path (rf_dir dir f)"
    "component (revision_file_name (rf_revision f) (rf_op f) (rf_txn_id f) (dot # rf_ext f))"
    "visible (st_name (rf_stored sz f))"
proof -
  have dom: "rev_domain (rf_revision f)" and id: "txn_id_text (rf_txn_id f)" and e: "slash \<notin> set (rf_ext f)"
    using assms(1) by (simp_all add: rf_ok_def)
  show r: "0 < rf_revision f" "rf_revision f < 10 ^ 20" using dom by (simp_all add: rev_domain_def MAX_REVISION_NUMBER_def)
  show "dir_path (rf_dir dir f)"
    using rev_scheme.dirs_facts(3) [OF dom] assms(2) by (auto simp: rf_dir_def intro!: dir_path_join_all)
  note n = revision_file_name_chars [of "rf_revision f" "rf_txn_id f" "dot # rf_ext f" "rf_op f"]
  show c: "component (revision_file_name (rf_revision f) (rf_op f) (rf_txn_id f) (dot # rf_ext f))"
    using n(1) r id e by simp
  obtain d ds where "revision_file_name (rf_revision f) (rf_op f) (rf_txn_id f) (dot # rf_ext f) = d # ds" "is_decimal d"
    using n(2) r id e by auto
  then show "visible (st_name (rf_stored sz f))"
    using c is_decimal_facts by (auto simp: rf_stored_def visible_def starts_with_def)
qed

lemma mri_parse_rf_path:
  assumes "rf_ok f" "dir_path dir"
  shows "mri_parse (rf_path dir f) = Inr (rf_mri dir f)"
    and "mri_parse_revision (rf_path dir f) = Inr (Some (rf_revision f))"
proof -
  show p: "mri_parse (rf_path dir f) = Inr (rf_mri dir f)"
    using mri_parse_path [of "rf_dir dir f" "rf_revision f" "rf_op f" "rf_txn_id f" "rf_ext f"] rf_ok_facts(1,3) [OF assms] assms(1)
    by (simp add: rf_path_def rf_mri_def rf_ok_def)
  then show "mri_parse_revision (rf_path dir f) = Inr (Some (rf_revision f))" by (simp add: mri_parse_revision_def)
qed

lemma rf_mri_inject: "rf_mri dir f = rf_mri dir g \<Longrightarrow> f = g"
proof -
  assume eq: "rf_mri dir f = rf_mri dir g"
  then have v: "op_value (rf_op f) = op_value (rf_op g)" by (simp add: rf_mri_def)
  have "op_of_value (op_value (rf_op f)) = op_of_value (op_value (rf_op g))" by (simp only: v)
  then show "f = g" using eq by (cases f; cases g) (simp add: rf_mri_def)
qed

lemma rf_path_inject:
  "rf_ok f \<Longrightarrow> rf_ok g \<Longrightarrow> dir_path dir \<Longrightarrow> rf_path dir f = rf_path dir g \<Longrightarrow> f = g"
  using mri_parse_rf_path(1) rf_mri_inject by (metis sum.inject(2))

text \<open>
  A directory that holds revisions: below a proper path, and not named like a partition directory.
\<close>

definition revision_base :: "string \<Rightarrow> bool" where
  "revision_base dir \<longleftrightarrow> dir_path (dirname dir) \<and> component (basename dir) \<and> \<not> isdigit (basename dir) \<and>
     dir = path_join (dirname dir) (basename dir)"

definition revision_dir :: "('fs, 'd) filesystem \<Rightarrow> 'fs \<Rightarrow> string \<Rightarrow> rev_file set \<Rightarrow> bool" where
  "revision_dir F fs dir R \<longleftrightarrow>
     revision_base dir \<and> (\<forall>f \<in> R. rf_ok f) \<and>
     (\<exists>sz. partitioned_layout F fs dir rev_transform 2 mri_parse_revision True (rf_stored sz ` R))"

lemma revision_base_facts:
  assumes "revision_base dir"
  shows "dir_path dir" "remove_exponential_partitions dir 1000 2 True = Inr dir"
    "rev_domain v \<Longrightarrow> remove_exponential_partitions (path_join_all dir (dirs_of rev_transform v)) 1000 2 True = Inr dir"
    "rev_domain v \<Longrightarrow> component n \<Longrightarrow>
     remove_exponential_partitions (path_join (path_join_all dir (dirs_of rev_transform v)) n) 1000 2 False = Inr (path_join dir n)"
proof -
  let ?n = "basename dir"
  have d: "dir_path (dirname dir)" "dir = path_join (dirname dir) ?n" "component ?n" "\<not> isdigit ?n"
    using assms by (simp_all add: revision_base_def)
  show dp: "dir_path dir" using dir_path_join [OF d(1,3)] d(2) by simp
  have sp: "split_on slash dir = split_on slash (dirname dir) @ [?n]"
    using split_on_path_join_all [OF d(1), of "[?n]"] d(2,3) by simp
  obtain x xs where x: "rev (split_on slash (dirname dir)) = x # xs"
    by (cases "rev (split_on slash (dirname dir))") auto
  then have sp': "split_on slash dir = rev xs @ [x, ?n]" using sp by (simp add: rev_eq_Cons_iff)
  have "parse_exponential_partitions [x, ?n] 1000 2 = None"
    using d(4) by (auto simp: parse_exponential_partitions_def Let_def split: option.splits)
  then show "remove_exponential_partitions dir 1000 2 True = Inr dir"
    using sp' dp by (simp add: remove_exponential_partitions_def Let_def numeral_2_eq_2)
  have inv: "remove_exponential_partitions (path_join (path_join_all dir (dirs_of rev_transform v)) n) 1000 2 False = Inr (path_join dir n)"
    "remove_exponential_partitions (path_join_all dir (dirs_of rev_transform v)) 1000 2 True = Inr dir"
    if "rev_domain v" "component n" for n
    using remove_exponential_partitions_inverse [of 1000 2 v "dirs_of rev_transform v" dir n] that dp
      rev_domain_round_up [OF that(1)] rev_scheme.dirs_facts(1) [OF that(1)] by (simp_all add: rev_domain_def)
  show "rev_domain v \<Longrightarrow> remove_exponential_partitions (path_join_all dir (dirs_of rev_transform v)) 1000 2 True = Inr dir"
    using inv(2) [of "''f''"] by (simp add: component_def)
  show "rev_domain v \<Longrightarrow> component n \<Longrightarrow>
     remove_exponential_partitions (path_join (path_join_all dir (dirs_of rev_transform v)) n) 1000 2 False = Inr (path_join dir n)"
    by (rule inv(1))
qed

lemma revision_dir_base:
  assumes "revision_dir F fs dir R"
  shows "dir_path dir" "\<forall>f \<in> R. rf_ok f"
    "remove_exponential_partitions dir 1000 2 True = Inr dir"
    "rev_domain v \<Longrightarrow> remove_exponential_partitions (path_join_all dir (dirs_of rev_transform v)) 1000 2 True = Inr dir"
  using assms revision_base_facts [of dir] by (simp_all add: revision_dir_def)

subsection \<open>Pages of revisions\<close>

lemma map_of_image:
  assumes "set out = g ` A" "distinct out" "inj_on g A"
  obtains ys where "out = map g ys" "set ys = A" "distinct ys"
proof -
  let ?ys = "map (the_inv_into A g) out"
  have "map g ?ys = out"
    unfolding map_map by (rule map_idI) (use assms in \<open>simp add: f_the_inv_into_f\<close>)
  moreover have "set ?ys = A" using assms(1,3) by (force simp: the_inv_into_f_f image_image)
  moreover have "distinct ?ys"
    using assms by (simp add: distinct_map inj_on_the_inv_into)
  ultimately show ?thesis using that [of ?ys] by metis
qed

lemma ordered_names_revisions:
  assumes "\<forall>f \<in> R. rf_ok f" "dir_path dir"
  shows "rev_scheme.ordered_names (rf_stored sz ` R)"
proof -
  have "st_name (rf_stored sz f) < st_name (rf_stored sz g)"
    if "f \<in> R" "g \<in> R" "rf_revision f < rf_revision g" for f g
  proof -
    have b: "0 < rf_revision f" "rf_revision f < 10 ^ 20" "rf_revision g < 10 ^ 20"
      using rf_ok_facts(1,2) assms that by blast+
    then have "zero_pad 20 (rf_revision f) < zero_pad 20 (rf_revision g)"
      "length (zero_pad 20 (rf_revision f)) = length (zero_pad 20 (rf_revision g))"
      using that(3) by (simp_all add: zero_pad_less length_zero_pad_eq)
    then show ?thesis by (simp add: rf_stored_def revision_file_name_def less_append_equal_length)
  qed
  then show ?thesis by (auto simp: rev_scheme.ordered_names_def)
qed

text \<open>
  A page: the revisions up to the requested number, largest first, cut at the limit. The directory
  may be given with or without the partition directories of a revision.
\<close>

lemma sorted_file_paths_page:
  assumes R: "revision_dir F fs dir R" and pv: "rev_domain pv" and lim: "0 < limit"
    and D: "D = dir \<or> (\<exists>v. rev_domain v \<and> D = path_join_all dir (dirs_of rev_transform v))"
  obtains page where "set page = {f \<in> R. rf_revision f \<le> pv}" "distinct page"
    "sorted_wrt (\<lambda>f g. rf_revision g \<le> rf_revision f) page"
    "sorted_file_paths F fs D pv (Some limit) ignore_missing =
       (if page = [] \<and> \<not> ignore_missing then Inl ObjectNotFoundError
        else Inr (map (rf_path dir) (take (nat limit) page)))"
proof -
  note base = revision_dir_base [OF R]
  obtain sz where lay: "partitioned_layout F fs dir rev_transform 2 mri_parse_revision True (rf_stored sz ` R)"
    using R by (auto simp: revision_dir_def)
  let ?S = "rf_stored sz ` R" and ?se = "\<lambda>f. stored_entry dir rev_transform (rf_stored sz f)"
  have dom: "\<forall>e \<in> ?S. rev_domain (st_value e)" using base(2) by (auto simp: rf_ok_def)
  obtain out where out: "list_directory_partitioned F fs dir pv rev_transform mri_parse_revision (Some limit) rev_dir_parser
      None True False True None = Inr (slice_opt (Some limit) out)"
    "set out = stored_entry dir rev_transform ` {e \<in> ?S. st_value e \<le> pv}" "distinct out"
    "sorted_wrt (\<lambda>x y. entry_value mri_parse_revision y \<le> entry_value mri_parse_revision x) out"
    using rev_scheme.list_directory_partitioned_ok [OF lay dom pv ordered_names_revisions [OF base(2,1)], of "Some limit" True] lim
    by auto
  have ent: "?se f = (rf_path dir f, Some (sz f))" for f by (simp add: stored_entry_def) (simp add: rf_stored_def)
  have S: "stored_entry dir rev_transform ` {e \<in> ?S. st_value e \<le> pv} = ?se ` {f \<in> R. rf_revision f \<le> pv}"
    by (force simp: image_iff)
  have inj: "inj_on ?se {f \<in> R. rf_revision f \<le> pv}"
    using rf_path_inject base(1,2) by (auto simp: inj_on_def ent)
  obtain page where page: "out = map ?se page" "set page = {f \<in> R. rf_revision f \<le> pv}" "distinct page"
    using map_of_image [OF out(2) [unfolded S] out(3) inj] .
  have ev: "entry_value mri_parse_revision (?se f) = rf_revision f" if "f \<in> set page" for f
    using that page(2) mri_parse_rf_path(2) [OF _ base(1)] base(2) by (simp add: entry_value_def ent)
  have sorted: "sorted_wrt (\<lambda>f g. rf_revision g \<le> rf_revision f) page"
    using out(4) unfolding page(1) sorted_wrt_map by (rule sorted_wrt_mono_rel [rotated]) (simp add: ev)
  have rm: "remove_exponential_partitions D 1000 2 True = Inr dir" using D base(3,4) by blast
  have take: "map fst (slice_opt (Some limit) out) = map (rf_path dir) (take (nat limit) page)"
    using lim by (simp add: slice_opt_def slice_to_def page(1) take_map ent comp_def)
  have empty: "slice_opt (Some limit) out = [] \<longleftrightarrow> page = []" 
    using lim by (simp add: slice_opt_def slice_to_def page(1))
  show ?thesis
    using that [OF page(2,3) sorted] take empty by (simp add: sorted_file_paths_def rm out(1))
qed


lemma sorted_file_paths_dir:
  assumes "revision_dir F fs dir R" "rev_domain pv" "0 < limit"
  obtains page where "set page = {f \<in> R. rf_revision f \<le> pv}"
    "sorted_wrt (\<lambda>f g. rf_revision g \<le> rf_revision f) page"
    "sorted_file_paths F fs dir pv (Some limit) True = Inr (map (rf_path dir) (take (nat limit) page))"
proof (rule sorted_file_paths_page [OF assms, of dir True])
  fix page assume p: "set page = {f \<in> R. rf_revision f \<le> pv}"
    "sorted_wrt (\<lambda>f g. rf_revision g \<le> rf_revision f) page"
    "sorted_file_paths F fs dir pv (Some limit) True =
       (if page = [] \<and> \<not> True then Inl ObjectNotFoundError else Inr (map (rf_path dir) (take (nat limit) page)))"
  show thesis by (rule that [OF p(1,2)]) (simp add: p(3))
qed simp

subsection \<open>The latest visible revision\<close>

text \<open>
  The transaction log as data: \<open>end_times\<close> gives the end time of a completed transaction. A
  revision is visible to a transaction that wrote it, and to those that started after its
  transaction ended.
\<close>

definition logs_end_times ::
  "('fs, 'd) filesystem \<Rightarrow> 'fs \<Rightarrow> string \<Rightarrow> (string \<Rightarrow> int option) \<Rightarrow> rev_file set \<Rightarrow> bool" where
  "logs_end_times F fs log_dir end_times R \<longleftrightarrow> log_dir \<noteq> [] \<and>
     (\<forall>f \<in> R. \<exists>p. success_txn_log_dir_path log_dir (rf_txn_id f) = Inr p \<and>
                  read_end_time F fs p = Inr (end_times (rf_txn_id f)))"

definition sees :: "(string \<Rightarrow> int option) \<Rightarrow> int \<Rightarrow> string \<Rightarrow> rev_file \<Rightarrow> bool" where
  "sees end_times start_time txn_id f \<longleftrightarrow>
     rf_txn_id f = txn_id \<or> (\<exists>t. end_times (rf_txn_id f) = Some t \<and> t < start_time)"

lemma revision_visible_sees:
  assumes "logs_end_times F fs log_dir E R" "f \<in> R" "txn_id \<noteq> []"
  shows "revision_visible F fs log_dir (Some st) (Some txn_id) (rf_mri dir f) = Inr (sees E st txn_id f)"
  using assms by (fastforce simp: revision_visible_def logs_end_times_def sees_def split: option.splits)

text \<open>
  What the walk down from \<open>mx\<close> may return: a visible revision, such that at every larger revision
  number some file is not visible, or nothing, when that is so at every revision number.
\<close>

definition walk_result ::
  "rev_file set \<Rightarrow> (rev_file \<Rightarrow> bool) \<Rightarrow> int \<Rightarrow> rev_file option \<Rightarrow> bool" where
  "walk_result R vis mx r \<longleftrightarrow>
     (case r of
        None \<Rightarrow> \<forall>f \<in> R. rf_revision f \<le> mx \<longrightarrow> (\<exists>g \<in> R. rf_revision g = rf_revision f \<and> \<not> vis g)
      | Some h \<Rightarrow> h \<in> R \<and> rf_revision h \<le> mx \<and> vis h \<and>
          (\<forall>f \<in> R. rf_revision h < rf_revision f \<and> rf_revision f \<le> mx \<longrightarrow>
             (\<exists>g \<in> R. rf_revision g = rf_revision f \<and> \<not> vis g)))"

lemma walk_result_step:
  assumes "walk_result R vis (rf_revision x - 1) r" "x \<in> R" "\<not> vis x"
    "\<forall>f \<in> R. rf_revision f \<le> mx \<longrightarrow> rf_revision f \<le> rf_revision x" "rf_revision x \<le> mx"
  shows "walk_result R vis mx r"
proof -
  have skip: "\<exists>g \<in> R. rf_revision g = rf_revision f \<and> \<not> vis g"
    if "f \<in> R" "rf_revision f \<le> mx" "\<not> rf_revision f \<le> rf_revision x - 1" for f
    using assms(2-4) that by (intro bexI [of _ x]) auto
  show ?thesis
  proof (cases r)
    case None
    show ?thesis unfolding None walk_result_def option.case
    proof (intro ballI impI)
      fix f assume f: "f \<in> R" "rf_revision f \<le> mx"
      show "\<exists>g \<in> R. rf_revision g = rf_revision f \<and> \<not> vis g"
        using assms(1) [unfolded None walk_result_def option.case] skip [OF f] f(1)
        by (cases "rf_revision f \<le> rf_revision x - 1") blast+
    qed
  next
    case (Some h)
    then have "h \<in> R" "rf_revision h \<le> rf_revision x - 1" "vis h"
      "\<forall>f \<in> R. rf_revision h < rf_revision f \<and> rf_revision f \<le> rf_revision x - 1 \<longrightarrow>
         (\<exists>g \<in> R. rf_revision g = rf_revision f \<and> \<not> vis g)"
      using assms(1) by (simp_all add: walk_result_def)
    then show ?thesis using Some skip assms(5) by (auto simp: walk_result_def)
  qed
qed

lemma list_revisions_loop_head:
  assumes R: "revision_dir F fs dir R" and logs: "logs_end_times F fs log_dir E R" and id: "txn_id \<noteq> []" and x: "x \<in> R"
  shows "list_revisions_loop F fs dir log_dir (Some st) (Some txn_id) page_limit (rf_path dir x # rest) [] 1 =
    (if sees E st txn_id x then Some (Inr [rf_mri dir x])
     else if rf_revision x \<le> 1 then Some (Inr [])
     else (case sorted_file_paths F fs dir (rf_revision x - 1) (Some page_limit) True of
             Inl e \<Rightarrow> Some (Inl e)
           | Inr paths \<Rightarrow> list_revisions_loop F fs dir log_dir (Some st) (Some txn_id) page_limit paths [] 1))"
proof -
  have "rf_ok x" using x revision_dir_base(2) [OF R] by blast
  then have "rbind (mri_parse (rf_path dir x)) (\<lambda>m. rbind (revision_visible F fs log_dir (Some st) (Some txn_id) m)
      (\<lambda>v. Inr (m, v))) = Inr (rf_mri dir x, sees E st txn_id x)"
    using mri_parse_rf_path(1) [OF _ revision_dir_base(1) [OF R]] revision_visible_sees [OF logs x id] by simp
  then show ?thesis by (subst list_revisions_loop.simps) (simp split: sum.split)
qed

lemma list_revisions_loop_walk:
  assumes R: "revision_dir F fs dir R" and logs: "logs_end_times F fs log_dir E R" and id: "txn_id \<noteq> []"
    and lim: "0 < page_limit"
  shows "rev_domain pv \<Longrightarrow> sorted_file_paths F fs dir pv (Some page_limit) True = Inr paths \<Longrightarrow>
    \<exists>r. list_revisions_loop F fs dir log_dir (Some st) (Some txn_id) page_limit paths [] 1 =
          Some (Inr (map (rf_mri dir) (case r of None \<Rightarrow> [] | Some f \<Rightarrow> [f]))) \<and>
        walk_result R (sees E st txn_id) pv r"
proof (induction "nat pv" arbitrary: pv paths rule: less_induct)
  case less
  let ?loop = "\<lambda>paths. list_revisions_loop F fs dir log_dir (Some st) (Some txn_id) page_limit paths [] 1"
  note base = revision_dir_base [OF R] and head = list_revisions_loop_head [OF R logs id]
  obtain page where page: "set page = {f \<in> R. rf_revision f \<le> pv}"
    "sorted_wrt (\<lambda>f g. rf_revision g \<le> rf_revision f) page"
    "sorted_file_paths F fs dir pv (Some page_limit) True = Inr (map (rf_path dir) (take (nat page_limit) page))"
    using sorted_file_paths_dir [OF R less.prems(1) lim] .
  have paths: "paths = map (rf_path dir) (take (nat page_limit) page)" using page(3) less.prems(2) by simp
  show ?case
  proof (cases page)
    case Nil
    then have "walk_result R (sees E st txn_id) pv None" using page(1) by (auto simp: walk_result_def)
    then show ?thesis using Nil paths by (intro exI [of _ None]) (simp add: list_revisions_loop.simps)
  next
    case (Cons x xs)
    have x: "x \<in> R" "rf_revision x \<le> pv" and top: "\<forall>f \<in> R. rf_revision f \<le> pv \<longrightarrow> rf_revision f \<le> rf_revision x"
      using Cons page(1,2) by auto
    have hd: "paths = rf_path dir x # map (rf_path dir) (take (nat page_limit - 1) xs)"
      using lim by (simp add: paths Cons take_Cons')
    consider "sees E st txn_id x" | "\<not> sees E st txn_id x" "rf_revision x \<le> 1" | "\<not> sees E st txn_id x" "1 < rf_revision x"
      by linarith
    then show ?thesis
    proof cases
      case 1
      then have "walk_result R (sees E st txn_id) pv (Some x)" using x top by (auto simp: walk_result_def)
      then show ?thesis using 1 x(1) by (intro exI [of _ "Some x"]) (simp add: hd head)
    next
      case 2
      then have "walk_result R (sees E st txn_id) (rf_revision x - 1) None"
        using base(1,2) rf_ok_facts(1) by (fastforce simp: walk_result_def)
      from walk_result_step [OF this x(1) 2(1) top x(2)] 
      show ?thesis using 2 x(1) by (intro exI [of _ None]) (simp add: hd head)
    next
      case 3
      have dom: "rev_domain (rf_revision x - 1)" and less': "nat (rf_revision x - 1) < nat pv"
        using x(2) 3(2) less.prems(1) by (simp_all add: rev_domain_def)
      obtain paths' where paths': "sorted_file_paths F fs dir (rf_revision x - 1) (Some page_limit) True = Inr paths'"
        using sorted_file_paths_dir [OF R dom lim] by blast
      from less.hyps [OF less' dom paths'] obtain r where
        r: "?loop paths' = Some (Inr (map (rf_mri dir) (case r of None \<Rightarrow> [] | Some f \<Rightarrow> [f])))"
          "walk_result R (sees E st txn_id) (rf_revision x - 1) r" by blast
      show ?thesis using walk_result_step [OF r(2) x(1) 3(1) top x(2)] 3 x(1) r(1)
        by (intro exI [of _ r]) (simp add: hd head paths')
    qed
  qed
qed

lemma latest_revision_walk:
  assumes R: "revision_dir F fs dir R" and logs: "logs_end_times F fs log_dir E R" and id: "txn_id \<noteq> []"
  obtains r where "walk_result R (sees E st txn_id) MAX_REVISION_NUMBER r"
    "latest_revision F fs dir (Some log_dir) (Some st) (Some txn_id) ignore_missing =
       Some (case r of None \<Rightarrow> if ignore_missing then Inr mri_undefined else Inl ObjectNotFoundError
                     | Some f \<Rightarrow> Inr (rf_mri dir f))"
proof -
  have dom: "rev_domain MAX_REVISION_NUMBER" by (simp add: rev_domain_def MAX_REVISION_NUMBER_def)
  have lim: "(0::int) < max 1 DEFAULT_PAGE_SIZE" by simp
  obtain page where page: "sorted_file_paths F fs dir MAX_REVISION_NUMBER (Some (max 1 DEFAULT_PAGE_SIZE)) True =
      Inr (map (rf_path dir) (take (nat (max 1 DEFAULT_PAGE_SIZE)) page))"
    using sorted_file_paths_dir [OF R dom lim] by blast
  obtain r where r: "list_revisions_loop F fs dir log_dir (Some st) (Some txn_id) (max 1 DEFAULT_PAGE_SIZE)
      (map (rf_path dir) (take (nat (max 1 DEFAULT_PAGE_SIZE)) page)) [] 1 =
        Some (Inr (map (rf_mri dir) (case r of None \<Rightarrow> [] | Some f \<Rightarrow> [f])))"
    "walk_result R (sees E st txn_id) MAX_REVISION_NUMBER r"
    using list_revisions_loop_walk [OF R logs id lim dom page] by blast
  have "log_dir \<noteq> []" using logs by (simp add: logs_end_times_def)
  then have "latest_revision F fs dir (Some log_dir) (Some st) (Some txn_id) ignore_missing =
       Some (case r of None \<Rightarrow> if ignore_missing then Inr mri_undefined else Inl ObjectNotFoundError
                     | Some f \<Rightarrow> Inr (rf_mri dir f))"
    using r(1) page by (simp add: latest_revision_def list_revisions_def Let_def split: option.splits)
  then show ?thesis using that r(2) by blast
qed

text \<open>With one file per revision number the walk returns the largest visible revision.\<close>

definition is_latest :: "rev_file set \<Rightarrow> (rev_file \<Rightarrow> bool) \<Rightarrow> rev_file option \<Rightarrow> bool" where
  "is_latest R vis r \<longleftrightarrow>
     (case r of None \<Rightarrow> \<forall>f \<in> R. \<not> vis f
      | Some h \<Rightarrow> h \<in> R \<and> vis h \<and> (\<forall>f \<in> R. vis f \<longrightarrow> rf_revision f \<le> rf_revision h))"

lemma walk_result_latest:
  assumes w: "walk_result R vis mx r" and inj: "inj_on rf_revision R" and mx: "\<forall>f \<in> R. rf_revision f \<le> mx"
  shows "is_latest R vis r"
proof (cases r)
  case None
  then have "\<forall>f \<in> R. \<exists>g \<in> R. rf_revision g = rf_revision f \<and> \<not> vis g"
    using w mx by (simp add: walk_result_def)
  then show ?thesis using inj None by (auto simp: is_latest_def inj_on_def)
next
  case (Some h)
  then have h: "h \<in> R" "vis h" and up: "\<forall>f \<in> R. rf_revision h < rf_revision f \<longrightarrow>
      (\<exists>g \<in> R. rf_revision g = rf_revision f \<and> \<not> vis g)"
    using w mx by (auto simp: walk_result_def)
  have "rf_revision f \<le> rf_revision h" if f: "f \<in> R" "vis f" for f
  proof (rule ccontr)
    assume "\<not> rf_revision f \<le> rf_revision h"
    then obtain g where "g \<in> R" "rf_revision g = rf_revision f" "\<not> vis g" using up f by force
    then show False using inj_onD [OF inj] f by blast
  qed
  then show ?thesis using h Some by (simp add: is_latest_def)
qed

lemma revision_dir_max: "revision_dir F fs dir R \<Longrightarrow> \<forall>f \<in> R. rf_revision f \<le> MAX_REVISION_NUMBER"
  by (simp add: revision_dir_def rf_ok_def rev_domain_def)

text \<open>The outcome of \<^verbatim>\<open>new_revision\<close> for the latest visible revision.\<close>

definition created_revision :: "string \<Rightarrow> txn_op_type \<Rightarrow> string \<Rightarrow> string \<Rightarrow> int \<Rightarrow> mri" where
  "created_revision dir op txn_id ext n = \<lparr>mri_revision = n, mri_txn_id = Some txn_id,
     mri_txn_op_type = Some (op_value op), mri_dir_path = Some dir, mri_extension = Some ext\<rparr>"

definition revision_outcome :: "string \<Rightarrow> txn_op_type \<Rightarrow> string \<Rightarrow> string \<Rightarrow> rev_file option \<Rightarrow> mri res" where
  "revision_outcome dir op txn_id ext r =
     (case r of
        None \<Rightarrow> if op = CREATE then Inr (created_revision dir op txn_id ext 1) else Inl ObjectNotFoundError
      | Some f \<Rightarrow>
          if rf_op f = DELETE \<and> op \<noteq> CREATE then Inl ObjectDeletedError
          else if rf_op f \<noteq> DELETE \<and> op = CREATE then Inl ObjectAlreadyExistsError
          else Inr (created_revision dir op txn_id ext (rf_revision f + 1)))"

lemma next_revision_outcome:
  assumes "rf_ok f"
  shows "next_revision (rf_mri dir f) D op txn_id ext = revision_outcome D op txn_id ext (Some f)"
proof -
  have "mri_exists (rf_mri dir f)" using assms by (auto simp: mri_exists_def rf_ok_def rev_domain_def)
  then show ?thesis by (simp add: next_revision_def revision_outcome_def created_revision_def)
qed

lemma new_revision_walk:
  assumes R: "revision_dir F fs dir R" and logs: "logs_end_times F fs log_dir E R" and id: "txn_id \<noteq> []"
  obtains r where "walk_result R (sees E st txn_id) MAX_REVISION_NUMBER r"
    "new_revision F fs dir op st txn_id ext (Some log_dir) = Some (revision_outcome dir op txn_id ext r)"
proof (rule latest_revision_walk [OF assms, of st "op = CREATE"])
  fix r assume w: "walk_result R (sees E st txn_id) MAX_REVISION_NUMBER r"
    and l: "latest_revision F fs dir (Some log_dir) (Some st) (Some txn_id) (op = CREATE) =
       Some (case r of None \<Rightarrow> if op = CREATE then Inr mri_undefined else Inl ObjectNotFoundError
                     | Some f \<Rightarrow> Inr (rf_mri dir f))"
  have "new_revision F fs dir op st txn_id ext (Some log_dir) = Some (revision_outcome dir op txn_id ext r)"
  proof (cases r)
    case None
    then show ?thesis
      by (simp add: new_revision_def l next_revision_def mri_exists_def mri_undefined_def revision_outcome_def created_revision_def)
  next
    case (Some f)
    then have "rf_ok f" using w revision_dir_base(2) [OF R] by (simp add: walk_result_def)
    then show ?thesis using Some by (simp add: new_revision_def l next_revision_outcome)
  qed
  then show thesis using that w by blast
qed

subsection \<open>The conflict check\<close>

text \<open>
  The check as a condition on the files of one revision number: every other transaction has a
  smaller identifier and is not completed. An end time of zero counts as not completed.
\<close>

definition completed :: "(string \<Rightarrow> int option) \<Rightarrow> string \<Rightarrow> bool" where
  "completed end_times i \<longleftrightarrow> end_times i \<noteq> None \<and> end_times i \<noteq> Some 0"

definition conflict_free :: "(string \<Rightarrow> int option) \<Rightarrow> rev_file set \<Rightarrow> rev_file \<Rightarrow> bool" where
  "conflict_free end_times R f \<longleftrightarrow>
     (\<forall>g \<in> R. rf_revision g = rf_revision f \<and> rf_txn_id g \<noteq> rf_txn_id f \<longrightarrow>
        rf_txn_id g < rf_txn_id f \<and> \<not> completed end_times (rf_txn_id g))"

lemma scan_conflicts_same:
  assumes "dir_path dir" "\<forall>g \<in> set gs. rf_ok g \<and> rf_revision g = rf_revision f"
    "int (length acc + length (filter (\<lambda>g. rf_txn_id g \<noteq> rf_txn_id f) gs)) < MAX_CONCURRENT_CONFLICT_COUNT"
  shows "scan_conflicts (rf_mri dir f) (map (rf_path dir) gs @ rest) acc =
    (if \<exists>g \<in> set gs. rf_txn_id f < rf_txn_id g then Inl ConcurrentModificationError
     else scan_conflicts (rf_mri dir f) rest (acc @ map (rf_mri dir) (filter (\<lambda>g. rf_txn_id g \<noteq> rf_txn_id f) gs)))"
  using assms(2,3)
proof (induction gs arbitrary: acc)
  case (Cons g gs)
  have p: "mri_parse (rf_path dir g) = Inr (rf_mri dir g)" using Cons.prems assms(1) by (simp add: mri_parse_rf_path)
  have gs: "\<forall>g \<in> set gs. rf_ok g \<and> rf_revision g = rf_revision f" and r: "rf_revision g = rf_revision f"
    using Cons.prems(1) by simp_all
  show ?case
  proof (cases "rf_txn_id g = rf_txn_id f")
    case True
    then show ?thesis using Cons.IH [OF gs, of acc] Cons.prems(2) r by (simp add: p)
  next
    case False
    then show ?thesis using Cons.IH [OF gs, of "acc @ [rf_mri dir g]"] Cons.prems(2) r by (simp add: p)
  qed
qed simp

lemma scan_conflicts_older:
  assumes "dir_path dir" "\<forall>g \<in> set gs. rf_ok g \<and> rf_revision g < rf_revision f"
  shows "scan_conflicts (rf_mri dir f) (map (rf_path dir) gs) acc = Inr acc"
  using assms by (cases gs) (simp_all add: mri_parse_rf_path)

lemma check_completed_eq:
  assumes "logs_end_times F fs log_dir E R" "set gs \<subseteq> R"
  shows "check_completed F fs log_dir (map (rf_mri dir) gs) =
    (if \<exists>g \<in> set gs. completed E (rf_txn_id g) then Inl ConcurrentModificationError else Inr ())"
  using assms(2)
proof (induction gs)
  case (Cons g gs)
  then have "g \<in> R" by simp
  then obtain p where "success_txn_log_dir_path log_dir (rf_txn_id g) = Inr p" "read_end_time F fs p = Inr (E (rf_txn_id g))"
    using assms(1) by (auto simp: logs_end_times_def)
  then show ?case using Cons by (simp add: completed_def)
qed simp

lemma sorted_split:
  assumes "sorted_wrt (\<lambda>f g. rf_revision g \<le> rf_revision f) page" "\<forall>g \<in> set page. rf_revision g \<le> n"
  obtains A B where "page = A @ B" "\<forall>g \<in> set A. rf_revision g = n" "\<forall>g \<in> set B. rf_revision g < n"
proof -
  let ?A = "takeWhile (\<lambda>g. rf_revision g = n) page" and ?B = "dropWhile (\<lambda>g. rf_revision g = n) page"
  have "\<forall>g \<in> set ?B. rf_revision g < n"
  proof (cases ?B)
    case (Cons b bs)
    then have "rf_revision b \<noteq> n" using hd_dropWhile [of "\<lambda>g. rf_revision g = n" page] by auto
    moreover have "b \<in> set page" using Cons set_dropWhileD [of b] by (metis list.set_intros(1))
    moreover have "sorted_wrt (\<lambda>f g. rf_revision g \<le> rf_revision f) (b # bs)"
      using assms(1) Cons by (metis sorted_wrt_append takeWhile_dropWhile_id)
    ultimately show ?thesis using assms(2) Cons by fastforce
  qed simp
  then show ?thesis using that [of ?A ?B] by (auto dest: set_takeWhileD)
qed

lemma scan_page:
  assumes R: "revision_dir F fs dir R" and f: "f \<in> R" and page: "set page = {g \<in> R. rf_revision g \<le> rf_revision f}"
    "distinct page" "sorted_wrt (\<lambda>f g. rf_revision g \<le> rf_revision f) page"
    and few: "card {g \<in> R. rf_revision g = rf_revision f} \<le> nat DEFAULT_PAGE_SIZE"
  obtains A where "set A = {g \<in> R. rf_revision g = rf_revision f}"
    "scan_conflicts (rf_mri dir f) (map (rf_path dir) (take (nat DEFAULT_PAGE_SIZE) page)) [] =
      (if \<exists>g \<in> set A. rf_txn_id f < rf_txn_id g then Inl ConcurrentModificationError
       else Inr (map (rf_mri dir) (filter (\<lambda>g. rf_txn_id g \<noteq> rf_txn_id f) A)))"
proof -
  note base = revision_dir_base [OF R]
  obtain A B where AB: "page = A @ B" "\<forall>g \<in> set A. rf_revision g = rf_revision f"
    "\<forall>g \<in> set B. rf_revision g < rf_revision f"
    using sorted_split [OF page(3), of "rf_revision f"] page(1) by blast
  have A: "set A = {g \<in> R. rf_revision g = rf_revision f}" using page(1) AB by fastforce
  then have lenA: "length A \<le> nat DEFAULT_PAGE_SIZE" using few page(2) AB(1) distinct_card [of A] by simp
  let ?C = "filter (\<lambda>g. rf_txn_id g \<noteq> rf_txn_id f) A"
  have "length ?C < length A" using f A by (intro length_filter_less [of f]) auto
  then have few': "int (length ([] :: mri list) + length ?C) < MAX_CONCURRENT_CONFLICT_COUNT"
    using lenA by (simp add: MAX_CONCURRENT_CONFLICT_COUNT_def DEFAULT_PAGE_SIZE_def)
  have oks: "\<forall>g \<in> set A. rf_ok g \<and> rf_revision g = rf_revision f"
    "\<forall>g \<in> set (take (nat DEFAULT_PAGE_SIZE - length A) B). rf_ok g \<and> rf_revision g < rf_revision f"
    using page(1) AB base(2) by (auto dest: in_set_takeD)
  have take: "take (nat DEFAULT_PAGE_SIZE) page = A @ take (nat DEFAULT_PAGE_SIZE - length A) B"
    using lenA by (simp add: AB(1))
  have "scan_conflicts (rf_mri dir f) (map (rf_path dir) (take (nat DEFAULT_PAGE_SIZE) page)) [] =
      (if \<exists>g \<in> set A. rf_txn_id f < rf_txn_id g then Inl ConcurrentModificationError else Inr (map (rf_mri dir) ?C))"
    unfolding take map_append scan_conflicts_same [OF base(1) oks(1) few'] scan_conflicts_older [OF base(1) oks(2)] by simp
  then show ?thesis using that A by blast
qed

lemma check_conflict_eq:
  assumes R: "revision_dir F fs dir R" and logs: "logs_end_times F fs log_dir E R" and f: "f \<in> R"
    and few: "card {g \<in> R. rf_revision g = rf_revision f} \<le> nat DEFAULT_PAGE_SIZE"
  shows "check_for_concurrent_txn_conflict F fs log_dir (rf_path dir f) =
    (if conflict_free E R f then Inr () else Inl ConcurrentModificationError)"
proof -
  note base = revision_dir_base [OF R]
  have ok: "rf_ok f" "rev_domain (rf_revision f)" using base(2) f by (auto simp: rf_ok_def)
  have D: "dirname (rf_path dir f) = rf_dir dir f"
    unfolding rf_path_def by (rule dirname_path_join) (rule rf_ok_facts [OF ok(1) base(1)])+
  have lim: "0 < DEFAULT_PAGE_SIZE" by (simp add: DEFAULT_PAGE_SIZE_def)
  obtain page where page: "set page = {g \<in> R. rf_revision g \<le> rf_revision f}" "distinct page"
    "sorted_wrt (\<lambda>f g. rf_revision g \<le> rf_revision f) page"
    and run: "sorted_file_paths F fs (rf_dir dir f) (rf_revision f) (Some DEFAULT_PAGE_SIZE) False =
      (if page = [] \<and> \<not> False then Inl ObjectNotFoundError
       else Inr (map (rf_path dir) (take (nat DEFAULT_PAGE_SIZE) page)))"
    using sorted_file_paths_page [OF R ok(2) lim, of "rf_dir dir f" False] ok(2) unfolding rf_dir_def by blast
  obtain A where A: "set A = {g \<in> R. rf_revision g = rf_revision f}"
    and scan: "scan_conflicts (rf_mri dir f) (map (rf_path dir) (take (nat DEFAULT_PAGE_SIZE) page)) [] =
      (if \<exists>g \<in> set A. rf_txn_id f < rf_txn_id g then Inl ConcurrentModificationError
       else Inr (map (rf_mri dir) (filter (\<lambda>g. rf_txn_id g \<noteq> rf_txn_id f) A)))"
    using scan_page [OF R f page few] .
  let ?C = "filter (\<lambda>g. rf_txn_id g \<noteq> rf_txn_id f) A"
  have "page \<noteq> []" using f page(1) by auto
  then have run': "check_for_concurrent_txn_conflict F fs log_dir (rf_path dir f) =
      rbind (if \<exists>g \<in> set A. rf_txn_id f < rf_txn_id g then Inl ConcurrentModificationError else Inr (map (rf_mri dir) ?C))
        (\<lambda>ms. check_completed F fs log_dir ms)"
    by (simp add: check_for_concurrent_txn_conflict_def mri_parse_rf_path(1) [OF ok(1) base(1)] D run scan)
  have C: "set ?C \<subseteq> R" using A by auto
  have cf: "conflict_free E R f \<longleftrightarrow> \<not> (\<exists>g \<in> set A. rf_txn_id f < rf_txn_id g) \<and> \<not> (\<exists>g \<in> set ?C. completed E (rf_txn_id g))"
    unfolding conflict_free_def A set_filter by (auto simp: not_less_iff_gr_or_eq)
  show ?thesis unfolding run' cf using check_completed_eq [OF logs C] by simp
qed

subsection \<open>Revision directories in memory\<close>

lemma mem_holds_list:
  "mem_holds sz fs base transform (set L) \<longleftrightarrow>
     distinct (map fst fs) \<and>
     set (map (\<lambda>(p, c). (p, Some (sz c))) (filter (\<lambda>q. below base (fst q) \<noteq> None) fs)) =
     set (map (stored_entry base transform) L)"
  by (simp add: mem_holds_def)

lemma mem_revision_dir:
  assumes "revision_base dir" "\<forall>f \<in> R. rf_ok f"
    "mem_holds sz fs dir rev_transform (rf_stored szf ` R)"
  shows "revision_dir (mem_F sz) fs dir R"
proof -
  note dp = revision_base_facts(1) [OF assms(1)]
  have "partitioned_layout (mem_F sz) fs dir rev_transform 2 mri_parse_revision True (rf_stored szf ` R)"
  proof (rule mem_partitioned_layout [OF dp assms(3)])
    show "tree_ok rev_transform 2 (rf_stored szf ` R)"
      using assms(2) rev_scheme.dirs_facts rf_ok_facts(5) [OF _ dp] by (auto simp: tree_ok_def rf_ok_def)
    show "\<forall>e \<in> rf_stored szf ` R. visible (st_name e) \<and>
        mri_parse_revision (stored_path dir rev_transform e) = Inr (Some (st_value e))"
      using assms(2) rf_ok_facts(5) [OF _ dp] mri_parse_rf_path(2) [OF _ dp] by simp
  qed simp
  then show ?thesis using assms by (auto simp: revision_dir_def)
qed

end
