(* ===== verification/Locators.thy ===== *)
theory Locators
  imports PyNumbers
begin

text \<open>
  Locators: the typed, hierarchical names of catalog objects (\<^verbatim>\<open>locator.py\<close> and the locator classes of
  \<^verbatim>\<open>namespace.py\<close>, \<^verbatim>\<open>table.py\<close>, \<^verbatim>\<open>table_version.py\<close>, \<^verbatim>\<open>stream.py\<close>, \<^verbatim>\<open>partition.py\<close> and
  \<^verbatim>\<open>delta.py\<close> under \<^verbatim>\<open>deltacat/storage/model\<close>), and the table version identifiers. Partition values are
  kept as the text \<^verbatim>\<open>str(values)\<close> that the code uses of them. The SHA-1 function is a parameter.
\<close>

subsection \<open>Table versions\<close>

text \<open>The character class \<^verbatim>\<open>\w\<close> of Python's \<^verbatim>\<open>re\<close> for the characters below 256.\<close>

definition is_word_char :: "char \<Rightarrow> bool" where
  "is_word_char c \<longleftrightarrow>
     (let n = (of_char c :: nat)
      in is_decimal c \<or> 65 \<le> n \<and> n \<le> 90 \<or> 97 \<le> n \<and> n \<le> 122 \<or> c = CHR ''_'' \<or>
         n \<in> {170, 178, 179, 181, 185, 186, 188, 189, 190} \<or>
         192 \<le> n \<and> n \<noteq> 215 \<and> n \<noteq> 247)"

definition BYTES_PER_KIBIBYTE :: nat where "BYTES_PER_KIBIBYTE = 1024"

definition drop_newline :: "string \<Rightarrow> string" where
  "drop_newline s = (if s \<noteq> [] \<and> last s = CHR 0x0A then butlast s else s)"

text \<open>
  \<^verbatim>\<open>parse_table_version\<close>: the match of \<^verbatim>\<open>^(\w*\.)?(\d+)$\<close>, whose dollar also accepts a final newline.
  The prefix keeps its dot. \<open>None\<close> is Python's \<^verbatim>\<open>None\<close> for the argument and for a missing prefix.
\<close>

definition match_version :: "string \<Rightarrow> (string option \<times> string) option" where
  "match_version s =
     (let (p, rest) = (takeWhile (\<lambda>c. c \<noteq> dot) s, dropWhile (\<lambda>c. c \<noteq> dot) s)
      in if rest = [] then (if isdigit p then Some (None, p) else None)
         else if list_all is_word_char p \<and> isdigit (tl rest) then Some (Some (p @ [dot]), tl rest)
         else None)"

definition parse_table_version :: "string option \<Rightarrow> (string option \<times> int) res" where
  "parse_table_version table_version =
     (case table_version of
        None \<Rightarrow> Inl ValueError
      | Some s \<Rightarrow>
          if s = [] then Inl ValueError
          else if BYTES_PER_KIBIBYTE < length s then Inl ValueError
          else (case match_version (drop_newline s) of
                  None \<Rightarrow> Inl ValueError
                | Some (prefix, digits) \<Rightarrow>
                    rbind (of_option ValueError (py_int digits)) (\<lambda>n. Inr (prefix, n))))"

definition version_text :: "string option \<Rightarrow> int \<Rightarrow> string" where
  "version_text prefix n = (case prefix of None \<Rightarrow> int_to_str n | Some p \<Rightarrow> if p = [] then int_to_str n else p @ int_to_str n)"

definition next_version :: "string option \<Rightarrow> string res" where
  "next_version previous_version =
     rbind (case previous_version of None \<Rightarrow> Inr (None, None)
            | Some v \<Rightarrow> rbind (parse_table_version (Some v)) (\<lambda>(prefix, n). Inr (prefix, Some n))) (\<lambda>(prefix, number).
       let new_version_number = (case number of None \<Rightarrow> 1 | Some n \<Rightarrow> n + 1);
           new_prefix = (case prefix of None \<Rightarrow> [] | Some p \<Rightarrow> p)
       in Inr (new_prefix @ int_to_str new_version_number))"

definition current_version_number :: "string option \<Rightarrow> int option res" where
  "current_version_number table_version =
     (case table_version of None \<Rightarrow> Inr None
      | Some v \<Rightarrow> rbind (parse_table_version (Some v)) (\<lambda>(_, n). Inr (Some n)))"

subsection \<open>Locator classes\<close>

record namespace_locator =
  nl_namespace :: "string option"

record table_locator =
  tl_namespace_locator :: "namespace_locator option"
  tl_table_name :: "string option"

record table_version_locator =
  tvl_table_locator :: "table_locator option"
  tvl_table_version :: "string option"

record stream_locator =
  sl_table_version_locator :: "table_version_locator option"
  sl_stream_id :: "string option"
  sl_format :: "string option"

record partition_locator =
  pl_stream_locator :: "stream_locator option"
  pl_partition_values :: "string option"
  pl_partition_id :: "string option"

record delta_locator =
  dl_partition_locator :: "partition_locator option"
  dl_stream_position :: "int option"

text \<open>An optional string argument is absent when it is \<^verbatim>\<open>None\<close> or empty.\<close>

definition truthy :: "string option \<Rightarrow> bool" where
  "truthy s \<longleftrightarrow> s \<noteq> None \<and> s \<noteq> Some []"

definition namespace_locator_of :: "string option \<Rightarrow> namespace_locator" where
  "namespace_locator_of ns = \<lparr>nl_namespace = ns\<rparr>"

definition table_locator_of :: "namespace_locator option \<Rightarrow> string option \<Rightarrow> table_locator" where
  "table_locator_of nl t = \<lparr>tl_namespace_locator = nl, tl_table_name = t\<rparr>"

definition table_locator_at :: "string option \<Rightarrow> string option \<Rightarrow> table_locator" where
  "table_locator_at ns t = table_locator_of (if truthy ns then Some (namespace_locator_of ns) else None) t"

text \<open>The setter of the table version validates the identifier and stores its canonical form.\<close>

definition set_table_version :: "string option \<Rightarrow> table_version_locator \<Rightarrow> table_version_locator res" where
  "set_table_version v l =
     rbind (parse_table_version v) (\<lambda>(prefix, n). Inr (l\<lparr>tvl_table_version := Some (version_text prefix n)\<rparr>))"

definition table_version_locator_of :: "table_locator option \<Rightarrow> string option \<Rightarrow> table_version_locator res" where
  "table_version_locator_of tbl v =
     set_table_version v \<lparr>tvl_table_locator = tbl, tvl_table_version = None\<rparr>"

definition table_version_locator_at :: "string option \<Rightarrow> string option \<Rightarrow> string option \<Rightarrow> table_version_locator res" where
  "table_version_locator_at ns t v =
     table_version_locator_of (if truthy t then Some (table_locator_at ns t) else None) v"

definition stream_locator_of :: "table_version_locator option \<Rightarrow> string option \<Rightarrow> string option \<Rightarrow> stream_locator" where
  "stream_locator_of tvl sid fmt = \<lparr>sl_table_version_locator = tvl, sl_stream_id = sid, sl_format = fmt\<rparr>"

definition stream_locator_at ::
  "string option \<Rightarrow> string option \<Rightarrow> string option \<Rightarrow> string option \<Rightarrow> string option \<Rightarrow> stream_locator res" where
  "stream_locator_at ns t v sid fmt =
     rbind (if truthy v then rbind (table_version_locator_at ns t v) (\<lambda>l. Inr (Some l)) else Inr None) (\<lambda>tvl.
       Inr (stream_locator_of tvl sid fmt))"

definition partition_locator_of :: "stream_locator option \<Rightarrow> string option \<Rightarrow> string option \<Rightarrow> partition_locator" where
  "partition_locator_of sl vals pid = \<lparr>pl_stream_locator = sl, pl_partition_values = vals, pl_partition_id = pid\<rparr>"

definition partition_locator_at ::
  "string option \<Rightarrow> string option \<Rightarrow> string option \<Rightarrow> string option \<Rightarrow> string option \<Rightarrow> string option \<Rightarrow>
   string option \<Rightarrow> partition_locator res" where
  "partition_locator_at ns t v sid fmt vals pid =
     rbind (if truthy fmt \<or> truthy sid then rbind (stream_locator_at ns t v sid fmt) (\<lambda>l. Inr (Some l)) else Inr None)
       (\<lambda>sl. Inr (partition_locator_of sl vals pid))"

definition delta_locator_of :: "partition_locator option \<Rightarrow> int option \<Rightarrow> delta_locator" where
  "delta_locator_of pl pos = \<lparr>dl_partition_locator = pl, dl_stream_position = pos\<rparr>"

definition delta_locator_at ::
  "string option \<Rightarrow> string option \<Rightarrow> string option \<Rightarrow> string option \<Rightarrow> string option \<Rightarrow> string option \<Rightarrow>
   string option \<Rightarrow> int option \<Rightarrow> delta_locator res" where
  "delta_locator_at ns t v sid fmt vals pid pos =
     rbind (if truthy pid \<or> vals \<noteq> None \<or> truthy sid \<or> truthy fmt \<or> truthy t \<or> truthy v \<or> truthy ns
            then rbind (partition_locator_at ns t v sid fmt vals pid) (\<lambda>l. Inr (Some l)) else Inr None)
       (\<lambda>pl. Inr (delta_locator_of pl pos))"

subsection \<open>Derived properties\<close>

text \<open>
  The getters that walk up the hierarchy return nothing where a parent is missing. A table version
  locator is never empty, so its truth value is that of its presence; the same holds for the others.
\<close>

definition tl_namespace :: "table_locator \<Rightarrow> string option" where
  "tl_namespace l = Option.bind (tl_namespace_locator l) nl_namespace"

definition tvl_namespace_locator :: "table_version_locator \<Rightarrow> namespace_locator option" where
  "tvl_namespace_locator l = Option.bind (tvl_table_locator l) tl_namespace_locator"

definition tvl_namespace :: "table_version_locator \<Rightarrow> string option" where
  "tvl_namespace l = Option.bind (tvl_table_locator l) tl_namespace"

definition tvl_table_name :: "table_version_locator \<Rightarrow> string option" where
  "tvl_table_name l = Option.bind (tvl_table_locator l) tl_table_name"

definition sl_namespace_locator :: "stream_locator \<Rightarrow> namespace_locator option" where
  "sl_namespace_locator l = Option.bind (sl_table_version_locator l) tvl_namespace_locator"

definition sl_table_locator :: "stream_locator \<Rightarrow> table_locator option" where
  "sl_table_locator l = Option.bind (sl_table_version_locator l) tvl_table_locator"

definition sl_namespace :: "stream_locator \<Rightarrow> string option" where
  "sl_namespace l = Option.bind (sl_table_version_locator l) tvl_namespace"

definition sl_table_name :: "stream_locator \<Rightarrow> string option" where
  "sl_table_name l = Option.bind (sl_table_version_locator l) tvl_table_name"

definition sl_table_version :: "stream_locator \<Rightarrow> string option" where
  "sl_table_version l = Option.bind (sl_table_version_locator l) tvl_table_version"

definition pl_namespace_locator :: "partition_locator \<Rightarrow> namespace_locator option" where
  "pl_namespace_locator l = Option.bind (pl_stream_locator l) sl_namespace_locator"

definition pl_table_locator :: "partition_locator \<Rightarrow> table_locator option" where
  "pl_table_locator l = Option.bind (pl_stream_locator l) sl_table_locator"

definition pl_table_version_locator :: "partition_locator \<Rightarrow> table_version_locator option" where
  "pl_table_version_locator l = Option.bind (pl_stream_locator l) sl_table_version_locator"

definition pl_stream_id :: "partition_locator \<Rightarrow> string option" where
  "pl_stream_id l = Option.bind (pl_stream_locator l) sl_stream_id"

definition pl_stream_format :: "partition_locator \<Rightarrow> string option" where
  "pl_stream_format l = Option.bind (pl_stream_locator l) sl_format"

definition pl_namespace :: "partition_locator \<Rightarrow> string option" where
  "pl_namespace l = Option.bind (pl_stream_locator l) sl_namespace"

definition pl_table_name :: "partition_locator \<Rightarrow> string option" where
  "pl_table_name l = Option.bind (pl_stream_locator l) sl_table_name"

definition pl_table_version :: "partition_locator \<Rightarrow> string option" where
  "pl_table_version l = Option.bind (pl_stream_locator l) sl_table_version"

definition dl_namespace_locator :: "delta_locator \<Rightarrow> namespace_locator option" where
  "dl_namespace_locator l = Option.bind (dl_partition_locator l) pl_namespace_locator"

definition dl_table_locator :: "delta_locator \<Rightarrow> table_locator option" where
  "dl_table_locator l = Option.bind (dl_partition_locator l) pl_table_locator"

definition dl_table_version_locator :: "delta_locator \<Rightarrow> table_version_locator option" where
  "dl_table_version_locator l = Option.bind (dl_partition_locator l) pl_table_version_locator"

definition dl_stream_locator :: "delta_locator \<Rightarrow> stream_locator option" where
  "dl_stream_locator l = Option.bind (dl_partition_locator l) pl_stream_locator"

definition dl_partition_values :: "delta_locator \<Rightarrow> string option" where
  "dl_partition_values l = Option.bind (dl_partition_locator l) pl_partition_values"

definition dl_partition_id :: "delta_locator \<Rightarrow> string option" where
  "dl_partition_id l = Option.bind (dl_partition_locator l) pl_partition_id"

definition dl_stream_id :: "delta_locator \<Rightarrow> string option" where
  "dl_stream_id l = Option.bind (dl_partition_locator l) pl_stream_id"

definition dl_stream_format :: "delta_locator \<Rightarrow> string option" where
  "dl_stream_format l = Option.bind (dl_partition_locator l) pl_stream_format"

definition dl_namespace :: "delta_locator \<Rightarrow> string option" where
  "dl_namespace l = Option.bind (dl_partition_locator l) pl_namespace"

definition dl_table_name :: "delta_locator \<Rightarrow> string option" where
  "dl_table_name l = Option.bind (dl_partition_locator l) pl_table_name"

definition dl_table_version :: "delta_locator \<Rightarrow> string option" where
  "dl_table_version l = Option.bind (dl_partition_locator l) pl_table_version"

lemmas locator_getters = tl_namespace_def tvl_namespace_locator_def tvl_namespace_def tvl_table_name_def
  sl_namespace_locator_def sl_table_locator_def sl_namespace_def sl_table_name_def sl_table_version_def
  pl_namespace_locator_def pl_table_locator_def pl_table_version_locator_def pl_stream_id_def
  pl_stream_format_def pl_namespace_def pl_table_name_def pl_table_version_def
  dl_namespace_locator_def dl_table_locator_def dl_table_version_locator_def dl_stream_locator_def
  dl_partition_values_def dl_partition_id_def dl_stream_id_def dl_stream_format_def dl_namespace_def
  dl_table_name_def dl_table_version_def

lemmas locator_ctors = namespace_locator_of_def table_locator_of_def table_locator_at_def
  table_version_locator_of_def table_version_locator_at_def set_table_version_def stream_locator_of_def
  stream_locator_at_def partition_locator_of_def partition_locator_at_def delta_locator_of_def delta_locator_at_def

subsection \<open>Names, canonical strings and paths\<close>

text \<open>The objects the \<^verbatim>\<open>Locator\<close> interface is implemented by, with the two alias classes.\<close>

datatype any_locator =
    NamespaceLoc namespace_locator
  | TableLoc table_locator
  | TableVersionLoc table_version_locator
  | StreamLoc stream_locator
  | PartitionLoc partition_locator
  | DeltaLoc delta_locator
  | StreamAlias "string option" "table_version_locator option"
  | PartitionAlias "string option" "string option" "stream_locator option"

text \<open>\<^verbatim>\<open>str(x)\<close> of an optional value.\<close>

definition str_opt :: "string option \<Rightarrow> string" where
  "str_opt s = (case s of None \<Rightarrow> ''None'' | Some v \<Rightarrow> v)"

definition str_int_opt :: "int option \<Rightarrow> string" where
  "str_int_opt i = (case i of None \<Rightarrow> ''None'' | Some v \<Rightarrow> int_to_str v)"

fun immutable_id :: "any_locator \<Rightarrow> string option" where
  "immutable_id (NamespaceLoc l) = None"
| "immutable_id (TableLoc l) = None"
| "immutable_id (TableVersionLoc l) = tvl_table_version l"
| "immutable_id (StreamLoc l) = sl_stream_id l"
| "immutable_id (PartitionLoc l) = pl_partition_id l"
| "immutable_id (DeltaLoc l) = Some (str_int_opt (dl_stream_position l))"
| "immutable_id (StreamAlias fmt p) = None"
| "immutable_id (PartitionAlias vals sid p) = None"

fun name_parts :: "any_locator \<Rightarrow> string option list" where
  "name_parts (NamespaceLoc l) = [nl_namespace l]"
| "name_parts (TableLoc l) = [tl_table_name l]"
| "name_parts (TableVersionLoc l) = [tvl_table_version l]"
| "name_parts (StreamLoc l) = [sl_stream_id l, sl_format l]"
| "name_parts (PartitionLoc l) = [Some (str_opt (pl_partition_values l)), pl_partition_id l]"
| "name_parts (DeltaLoc l) = [Some (str_int_opt (dl_stream_position l))]"
| "name_parts (StreamAlias fmt p) = [fmt]"
| "name_parts (PartitionAlias vals sid p) = [Some (str_opt vals), sid]"

fun locator_parent :: "any_locator \<Rightarrow> any_locator option" where
  "locator_parent (NamespaceLoc l) = None"
| "locator_parent (TableLoc l) = map_option NamespaceLoc (tl_namespace_locator l)"
| "locator_parent (TableVersionLoc l) = map_option TableLoc (tvl_table_locator l)"
| "locator_parent (StreamLoc l) = map_option TableVersionLoc (sl_table_version_locator l)"
| "locator_parent (PartitionLoc l) = map_option StreamLoc (pl_stream_locator l)"
| "locator_parent (DeltaLoc l) = map_option PartitionLoc (dl_partition_locator l)"
| "locator_parent (StreamAlias fmt p) = map_option TableVersionLoc p"
| "locator_parent (PartitionAlias vals sid p) = map_option StreamLoc p"

text \<open>\<^verbatim>\<open>LocatorName.exists\<close> as a truth value, and \<^verbatim>\<open>LocatorName.join\<close>, which refuses missing parts.\<close>

definition name_exists :: "any_locator \<Rightarrow> bool" where
  "name_exists l \<longleftrightarrow> truthy (immutable_id l) \<or> list_all truthy (name_parts l)"

definition name_join :: "any_locator \<Rightarrow> string res" where
  "name_join l = (if None \<in> set (name_parts l) then Inl TypeError else Inr (join_with ''|'' (map the (name_parts l))))"

definition canonical_string :: "any_locator \<Rightarrow> string" where
  "canonical_string l = join_with ''|'' (map str_opt (name_parts l))"

definition hexdigest :: "(string \<Rightarrow> string) \<Rightarrow> any_locator \<Rightarrow> string" where
  "hexdigest sha1_hex l = sha1_hex (canonical_string l)"

definition locator_path :: "(string \<Rightarrow> string) \<Rightarrow> any_locator \<Rightarrow> string \<Rightarrow> string" where
  "locator_path sha1_hex l root = root @ ''/'' @ hexdigest sha1_hex l"

text \<open>
  The setter of the immutable identifier. The classes with mutable names redefine the property
  without a setter, so assigning to it is Python's \<^verbatim>\<open>AttributeError\<close>.
\<close>

fun set_immutable_id :: "string \<Rightarrow> any_locator \<Rightarrow> any_locator res" where
  "set_immutable_id i (TableVersionLoc l) = rbind (set_table_version (Some i) l) (\<lambda>l'. Inr (TableVersionLoc l'))"
| "set_immutable_id i (StreamLoc l) = Inr (StreamLoc (l\<lparr>sl_stream_id := Some i\<rparr>))"
| "set_immutable_id i (PartitionLoc l) = Inr (PartitionLoc (l\<lparr>pl_partition_id := Some i\<rparr>))"
| "set_immutable_id i (DeltaLoc l) =
     rbind (of_option ValueError (py_int i)) (\<lambda>n. Inr (DeltaLoc (l\<lparr>dl_stream_position := Some n\<rparr>)))"
| "set_immutable_id i _ = Inl AttributeError"

text \<open>The parents of a locator, nearest first, as \<^verbatim>\<open>Metafile._ancestor_ids\<close> collects them.\<close>

definition locator_level :: "any_locator \<Rightarrow> nat" where
  "locator_level l = (case l of NamespaceLoc _ \<Rightarrow> 0 | TableLoc _ \<Rightarrow> 1 | TableVersionLoc _ \<Rightarrow> 2
     | StreamLoc _ \<Rightarrow> 3 | PartitionLoc _ \<Rightarrow> 4 | DeltaLoc _ \<Rightarrow> 5 | StreamAlias _ _ \<Rightarrow> 3 | PartitionAlias _ _ _ \<Rightarrow> 4)"

lemma locator_parent_level: "locator_parent l = Some p \<Longrightarrow> locator_level p < locator_level l"
  by (cases l) (auto simp: locator_level_def)

function parent_locators :: "any_locator \<Rightarrow> any_locator list" where
  "parent_locators l = (case locator_parent l of None \<Rightarrow> [] | Some p \<Rightarrow> p # parent_locators p)"
  by auto
termination
  by (relation "measure locator_level") (auto dest: locator_parent_level)

declare parent_locators.simps [simp del]

subsection \<open>Table version identifiers\<close>

lemma match_version_plain: "isdigit d \<Longrightarrow> match_version d = Some (None, d)"
proof -
  assume d: "isdigit d"
  then have "\<forall>c \<in> set d. c \<noteq> dot" using isdigit_facts(4) [OF d] by blast
  then have t: "takeWhile (\<lambda>c. c \<noteq> dot) d = d" and "dropWhile (\<lambda>c. c \<noteq> dot) d = []"
    by (simp_all add: takeWhile_eq_all_conv)
  then show ?thesis using d unfolding match_version_def t by simp
qed

lemma match_version_prefixed:
  assumes "list_all is_word_char p" "isdigit d"
  shows "match_version (p @ dot # d) = Some (Some (p @ [dot]), d)"
proof -
  have "\<not> is_word_char dot" by code_simp
  then have "\<forall>c \<in> set p. c \<noteq> dot" using assms(1) by (auto simp: list_all_iff)
  then have "takeWhile (\<lambda>c. c \<noteq> dot) (p @ dot # d) = p" "dropWhile (\<lambda>c. c \<noteq> dot) (p @ dot # d) = dot # d"
    by (simp_all add: takeWhile_append_stop dropWhile_append_stop)
  then show ?thesis using assms by (simp add: match_version_def)
qed

lemma match_version_Some:
  assumes "match_version s = Some (prefix, d)"
  shows "isdigit d" "prefix = None \<and> s = d \<or> (\<exists>p. prefix = Some (p @ [dot]) \<and> list_all is_word_char p \<and> s = p @ dot # d)"
proof -
  have split: "s = takeWhile (\<lambda>c. c \<noteq> dot) s @ dropWhile (\<lambda>c. c \<noteq> dot) s" by simp
  have hd: "hd (dropWhile (\<lambda>c. c \<noteq> dot) s) = dot" if "dropWhile (\<lambda>c. c \<noteq> dot) s \<noteq> []" using hd_dropWhile [OF that] by simp
  show "isdigit d" using assms by (auto simp: match_version_def Let_def split: if_splits)
  show "prefix = None \<and> s = d \<or> (\<exists>p. prefix = Some (p @ [dot]) \<and> list_all is_word_char p \<and> s = p @ dot # d)"
  proof (cases "dropWhile (\<lambda>c. c \<noteq> dot) s = []")
    case True
    then show ?thesis using assms split by (auto simp: match_version_def Let_def split: if_splits)
  next
    case False
    then have "prefix = Some (takeWhile (\<lambda>c. c \<noteq> dot) s @ [dot])" "list_all is_word_char (takeWhile (\<lambda>c. c \<noteq> dot) s)"
      "d = tl (dropWhile (\<lambda>c. c \<noteq> dot) s)"
      using assms by (auto simp: match_version_def Let_def split: if_splits)
    moreover have "s = takeWhile (\<lambda>c. c \<noteq> dot) s @ dot # tl (dropWhile (\<lambda>c. c \<noteq> dot) s)"
      using split hd [OF False] False by (metis list.collapse)
    ultimately show ?thesis by blast
  qed
qed

text \<open>A well-formed pair of prefix and number, as \<open>parse_table_version\<close> returns them.\<close>

definition version_parts :: "string option \<Rightarrow> int \<Rightarrow> bool" where
  "version_parts prefix n \<longleftrightarrow> 0 \<le> n \<and>
     (case prefix of None \<Rightarrow> True | Some p \<Rightarrow> p \<noteq> [] \<and> last p = dot \<and> list_all is_word_char (butlast p))"

lemma drop_newline_digits: "isdigit d \<Longrightarrow> drop_newline (p @ d) = p @ d"
proof -
  assume d: "isdigit d"
  then have "last (p @ d) \<in> set d" using isdigit_facts(1) [OF d] by simp
  then have "last (p @ d) \<noteq> CHR 0x0A" using isdigit_facts(5) [OF d] by (auto simp: is_space_def)
  then show ?thesis by (simp add: drop_newline_def)
qed

lemma parse_version_text:
  assumes "version_parts prefix n" "length (version_text prefix n) \<le> BYTES_PER_KIBIBYTE"
  shows "parse_table_version (Some (version_text prefix n)) = Inr (prefix, n)"
proof (cases prefix)
  case None
  have d: "isdigit (int_to_str n)" using assms(1) by (simp add: version_parts_def)
  then show ?thesis
    using assms None isdigit_facts(1) [OF d] drop_newline_digits [OF d, of "[]"] match_version_plain [OF d]
    by (simp add: parse_table_version_def version_text_def version_parts_def)
next
  case (Some q)
  have d: "isdigit (int_to_str n)" using assms(1) by (simp add: version_parts_def)
  obtain p where p: "q = p @ [dot]" "list_all is_word_char p"
    using assms(1) Some by (cases q rule: rev_cases) (auto simp: version_parts_def)
  have t: "version_text prefix n = p @ dot # int_to_str n" using Some p(1) by (simp add: version_text_def)
  have "drop_newline (p @ dot # int_to_str n) = p @ dot # int_to_str n" using drop_newline_digits [OF d, of "p @ [dot]"] by simp
  then show ?thesis
    using assms match_version_prefixed [OF p(2) d] Some p(1)
    unfolding t by (simp add: parse_table_version_def version_parts_def)
qed

lemma parse_table_version_Inr:
  assumes "parse_table_version v = Inr (prefix, n)"
  shows "version_parts prefix n" "\<exists>s. v = Some s \<and> s \<noteq> [] \<and> length s \<le> BYTES_PER_KIBIBYTE"
proof -
  obtain s d where s: "v = Some s" "s \<noteq> []" "length s \<le> BYTES_PER_KIBIBYTE"
    and m: "match_version (drop_newline s) = Some (prefix, d)" "py_int d = Some n"
    using assms by (auto simp: parse_table_version_def rbind_Inr_iff split: option.splits if_splits)
  show "\<exists>s. v = Some s \<and> s \<noteq> [] \<and> length s \<le> BYTES_PER_KIBIBYTE" using s by blast
  have "0 \<le> n" using m(2) py_int_isdigit [OF match_version_Some(1) [OF m(1)]] by auto
  then show "version_parts prefix n" using match_version_Some(2) [OF m(1)] by (auto simp: version_parts_def)
qed

lemma next_version_text:
  assumes "parse_table_version (Some v) = Inr (prefix, n)"
  shows "next_version (Some v) = Inr (version_text prefix (n + 1))"
  using assms parse_table_version_Inr(1) [OF assms]
  by (auto simp: next_version_def version_text_def version_parts_def split: option.splits)

subsection \<open>Properties\<close>

text \<open>Table versions count up. The version after a valid table version has the same prefix and the
  next number, as long as the identifier stays within the length limit.\<close>

lemma next_version_increments:
  assumes "parse_table_version (Some v) = Inr (prefix, n)"
    "length (version_text prefix (n + 1)) \<le> BYTES_PER_KIBIBYTE"
  shows "\<exists>w. next_version (Some v) = Inr w \<and> parse_table_version (Some w) = Inr (prefix, n + 1)"
proof -
  have "version_parts prefix (n + 1)" using parse_table_version_Inr(1) [OF assms(1)] by (simp add: version_parts_def)
  then show ?thesis using next_version_text [OF assms(1)] parse_version_text [OF _ assms(2)] by blast
qed

lemma next_version_increments_witness:
  "\<exists>w. next_version (Some ''Prod.0009'') = Inr w \<and> parse_table_version (Some w) = Inr (Some ''Prod.'', 9 + 1)"
proof -
  have "parse_table_version (Some ''Prod.0009'') = Inr (Some ''Prod.'', 9)" by code_simp
  moreover have "length (version_text (Some ''Prod.'') (9 + 1)) \<le> BYTES_PER_KIBIBYTE" by code_simp
  ultimately show ?thesis by (rule next_version_increments)
qed

text \<open>Storing a table version in a locator keeps its meaning and is canonical: the stored identifier
  parses to the same prefix and number, and storing it again changes nothing.\<close>

lemma set_table_version_canonical:
  assumes "parse_table_version v = Inr (prefix, n)" "length (version_text prefix n) \<le> BYTES_PER_KIBIBYTE"
  shows "\<exists>l'. set_table_version v l = Inr l' \<and> parse_table_version (tvl_table_version l') = Inr (prefix, n) \<and>
    set_table_version (tvl_table_version l') l' = Inr l'"
  using assms parse_version_text [OF parse_table_version_Inr(1) [OF assms(1)] assms(2)]
  by (simp add: set_table_version_def)

lemma set_table_version_canonical_witness:
  "\<exists>l'. set_table_version (Some ''MyVersion.0001'') \<lparr>tvl_table_locator = None, tvl_table_version = None\<rparr> = Inr l' \<and>
    parse_table_version (tvl_table_version l') = Inr (Some ''MyVersion.'', 1) \<and>
    set_table_version (tvl_table_version l') l' = Inr l'"
proof -
  have "parse_table_version (Some ''MyVersion.0001'') = Inr (Some ''MyVersion.'', 1)" by code_simp
  moreover have "length (version_text (Some ''MyVersion.'') 1) \<le> BYTES_PER_KIBIBYTE" by code_simp
  ultimately show ?thesis by (rule set_table_version_canonical)
qed

text \<open> a fully specified delta locator gives back every name it was built from, at its own level and
  through the getters that walk up the hierarchy, with the table version in canonical form.\<close>

lemma delta_locator_at_names:
  assumes "truthy ns" "truthy t" "truthy v" "truthy sid" "parse_table_version v = Inr (prefix, n)"
  shows "\<exists>l. delta_locator_at ns t v sid fmt vals pid pos = Inr l \<and>
    dl_namespace l = ns \<and> dl_table_name l = t \<and> dl_table_version l = Some (version_text prefix n) \<and>
    dl_stream_id l = sid \<and> dl_stream_format l = fmt \<and> dl_partition_values l = vals \<and> dl_partition_id l = pid \<and>
    dl_stream_position l = pos \<and> length (parent_locators (DeltaLoc l)) = 5"
  using assms by (simp add: locator_ctors locator_getters parent_locators.simps)

lemma delta_locator_at_names_witness:
  "\<exists>l. delta_locator_at (Some ''ns'') (Some ''events'') (Some ''v.01'') (Some ''s1'') None (Some ''[1]'') (Some ''p1'') (Some 7) = Inr l \<and>
    dl_namespace l = Some ''ns'' \<and> dl_table_name l = Some ''events'' \<and> dl_table_version l = Some (version_text (Some ''v.'') 1) \<and>
    dl_stream_id l = Some ''s1'' \<and> dl_stream_format l = None \<and> dl_partition_values l = Some ''[1]'' \<and>
    dl_partition_id l = Some ''p1'' \<and> dl_stream_position l = Some 7 \<and> length (parent_locators (DeltaLoc l)) = 5"
proof (rule delta_locator_at_names)
  show "parse_table_version (Some ''v.01'') = Inr (Some ''v.'', 1)" by code_simp
qed (simp_all add: truthy_def)

text \<open>A delta locator without a stream position claims to have a name. Its immutable identifier is the
  text of the missing value, so the name counts as defined although the position is not.\<close>

lemma undefined_delta_name_exists:
  "name_exists (DeltaLoc (delta_locator_of p None)) \<and> immutable_id (DeltaLoc (delta_locator_of p None)) = Some ''None''"
  by (simp add: name_exists_def delta_locator_of_def str_int_opt_def truthy_def)

text \<open> canonical strings are not global. Two tables of one name in different namespaces have the same
  canonical string and digest, whatever the hash function: the parent is not part of it.\<close>

lemma canonical_string_ignores_parent:
  "canonical_string (TableLoc (table_locator_at ns1 t)) = canonical_string (TableLoc (table_locator_at ns2 t)) \<and>
   hexdigest sha1_hex (TableLoc (table_locator_at ns1 t)) = hexdigest sha1_hex (TableLoc (table_locator_at ns2 t))"
  by (simp add: canonical_string_def hexdigest_def table_locator_at_def table_locator_of_def)

end
