(* ===== verification/Metafile.thy ===== *)
theory Metafile
  imports RevisionHistory Locators
begin

text \<open>
  \<^verbatim>\<open>Metafile\<close> of \<^verbatim>\<open>deltacat/storage/model/metafile.py\<close>: resolving names to immutable identifiers, the
  ancestors and paths of an object, reading revisions, children and siblings, and writing the
  revisions of one transaction operation. The content of a metafile and its (de)serialization, the
  SHA-1 digest and the fresh UUIDs are parameters. The catalog root is the normalized one and the
  file system is given, as a started transaction passes them.
\<close>

subsection \<open>Metafiles\<close>

record 'c metafile =
  mf_id :: "string option"
  mf_locator :: any_locator
  mf_locator_alias :: "any_locator option"
  mf_ancestor_ids :: "string list"
  mf_content :: 'c

datatype metafile_class = Namespace | Table | TableVersion | Stream | Partition | Delta

text \<open>The class of a metafile is that of its locator.\<close>

definition mf_class :: "'c metafile \<Rightarrow> metafile_class option" where
  "mf_class m = (case mf_locator m of
     NamespaceLoc _ \<Rightarrow> Some Namespace | TableLoc _ \<Rightarrow> Some Table | TableVersionLoc _ \<Rightarrow> Some TableVersion
   | StreamLoc _ \<Rightarrow> Some Stream | PartitionLoc _ \<Rightarrow> Some Partition | DeltaLoc _ \<Rightarrow> Some Delta
   | StreamAlias _ _ \<Rightarrow> None | PartitionAlias _ _ _ \<Rightarrow> None)"

text \<open>The class to instantiate for a serialized dictionary, from its keys.\<close>

definition get_class :: "string list \<Rightarrow> metafile_class res" where
  "get_class ks =
     (if ''tableLocator'' \<in> set ks then Inr Table
      else if ''namespaceLocator'' \<in> set ks then Inr Namespace
      else if ''tableVersionLocator'' \<in> set ks then Inr TableVersion
      else if ''partitionLocator'' \<in> set ks then Inr Partition
      else if ''streamLocator'' \<in> set ks then Inr Stream
      else if ''deltaLocator'' \<in> set ks then Inr Delta
      else Inl ValueError)"

definition named_immutable_id :: "'c metafile \<Rightarrow> string option" where
  "named_immutable_id m = immutable_id (mf_locator m)"

text \<open>
  \<^verbatim>\<open>Metafile.id\<close>: the immutable name, the stored identifier, or a fresh UUID \<open>u\<close> that is then stored.
\<close>

definition metafile_id :: "string \<Rightarrow> 'c metafile \<Rightarrow> string" where
  "metafile_id u m =
     (if truthy (named_immutable_id m) then the (named_immutable_id m)
      else if truthy (mf_id m) then the (mf_id m) else u)"

definition assign_id :: "string \<Rightarrow> 'c metafile \<Rightarrow> 'c metafile" where
  "assign_id u m =
     (if truthy (named_immutable_id m) \<or> truthy (mf_id m) then m else m\<lparr>mf_id := Some u\<rparr>)"

definition metafile_name :: "'c metafile \<Rightarrow> string res" where
  "metafile_name m = (case mf_locator_alias m of Some a \<Rightarrow> name_join a | None \<Rightarrow> name_join (mf_locator m))"

definition update_for :: "'c metafile option \<Rightarrow> 'c metafile option" where
  "update_for other = other"

definition based_on :: "'c metafile option \<Rightarrow> string option \<Rightarrow> 'c metafile option res" where
  "based_on other new_id =
     (case update_for other of
        None \<Rightarrow> Inr None
      | Some m \<Rightarrow>
          rbind (if \<not> truthy (named_immutable_id m)
                 then (if truthy new_id then Inl ValueError else Inr (m\<lparr>mf_id := None\<rparr>))
                 else if \<not> truthy new_id then Inl ValueError
                 else rbind (set_immutable_id (the new_id) (mf_locator m)) (\<lambda>l. Inr (m\<lparr>mf_locator := l\<rparr>)))
            (\<lambda>m'. Inr (Some (m'\<lparr>mf_ancestor_ids := []\<rparr>))))"

subsection \<open>The environment of a call\<close>

text \<open>
  \<open>env_load fs path data\<close> is \<^verbatim>\<open>Metafile.deserialize\<close> followed by \<^verbatim>\<open>from_serializable\<close>,
  \<open>env_serialize\<close> is \<^verbatim>\<open>Metafile.serialize\<close>, \<open>env_empty\<close> the empty byte string.
\<close>

record ('fs, 'c, 'd) env =
  env_fs :: "('fs, 'd) filesystem"
  env_sha1 :: "string \<Rightarrow> string"
  env_serialize :: "'c metafile \<Rightarrow> 'd res"
  env_load :: "'fs \<Rightarrow> string \<Rightarrow> 'd \<Rightarrow> 'c metafile res"
  env_empty :: 'd

text \<open>The transaction a call runs in: the log directory, the start time and the identifier.\<close>

record txn_ctx =
  ctx_root :: string
  ctx_start_time :: "int option"
  ctx_txn_id :: "string option"

definition success_log_dir :: "string \<Rightarrow> string" where
  "success_log_dir catalog_root = path_join (path_join catalog_root TXN_DIR_NAME) SUCCESS_TXN_DIR_NAME"

abbreviation ctx_latest :: "('fs, 'c, 'd) env \<Rightarrow> 'fs \<Rightarrow> txn_ctx \<Rightarrow> string \<Rightarrow> mri res option" where
  "ctx_latest E fs ctx dir \<equiv> latest_revision (env_fs E) fs dir (Some (success_log_dir (ctx_root ctx)))
     (ctx_start_time ctx) (ctx_txn_id ctx) True"

subsection \<open>Names, ancestors and paths\<close>

definition locator_to_id ::
  "('fs, 'c, 'd) env \<Rightarrow> 'fs \<Rightarrow> txn_ctx \<Rightarrow> any_locator \<Rightarrow> string \<Rightarrow> string option res option" where
  "locator_to_id E fs ctx loc metafile_root =
     (if truthy (immutable_id loc) then Some (Inr (immutable_id loc))
      else dbind (ctx_latest E fs ctx (locator_path (env_sha1 E) loc metafile_root)) (\<lambda>m.
             if \<not> mri_exists m then Some (Inr None)
             else Some (rbind (get_txn_op_type m) (\<lambda>op.
                    if op = Some DELETE then Inr None
                    else rbind (mri_path m) (\<lambda>p.
                           case p of None \<Rightarrow> Inl TypeError
                           | Some path \<Rightarrow> Inr (Some (drop 1 (snd (splitext path)))))))))"

text \<open>The second loop of \<^verbatim>\<open>_ancestor_ids\<close>, from the outermost parent inwards.\<close>

fun resolve_ancestors ::
  "('fs, 'c, 'd) env \<Rightarrow> 'fs \<Rightarrow> txn_ctx \<Rightarrow> any_locator list \<Rightarrow> string \<Rightarrow> string list \<Rightarrow> string list res option" where
  "resolve_ancestors E fs ctx [] metafile_root ancestor_ids = Some (Inr ancestor_ids)"
| "resolve_ancestors E fs ctx (parent # rest) metafile_root ancestor_ids =
     dbind (locator_to_id E fs ctx parent metafile_root) (\<lambda>ancestor_id.
       if \<not> truthy ancestor_id then Some (Inl ObjectNotFoundError)
       else let metafile_root' = path_join metafile_root (the ancestor_id)
            in (case get_file_info (env_fs E) fs metafile_root' False of
                  Inl e \<Rightarrow> Some (Inl (if e = FileNotFoundError then ObjectNotFoundError else e))
                | Inr _ \<Rightarrow> resolve_ancestors E fs ctx rest metafile_root' (ancestor_ids @ [the ancestor_id])))"

definition resolve_ancestor_ids :: "('fs, 'c, 'd) env \<Rightarrow> 'fs \<Rightarrow> txn_ctx \<Rightarrow> any_locator \<Rightarrow> string list res option" where
  "resolve_ancestor_ids E fs ctx loc = resolve_ancestors E fs ctx (rev (parent_locators loc)) (ctx_root ctx) []"

definition ancestor_ids :: "('fs, 'c, 'd) env \<Rightarrow> 'fs \<Rightarrow> txn_ctx \<Rightarrow> 'c metafile \<Rightarrow> string list res option" where
  "ancestor_ids E fs ctx m =
     (if mf_ancestor_ids m \<noteq> [] then Some (Inr (mf_ancestor_ids m))
      else resolve_ancestor_ids E fs ctx (mf_locator m))"

definition parent_root_path :: "('fs, 'c, 'd) env \<Rightarrow> 'fs \<Rightarrow> txn_ctx \<Rightarrow> 'c metafile \<Rightarrow> string res option" where
  "parent_root_path E fs ctx m =
     dbind (ancestor_ids E fs ctx m) (\<lambda>ids. Some (Inr (path_join_all (ctx_root ctx) ids)))"

definition metafile_root_path :: "('fs, 'c, 'd) env \<Rightarrow> 'fs \<Rightarrow> txn_ctx \<Rightarrow> string \<Rightarrow> 'c metafile \<Rightarrow> string res option" where
  "metafile_root_path E fs ctx u m =
     dbind (parent_root_path E fs ctx m) (\<lambda>p. Some (Inr (path_join p (metafile_id u m))))"

fun climb :: "nat \<Rightarrow> string \<Rightarrow> string" where
  "climb 0 d = d"
| "climb (Suc k) d = (if d = ''/'' then d else climb k (dirname d))"

definition parent_metafile_rev_dir_path :: "string \<Rightarrow> nat \<Rightarrow> string res" where
  "parent_metafile_rev_dir_path base_metafile_path parent_number =
     rbind (remove_exponential_partitions base_metafile_path 1000 2 False) (\<lambda>p.
       Inr (path_join (climb parent_number (dirname (dirname p))) REVISION_DIR_NAME))"

subsection \<open>Reading\<close>

definition read_metafile :: "('fs, 'c, 'd) env \<Rightarrow> 'fs \<Rightarrow> string \<Rightarrow> 'c metafile res" where
  "read_metafile E fs path = rbind (fs_read (env_fs E) fs path) (\<lambda>data. env_load E fs path data)"

definition read_revision :: "('fs, 'c, 'd) env \<Rightarrow> 'fs \<Rightarrow> mri \<Rightarrow> 'c metafile res" where
  "read_revision E fs m = rbind (mri_path m) (\<lambda>p. case p of None \<Rightarrow> Inl TypeError | Some path \<Rightarrow> read_metafile E fs path)"

text \<open>The items of \<^verbatim>\<open>revisions\<close>; the second component is missing when revisions are not materialized.\<close>

fun revision_items ::
  "('fs, 'c, 'd) env \<Rightarrow> 'fs \<Rightarrow> bool \<Rightarrow> mri list \<Rightarrow> (txn_op_type option \<times> 'c metafile option) list res" where
  "revision_items E fs materialize [] = Inr []"
| "revision_items E fs materialize (m # ms) =
     (if mri_exists m
      then rbind (if materialize then rbind (read_revision E fs m) (\<lambda>x. Inr (Some x)) else Inr None) (\<lambda>item.
           rbind (get_txn_op_type m) (\<lambda>op.
           rbind (revision_items E fs materialize ms) (\<lambda>more. Inr ((op, item) # more))))
      else revision_items E fs materialize ms)"

definition resolving_locator :: "'c metafile \<Rightarrow> any_locator option" where
  "resolving_locator m =
     (if name_exists (mf_locator m) then Some (mf_locator m)
      else (case mf_locator_alias m of None \<Rightarrow> None | Some a \<Rightarrow> if name_exists a then Some a else None))"

definition revisions ::
  "('fs, 'c, 'd) env \<Rightarrow> 'fs \<Rightarrow> txn_ctx \<Rightarrow> 'c metafile \<Rightarrow> int option \<Rightarrow> bool \<Rightarrow>
   (txn_op_type option \<times> 'c metafile option) list res option" where
  "revisions E fs ctx m limit materialize =
     (case parent_root_path E fs ctx m of
        None \<Rightarrow> None
      | Some (Inl e) \<Rightarrow> if e = ObjectNotFoundError then Some (Inr []) else Some (Inl e)
      | Some (Inr parent_root) \<Rightarrow>
          (case (case resolving_locator m of
                   None \<Rightarrow> Some (Inr None)
                 | Some loc \<Rightarrow> if truthy (mf_id m) then Some (Inr (mf_id m))
                               else locator_to_id E fs ctx loc parent_root) of
             None \<Rightarrow> None
           | Some (Inl e) \<Rightarrow> if e = ObjectNotFoundError then Some (Inr []) else Some (Inl e)
           | Some (Inr i) \<Rightarrow>
               if \<not> truthy i then Some (Inr [])
               else dbind (list_revisions (env_fs E) fs (path_join (path_join parent_root (the i)) REVISION_DIR_NAME)
                             (Some (success_log_dir (ctx_root ctx))) (ctx_start_time ctx) (ctx_txn_id ctx) limit)
                      (\<lambda>ms. Some (revision_items E fs materialize ms))))"

text \<open>The loop of \<^verbatim>\<open>_list_metafiles\<close> over the revision directories, with the items collected so far.\<close>

fun list_latest ::
  "('fs, 'c, 'd) env \<Rightarrow> 'fs \<Rightarrow> txn_ctx \<Rightarrow> int option \<Rightarrow> string list \<Rightarrow> 'c metafile list \<Rightarrow> 'c metafile list res option" where
  "list_latest E fs ctx limit [] items = Some (Inr items)"
| "list_latest E fs ctx limit (dir # dirs) items =
     dbind (ctx_latest E fs ctx dir) (\<lambda>m.
     dbind (Some (if mri_exists m
                  then rbind (get_txn_op_type m) (\<lambda>op.
                         if op \<noteq> Some DELETE then rbind (read_revision E fs m) (\<lambda>x. Inr (items @ [x])) else Inr items)
                  else Inr items)) (\<lambda>items'.
       if (case limit of None \<Rightarrow> False | Some l \<Rightarrow> l \<noteq> 0 \<and> l \<le> int (length items')) then Some (Inr items')
       else list_latest E fs ctx limit dirs items'))"

definition list_metafiles ::
  "('fs, 'c, 'd) env \<Rightarrow> 'fs \<Rightarrow> txn_ctx \<Rightarrow> string \<Rightarrow> int option \<Rightarrow> 'c metafile list res option" where
  "list_metafiles E fs ctx metafile_root_dir_path limit =
     (case list_directory (env_fs E) fs metafile_root_dir_path None True False of
        Inl e \<Rightarrow> Some (Inl e)
      | Inr entries \<Rightarrow>
          list_latest E fs ctx limit
            (map (\<lambda>x. path_join (fst x) REVISION_DIR_NAME)
               (filter (\<lambda>x. fst x \<noteq> success_log_dir (ctx_root ctx)) entries)) [])"

definition children :: "('fs, 'c, 'd) env \<Rightarrow> 'fs \<Rightarrow> txn_ctx \<Rightarrow> string \<Rightarrow> 'c metafile \<Rightarrow> int option \<Rightarrow> 'c metafile list res option" where
  "children E fs ctx u m limit = dbind (metafile_root_path E fs ctx u m) (\<lambda>p. list_metafiles E fs ctx p limit)"

definition siblings :: "('fs, 'c, 'd) env \<Rightarrow> 'fs \<Rightarrow> txn_ctx \<Rightarrow> 'c metafile \<Rightarrow> int option \<Rightarrow> 'c metafile list res option" where
  "siblings E fs ctx m limit = dbind (parent_root_path E fs ctx m) (\<lambda>p. list_metafiles E fs ctx p limit)"

end
