(* ===== verification/MetafileTxn.thy ===== *)
theory MetafileTxn
  imports Metafile
begin

text \<open>
  Transaction operations (\<^verbatim>\<open>TransactionOperation\<close> of \<^verbatim>\<open>transaction.py\<close>) and what a metafile does for
  one: \<^verbatim>\<open>read_txn\<close>, and \<^verbatim>\<open>write_txn\<close> with the name mapping and revision files it writes
  (\<^verbatim>\<open>metafile.py\<close>). The state of a write is the file system and the operation, which records every
  path as it is written, so that a failing write leaves behind what cleanup has to delete.
\<close>

subsection \<open>Transaction operations\<close>

record 'c txn_op =
  op_type :: txn_op_type
  op_dest :: "'c metafile"
  op_src :: "'c metafile option"
  op_read_limit :: "int option"
  op_metafile_write_paths :: "string list"
  op_locator_write_paths :: "string list"

text \<open>
  \<^verbatim>\<open>TransactionOperation.of\<close>. The message of the last check names \<^verbatim>\<open>TransactionOperationType.READ\<close>, which
  the enumeration does not have, so building it raises an \<^verbatim>\<open>AttributeError\<close>.
\<close>

definition txn_op_of ::
  "txn_op_type \<Rightarrow> 'c metafile option \<Rightarrow> 'c metafile option \<Rightarrow> int option \<Rightarrow> 'c txn_op res" where
  "txn_op_of operation_type dest_metafile src_metafile read_limit =
     (case dest_metafile of
        None \<Rightarrow> Inl ValueError
      | Some dest \<Rightarrow>
          if operation_type \<in> {UPDATE, REPLACE} \<and> src_metafile = None then Inl ValueError
          else if operation_type \<in> {UPDATE, REPLACE} \<and> mf_class dest \<noteq> mf_class (the src_metafile) then Inl ValueError
          else if operation_type \<notin> {UPDATE, REPLACE} \<and> src_metafile \<noteq> None then Inl ValueError
          else if is_write_operation operation_type \<and> read_limit \<noteq> None \<and> read_limit \<noteq> Some 0 then Inl AttributeError
          else Inr \<lparr>op_type = operation_type, op_dest = dest, op_src = src_metafile, op_read_limit = read_limit,
                    op_metafile_write_paths = [], op_locator_write_paths = []\<rparr>)"

definition append_metafile_write_path :: "string \<Rightarrow> 'c txn_op \<Rightarrow> 'c txn_op" where
  "append_metafile_write_path p op = op\<lparr>op_metafile_write_paths := op_metafile_write_paths op @ [p]\<rparr>"

definition append_locator_write_path :: "string \<Rightarrow> 'c txn_op \<Rightarrow> 'c txn_op" where
  "append_locator_write_path p op = op\<lparr>op_locator_write_paths := op_locator_write_paths op @ [p]\<rparr>"

subsection \<open>Reading\<close>

definition read_txn ::
  "('fs, 'c, 'd) env \<Rightarrow> 'fs \<Rightarrow> txn_ctx \<Rightarrow> string \<Rightarrow> 'c txn_op \<Rightarrow> 'c metafile option list res option" where
  "read_txn E fs ctx u op =
     (let latest = (\<lambda>materialize. dbind (revisions E fs ctx (op_dest op) (Some 1) materialize) (\<lambda>rs.
            Some (Inr (case rs of [] \<Rightarrow> [] | (t, m) # _ \<Rightarrow> if t \<noteq> Some DELETE then [m] else []))))
      in case op_type op of
           READ_SIBLINGS \<Rightarrow> dbind (siblings E fs ctx (op_dest op) (op_read_limit op)) (\<lambda>ms. Some (Inr (map Some ms)))
         | READ_CHILDREN \<Rightarrow> dbind (children E fs ctx u (op_dest op) (op_read_limit op)) (\<lambda>ms. Some (Inr (map Some ms)))
         | READ_LATEST \<Rightarrow> latest True
         | READ_EXISTS \<Rightarrow> latest False
         | _ \<Rightarrow> Some (Inl ValueError))"

subsection \<open>Writing\<close>

text \<open>A call on the file system alone, within the state of a write.\<close>

definition on_fs :: "('fs, 'a) io \<Rightarrow> ('fs \<times> 'o, 'a) pio" where
  "on_fs m s = (case m (fst s) of (r, fs') \<Rightarrow> Some (r, (fs', snd s)))"

definition ask_fs :: "('fs \<Rightarrow> 'a res option) \<Rightarrow> ('fs \<times> 'o, 'a) pio" where
  "ask_fs f s = map_option (\<lambda>r. (r, s)) (f (fst s))"

definition upd_op :: "('o \<Rightarrow> 'o) \<Rightarrow> ('fs \<times> 'o, unit) pio" where
  "upd_op g s = Some (Inr (), (fst s, g (snd s)))"

text \<open>The context of a write: the normalized root, the start time and the identifier, all present.\<close>

record write_ctx =
  w_root :: string
  w_start_time :: int
  w_txn_id :: string

definition read_ctx :: "write_ctx \<Rightarrow> txn_ctx" where
  "read_ctx w = \<lparr>ctx_root = w_root w, ctx_start_time = Some (w_start_time w), ctx_txn_id = Some (w_txn_id w)\<rparr>"

text \<open>The path of a new revision, refused where the record has none, and the write at it.\<close>

definition new_revision_path ::
  "('fs, 'c, 'd) env \<Rightarrow> 'fs \<Rightarrow> write_ctx \<Rightarrow> string \<Rightarrow> txn_op_type \<Rightarrow> string \<Rightarrow> (string \<times> int) res option" where
  "new_revision_path E fs w dir t ext =
     dbind (new_revision (env_fs E) fs dir t (w_start_time w) (w_txn_id w) ext (Some (success_log_dir (w_root w)))) (\<lambda>m.
       Some (rbind (mri_path m) (\<lambda>p. case p of None \<Rightarrow> Inl TypeError
             | Some path \<Rightarrow> rbind (remove_exponential_partitions path 1000 2 False) (\<lambda>q. Inr (q, mri_revision m)))))"

definition write_locator_to_id_map_file ::
  "('fs, 'c, 'd) env \<Rightarrow> write_ctx \<Rightarrow> any_locator \<Rightarrow> string \<Rightarrow> txn_op_type \<Rightarrow> string \<Rightarrow> ('fs \<times> 'c txn_op, string) pio" where
  "write_locator_to_id_map_file E w loc parent_obj_path t mid =
     pio_bind (ask_fs (\<lambda>fs. new_revision_path E fs w (locator_path (env_sha1 E) loc parent_obj_path) t (dot # mid))) (\<lambda>(path, revision).
     pio_bind (on_fs (write_file_partitioned (env_fs E) path (env_empty E) revision rev_transform 0)) (\<lambda>written.
     pio_bind (upd_op (append_locator_write_path written)) (\<lambda>_. pio_return written)))"

definition write_metafile_revision ::
  "('fs, 'c, 'd) env \<Rightarrow> write_ctx \<Rightarrow> 'c metafile \<Rightarrow> string \<Rightarrow> txn_op_type \<Rightarrow> ('fs \<times> 'c txn_op, string) pio" where
  "write_metafile_revision E w m revision_dir_path t =
     pio_bind (ask_fs (\<lambda>fs. new_revision_path E fs w revision_dir_path t METAFILE_EXT)) (\<lambda>(path, revision).
     pio_bind (ask_fs (\<lambda>_. Some (env_serialize E m))) (\<lambda>serialized.
     pio_bind (on_fs (write_file_partitioned (env_fs E) path serialized revision rev_transform 0)) (\<lambda>written.
     pio_bind (upd_op (append_metafile_write_path written)) (\<lambda>_. pio_return written))))"

text \<open>
  The mutable locators of source and destination whose mapping files the operation maintains: the
  locators themselves for objects with mutable names, the aliases otherwise.
\<close>

definition mutable_locators :: "'c txn_op \<Rightarrow> any_locator option \<times> any_locator option" where
  "mutable_locators op =
     (if \<not> truthy (named_immutable_id (op_dest op))
      then (map_option mf_locator (op_src op), Some (mf_locator (op_dest op)))
      else if mf_locator_alias (op_dest op) \<noteq> None
      then (Option.bind (op_src op) mf_locator_alias, mf_locator_alias (op_dest op))
      else (None, None))"

definition write_mappings ::
  "('fs, 'c, 'd) env \<Rightarrow> write_ctx \<Rightarrow> string \<times> string \<Rightarrow> string \<Rightarrow> ('fs \<times> 'c txn_op, string list) pio" where
  "write_mappings E w us parent_obj_path s =
     (let op = snd s; dest_id = metafile_id (snd us) (op_dest op)
      in case mutable_locators op of
           (_, None) \<Rightarrow> pio_return []
         | (src_loc, Some dest_loc) \<Rightarrow>
             if op_type op = UPDATE
             then (if src_loc \<noteq> Some dest_loc
                   then pio_bind
                          (case (src_loc, op_src op) of
                             (Some l, Some src) \<Rightarrow>
                               pio_bind (write_locator_to_id_map_file E w l parent_obj_path DELETE (metafile_id (fst us) src))
                                 (\<lambda>p. pio_return [p])
                           | _ \<Rightarrow> pio_return [])
                          (\<lambda>ps. pio_bind (write_locator_to_id_map_file E w dest_loc parent_obj_path CREATE dest_id)
                                   (\<lambda>p. pio_return (ps @ [p])))
                   else pio_return [])
             else pio_bind (write_locator_to_id_map_file E w dest_loc parent_obj_path (op_type op) dest_id)
                    (\<lambda>p. pio_return [p])) s"

definition write_revision_files ::
  "('fs, 'c, 'd) env \<Rightarrow> write_ctx \<Rightarrow> string \<times> string \<Rightarrow> string \<Rightarrow> ('fs \<times> 'c txn_op, string list) pio" where
  "write_revision_files E w us parent_obj_path s =
     (let op = snd s; dest = op_dest op; dest_id = metafile_id (snd us) dest;
          rev_dir = (\<lambda>i. path_join (path_join parent_obj_path i) REVISION_DIR_NAME)
      in if op_type op \<in> {UPDATE, REPLACE} \<and> op_src op = None then pio_raise AttributeError
         else if op_type op \<in> {UPDATE, REPLACE} \<and> metafile_id (fst us) (the (op_src op)) \<noteq> dest_id
         then pio_bind (write_metafile_revision E w dest (rev_dir (metafile_id (fst us) (the (op_src op)))) DELETE) (\<lambda>p.
              pio_try (pio_bind (write_metafile_revision E w dest (rev_dir dest_id) CREATE) (\<lambda>q. pio_return [p, q]))
                (\<lambda>e. if e = ObjectAlreadyExistsError then pio_return [p] else pio_raise e))
         else pio_bind (write_metafile_revision E w dest (rev_dir dest_id) (op_type op)) (\<lambda>p. pio_return [p])) s"

text \<open>
  \<^verbatim>\<open>_write_metafile_revisions\<close>: resolve the ancestors (and remember them), write the mapping files, then
  the revision files. Both metafiles have their identifiers from here on.
\<close>

definition remember_ids :: "string \<times> string \<Rightarrow> string list \<Rightarrow> 'c txn_op \<Rightarrow> 'c txn_op" where
  "remember_ids us ids op = op\<lparr>op_dest := assign_id (snd us) ((op_dest op)\<lparr>mf_ancestor_ids := ids\<rparr>),
     op_src := map_option (assign_id (fst us)) (op_src op)\<rparr>"

definition write_txn ::
  "('fs, 'c, 'd) env \<Rightarrow> write_ctx \<Rightarrow> string \<times> string \<Rightarrow> ('fs \<times> 'c txn_op, string list \<times> string list) pio" where
  "write_txn E w us s =
     pio_bind (ask_fs (\<lambda>fs. ancestor_ids E fs (read_ctx w) (op_dest (snd s)))) (\<lambda>ids.
     pio_bind (upd_op (remember_ids us ids)) (\<lambda>_.
     pio_bind (write_mappings E w us (path_join_all (w_root w) ids)) (\<lambda>locator_paths.
     pio_bind (write_revision_files E w us (path_join_all (w_root w) ids)) (\<lambda>metafile_paths.
       pio_return (metafile_paths, locator_paths))))) s"

end
