(* ===== verification/Transaction.thy ===== *)
theory Transaction
  imports MetafileTxn
begin

text \<open>
  \<^verbatim>\<open>Transaction\<close> of \<^verbatim>\<open>deltacat/storage/model/transaction.py\<close>: starting, stepping, pausing, resuming,
  sealing and committing, the failure cleanup, the log files a transaction writes and the state they
  stand for. The state of an operation is the file system and the transaction. The readings of the
  time provider (\<^verbatim>\<open>TimeProvider\<close>), the fresh UUIDs and \<^verbatim>\<open>msgpack\<close> are arguments.
\<close>

subsection \<open>Transactions\<close>

datatype time_provider = SystemProvider | HistoricProvider int

record 'c txn =
  txn_operations :: "'c txn_op list"
  txn_interactive :: bool
  txn_commit_message :: "string option"
  txn_id :: "string option"
  txn_start_time :: "int option"
  txn_pause_time :: "int option"
  txn_end_time :: "int option"
  txn_root :: string
  txn_provider :: "time_provider option"
  txn_historic_timestamp :: "int option"
  txn_running_log_written :: bool
  txn_list_results :: "'c metafile option list list"

definition txn_of :: "'c txn_op list option \<Rightarrow> string option \<Rightarrow> 'c txn" where
  "txn_of operations commit_message =
     (let ops = (case operations of None \<Rightarrow> [] | Some xs \<Rightarrow> xs)
      in \<lparr>txn_operations = ops, txn_interactive = (ops = []),
          txn_commit_message = (if truthy commit_message then commit_message else None),
          txn_id = None, txn_start_time = None, txn_pause_time = None, txn_end_time = None, txn_root = [],
          txn_provider = None, txn_historic_timestamp = None, txn_running_log_written = False, txn_list_results = []\<rparr>)"

text \<open>A time that Python's truth test takes for set.\<close>

definition time_set :: "int option \<Rightarrow> bool" where
  "time_set t \<longleftrightarrow> t \<noteq> None \<and> t \<noteq> Some 0"

text \<open>The identifier, assigned from the start time and a fresh UUID \<open>u\<close> at its first use.\<close>

definition assign_txn_id :: "string \<Rightarrow> 'c txn \<Rightarrow> 'c txn" where
  "assign_txn_id u t =
     (if \<not> truthy (txn_id t) \<and> time_set (txn_start_time t)
      then t\<lparr>txn_id := Some (txn_id_of (the (txn_start_time t)) u)\<rparr> else t)"

definition get_txn_id :: "string \<Rightarrow> ('fs \<times> 'c txn, string) pio" where
  "get_txn_id u s =
     (let t = assign_txn_id u (snd s)
      in case txn_id t of None \<Rightarrow> Some (Inl TypeError, (fst s, t)) | Some i \<Rightarrow> Some (Inr i, (fst s, t)))"

definition txn_metafile_write_paths :: "'c txn \<Rightarrow> string list" where
  "txn_metafile_write_paths t = concat (map op_metafile_write_paths (txn_operations t))"

definition txn_locator_write_paths :: "'c txn \<Rightarrow> string list" where
  "txn_locator_write_paths t = concat (map op_locator_write_paths (txn_operations t))"

definition has_write_operations :: "'c txn \<Rightarrow> bool" where
  "has_write_operations t \<longleftrightarrow> (\<exists>op \<in> set (txn_operations t). \<not> is_read_operation (op_type op))"

subsection \<open>Times\<close>

text \<open>\<open>now\<close> is the reading of the provider, or its error.\<close>

definition mark_start_time :: "int res \<Rightarrow> 'c txn \<Rightarrow> 'c txn res" where
  "mark_start_time now t =
     (if time_set (txn_start_time t) then Inl RuntimeError
      else rbind now (\<lambda>n. Inr (t\<lparr>txn_start_time := Some n\<rparr>)))"

definition mark_end_time :: "int res \<Rightarrow> 'c txn \<Rightarrow> 'c txn res" where
  "mark_end_time now t =
     (if \<not> time_set (txn_start_time t) then Inl RuntimeError
      else if time_set (txn_end_time t) then Inl RuntimeError
      else rbind now (\<lambda>n. Inr (t\<lparr>txn_end_time := Some n\<rparr>)))"

definition mark_pause_time :: "int res \<Rightarrow> 'c txn \<Rightarrow> 'c txn res" where
  "mark_pause_time now t =
     (if \<not> time_set (txn_start_time t) then Inl RuntimeError
      else if time_set (txn_end_time t) then Inl RuntimeError
      else rbind now (\<lambda>n. Inr (t\<lparr>txn_pause_time := Some n\<rparr>)))"

definition read_time_provider :: "string \<Rightarrow> time_provider res" where
  "read_time_provider provider_name =
     (if provider_name = ''TransactionSystemTimeProvider'' then Inr SystemProvider else Inl ValueError)"

definition provider_name :: "time_provider option \<Rightarrow> string" where
  "provider_name p = (case p of None \<Rightarrow> ''NoneType'' | Some SystemProvider \<Rightarrow> ''TransactionSystemTimeProvider''
     | Some (HistoricProvider _) \<Rightarrow> ''TransactionHistoricTimeProvider'')"

subsection \<open>The serialized transaction\<close>

text \<open>
  What \<^verbatim>\<open>to_serializable\<close> keeps: of source and destination the identifier and the locators, and the
  written paths relative to the catalog root. Identifiers are assigned when they are read.
\<close>

record ser_metafile =
  sm_id :: string
  sm_locator :: any_locator
  sm_locator_alias :: "any_locator option"

record ser_op =
  so_type :: txn_op_type
  so_dest :: ser_metafile
  so_src :: "ser_metafile option"
  so_read_limit :: "int option"
  so_metafile_write_paths :: "string list"
  so_locator_write_paths :: "string list"

record ser_txn =
  ser_operations :: "ser_op list"
  ser_id :: "string option"
  ser_start_time :: "int option"
  ser_pause_time :: "int option"
  ser_end_time :: "int option"
  ser_commit_message :: "string option"
  ser_historic_timestamp :: "int option"
  ser_provider :: string
  ser_root :: string

definition ser_metafile_of :: "string \<Rightarrow> 'c metafile \<Rightarrow> ser_metafile" where
  "ser_metafile_of u m = \<lparr>sm_id = metafile_id u m, sm_locator = mf_locator m, sm_locator_alias = mf_locator_alias m\<rparr>"

definition relativize_operation_paths :: "string \<Rightarrow> 'c txn_op \<Rightarrow> 'c txn_op res" where
  "relativize_operation_paths catalog_root op =
     rbind (res_map (absolute_path_to_relative catalog_root) (op_metafile_write_paths op)) (\<lambda>ms.
     rbind (res_map (absolute_path_to_relative catalog_root) (op_locator_write_paths op)) (\<lambda>ls.
       Inr (op\<lparr>op_metafile_write_paths := ms, op_locator_write_paths := ls\<rparr>)))"

definition ser_op_of :: "string \<Rightarrow> string \<times> string \<Rightarrow> 'c txn_op \<Rightarrow> ser_op res" where
  "ser_op_of catalog_root us op =
     rbind (relativize_operation_paths catalog_root op) (\<lambda>rel.
       Inr \<lparr>so_type = op_type rel, so_dest = ser_metafile_of (snd us) (op_dest rel),
            so_src = map_option (ser_metafile_of (fst us)) (op_src rel), so_read_limit = op_read_limit rel,
            so_metafile_write_paths = op_metafile_write_paths rel,
            so_locator_write_paths = op_locator_write_paths rel\<rparr>)"

definition txn_to_serializable :: "string \<Rightarrow> string \<times> string \<Rightarrow> 'c txn \<Rightarrow> ser_txn res" where
  "txn_to_serializable catalog_root us t =
     rbind (res_map (ser_op_of catalog_root us) (txn_operations t)) (\<lambda>ops.
       Inr \<lparr>ser_operations = ops, ser_id = txn_id t, ser_start_time = txn_start_time t,
            ser_pause_time = txn_pause_time t, ser_end_time = txn_end_time t,
            ser_commit_message = txn_commit_message t, ser_historic_timestamp = txn_historic_timestamp t,
            ser_provider = provider_name (txn_provider t), ser_root = txn_root t\<rparr>)"

subsection \<open>Log files\<close>

definition txn_log_dir :: "string \<Rightarrow> string" where
  "txn_log_dir root = path_join root TXN_DIR_NAME"

definition status_dir :: "txn_status \<Rightarrow> string \<Rightarrow> string" where
  "status_dir st root = path_join (txn_log_dir root) (dir_name st)"

definition running_log_path :: "'c txn \<Rightarrow> string \<Rightarrow> string" where
  "running_log_path t i = path_join (status_dir ST_RUNNING (txn_root t)) i"

text \<open>
  The arguments every operation on a transaction shares: the environment, the serializer
  (\<^verbatim>\<open>msgpack.dumps\<close>), the fresh UUID of the transaction and those of the metafiles.
\<close>

record ('fs, 'c, 'd) txn_env =
  te_env :: "('fs, 'c, 'd) env"
  te_dumps :: "ser_txn \<Rightarrow> 'd"
  te_uuid :: string
  te_uuids :: "string \<times> string"

abbreviation te_fs :: "('fs, 'c, 'd) txn_env \<Rightarrow> ('fs, 'd) filesystem" where
  "te_fs T \<equiv> env_fs (te_env T)"

definition serialized_txn :: "('fs, 'c, 'd) txn_env \<Rightarrow> ('fs \<times> 'c txn, 'd) pio" where
  "serialized_txn T s =
     Some (rbind (txn_to_serializable (txn_root (snd s)) (te_uuids T) (snd s)) (\<lambda>x. Inr (te_dumps T x)), s)"

definition upd_txn :: "('c txn \<Rightarrow> 'c txn) \<Rightarrow> ('fs \<times> 'c txn, unit) pio" where
  "upd_txn = upd_op"

text \<open>
  Opening a file for writing and writing the serialized transaction to it. The file is created empty before the
  transaction is serialized.
\<close>

definition dump_txn :: "('fs, 'c, 'd) txn_env \<Rightarrow> string \<Rightarrow> ('fs \<times> 'c txn, unit) pio" where
  "dump_txn T path s =
     (case serialized_txn T s of
        None \<Rightarrow> None
      | Some (Inr data, s') \<Rightarrow> on_fs (fs_write (te_fs T) path data) s'
      | Some (Inl e, s') \<Rightarrow> pio_bind (on_fs (fs_write (te_fs T) path (env_empty (te_env T)))) (\<lambda>_. pio_raise e) s')"

definition write_running_log :: "('fs, 'c, 'd) txn_env \<Rightarrow> string \<Rightarrow> ('fs \<times> 'c txn, unit) pio" where
  "write_running_log T path =
     pio_bind (dump_txn T path) (\<lambda>_. upd_txn (\<lambda>t. t\<lparr>txn_running_log_written := True\<rparr>))"

text \<open>Best-effort deletion: every error is logged and ignored.\<close>

definition delete_quietly :: "('fs, 'd) filesystem \<Rightarrow> string \<Rightarrow> 'fs \<Rightarrow> 'fs" where
  "delete_quietly F p fs = snd (fs_delete_file F p fs)"

definition fail_and_cleanup ::
  "('fs, 'c, 'd) txn_env \<Rightarrow> string \<Rightarrow> string option \<Rightarrow> ('fs \<times> 'c txn, unit) pio" where
  "fail_and_cleanup T running_path success_log_path =
     pio_bind (get_txn_id (te_uuid T)) (\<lambda>i.
     pio_bind (serialized_txn T) (\<lambda>data. \<lambda>s.
       let t = snd s; F = te_fs T
       in pio_bind (on_fs (write_file_partitioned F (path_join (status_dir ST_FAILED (txn_root t)) i) data
                      (the (txn_start_time t)) epoch_timestamp_partition_transform 0)) (\<lambda>_ s'.
            Some (Inr (), (fold (delete_quietly F)
                   (txn_metafile_write_paths t @ txn_locator_write_paths t @ [running_path] @
                    (if truthy success_log_path then [the success_log_path] else [])) (fst s'), snd s'))) s))"

subsection \<open>Starting\<close>

fun create_log_dirs :: "('fs, 'd) filesystem \<Rightarrow> string \<Rightarrow> txn_status list \<Rightarrow> ('fs, unit) io" where
  "create_log_dirs F root [] = io_return ()"
| "create_log_dirs F root (st # sts) =
     io_bind (io_try (fs_create_dir F (status_dir st root) False)
                (\<lambda>e. if e = FileExistsError then io_return () else io_raise e))
       (\<lambda>_. create_log_dirs F root sts)"

definition start_provider :: "int option \<Rightarrow> int res \<Rightarrow> (time_provider \<times> int res) res" where
  "start_provider historic_timestamp now =
     (case historic_timestamp of
        None \<Rightarrow> Inr (SystemProvider, now)
      | Some ts \<Rightarrow> rbind now (\<lambda>n. if ts > n then Inl ValueError else Inr (HistoricProvider ts, Inr ts)))"

definition txn_start ::
  "('fs, 'd) filesystem \<Rightarrow> string \<Rightarrow> int option \<Rightarrow> int res \<Rightarrow> 'c txn \<Rightarrow> ('fs, 'c txn) io" where
  "txn_start F catalog_root historic_timestamp now t =
     io_bind (io_lift (\<lambda>_. rbind (start_provider historic_timestamp now) (\<lambda>(p, reading).
                mark_start_time reading (t\<lparr>txn_provider := Some p, txn_historic_timestamp :=
                  (if historic_timestamp \<noteq> None then historic_timestamp else txn_historic_timestamp t)\<rparr>)))) (\<lambda>t'.
     io_bind (fs_create_dir F (status_dir ST_RUNNING catalog_root) True) (\<lambda>_.
     io_bind (create_log_dirs F catalog_root [ST_FAILED, ST_SUCCESS, ST_PAUSED]) (\<lambda>_.
       io_return (t'\<lparr>txn_root := catalog_root, txn_running_log_written := False, txn_list_results := []\<rparr>))))"

subsection \<open>Stepping\<close>

definition txn_write_ctx :: "'c txn \<Rightarrow> string \<Rightarrow> write_ctx" where
  "txn_write_ctx t i = \<lparr>w_root = txn_root t, w_start_time = the (txn_start_time t), w_txn_id = i\<rparr>"

text \<open>
  Running a write on the \<open>k\<close>-th operation of the transaction: the operation object is shared, so the
  paths recorded on it are those of the transaction.
\<close>

definition on_op :: "nat \<Rightarrow> ('fs \<times> 'c txn_op, 'a) pio \<Rightarrow> ('fs \<times> 'c txn, 'a) pio" where
  "on_op k m s =
     (case m (fst s, txn_operations (snd s) ! k) of
        None \<Rightarrow> None
      | Some (r, (fs', op')) \<Rightarrow>
          Some (r, (fs', (snd s)\<lparr>txn_operations := (txn_operations (snd s))[k := op']\<rparr>)))"

fun check_conflicts :: "('fs, 'd) filesystem \<Rightarrow> 'fs \<Rightarrow> string \<Rightarrow> string list \<Rightarrow> unit res" where
  "check_conflicts F fs log_dir [] = Inr ()"
| "check_conflicts F fs log_dir (p # ps) =
     rbind (check_for_concurrent_txn_conflict F fs log_dir p) (\<lambda>_. check_conflicts F fs log_dir ps)"

text \<open>The handler of both try blocks: clean up, then surface the original error.\<close>

definition cleanup_on_error ::
  "('fs, 'c, 'd) txn_env \<Rightarrow> string \<Rightarrow> ('fs \<times> 'c txn, 'a) pio \<Rightarrow> ('fs \<times> 'c txn, 'a) pio" where
  "cleanup_on_error T running_path m =
     pio_try m (\<lambda>e. pio_bind (fail_and_cleanup T running_path None) (\<lambda>_. pio_raise e))"

datatype 'c step_result = ReadStep "'c metafile option list" | WriteStep "string list" "string list"

definition step_write ::
  "('fs, 'c, 'd) txn_env \<Rightarrow> nat \<Rightarrow> string \<Rightarrow> ('fs \<times> 'c txn, 'c step_result) pio" where
  "step_write T k i s =
     (let t = snd s; running_path = running_log_path t i
      in pio_bind (if txn_running_log_written t then pio_return () else write_running_log T running_path) (\<lambda>_.
           cleanup_on_error T running_path
             (pio_bind (on_op k (write_txn (te_env T) (txn_write_ctx t i) (te_uuids T))) (\<lambda>(ms, ls).
              pio_bind (ask_fs (\<lambda>fs. Some (check_conflicts (te_fs T) fs (status_dir ST_SUCCESS (txn_root t)) (ms @ ls)))) (\<lambda>_.
                pio_return (WriteStep ms ls))))) s)"

definition step_read ::
  "('fs, 'c, 'd) txn_env \<Rightarrow> 'c txn_op \<Rightarrow> string \<Rightarrow> ('fs \<times> 'c txn, 'c step_result) pio" where
  "step_read T op i s =
     (let t = snd s; ctx = read_ctx (txn_write_ctx t i)
      in pio_bind (ask_fs (\<lambda>fs. read_txn (te_env T) fs ctx (snd (te_uuids T)) op)) (\<lambda>r.
         pio_bind (upd_txn (\<lambda>t. t\<lparr>txn_list_results := txn_list_results t @ [r]\<rparr>)) (\<lambda>_.
           pio_return (ReadStep r))) s)"

text \<open>
  \<^verbatim>\<open>Transaction.step\<close>. An interactive transaction appends the operation; \<open>commit\<close> steps through the
  operations the transaction already has, and \<open>k\<close> is then the position of \<open>op\<close> among them.
\<close>

definition txn_step ::
  "('fs, 'c, 'd) txn_env \<Rightarrow> nat \<Rightarrow> 'c txn_op \<Rightarrow> ('fs \<times> 'c txn, 'c step_result) pio" where
  "txn_step T k op =
     pio_bind (get_txn_id (te_uuid T)) (\<lambda>i s.
       let t = snd s
       in if txn_historic_timestamp t \<noteq> None \<and> \<not> is_read_operation (op_type op) then Some (Inl RuntimeError, s)
          else let t' = (if txn_interactive t then t\<lparr>txn_operations := txn_operations t @ [op]\<rparr> else t);
                   k' = (if txn_interactive t then length (txn_operations t) else k)
               in if is_read_operation (op_type op) then step_read T op i (fst s, t')
                  else step_write T k' i (fst s, t'))"

subsection \<open>Sealing and committing\<close>

datatype 'c seal_result =
    ReadResult "'c metafile option list list"
  | WriteResult "string list" string
  | MixedResult "'c metafile option list list" "string list" string

text \<open>
  Writing the success log and validating it. The path for the cleanup is the unpartitioned one until
  the write has returned.
\<close>

definition write_success_log ::
  "('fs, 'c, 'd) txn_env \<Rightarrow> string \<Rightarrow> int \<Rightarrow> ('fs \<times> 'c txn, string) pio" where
  "write_success_log T i end_time s =
     (let t = snd s;
          path = path_join (path_join (status_dir ST_SUCCESS (txn_root t)) i) (int_to_str end_time);
          running_path = running_log_path t i;
          give_up = (\<lambda>p. pio_bind (fail_and_cleanup T running_path (Some p)) (\<lambda>_. pio_raise RuntimeError))
      in case pio_bind (serialized_txn T) (\<lambda>data.
                on_fs (write_file_partitioned (te_fs T) path data (the (txn_start_time t))
                         epoch_timestamp_partition_transform 1)) s of
           None \<Rightarrow> None
         | Some (Inl e, s') \<Rightarrow> give_up path s'
         | Some (Inr p, s') \<Rightarrow>
             (case validate_txn_log_file p of Inl e \<Rightarrow> give_up p s' | Inr _ \<Rightarrow> Some (Inr p, s')))"

definition seal_writes :: "('fs, 'c, 'd) txn_env \<Rightarrow> int \<Rightarrow> ('fs \<times> 'c txn, 'c seal_result) pio" where
  "seal_writes T end_time =
     pio_bind (get_txn_id (te_uuid T)) (\<lambda>i s.
       let t = snd s; running_path = running_log_path t i
       in pio_bind (if txn_running_log_written t then pio_return () else write_running_log T running_path) (\<lambda>_.
          pio_bind (cleanup_on_error T running_path
                      (ask_fs (\<lambda>fs. Some (check_conflicts (te_fs T) fs (status_dir ST_SUCCESS (txn_root t))
                                 (txn_metafile_write_paths t @ txn_locator_write_paths t))))) (\<lambda>_.
          pio_bind (write_success_log T i end_time) (\<lambda>success_log_path.
          pio_bind (on_fs (fs_delete_file (te_fs T) running_path)) (\<lambda>_.
            pio_return
              (if list_all (\<lambda>op. is_write_operation (op_type op)) (txn_operations t)
               then WriteResult (txn_metafile_write_paths t) success_log_path
               else MixedResult (txn_list_results t) (txn_metafile_write_paths t) success_log_path))))) s)"

definition seal_steps :: "('fs, 'c, 'd) txn_env \<Rightarrow> int res \<Rightarrow> ('fs \<times> 'c txn, 'c seal_result) pio" where
  "seal_steps T now s =
     (case mark_end_time now (snd s) of
        Inl e \<Rightarrow> Some (Inl e, s)
      | Inr t \<Rightarrow>
          if list_all (\<lambda>op. is_read_operation (op_type op)) (txn_operations t)
          then Some (Inr (ReadResult (txn_list_results t)), (fst s, t))
          else seal_writes T (the (txn_end_time t)) (fst s, t))"

definition txn_seal :: "('fs, 'c, 'd) txn_env \<Rightarrow> int res \<Rightarrow> ('fs \<times> 'c txn, 'c seal_result) pio" where
  "txn_seal T now s =
     (if \<not> txn_interactive (snd s) then Some (Inl RuntimeError, s)
      else if txn_historic_timestamp (snd s) \<noteq> None \<and> has_write_operations (snd s) then Some (Inl RuntimeError, s)
      else seal_steps T now s)"

fun step_all :: "('fs, 'c, 'd) txn_env \<Rightarrow> nat list \<Rightarrow> ('fs \<times> 'c txn, unit) pio" where
  "step_all T [] = pio_return ()"
| "step_all T (k # ks) = (\<lambda>s. pio_bind (txn_step T k (txn_operations (snd s) ! k)) (\<lambda>_. step_all T ks) s)"

text \<open>
  \<^verbatim>\<open>Transaction.commit\<close>: the original transaction stays as it is, the started copy is worked on. Without
  operations the copy is never made and its name is unbound.
\<close>

definition txn_commit ::
  "('fs, 'c, 'd) txn_env \<Rightarrow> string \<Rightarrow> int res \<Rightarrow> int res \<Rightarrow> 'c txn \<Rightarrow> 'fs \<Rightarrow> ('c seal_result res \<times> ('fs \<times> 'c txn)) option" where
  "txn_commit T catalog_root start_now end_now t fs =
     (if txn_interactive t then Some (Inl RuntimeError, (fs, t))
      else if txn_operations t = [] then Some (Inl UnboundLocalError, (fs, t))
      else (case txn_start (te_fs T) catalog_root None start_now t fs of
              (Inl e, fs') \<Rightarrow> Some (Inl e, (fs', t))
            | (Inr active, fs') \<Rightarrow>
                pio_bind (step_all T [0..<length (txn_operations t)]) (\<lambda>_. seal_steps T end_now) (fs', active)))"

subsection \<open>Pausing and resuming\<close>

definition txn_pause :: "('fs, 'c, 'd) txn_env \<Rightarrow> int res \<Rightarrow> ('fs \<times> 'c txn, unit) pio" where
  "txn_pause T now =
     pio_bind (get_txn_id (te_uuid T)) (\<lambda>i s.
       let F = te_fs T; root = txn_root (snd s);
           running_path = path_join (status_dir ST_RUNNING root) i;
           paused_path = path_join (status_dir ST_PAUSED root) i
       in pio_bind (on_fs (fs_create_dir F (dirname paused_path) True)) (\<lambda>_ s'.
            case mark_pause_time now (snd s') of
              Inl e \<Rightarrow> Some (Inl e, s')
            | Inr t \<Rightarrow>
                pio_bind (dump_txn T paused_path) (\<lambda>_. on_fs (fs_delete_file F running_path)) (fst s', t)) s)"

text \<open>
  \<^verbatim>\<open>Transaction.resume\<close>. The restored dictionary has no instance attributes, so copying its attributes
  over changes nothing; only the provider is replaced. Where the clock is behind the pause time the
  message of the error reads an attribute \<^verbatim>\<open>_pause_time\<close> that does not exist. \<open>loads\<close> is
  \<^verbatim>\<open>msgpack.loads\<close>.
\<close>

definition txn_resume :: "('fs, 'c, 'd) txn_env \<Rightarrow> ('d \<Rightarrow> ser_txn res) \<Rightarrow> int res \<Rightarrow> ('fs \<times> 'c txn, unit) pio" where
  "txn_resume T loads now =
     pio_bind (get_txn_id (te_uuid T)) (\<lambda>i s.
       let F = te_fs T; root = txn_root (snd s);
           running_path = path_join (status_dir ST_RUNNING root) i;
           paused_path = path_join (status_dir ST_PAUSED root) i
       in case rbind (fs_read F (fst s) paused_path) (\<lambda>d.
               rbind (loads d) (\<lambda>r. rbind (read_time_provider (ser_provider r)) (\<lambda>p. rbind now (\<lambda>n. Inr (p, n))))) of
            Inl e \<Rightarrow> Some (Inl e, s)
          | Inr (p, n) \<Rightarrow>
              let t = (snd s)\<lparr>txn_provider := Some p\<rparr>
              in (case txn_pause_time t of
                    None \<Rightarrow> Some (Inl TypeError, (fst s, t))
                  | Some pt \<Rightarrow>
                      if n < pt then Some (Inl AttributeError, (fst s, t))
                      else pio_bind (on_fs (fs_create_dir F (dirname running_path) True)) (\<lambda>_.
                           pio_bind (dump_txn T running_path) (\<lambda>_.
                             on_fs (fs_delete_file F paused_path))) (fst s, t)))"

subsection \<open>The state of a transaction\<close>

definition path_exists :: "('fs, 'd) filesystem \<Rightarrow> 'fs \<Rightarrow> string \<Rightarrow> bool res" where
  "path_exists F fs p = rbind (fs_info F fs p) (\<lambda>i. Inr (fi_type i \<noteq> NotFound))"

definition state_of_presence :: "bool \<Rightarrow> bool \<Rightarrow> bool \<Rightarrow> bool \<Rightarrow> txn_state option" where
  "state_of_presence in_failed in_running in_success in_paused =
     (if in_failed \<and> in_running then Some TS_FAILED
      else if in_failed \<and> \<not> in_running then Some TS_PURGED
      else if in_success then Some TS_SUCCESS
      else if in_running then Some TS_RUNNING
      else if in_paused then Some TS_PAUSED
      else None)"

definition txn_state_of :: "('fs, 'd) filesystem \<Rightarrow> string \<Rightarrow> string \<Rightarrow> ('fs, txn_state option) io" where
  "txn_state_of F root txn_name =
     io_bind (fs_create_dir F (status_dir ST_RUNNING root) True) (\<lambda>_.
     io_bind (fs_create_dir F (status_dir ST_FAILED root) False) (\<lambda>_.
     io_bind (fs_create_dir F (status_dir ST_SUCCESS root) False) (\<lambda>_.
     io_bind (fs_create_dir F (status_dir ST_PAUSED root) False) (\<lambda>_.
       io_lift (\<lambda>fs.
         rbind (failed_txn_log_path (status_dir ST_FAILED root) txn_name) (\<lambda>failed_path.
         rbind (path_exists F fs failed_path) (\<lambda>in_failed.
         rbind (path_exists F fs (path_join (status_dir ST_RUNNING root) txn_name)) (\<lambda>in_running.
         rbind (success_txn_log_dir_path (status_dir ST_SUCCESS root) txn_name) (\<lambda>success_path.
         rbind (path_exists F fs success_path) (\<lambda>in_success.
         rbind (path_exists F fs (path_join (status_dir ST_PAUSED root) txn_name)) (\<lambda>in_paused.
           Inr (state_of_presence in_failed in_running in_success in_paused))))))))))))"

subsection \<open>Context management\<close>

text \<open>
  The context variable \<^verbatim>\<open>_current_transaction\<close> holds the active transaction, here its identity \<open>'k\<close>.
  Entering remembers the previous value as the token; leaving seals or cleans up and always restores
  it.
\<close>

definition txn_enter :: "'c txn \<Rightarrow> 'k \<Rightarrow> 'k option \<Rightarrow> ('k option \<times> 'k option) res" where
  "txn_enter t self current =
     (if \<not> txn_interactive t then Inl RuntimeError
      else if txn_start_time t = None then Inl RuntimeError
      else Inr (current, Some self))"

definition txn_exit ::
  "('fs, 'c, 'd) txn_env \<Rightarrow> int res \<Rightarrow> bool \<Rightarrow> 'k option \<Rightarrow> ('fs \<times> 'c txn) \<Rightarrow>
   ((unit res \<times> ('fs \<times> 'c txn)) \<times> 'k option) option" where
  "txn_exit T now raised token s =
     map_option (\<lambda>r. (r, token))
       (if \<not> raised then pio_bind (txn_seal T now) (\<lambda>_. pio_return ()) s
        else pio_try
               (pio_bind (get_txn_id (te_uuid T)) (\<lambda>i s'.
                  fail_and_cleanup T (running_log_path (snd s') i) None s'))
               (\<lambda>_. pio_return ()) s)"

end
