(* ===== verification/FileStore.thy ===== *)
theory FileStore
  imports Transaction
begin

text \<open>
  What the transaction code relies on of a file system, as an interface: a store of files under
  paths whose directories are implied by the files below them, the contract of an object store.
  \<open>contents\<close> is what is stored under a path. The laws are the documented behaviour of
  \<^verbatim>\<open>pyarrow.fs.FileSystem\<close>: writing replaces, deleting removes, creating a directory changes no file,
  reading a missing file raises, file information tells files, directories and nothing apart, and a
  listing has every direct child once and fails only for a missing directory. The in-memory file system satisfies them. As in an object store, a directory that was
  created and has no file below it is not there, and failing devices are outside the contract: a write succeeds.
\<close>

definition store_info :: "(string \<Rightarrow> 'd option) \<Rightarrow> ('d \<Rightarrow> nat) \<Rightarrow> string \<Rightarrow> file_info" where
  "store_info c size_of p =
     \<lparr>fi_path = p, fi_size = map_option size_of (c p),
      fi_type = (if c p \<noteq> None then File
                 else if \<exists>q. c q \<noteq> None \<and> below p q \<noteq> None then Directory else NotFound)\<rparr>"

definition store_children :: "(string \<Rightarrow> 'd option) \<Rightarrow> ('d \<Rightarrow> nat) \<Rightarrow> string \<Rightarrow> file_info set" where
  "store_children c size_of d =
     {\<lparr>fi_path = path_join d n, fi_size = map_option size_of (c p), fi_type = File\<rparr> | n p. c p \<noteq> None \<and> below d p = Some [n]} \<union>
     {\<lparr>fi_path = path_join d n, fi_size = None, fi_type = Directory\<rparr> | n p m ns. c p \<noteq> None \<and> below d p = Some (n # m # ns)}"

lemma distinct_singleton: "distinct xs \<Longrightarrow> set xs = {x} \<Longrightarrow> xs = [x]"
  by (metis distinct_card card_1_singleton_iff length_Suc_conv length_0_conv list.set_intros(1) One_nat_def singletonD)

locale file_store =
  fixes F :: "('fs, 'd) filesystem"
    and ok :: "'fs \<Rightarrow> bool"
    and contents :: "'fs \<Rightarrow> string \<Rightarrow> 'd option"
    and size_of :: "'d \<Rightarrow> nat"
  assumes write_law: "ok fs \<Longrightarrow> \<exists>fs'. fs_write F p x fs = (Inr (), fs') \<and> ok fs' \<and> contents fs' = (contents fs)(p \<mapsto> x)"
    and delete_law: "ok fs \<Longrightarrow> \<exists>r fs'. fs_delete_file F p fs = (r, fs') \<and> ok fs' \<and>
      contents fs' = (contents fs)(p := None) \<and> (contents fs p \<noteq> None \<longrightarrow> r = Inr ())"
    and create_law: "ok fs \<Longrightarrow> \<exists>fs'. fs_create_dir F p recursive fs = (Inr (), fs') \<and> ok fs' \<and> contents fs' = contents fs"
    and read_law: "ok fs \<Longrightarrow> fs_read F fs p = of_option FileNotFoundError (contents fs p)"
    and info_law: "ok fs \<Longrightarrow> fs_info F fs p = Inr (store_info (contents fs) size_of p)"
    and select_law: "ok fs \<Longrightarrow> dir_path d \<Longrightarrow> \<exists>fis. distinct fis \<and> set fis = store_children (contents fs) size_of d \<and>
      fs_select F fs d False allow = (if fis = [] \<and> \<not> allow then Inl FileNotFoundError else Inr fis)"
    and finite_law: "ok fs \<Longrightarrow> finite (dom (contents fs))"
begin

lemma select_allowed:
  assumes "ok fs" "dir_path d"
  obtains fis where "fs_select F fs d False True = Inr fis" "distinct fis" "set fis = store_children (contents fs) size_of d"
  using select_law [OF assms, of True] by auto

lemma write_partitioned:
  assumes "ok fs" "transform v = Inr ds" "partitioned_write_path path ds k = Inr q"
  obtains fs' where "write_file_partitioned F path data v transform k fs = (Inr q, fs')" "ok fs'"
    "contents fs' = (contents fs)(q \<mapsto> data)"
proof -
  obtain fs1 where c: "(if dirname q \<noteq> [] \<and> dirname q \<noteq> q then fs_create_dir F (dirname q) True else io_return ()) fs = (Inr (), fs1)"
    "ok fs1" "contents fs1 = contents fs"
    using create_law [OF assms(1)] assms(1) by (cases "dirname q \<noteq> [] \<and> dirname q \<noteq> q") auto
  obtain fs' where w: "fs_write F q data fs1 = (Inr (), fs')" "ok fs'" "contents fs' = (contents fs1)(q \<mapsto> data)"
    using write_law [OF c(2)] by blast
  have "write_file_partitioned F path data v transform k fs = (Inr q, fs')"
    using assms(2,3) c(1) w(1) by (simp add: write_file_partitioned_def io_bind_def Let_def)
  then show ?thesis using that w(2,3) c(3) by simp
qed

lemma exists_law: "ok fs \<Longrightarrow> path_exists F fs p =
    Inr (contents fs p \<noteq> None \<or> (\<exists>q. contents fs q \<noteq> None \<and> below p q \<noteq> None))"
  by (simp add: path_exists_def info_law store_info_def)

lemma delete_quietly_law:
  assumes "ok fs" shows "ok (delete_quietly F p fs) \<and> contents (delete_quietly F p fs) = (contents fs)(p := None)"
proof -
  obtain r fs' where "fs_delete_file F p fs = (r, fs')" "ok fs'" "contents fs' = (contents fs)(p := None)"
    using delete_law [OF assms] by blast
  then show ?thesis by (simp add: delete_quietly_def)
qed

lemma delete_all_law:
  "ok fs \<Longrightarrow> ok (fold (delete_quietly F) ps fs) \<and>
    contents (fold (delete_quietly F) ps fs) = (\<lambda>p. if p \<in> set ps then None else contents fs p)"
proof (induction ps arbitrary: fs)
  case (Cons q ps)
  show ?case using Cons.IH [of "delete_quietly F q fs"] delete_quietly_law [OF Cons.prems, of q] by auto
qed simp

text \<open>The end time of a transaction is the name of the one file in its log directory.\<close>

lemma end_time_absent:
  assumes "ok fs" "dir_path d" "\<And>p. contents fs p \<noteq> None \<Longrightarrow> below d p = None"
  shows "read_end_time F fs d = Inr None"
proof -
  obtain fis where f: "fs_select F fs d False True = Inr fis" "set fis = store_children (contents fs) size_of d"
    using select_allowed [OF assms(1,2)] .
  have "store_children (contents fs) size_of d = {}" using assms(3) by (fastforce simp: store_children_def)
  then have "fis = []" using f(2) by simp
  then have "list_directory F fs d None True False = Inr []" using list_directory_visible [OF f(1) assms(2)] by simp
  then show ?thesis by (simp add: read_end_time_def)
qed

lemma end_time_present:
  assumes "ok fs" "dir_path d" "0 \<le> e" "\<And>p. contents fs p \<noteq> None \<and> below d p \<noteq> None \<longleftrightarrow> p = path_join d (int_to_str e)"
  shows "read_end_time F fs d = Inr (Some e)"
proof -
  let ?n = "int_to_str e" and ?p = "path_join d (int_to_str e)"
  have n: "component ?n" "visible ?n" using int_to_str_visible [OF assms(3)] by simp_all
  have b: "below d ?p = Some [?n]" using below_join [OF assms(2) n(1)] .
  obtain fis where f: "fs_select F fs d False True = Inr fis" "distinct fis" "set fis = store_children (contents fs) size_of d"
    using select_allowed [OF assms(1,2)] .
  have "store_children (contents fs) size_of d = {\<lparr>fi_path = ?p, fi_size = map_option size_of (contents fs ?p), fi_type = File\<rparr>}"
  proof -
    have here: "contents fs ?p \<noteq> None" using assms(4) by blast
    have only: "p = ?p \<and> r = [?n]" if "contents fs p \<noteq> None" "below d p = Some r" for p r
    proof -
      have "p = ?p" using assms(4) that by blast
      then show ?thesis using b that(2) by simp
    qed
    have "(contents fs p \<noteq> None \<and> below d p = Some [n]) = (p = ?p \<and> n = ?n)" for p n using only here b by blast
    moreover have "(contents fs p \<noteq> None \<and> below d p = Some (n # m # ns)) = False" for p n m ns using only by blast
    ultimately show ?thesis unfolding store_children_def by (simp only:) simp
  qed
  then obtain x where x: "fis = [x]" "fi_path x = ?p" using distinct_singleton [OF f(2)] f(3) by fastforce
  then have "list_directory F fs d None True False = Inr (sort_desc fst (map (\<lambda>fi. (fi_path fi, fi_size fi)) fis))"
    using list_directory_visible [OF f(1) assms(2), of None] n(2) by auto
  then show ?thesis using x assms(2,3) n
    by (simp add: read_end_time_def sort_desc_def parse_end_time_def basename_path_join py_int_int_to_str)
qed

end

lemma map_of_filter_neq: "map_of (filter (\<lambda>x. fst x \<noteq> q) fs) = (map_of fs)(q := None)"
  by (rule ext, induction fs) auto

lemma distinct_map_filter: "distinct (map f xs) \<Longrightarrow> distinct (map f (filter P xs))"
  by (induction xs) auto

lemma mem_children:
  assumes "distinct (map fst fs)"
  shows "set (List.map_filter (mem_child sz d False) fs) = store_children (map_of fs) sz d" (is "?l = ?r")
proof
  show "?l \<subseteq> ?r"
  proof
    fix x assume "x \<in> ?l"
    then obtain p c where pc: "(p, c) \<in> set fs" "mem_child sz d False (p, c) = Some x" by (auto simp: map_filter_set)
    have m: "map_of fs p = Some c" using pc(1) assms by simp
    show "x \<in> ?r"
      using pc(2) m by (force simp: mem_child_def store_children_def split: option.splits list.splits)
  qed
  show "?r \<subseteq> ?l"
  proof
    fix x assume "x \<in> ?r"
    then obtain p c where pc: "map_of fs p = Some c" "mem_child sz d False (p, c) = Some x"
      by (force simp: mem_child_def store_children_def)
    then show "x \<in> ?l" using map_of_SomeD by (force simp: map_filter_set)
  qed
qed

lemma mem_info_store:
  assumes "distinct (map fst fs)" shows "mem_info sz fs p = Inr (store_info (map_of fs) sz p)"
proof -
  have "(\<exists>q \<in> set fs. below p (fst q) \<noteq> None) \<longleftrightarrow> (\<exists>q. map_of fs q \<noteq> None \<and> below p q \<noteq> None)"
    by (metis (mono_tags, opaque_lifting) fst_conv map_of_SomeD map_of_eq_None_iff image_eqI not_None_eq)
  then show ?thesis by (simp add: mem_info_def store_info_def split: option.splits)
qed

interpretation mem: file_store "mem_F sz" "\<lambda>fs. distinct (map fst fs)" map_of sz
proof unfold_locales
  fix fs :: "'a mem" and d assume "distinct (map fst fs)"
  then have "set (List.map_filter (mem_child sz d False) fs) = store_children (map_of fs) sz d" by (rule mem_children)
  then show "\<exists>fis. distinct fis \<and> set fis = store_children (map_of fs) sz d \<and>
      fs_select (mem_F sz) fs d False allow = (if fis = [] \<and> \<not> allow then Inl FileNotFoundError else Inr fis)" for allow
    by (intro exI [of _ "remdups (List.map_filter (mem_child sz d False) fs)"]) (simp add: mem_select_def Let_def)
qed (auto simp: mem_write_def mem_delete_def map_of_filter_neq distinct_map_filter mem_info_store of_option_def finite_dom_map_of)

end
