(* ===== verification/TransactionOutcomes.thy ===== *)
theory TransactionOutcomes
  imports FileStore
begin

text \<open>
  What the operations of a transaction do to the catalog, on any file system with the contract
  \<open>file_store\<close>: the log files a transaction leaves behind, that sealing either commits or removes
  everything the transaction wrote, and the state the logs stand for afterwards.
\<close>

subsection \<open>Log paths\<close>

text \<open>A path below the log directory of a status, by its components.\<close>

definition log_path :: "string \<Rightarrow> txn_status \<Rightarrow> string list \<Rightarrow> string" where
  "log_path root s ns = path_join_all root (TXN_DIR_NAME # dir_name s # ns)"

text \<open>A path of the catalog outside the log directory.\<close>

definition data_path :: "string \<Rightarrow> string \<Rightarrow> bool" where
  "data_path root p \<longleftrightarrow>
     (case below root p of
        Some (c # cs) \<Rightarrow> p = path_join_all root (c # cs) \<and> c \<noteq> TXN_DIR_NAME \<and> list_all (\<lambda>n. component n \<and> n \<noteq> ''.'') (c # cs)
      | _ \<Rightarrow> False)"

lemma data_pathE:
  assumes "data_path root p"
  obtains c cs where "p = path_join_all root (c # cs)" "c \<noteq> TXN_DIR_NAME" "\<forall>n \<in> set (c # cs). component n \<and> n \<noteq> ''.''"
  using assms that by (auto simp: data_path_def list_all_iff split: option.splits list.splits)

lemma component_TXN_DIR_NAME [simp]: "component TXN_DIR_NAME"
  by (simp add: TXN_DIR_NAME_def component_def)

lemma log_path_join: "path_join (log_path root s ns) n = log_path root s (ns @ [n])"
  by (simp add: log_path_def path_join_all_def)

lemma log_path_status: "status_dir s root = log_path root s []"
  by (simp add: status_dir_def txn_log_dir_def log_path_def)

lemma log_path_join_all: "path_join_all (log_path root s ns) ms = log_path root s (ns @ ms)"
  by (simp add: log_path_def path_join_all_def)

lemmas log_paths = log_path_status log_path_join log_path_join_all running_log_path_def

lemma dir_path_log_path: "dir_path root \<Longrightarrow> \<forall>n \<in> set ns. component n \<Longrightarrow> dir_path (log_path root s ns)"
  unfolding log_path_def by (rule dir_path_join_all) auto

lemma log_path_inject:
  assumes "dir_path root" "\<forall>n \<in> set ns. component n" "\<forall>n \<in> set ms. component n"
  shows "log_path root s ns = log_path root s' ms \<longleftrightarrow> s = s' \<and> ns = ms"
  using assms path_join_all_inject [OF assms(1), of "TXN_DIR_NAME # dir_name s # ns" "TXN_DIR_NAME # dir_name s' # ms"]
  by (auto simp: log_path_def dir_name_inject)

lemma log_path_not_data:
  assumes "dir_path root" "\<forall>n \<in> set ns. component n"
  shows "\<not> data_path root (log_path root s ns)"
proof
  assume "data_path root (log_path root s ns)"
  then obtain c cs where c: "path_join_all root (TXN_DIR_NAME # dir_name s # ns) = path_join_all root (c # cs)"
    "c \<noteq> TXN_DIR_NAME" "\<forall>n \<in> set (c # cs). component n"
    by (rule data_pathE) (simp add: log_path_def)
  have "\<forall>n \<in> set (TXN_DIR_NAME # dir_name s # ns). component n" using assms(2) by simp
  from path_join_all_inject [OF assms(1) this c(3,1)] show False using c(2) by simp
qed

lemma below_log_path:
  assumes "dir_path root" "\<forall>n \<in> set ns. component n" "\<forall>n \<in> set ms. component n"
  shows "below (log_path root s ns) (log_path root s' ms) =
    (if s = s' \<and> take (length ns) ms = ns \<and> length ns < length ms then Some (drop (length ns) ms) else None)"
  using below_path_join_all [OF assms(1), of "TXN_DIR_NAME # dir_name s # ns" "TXN_DIR_NAME # dir_name s' # ms"] assms
  by (auto simp: log_path_def dir_name_inject)

lemma below_log_data:
  assumes "dir_path root" "\<forall>n \<in> set ns. component n" "data_path root p"
  shows "below (log_path root s ns) p = None"
proof -
  obtain c cs where p: "p = path_join_all root (c # cs)" "c \<noteq> TXN_DIR_NAME" "\<forall>n \<in> set (c # cs). component n"
    using assms(3) by (rule data_pathE) auto
  show ?thesis
    using below_path_join_all [OF assms(1), of "TXN_DIR_NAME # dir_name s # ns" "c # cs"] p assms(2)
    by (simp add: log_path_def)
qed

subsection \<open>Partitioned log files\<close>

lemma partition_components_component:
  assumes "0 \<le> s"
  shows "\<forall>n \<in> set (partition_components s). component n"
proof -
  obtain y m d where ymd: "ord2ymd (s div 86400 + EPOCH_ORDINAL) = (y, m, d)" using prod_cases3 by blast
  have "0 \<le> s div 86400" using assms by (simp add: pos_imp_zdiv_nonneg_iff)
  then have "1 \<le> y" "1 \<le> m" "1 \<le> d" using ord2ymd_facts [OF _ ymd] by (simp_all add: EPOCH_ORDINAL_def)
  moreover have "0 \<le> s mod 86400 div 3600" "0 \<le> s mod 3600 div 60" by (simp_all add: pos_imp_zdiv_nonneg_iff)
  ultimately show ?thesis
    by (auto simp: partition_components_def ymd intro!: component_isdigit isdigit_zero_pad)
qed

lemma epoch_transform_component:
  assumes "epoch_timestamp_partition_transform t = Inr ds"
  shows "\<forall>n \<in> set ds. component n"
proof -
  obtain s where "0 \<le> t" "epoch_seconds t = Inr s" "ds = partition_components s"
    using assms by (auto simp: epoch_timestamp_partition_transform_def rbind_Inr_iff split: if_splits)
  then show ?thesis using partition_components_component epoch_seconds_bounds(1) by blast
qed

lemma component_no_slash: "\<forall>n \<in> set ds. component n \<Longrightarrow> \<forall>n \<in> set ds. slash \<notin> set n"
  by (simp add: component_def)

lemma partitioned_write_path_here:
  assumes "dir_path d" "component n" "\<forall>n \<in> set ds. component n"
  shows "partitioned_write_path (path_join d n) ds 0 = Inr (path_join (path_join_all d ds) n)"
  using assms by (simp add: partitioned_write_path_def dirname_path_join basename_path_join
      join_partition_dirs_ok component_no_slash)

lemma partitioned_write_path_above:
  assumes "dir_path d" "component m" "component n" "\<forall>n \<in> set ds. component n"
  shows "partitioned_write_path (path_join (path_join d m) n) ds 1 =
    Inr (path_join (path_join (path_join_all d ds) m) n)"
  using assms dir_path_join [OF assms(1,2)]
  by (simp add: partitioned_write_path_def dirname_path_join basename_path_join
      join_partition_dirs_ok component_no_slash)

subsection \<open>Active transactions\<close>

text \<open>
  A started transaction: its start time has partition directories, its identifier is made of the
  start time and a UUID, and everything it wrote is in the catalog outside the log directory.
\<close>

definition txn_active :: "int \<Rightarrow> string \<Rightarrow> 'c txn \<Rightarrow> bool" where
  "txn_active st u t \<longleftrightarrow>
     0 < st \<and> uuid_text u \<and> \<not> isl (epoch_timestamp_partition_transform st) \<and>
     txn_start_time t = Some st \<and> txn_id t = Some (txn_id_of st u) \<and>
     dir_path (txn_root t) \<and> \<not> starts_with (txn_root t) ''//'' \<and>
     (\<forall>p \<in> set (txn_metafile_write_paths t @ txn_locator_write_paths t). data_path (txn_root t) p)"

definition start_dirs :: "int \<Rightarrow> string list" where
  "start_dirs st = (case epoch_timestamp_partition_transform st of Inr ds \<Rightarrow> ds | Inl _ \<Rightarrow> [])"

abbreviation running_log :: "'c txn \<Rightarrow> int \<Rightarrow> string \<Rightarrow> string" where
  "running_log t st u \<equiv> log_path (txn_root t) ST_RUNNING [txn_id_of st u]"

abbreviation failed_log :: "'c txn \<Rightarrow> int \<Rightarrow> string \<Rightarrow> string" where
  "failed_log t st u \<equiv> log_path (txn_root t) ST_FAILED (start_dirs st @ [txn_id_of st u])"

abbreviation success_dir :: "'c txn \<Rightarrow> int \<Rightarrow> string \<Rightarrow> string" where
  "success_dir t st u \<equiv> log_path (txn_root t) ST_SUCCESS (start_dirs st @ [txn_id_of st u])"

abbreviation success_log :: "'c txn \<Rightarrow> int \<Rightarrow> string \<Rightarrow> int \<Rightarrow> string" where
  "success_log t st u e \<equiv> log_path (txn_root t) ST_SUCCESS (start_dirs st @ [txn_id_of st u, int_to_str e])"

lemma txn_activeD:
  assumes "txn_active st u t"
  shows "epoch_timestamp_partition_transform st = Inr (start_dirs st)" "\<forall>n \<in> set (start_dirs st). component n"
    "component (txn_id_of st u)" "0 < st" "txn_start_time t = Some st" "txn_id t = Some (txn_id_of st u)" "dir_path (txn_root t)"
    "parse_transaction_id (txn_id_of st u) = Inr (st, u)" "get_txn_id x (fs, t) = Some (Inr (txn_id_of st u), (fs, t))"
proof -
  have st: "0 < st" "uuid_text u" using assms by (simp_all add: txn_active_def)
  show tr: "epoch_timestamp_partition_transform st = Inr (start_dirs st)"
    using assms by (auto simp: txn_active_def start_dirs_def split: sum.split)
  show "\<forall>n \<in> set (start_dirs st). component n" using epoch_transform_component [OF tr] .
  show c: "component (txn_id_of st u)" using component_txn_id_of st by simp
  show "0 < st" "txn_start_time t = Some st" "txn_id t = Some (txn_id_of st u)" "dir_path (txn_root t)"
    using assms by (simp_all add: txn_active_def)
  show "parse_transaction_id (txn_id_of st u) = Inr (st, u)" using parse_transaction_id_of st by simp
  have "txn_id t = Some (txn_id_of st u)" using assms by (simp add: txn_active_def)
  moreover have "assign_txn_id x t = t" using calculation c by (simp add: assign_txn_id_def truthy_def component_def)
  ultimately show "get_txn_id x (fs, t) = Some (Inr (txn_id_of st u), (fs, t))" by (simp add: get_txn_id_def)
qed

lemma relative_data_path:
  assumes "dir_path root" "\<not> starts_with root ''//''" "data_path root p"
  shows "\<exists>r. absolute_path_to_relative root p = Inr r"
proof -
  obtain c cs where p: "p = path_join_all root (c # cs)" "\<forall>n \<in> set (c # cs). component n \<and> n \<noteq> ''.''"
    using assms(3) by (rule data_pathE)
  obtain t where "p = root @ t" using path_join_all_extends [OF assms(1), of "c # cs"] p by auto
  then show ?thesis
    using posix_parts_path_join_all [OF assms(1) p(2)] posix_root_append [OF assms(1,2), of t]
    by (simp add: absolute_path_to_relative_def p(1) Let_def)
qed

lemma res_map_Inr: "(\<And>x. x \<in> set xs \<Longrightarrow> \<exists>y. f x = Inr y) \<Longrightarrow> \<exists>ys. res_map f xs = Inr ys"
  by (induction xs) fastforce+

lemma active_serializable:
  assumes "txn_active st u t"
  shows "\<exists>x. txn_to_serializable (txn_root t) us t = Inr x"
proof -
  have root: "dir_path (txn_root t)" "\<not> starts_with (txn_root t) ''//''" using assms by (simp_all add: txn_active_def)
  have "\<exists>y. ser_op_of (txn_root t) us op = Inr y" if "op \<in> set (txn_operations t)" for op
  proof -
    have "\<forall>p \<in> set (op_metafile_write_paths op) \<union> set (op_locator_write_paths op). data_path (txn_root t) p"
      using assms that by (auto simp: txn_active_def txn_metafile_write_paths_def txn_locator_write_paths_def)
    then obtain ms ls where "res_map (absolute_path_to_relative (txn_root t)) (op_metafile_write_paths op) = Inr ms"
      "res_map (absolute_path_to_relative (txn_root t)) (op_locator_write_paths op) = Inr ls"
      using res_map_Inr relative_data_path [OF root] by (metis UnCI)
    then show ?thesis by (simp add: ser_op_of_def relativize_operation_paths_def)
  qed
  then obtain ops where "res_map (ser_op_of (txn_root t) us) (txn_operations t) = Inr ops" using res_map_Inr by blast
  then show ?thesis by (simp add: txn_to_serializable_def)
qed

subsection \<open>Cleaning up\<close>

text \<open>The paths a failing transaction gives up.\<close>

definition given_up :: "'c txn \<Rightarrow> string \<Rightarrow> string option \<Rightarrow> string set" where
  "given_up t running_path success_path =
     set (txn_metafile_write_paths t) \<union> set (txn_locator_write_paths t) \<union> {running_path} \<union>
     (if truthy success_path then {the success_path} else {})"

text \<open>What is left after a cleanup: nothing of the transaction but its failed log.\<close>

definition cleaned :: "int \<Rightarrow> string \<Rightarrow> 'c txn \<Rightarrow> string set \<Rightarrow> 'd \<Rightarrow> (string \<Rightarrow> 'd option) \<Rightarrow> string \<Rightarrow> 'd option" where
  "cleaned st u t P data c =
     (\<lambda>p. if p \<in> P then None else if p = failed_log t st u then Some data else c p)"

context file_store begin

lemma cleanup_outcome:
  assumes F: "te_fs T = F" and active: "txn_active st u t" and ok: "ok fs"
  obtains fs' data where "fail_and_cleanup T running_path success_path (fs, t) = Some (Inr (), (fs', t))" "ok fs'"
    "contents fs' = cleaned st u t (given_up t running_path success_path) data (contents fs)"
proof -
  note a = txn_activeD [OF active]
  let ?ps = "txn_metafile_write_paths t @ txn_locator_write_paths t @ [running_path] @
    (if truthy success_path then [the success_path] else [])"
  obtain x where ser: "txn_to_serializable (txn_root t) (te_uuids T) t = Inr x" using active_serializable [OF active] by blast
  have "dir_path (log_path (txn_root t) ST_FAILED [])" using dir_path_log_path [OF a(7)] by simp
  then have "partitioned_write_path (log_path (txn_root t) ST_FAILED [txn_id_of st u]) (start_dirs st) 0 = Inr (failed_log t st u)"
    using partitioned_write_path_here [OF _ a(3,2), of "log_path (txn_root t) ST_FAILED []"] by (simp add: log_paths)
  from write_partitioned [where transform = epoch_timestamp_partition_transform, OF ok a(1) this, of "te_dumps T x"]
  obtain fs1 where w: "write_file_partitioned F (log_path (txn_root t) ST_FAILED [txn_id_of st u]) (te_dumps T x) st
      epoch_timestamp_partition_transform 0 fs = (Inr (failed_log t st u), fs1)" "ok fs1"
    "contents fs1 = (contents fs)(failed_log t st u \<mapsto> te_dumps T x)" .
  have "fail_and_cleanup T running_path success_path (fs, t) = Some (Inr (), (fold (delete_quietly F) ?ps fs1, t))"
    unfolding fail_and_cleanup_def
    by (simp add: pio_bind_def a serialized_txn_def ser Let_def on_fs_def F w log_paths)
  moreover have "set ?ps = given_up t running_path success_path" by (auto simp: given_up_def)
  ultimately show ?thesis using that delete_all_law [OF w(2), of ?ps] w(3) unfolding cleaned_def by fastforce
qed

lemma cleanup_on_error_outcome:
  assumes F: "te_fs T = F" and active: "txn_active st u t'" and ok: "ok fs'"
    and m: "m (fs, t) = Some (Inl e, (fs', t'))"
  shows "\<exists>fs'' data. cleanup_on_error T running_path m (fs, t) = Some (Inl e, (fs'', t')) \<and> ok fs'' \<and>
    contents fs'' = cleaned st u t' (given_up t' running_path None) data (contents fs')"
proof -
  obtain fs'' data where "fail_and_cleanup T running_path None (fs', t') = Some (Inr (), (fs'', t'))" "ok fs''"
    "contents fs'' = cleaned st u t' (given_up t' running_path None) data (contents fs')"
    using cleanup_outcome [OF F active ok] by blast
  then show ?thesis by (auto simp: cleanup_on_error_def pio_try_def pio_bind_def m)
qed

lemma success_log_outcome:
  assumes F: "te_fs T = F" and active: "txn_active st u t" and ok: "ok fs" and e: "0 \<le> e"
  shows "\<exists>fs' data. ok fs' \<and>
    (if st \<le> e
     then write_success_log T (txn_id_of st u) e (fs, t) = Some (Inr (success_log t st u e), (fs', t)) \<and>
          contents fs' = (contents fs)(success_log t st u e \<mapsto> data)
     else write_success_log T (txn_id_of st u) e (fs, t) = Some (Inl RuntimeError, (fs', t)) \<and>
          contents fs' = cleaned st u t (given_up t (running_log t st u) (Some (success_log t st u e))) data (contents fs))"
proof -
  note a = txn_activeD [OF active]
  let ?i = "txn_id_of st u" and ?n = "int_to_str e" and ?s = "log_path (txn_root t) ST_SUCCESS []" and ?p = "success_log t st u e"
  have n: "component ?n" using int_to_str_visible [OF e] by simp
  obtain x where ser: "txn_to_serializable (txn_root t) (te_uuids T) t = Inr x" using active_serializable [OF active] by blast
  have dir: "dir_path ?s" "dir_path (path_join_all ?s (start_dirs st))" "dir_path (success_dir t st u)"
    using dir_path_log_path [OF a(7)] a(2,3) by (simp_all add: log_paths)
  have "partitioned_write_path (log_path (txn_root t) ST_SUCCESS [?i, ?n]) (start_dirs st) 1 = Inr ?p"
    using partitioned_write_path_above [OF dir(1) a(3) n a(2)] by (simp add: log_paths)
  from write_partitioned [where transform = epoch_timestamp_partition_transform, OF ok a(1) this, of "te_dumps T x"]
  obtain fs1 where w: "write_file_partitioned F (log_path (txn_root t) ST_SUCCESS [?i, ?n]) (te_dumps T x) st
      epoch_timestamp_partition_transform 1 fs = (Inr ?p, fs1)" "ok fs1" "contents fs1 = (contents fs)(?p \<mapsto> te_dumps T x)" .
  have split: "?p = path_join (success_dir t st u) ?n" by (simp add: log_paths)
  have "basename (success_dir t st u) = ?i" using basename_path_join [OF dir(2) a(3)] by (simp add: log_paths)
  then have v: "validate_txn_log_file ?p = (if e < st then Inl OSError else Inr ())"
    unfolding split by (simp add: validate_txn_log_file_def dirname_path_join [OF dir(3) n] basename_path_join [OF dir(3) n]
        a(8) parse_end_time_def py_int_int_to_str [OF e])
  have run: "write_success_log T ?i e (fs, t) =
      (if e < st then pio_bind (fail_and_cleanup T (running_log t st u) (Some ?p)) (\<lambda>_. pio_raise RuntimeError) (fs1, t)
       else Some (Inr ?p, (fs1, t)))"
    unfolding write_success_log_def
    by (simp add: pio_bind_def a serialized_txn_def ser Let_def on_fs_def F w(1) [unfolded One_nat_def] log_paths v)
  show ?thesis
  proof (cases "st \<le> e")
    case True
    then show ?thesis using run w(2,3) by auto
  next
    case False
    obtain fs' data where c: "fail_and_cleanup T (running_log t st u) (Some ?p) (fs1, t) = Some (Inr (), (fs', t))" "ok fs'"
      "contents fs' = cleaned st u t (given_up t (running_log t st u) (Some ?p)) data (contents fs1)"
      using cleanup_outcome [OF F active w(2)] by blast
    have "?p \<in> given_up t (running_log t st u) (Some ?p)"
      using dir_path_join [OF dir(3) n] unfolding split [symmetric] by (auto simp: given_up_def truthy_def)
    then have "contents fs' = cleaned st u t (given_up t (running_log t st u) (Some ?p)) data (contents fs)" using c(3) w(3) unfolding cleaned_def by fastforce
    then show ?thesis using False run c(1,2) by (auto simp: pio_bind_def)
  qed
qed

lemma seal_outcome:
  assumes F: "te_fs T = F" and active: "txn_active st u t" and ok: "ok fs" and e: "0 \<le> e"
    and t: "\<not> time_set (txn_end_time t)" "has_write_operations t" "txn_running_log_written t"
    and running: "contents fs (running_log t st u) \<noteq> None"
  shows "\<exists>r fs' data. seal_steps T (Inr e) (fs, t) = Some (r, (fs', t\<lparr>txn_end_time := Some e\<rparr>)) \<and> ok fs' \<and>
    (case check_conflicts F fs (status_dir ST_SUCCESS (txn_root t)) (txn_metafile_write_paths t @ txn_locator_write_paths t) of
       Inl err \<Rightarrow> r = Inl err \<and> contents fs' = cleaned st u t (given_up t (running_log t st u) None) data (contents fs)
     | Inr _ \<Rightarrow>
         if st \<le> e then (\<exists>x. r = Inr x) \<and> contents fs' = (contents fs)(success_log t st u e \<mapsto> data, running_log t st u := None)
         else r = Inl RuntimeError \<and> contents fs' =
                cleaned st u t (given_up t (running_log t st u) (Some (success_log t st u e))) data (contents fs))"
proof -
  let ?t = "t\<lparr>txn_end_time := Some e\<rparr>" and ?run = "running_log t st u"
  let ?check = "check_conflicts F fs (status_dir ST_SUCCESS (txn_root t)) (txn_metafile_write_paths t @ txn_locator_write_paths t)"
  let ?ask = "ask_fs (\<lambda>fs. Some (check_conflicts F fs (status_dir ST_SUCCESS (txn_root t))
                 (txn_metafile_write_paths t @ txn_locator_write_paths t))) :: ('fs \<times> 'b txn, unit) pio"
  have same [simp]: "txn_metafile_write_paths ?t = txn_metafile_write_paths t" "txn_locator_write_paths ?t = txn_locator_write_paths t"
    by (simp_all add: txn_metafile_write_paths_def txn_locator_write_paths_def)
  have act: "txn_active st u ?t" using active by (simp add: txn_active_def)
  have same_cleaned: "cleaned st u ?t (given_up ?t r p) = cleaned st u t (given_up t r p)" for r p
    by (rule ext)+ (simp add: cleaned_def given_up_def)
  note a = txn_activeD [OF act]
  have "mark_end_time (Inr e) t = Inr ?t"
    using t(1) txn_activeD(4,5) [OF active] by (simp add: mark_end_time_def time_set_def)
  moreover have "\<not> list_all (\<lambda>op. is_read_operation (op_type op)) (txn_operations t)"
    using t(2) by (auto simp: has_write_operations_def list_all_iff)
  ultimately have seal: "seal_steps T (Inr e) (fs, t) =
      pio_bind (cleanup_on_error T ?run ?ask) (\<lambda>_.
      pio_bind (write_success_log T (txn_id_of st u) e) (\<lambda>p.
      pio_bind (on_fs (fs_delete_file F ?run)) (\<lambda>_. pio_return
        (if list_all (\<lambda>op. is_write_operation (op_type op)) (txn_operations t)
         then WriteResult (txn_metafile_write_paths t) p
         else MixedResult (txn_list_results t) (txn_metafile_write_paths t) p)))) (fs, ?t)"
    using t(3) by (simp add: a(9) seal_steps_def seal_writes_def pio_bind_def Let_def F log_paths cong: if_cong)
  show ?thesis
  proof (cases ?check)
    case (Inl err)
    then have "?ask (fs, ?t) = Some (Inl err, (fs, ?t))" by (simp add: ask_fs_def)
    from cleanup_on_error_outcome [where m = ?ask and running_path = ?run, OF F act ok this]
    obtain fs' data where "cleanup_on_error T ?run ?ask (fs, ?t) = Some (Inl err, (fs', ?t))" "ok fs'"
      "contents fs' = cleaned st u t (given_up t ?run None) data (contents fs)"
      by (auto simp: same_cleaned)
    then show ?thesis using Inl by (auto simp: seal pio_bind_def)
  next
    case (Inr v)
    then have ask: "cleanup_on_error T ?run ?ask (fs, ?t) = Some (Inr v, (fs, ?t))"
      by (simp add: cleanup_on_error_def pio_try_def ask_fs_def)
    obtain fs1 data where w: "ok fs1"
      "if st \<le> e
       then write_success_log T (txn_id_of st u) e (fs, ?t) = Some (Inr (success_log t st u e), (fs1, ?t)) \<and>
          contents fs1 = (contents fs)(success_log t st u e \<mapsto> data)
       else write_success_log T (txn_id_of st u) e (fs, ?t) = Some (Inl RuntimeError, (fs1, ?t)) \<and>
          contents fs1 = cleaned st u t (given_up t ?run (Some (success_log t st u e))) data (contents fs)"
      using success_log_outcome [OF F act ok e] by (auto simp: same_cleaned cong: if_cong)
    show ?thesis
    proof (cases "st \<le> e")
      case True
      have "?run \<noteq> success_log t st u e"
        using log_path_inject [OF a(7)] a(2,3) int_to_str_visible [OF e] by simp
      then have "contents fs1 ?run \<noteq> None" using running w(2) True by simp
      then obtain fs2 where "fs_delete_file F ?run fs1 = (Inr (), fs2)" "ok fs2" "contents fs2 = (contents fs1)(?run := None)"
        using delete_law [OF w(1), of ?run] by auto
      then show ?thesis using True w(2) Inr by (auto simp: seal pio_bind_def ask on_fs_def)
    next
      case False
      then show ?thesis using w Inr by (auto simp: seal pio_bind_def ask)
    qed
  qed
qed

text \<open>The state the log files stand for.\<close>

lemma state_law:
  assumes "ok fs" "txn_active st u t"
  shows "fst (txn_state_of F (txn_root t) (txn_id_of st u) fs) = Inr (let c = contents fs;
      here = (\<lambda>p. c p \<noteq> None \<or> (\<exists>q. c q \<noteq> None \<and> below p q \<noteq> None))
    in state_of_presence (here (failed_log t st u)) (here (running_log t st u)) (here (success_dir t st u))
         (here (log_path (txn_root t) ST_PAUSED [txn_id_of st u])))"
proof -
  note a = txn_activeD [OF assms(2)]
  have dirs: "\<exists>fs'. fs_create_dir F p r fs0 = (Inr (), fs') \<and> ok fs' \<and> contents fs' = contents fs"
    if "ok fs0" "contents fs0 = contents fs" for p r fs0
    using create_law [OF that(1)] that(2) by metis
  obtain fs1 where 1: "fs_create_dir F (status_dir ST_RUNNING (txn_root t)) True fs = (Inr (), fs1)" "ok fs1" "contents fs1 = contents fs"
    using dirs [OF assms(1) refl] by blast
  obtain fs2 where 2: "fs_create_dir F (status_dir ST_FAILED (txn_root t)) False fs1 = (Inr (), fs2)" "ok fs2" "contents fs2 = contents fs"
    using dirs [OF 1(2,3)] by blast
  obtain fs3 where 3: "fs_create_dir F (status_dir ST_SUCCESS (txn_root t)) False fs2 = (Inr (), fs3)" "ok fs3" "contents fs3 = contents fs"
    using dirs [OF 2(2,3)] by blast
  obtain fs4 where 4: "fs_create_dir F (status_dir ST_PAUSED (txn_root t)) False fs3 = (Inr (), fs4)" "ok fs4" "contents fs4 = contents fs"
    using dirs [OF 3(2,3)] by blast
  have logs: "failed_txn_log_path (status_dir ST_FAILED (txn_root t)) (txn_id_of st u) = Inr (failed_log t st u)"
    "success_txn_log_dir_path (status_dir ST_SUCCESS (txn_root t)) (txn_id_of st u) = Inr (success_dir t st u)"
    using a(1,8) by (simp_all add: failed_txn_log_path_def success_txn_log_dir_path_def partitioned_txn_log_path_def log_paths)
  show ?thesis
    unfolding txn_state_of_def
    by (simp add: io_bind_def 1(1) 2(1) 3(1) 4(1) logs exists_law [OF 4(2)] 4(3) Let_def) (simp add: log_paths)
qed

end

text \<open>No outcome of the transaction is recorded yet: it has at most a running log.\<close>

definition undecided :: "(string \<Rightarrow> 'd option) \<Rightarrow> int \<Rightarrow> string \<Rightarrow> 'c txn \<Rightarrow> bool" where
  "undecided c st u t \<longleftrightarrow>
     (\<forall>p. c p \<noteq> None \<longrightarrow> p \<notin> {failed_log t st u, success_dir t st u} \<and>
        below (failed_log t st u) p = None \<and> below (success_dir t st u) p = None \<and> below (running_log t st u) p = None)"

context file_store begin

lemma committed_facts:
  assumes active: "txn_active st u t" and ok: "ok fs'" and e: "0 \<le> e" and fresh: "undecided c st u t"
    and c': "contents fs' = c(success_log t st u e \<mapsto> data, running_log t st u := None)"
  shows "read_end_time F fs' (success_dir t st u) = Inr (Some e)"
    and "fst (txn_state_of F (txn_root t) (txn_id_of st u) fs') = Inr (Some TS_SUCCESS)"
proof -
  note a = txn_activeD [OF active]
  let ?n = "int_to_str e" and ?s = "success_log t st u e" and ?r = "running_log t st u" and ?f = "failed_log t st u"
  have n: "component ?n" using int_to_str_visible [OF e] by simp
  have ns: "\<forall>n \<in> set (start_dirs st @ [txn_id_of st u, ?n]). component n" "\<forall>n \<in> set [txn_id_of st u]. component n"
    "\<forall>n \<in> set (start_dirs st @ [txn_id_of st u]). component n" using a(2,3) n by auto
  have b: "below (success_dir t st u) ?s = Some [?n]" "below ?f ?s = None" "below ?r ?s = None"
    using below_log_path [OF a(7)] ns by simp_all
  have ne: "?s \<noteq> ?r" "?s \<noteq> ?f" "?f \<noteq> ?r" using log_path_inject [OF a(7)] ns by simp_all
  have split: "?s = path_join (success_dir t st u) ?n" by (simp add: log_paths)
  have old: "p \<noteq> ?f \<and> below ?f p = None \<and> below ?r p = None \<and> below (success_dir t st u) p = None" if "c p \<noteq> None" for p
    using fresh that by (simp add: undecided_def)
  have c'p: "contents fs' p \<noteq> None \<longleftrightarrow> p = ?s \<or> c p \<noteq> None \<and> p \<noteq> ?r" for p using ne(1) c' by auto
  have "contents fs' p \<noteq> None \<and> below (success_dir t st u) p \<noteq> None \<longleftrightarrow> p = path_join (success_dir t st u) ?n" for p
    unfolding split [symmetric] c'p using b(1) old [of p] by auto
  then show "read_end_time F fs' (success_dir t st u) = Inr (Some e)"
    using end_time_present [OF ok dir_path_log_path [OF a(7) ns(3)] e] by blast
  have "\<not> (contents fs' ?f \<noteq> None \<or> (\<exists>q. contents fs' q \<noteq> None \<and> below ?f q \<noteq> None))"
    unfolding c'p using b(2) ne(2) old by fastforce
  moreover have "contents fs' ?s \<noteq> None \<and> below (success_dir t st u) ?s \<noteq> None" unfolding c'p b(1) by simp
  ultimately show "fst (txn_state_of F (txn_root t) (txn_id_of st u) fs') = Inr (Some TS_SUCCESS)"
    unfolding state_law [OF ok active] Let_def state_of_presence_def by auto
qed

lemma aborted_facts:
  assumes active: "txn_active st u t" and ok: "ok fs'" and fresh: "undecided c st u t"
    and P: "running_log t st u \<in> P" "failed_log t st u \<notin> P"
    and c': "contents fs' = cleaned st u t P data c"
  shows "read_end_time F fs' (success_dir t st u) = Inr None"
    and "fst (txn_state_of F (txn_root t) (txn_id_of st u) fs') = Inr (Some TS_PURGED)"
proof -
  note a = txn_activeD [OF active]
  let ?r = "running_log t st u" and ?f = "failed_log t st u" and ?d = "success_dir t st u"
  have ns: "\<forall>n \<in> set [txn_id_of st u]. component n" "\<forall>n \<in> set (start_dirs st @ [txn_id_of st u]). component n"
    using a(2,3) by auto
  have b: "below ?d ?f = None" "below ?r ?f = None" using below_log_path [OF a(7)] ns by simp_all
  have old: "below ?r p = None \<and> below ?d p = None" if "c p \<noteq> None" for p
    using fresh that by (simp add: undecided_def)
  have c'p: "contents fs' p \<noteq> None \<longleftrightarrow> p \<notin> P \<and> (p = ?f \<or> c p \<noteq> None)" for p using c' by (simp add: cleaned_def)
  have "below ?d p = None" if "contents fs' p \<noteq> None" for p using that b(1) old unfolding c'p by blast
  then show "read_end_time F fs' ?d = Inr None" using end_time_absent [OF ok dir_path_log_path [OF a(7) ns(2)]] by blast
  have "contents fs' ?f \<noteq> None" unfolding c'p using P(2) by simp
  moreover have "\<not> (contents fs' ?r \<noteq> None \<or> (\<exists>q. contents fs' q \<noteq> None \<and> below ?r q \<noteq> None))"
  proof -
    have "below ?r q = None" if "contents fs' q \<noteq> None" for q using that b(2) old unfolding c'p by metis
    then show ?thesis using P(1) c'p [of ?r] by metis
  qed
  ultimately show "fst (txn_state_of F (txn_root t) (txn_id_of st u) fs') = Inr (Some TS_PURGED)"
    unfolding state_law [OF ok active] Let_def state_of_presence_def by auto
qed

end

lemma undecided_map_of:
  assumes "list_all (\<lambda>p. p \<notin> {failed_log t st u, success_dir t st u} \<and> below (failed_log t st u) p = None \<and>
    below (success_dir t st u) p = None \<and> below (running_log t st u) p = None) (map fst fs)"
  shows "undecided (map_of fs) st u t"
proof -
  have "map_of fs p \<noteq> None \<longleftrightarrow> p \<in> set (map fst fs)" for p by (simp add: map_of_eq_None_iff)
  then show ?thesis using assms unfolding undecided_def list_all_iff by blast
qed

text \<open>Sealing a transaction whose writes are in place.\<close>

definition sealable :: "(string \<Rightarrow> 'd option) \<Rightarrow> int \<Rightarrow> string \<Rightarrow> 'c txn \<Rightarrow> bool" where
  "sealable c st u t \<longleftrightarrow> txn_active st u t \<and> undecided c st u t \<and> c (running_log t st u) \<noteq> None \<and>
     txn_interactive t \<and> txn_historic_timestamp t = None \<and> txn_end_time t = None \<and>
     txn_running_log_written t \<and> has_write_operations t"

abbreviation written_paths :: "'c txn \<Rightarrow> string list" where
  "written_paths t \<equiv> txn_metafile_write_paths t @ txn_locator_write_paths t"

lemma sealable_seal: "sealable c st u t \<Longrightarrow> txn_seal T now (fs, t) = seal_steps T now (fs, t)"
  by (simp add: sealable_def txn_seal_def)

lemma failed_not_given_up:
  assumes "txn_active st u t" "p = None \<or> p = Some (success_log t st u e)" "0 \<le> e"
  shows "failed_log t st u \<notin> given_up t (running_log t st u) p"
proof -
  note a = txn_activeD [OF assms(1)]
  have ns: "\<forall>n \<in> set (start_dirs st @ [txn_id_of st u, int_to_str e]). component n" "\<forall>n \<in> set [txn_id_of st u]. component n"
    "\<forall>n \<in> set (start_dirs st @ [txn_id_of st u]). component n" using a(2,3) int_to_str_visible [OF assms(3)] by auto
  have "failed_log t st u \<notin> set (written_paths t)"
    using assms(1) log_path_not_data [OF a(7) ns(3)] unfolding txn_active_def by blast
  then show ?thesis using assms(2) log_path_inject [OF a(7)] ns by (auto simp: given_up_def truthy_def)
qed

subsection \<open>Properties\<close>

text \<open>C3: Sealing a transaction without conflicts commits it. On every file system with the contract
  \<open>file_store\<close>, if the conflict check passes for the written paths and the end time is not before
  the start time, \<^verbatim>\<open>seal\<close> returns, the end time read back from the success log (what makes revisions
  visible to later transactions) is the one that was taken, the state is SUCCESS, and no file outside
  the log directory changed.\<close>

theorem seal_commits:
  assumes "file_store F ok contents size_of" "te_fs T = F" "ok fs" "sealable (contents fs) st u t" "st \<le> e"
    and "check_conflicts F fs (status_dir ST_SUCCESS (txn_root t)) (written_paths t) = Inr ()"
  shows "\<exists>r fs' t' d. txn_seal T (Inr e) (fs, t) = Some (Inr r, (fs', t')) \<and>
    success_txn_log_dir_path (status_dir ST_SUCCESS (txn_root t)) (txn_id_of st u) = Inr d \<and>
    read_end_time F fs' d = Inr (Some e) \<and>
    fst (txn_state_of F (txn_root t) (txn_id_of st u) fs') = Inr (Some TS_SUCCESS) \<and>
    (\<forall>p. data_path (txn_root t) p \<longrightarrow> contents fs' p = contents fs p)"
proof -
  note active = assms(4) [unfolded sealable_def, THEN conjunct1]
  note a = txn_activeD [OF active]
  have e: "0 \<le> e" using a(4) assms(5) by simp
  have t: "\<not> time_set (txn_end_time t)" "has_write_operations t" "txn_running_log_written t" "undecided (contents fs) st u t"
    "contents fs (running_log t st u) \<noteq> None"
    using assms(4) by (simp_all add: sealable_def time_set_def)
  obtain x fs' data where s: "seal_steps T (Inr e) (fs, t) = Some (Inr x, (fs', t\<lparr>txn_end_time := Some e\<rparr>))" "ok fs'"
    "contents fs' = (contents fs)(success_log t st u e \<mapsto> data, running_log t st u := None)"
    using file_store.seal_outcome [OF assms(1,2) active assms(3) e t(1-3,5)] assms(5,6) by auto
  have ns: "\<forall>n \<in> set (start_dirs st @ [txn_id_of st u, int_to_str e]). component n" "\<forall>n \<in> set [txn_id_of st u]. component n"
    using a(2,3) int_to_str_visible [OF e] by auto
  have "contents fs' p = contents fs p" if "data_path (txn_root t) p" for p
    using that log_path_not_data [OF a(7)] ns s(3) by auto
  moreover have "success_txn_log_dir_path (status_dir ST_SUCCESS (txn_root t)) (txn_id_of st u) = Inr (success_dir t st u)"
    using a(1,8) by (simp add: success_txn_log_dir_path_def partitioned_txn_log_path_def log_paths)
  ultimately show ?thesis
    using file_store.committed_facts [OF assms(1) active s(2) e t(4) s(3)] unfolding sealable_seal [OF assms(4)] s(1) by blast
qed

text \<open>C4: Sealing is all or nothing. If the conflict check raises, or the end time is before the start time,
  \<^verbatim>\<open>seal\<close> raises, no end time can be read for the transaction, its state is PURGED, every revision and
  mapping file it wrote is gone, and every other file outside the log directory is as it was.\<close>

theorem seal_aborts:
  assumes "file_store F ok contents size_of" "te_fs T = F" "ok fs" "sealable (contents fs) st u t" "0 \<le> e"
    and "e < st \<or> check_conflicts F fs (status_dir ST_SUCCESS (txn_root t)) (written_paths t) = Inl err"
  shows "\<exists>err' fs' t' d. txn_seal T (Inr e) (fs, t) = Some (Inl err', (fs', t')) \<and>
    success_txn_log_dir_path (status_dir ST_SUCCESS (txn_root t)) (txn_id_of st u) = Inr d \<and>
    read_end_time F fs' d = Inr None \<and>
    fst (txn_state_of F (txn_root t) (txn_id_of st u) fs') = Inr (Some TS_PURGED) \<and>
    (\<forall>p. data_path (txn_root t) p \<longrightarrow> contents fs' p = (if p \<in> set (written_paths t) then None else contents fs p))"
proof -
  note active = assms(4) [unfolded sealable_def, THEN conjunct1]
  note a = txn_activeD [OF active]
  have t: "\<not> time_set (txn_end_time t)" "has_write_operations t" "txn_running_log_written t" "undecided (contents fs) st u t"
    "contents fs (running_log t st u) \<noteq> None"
    using assms(4) by (simp_all add: sealable_def time_set_def)
  obtain err' fs' data q where s: "seal_steps T (Inr e) (fs, t) = Some (Inl err', (fs', t\<lparr>txn_end_time := Some e\<rparr>))" "ok fs'"
    "contents fs' = cleaned st u t (given_up t (running_log t st u) q) data (contents fs)"
    "q = None \<or> q = Some (success_log t st u e)"
    using file_store.seal_outcome [OF assms(1,2) active assms(3,5) t(1-3,5)] assms(6)
    by (cases "check_conflicts F fs (status_dir ST_SUCCESS (txn_root t)) (written_paths t)") auto
  have ns: "\<forall>n \<in> set (start_dirs st @ [txn_id_of st u, int_to_str e]). component n" "\<forall>n \<in> set [txn_id_of st u]. component n"
    "\<forall>n \<in> set (start_dirs st @ [txn_id_of st u]). component n"
    using a(2,3) int_to_str_visible [OF assms(5)] by auto
  have "contents fs' p = (if p \<in> set (written_paths t) then None else contents fs p)" if "data_path (txn_root t) p" for p
  proof -
    have "p \<notin> {running_log t st u, failed_log t st u, success_log t st u e}" using that log_path_not_data [OF a(7)] ns by auto
    then show ?thesis using s(3,4) by (auto simp: cleaned_def given_up_def truthy_def)
  qed
  moreover have "success_txn_log_dir_path (status_dir ST_SUCCESS (txn_root t)) (txn_id_of st u) = Inr (success_dir t st u)"
    using a(1,8) by (simp add: success_txn_log_dir_path_def partitioned_txn_log_path_def log_paths)
  moreover have "running_log t st u \<in> given_up t (running_log t st u) q" by (simp add: given_up_def)
  ultimately show ?thesis
    using failed_not_given_up [OF active s(4) assms(5)] file_store.aborted_facts [OF assms(1) active s(2) t(4) _ _ s(3)]
    unfolding sealable_seal [OF assms(4)] s(1) by blast
qed

subsection \<open>A concrete session\<close>

text \<open>
  An interactive transaction that creates a namespace in an empty catalog, run on the in-memory file
  system up to the point where it is sealed.
\<close>

definition ex_uuid :: string where "ex_uuid = ''a0eebc99-9c0b-4ef8-bb6d-6bb9bd380a11''"

definition ex_txn_env :: "(nat mem, unit, nat) txn_env" where
  "ex_txn_env =
     \<lparr>te_env = \<lparr>env_fs = mem_F id, env_sha1 = (\<lambda>s. ''d1''), env_serialize = (\<lambda>_. Inr 1),
        env_load = (\<lambda>_ _ _. Inl ValueError), env_empty = 0\<rparr>,
      te_dumps = (\<lambda>_. 7), te_uuid = ex_uuid, te_uuids = (''src-id'', ''dest-id'')\<rparr>"

definition ex_namespace :: "unit metafile" where
  "ex_namespace = \<lparr>mf_id = None, mf_locator = NamespaceLoc (namespace_locator_of (Some ''ns'')), mf_locator_alias = None,
     mf_ancestor_ids = [], mf_content = ()\<rparr>"

definition ex_session :: "(unit step_result res \<times> nat mem \<times> unit txn) option" where
  "ex_session =
     (case (txn_op_of CREATE (Some ex_namespace) None None,
            txn_start (te_fs ex_txn_env) ''root'' None (Inr 1700000000000000000) (txn_of None None) []) of
        (Inr op, (Inr t, fs)) \<Rightarrow> txn_step ex_txn_env 0 op (fs, t)
      | _ \<Rightarrow> None)"

text \<open>The state it reaches: the revision file, the name mapping file and the running log.\<close>

definition ex_start :: int where "ex_start = 1700000000000000000"

definition ex_revision_path :: string where
  "ex_revision_path = path_join_all ''root'' [''dest-id'', ''rev'', ''1000000'', ''1000'',
     ''00000000000000000001_create_1700000000000000000_a0eebc99-9c0b-4ef8-bb6d-6bb9bd380a11.mpk'']"

definition ex_mapping_path :: string where
  "ex_mapping_path = path_join_all ''root'' [''d1'', ''1000000'', ''1000'',
     ''00000000000000000001_create_1700000000000000000_a0eebc99-9c0b-4ef8-bb6d-6bb9bd380a11.dest-id'']"

definition ex_session_fs :: "nat mem" where
  "ex_session_fs = [(ex_revision_path, 1), (ex_mapping_path, 0),
     (''root/txn/running/1700000000000000000_a0eebc99-9c0b-4ef8-bb6d-6bb9bd380a11'', 7)]"

definition ex_session_txn :: "unit txn" where
  "ex_session_txn =
     \<lparr>txn_operations = [\<lparr>op_type = CREATE, op_dest = ex_namespace\<lparr>mf_id := Some ''dest-id''\<rparr>, op_src = None, op_read_limit = None,
        op_metafile_write_paths = [ex_revision_path], op_locator_write_paths = [ex_mapping_path]\<rparr>],
      txn_interactive = True, txn_commit_message = None, txn_id = Some (txn_id_of ex_start ex_uuid),
      txn_start_time = Some ex_start, txn_pause_time = None, txn_end_time = None, txn_root = ''root'',
      txn_provider = Some SystemProvider, txn_historic_timestamp = None, txn_running_log_written = True, txn_list_results = []\<rparr>"

lemma ex_session_runs:
  "ex_session = Some (Inr (WriteStep [ex_revision_path] [ex_mapping_path]), (ex_session_fs, ex_session_txn))"
  by code_simp

lemma ex_session_active:
  "txn_active ex_start ex_uuid ex_session_txn"
  "check_conflicts (mem_F id) ex_session_fs (status_dir ST_SUCCESS (txn_root ex_session_txn)) (written_paths ex_session_txn) = Inr ()"
  by code_simp+

lemma ex_session_undecided: "undecided (map_of ex_session_fs) ex_start ex_uuid ex_session_txn"
  by (rule undecided_map_of) code_simp

lemma ex_session_log: "map_of ex_session_fs (running_log ex_session_txn ex_start ex_uuid) \<noteq> None"
  by code_simp

lemma ex_session_sealable:
  "sealable (map_of ex_session_fs) ex_start ex_uuid ex_session_txn"
  "distinct (map fst ex_session_fs)" "te_fs ex_txn_env = mem_F id"
proof -
  show "sealable (map_of ex_session_fs) ex_start ex_uuid ex_session_txn"
    unfolding sealable_def using ex_session_active(1) ex_session_undecided ex_session_log
    by (simp add: ex_session_txn_def has_write_operations_def is_read_operation_def read_operations_def)
  show "distinct (map fst ex_session_fs)" by code_simp
  show "te_fs ex_txn_env = mem_F id" by (simp add: ex_txn_env_def)
qed

theorem seal_commits_witness:
  "\<exists>r fs' t' d. txn_seal ex_txn_env (Inr (ex_start + 5)) (ex_session_fs, ex_session_txn) = Some (Inr r, (fs', t')) \<and>
    success_txn_log_dir_path (status_dir ST_SUCCESS (txn_root ex_session_txn)) (txn_id_of ex_start ex_uuid) = Inr d \<and>
    read_end_time (mem_F id) fs' d = Inr (Some (ex_start + 5)) \<and>
    fst (txn_state_of (mem_F id) (txn_root ex_session_txn) (txn_id_of ex_start ex_uuid) fs') = Inr (Some TS_SUCCESS) \<and>
    (\<forall>p. data_path (txn_root ex_session_txn) p \<longrightarrow> map_of fs' p = map_of ex_session_fs p)"
  by (rule seal_commits [OF mem.file_store_axioms ex_session_sealable(3,2,1) _ ex_session_active(2)]) simp

theorem seal_aborts_witness:
  "\<exists>err' fs' t' d. txn_seal ex_txn_env (Inr (ex_start - 5)) (ex_session_fs, ex_session_txn) = Some (Inl err', (fs', t')) \<and>
    success_txn_log_dir_path (status_dir ST_SUCCESS (txn_root ex_session_txn)) (txn_id_of ex_start ex_uuid) = Inr d \<and>
    read_end_time (mem_F id) fs' d = Inr None \<and>
    fst (txn_state_of (mem_F id) (txn_root ex_session_txn) (txn_id_of ex_start ex_uuid) fs') = Inr (Some TS_PURGED) \<and>
    (\<forall>p. data_path (txn_root ex_session_txn) p \<longrightarrow>
       map_of fs' p = (if p \<in> set (written_paths ex_session_txn) then None else map_of ex_session_fs p))"
  by (rule seal_aborts [OF mem.file_store_axioms ex_session_sealable(3,2,1)]) (simp_all add: ex_start_def)

end
