(* ===== verification/RevisionProperties.thy ===== *)
theory RevisionProperties
  imports RevisionHistory
begin

text \<open>
  The properties of revision files, stated over \<open>RevisionInfo\<close>, with witnesses on a concrete
  catalog: the in-memory file system holding revision files and transaction logs, on which the
  hypotheses are evaluated.
\<close>

subsection \<open>A concrete catalog\<close>

definition ex_id :: "int \<Rightarrow> string" where
  "ex_id t = txn_id_of t ''a0eebc99-9c0b-4ef8-bb6d-6bb9bd380a11''"

definition ex_dir :: string where "ex_dir = ''root/ns/rev''"
definition ex_log :: string where "ex_log = ''root/txn/success''"

definition ex_log_file :: "int \<Rightarrow> int \<Rightarrow> string \<times> nat" where
  "ex_log_file start end = (case success_txn_log_dir_path ex_log (ex_id start) of
     Inr p \<Rightarrow> (path_join p (int_to_str end), 7) | Inl _ \<Rightarrow> ([], 0))"

definition ex_fs :: "rev_file list \<Rightarrow> (int \<times> int) list \<Rightarrow> nat mem" where
  "ex_fs L logs = map (\<lambda>f. (rf_path ex_dir f, 1)) L @ map (\<lambda>(s, e). ex_log_file s e) logs"

definition ex_end_times :: "(int \<times> int) list \<Rightarrow> string \<Rightarrow> int option" where
  "ex_end_times logs = map_of (map (\<lambda>(s, e). (ex_id s, e)) logs)"

definition ex_file :: "int \<Rightarrow> txn_op_type \<Rightarrow> int \<Rightarrow> rev_file" where
  "ex_file r op start = \<lparr>rf_revision = r, rf_op = op, rf_txn_id = ex_id start, rf_ext = ''mpk''\<rparr>"

definition ex_ok :: "rev_file list \<Rightarrow> (int \<times> int) list \<Rightarrow> bool" where
  "ex_ok L logs \<longleftrightarrow> list_all rf_ok L \<and> distinct (map fst (ex_fs L logs)) \<and>
     set (map (\<lambda>(p, c). (p, Some (id c))) (filter (\<lambda>q. below ex_dir (fst q) \<noteq> None) (ex_fs L logs))) =
     set (map (stored_entry ex_dir rev_transform) (map (rf_stored (\<lambda>_. 1)) L)) \<and>
     list_all (\<lambda>f. case success_txn_log_dir_path ex_log (rf_txn_id f) of
         Inr p \<Rightarrow> read_end_time (mem_F id) (ex_fs L logs) p = Inr (ex_end_times logs (rf_txn_id f))
       | Inl _ \<Rightarrow> False) L"

lemma ex_dir_ok: "revision_base ex_dir"
  by code_simp

lemma ex_catalog:
  assumes "ex_ok L logs"
  shows "revision_dir (mem_F id) (ex_fs L logs) ex_dir (set L)"
    and "logs_end_times (mem_F id) (ex_fs L logs) ex_log (ex_end_times logs) (set L)"
proof -
  have "mem_holds id (ex_fs L logs) ex_dir rev_transform (rf_stored (\<lambda>_. 1) ` set L)"
    using assms mem_holds_list [of id "ex_fs L logs" ex_dir rev_transform "map (rf_stored (\<lambda>_. 1)) L"]
    by (simp add: ex_ok_def)
  then show "revision_dir (mem_F id) (ex_fs L logs) ex_dir (set L)"
    using assms by (intro mem_revision_dir [OF ex_dir_ok]) (simp_all add: ex_ok_def list_all_iff)
  have "\<exists>p. success_txn_log_dir_path ex_log (rf_txn_id f) = Inr p \<and>
      read_end_time (mem_F id) (ex_fs L logs) p = Inr (ex_end_times logs (rf_txn_id f))" if "f \<in> set L" for f
    using assms that by (cases "success_txn_log_dir_path ex_log (rf_txn_id f)") (auto simp: ex_ok_def list_all_iff)
  then show "logs_end_times (mem_F id) (ex_fs L logs) ex_log (ex_end_times logs) (set L)"
    by (simp add: logs_end_times_def ex_log_def)
qed

text \<open>
  Two revisions: the first by a completed transaction, the second by one that is still running.
\<close>

definition ex_files :: "rev_file list" where
  "ex_files = [ex_file 1 CREATE 1700000000000000000, ex_file 2 UPDATE 1700000000000000300]"

definition ex_logs :: "(int \<times> int) list" where
  "ex_logs = [(1700000000000000000, 1700000000000000100)]"

lemma ex_files_ok: "ex_ok ex_files ex_logs"
  by code_simp

lemmas ex_two_revisions = ex_catalog [OF ex_files_ok]

lemma ex_files_unique: "inj_on rf_revision (set ex_files)"
  by (simp add: ex_files_def ex_file_def)

lemma ex_id_not_Nil: "ex_id t \<noteq> []"
  by (simp add: ex_id_def txn_id_of_def)

subsection \<open>Properties\<close>

text \<open>C32: the name of a revision file carries the whole revision record: parsing the path of a
  record with a write operation and a transaction identifier gives the record back.\<close>

theorem revision_path_roundtrip:
  assumes "0 \<le> mri_revision m" "mri_txn_id m = Some i" "txn_id_text i" "mri_txn_op_type m = Some (op_value op)"
    "is_write_operation op" "mri_dir_path m = Some d" "dir_path d" "mri_extension m = Some (dot # e)"
    "slash \<notin> set e" "dot \<notin> set e"
  shows "\<exists>p. mri_path m = Inr (Some p) \<and> mri_parse p = Inr m"
proof -
  have "i \<noteq> []" using assms(3) by (auto simp: txn_id_text_def)
  then have "mri_file_name m = Inr (Some (revision_file_name (mri_revision m) op i (dot # e)))"
    using mri_file_name_eq [OF assms(4,2)] assms(8) by (simp add: get_extension_def)
  then have "mri_path m = Inr (Some (path_join d (revision_file_name (mri_revision m) op i (dot # e))))"
    using assms(6,7) by (simp add: mri_path_def)
  moreover have "m = \<lparr>mri_revision = mri_revision m, mri_txn_id = Some i, mri_txn_op_type = Some (op_value op),
      mri_dir_path = Some d, mri_extension = Some (dot # e)\<rparr>" using assms by (cases m) simp
  ultimately show ?thesis using mri_parse_path [OF assms(7,1,5,3,9,10)] by metis
qed

theorem revision_path_roundtrip_witness:
  "\<exists>p. mri_path (rf_mri ex_dir (ex_file 2 UPDATE 1700000000000000300)) = Inr (Some p) \<and>
       mri_parse p = Inr (rf_mri ex_dir (ex_file 2 UPDATE 1700000000000000300))"
proof (rule revision_path_roundtrip [where e = "''mpk''"])
  show "txn_id_text (ex_id 1700000000000000300)" by code_simp
  show "is_write_operation UPDATE" by code_simp
  show "dir_path (rf_dir ex_dir (ex_file 2 UPDATE 1700000000000000300))" by code_simp
qed (simp_all add: rf_mri_def ex_file_def)

text \<open>C25: listing a partitioned revision tree is exact. For any file system that holds the files \<open>S\<close>
  below the partition directories of their numbers, \<^verbatim>\<open>list_directory_partitioned\<close> returns exactly the
  stored files up to the requested number, each once, largest number first, cut at the limit.\<close>

theorem partitioned_listing_exact:
  assumes "partitioned_layout F fs base rev_transform 2 parser True S"
    "\<forall>e \<in> S. rev_domain (st_value e)" "rev_domain pv" "rev_scheme.ordered_names S" "limit = None \<or> (\<exists>l > 0. limit = Some l)"
  shows "\<exists>out. list_directory_partitioned F fs base pv rev_transform parser limit rev_dir_parser None True False unp None
           = Inr (slice_opt limit out) \<and>
    set out = stored_entry base rev_transform ` {e \<in> S. st_value e \<le> pv} \<and> distinct out \<and>
    sorted_wrt (\<lambda>x y. entry_value parser y \<le> entry_value parser x) out"
  by (rule rev_scheme.list_directory_partitioned_ok [OF assms])

theorem partitioned_listing_exact_witness:
  "\<exists>sz out. list_directory_partitioned (mem_F id) (ex_fs ex_files ex_logs) ex_dir 1 rev_transform mri_parse_revision (Some 10)
      rev_dir_parser None True False True None = Inr (slice_opt (Some 10) out) \<and>
    set out = stored_entry ex_dir rev_transform ` {e \<in> rf_stored sz ` set ex_files. st_value e \<le> 1} \<and> distinct out \<and>
    sorted_wrt (\<lambda>x y. entry_value mri_parse_revision y \<le> entry_value mri_parse_revision x) out"
proof -
  obtain sz where lay: "partitioned_layout (mem_F id) (ex_fs ex_files ex_logs) ex_dir rev_transform 2 mri_parse_revision True
      (rf_stored sz ` set ex_files)" and ok: "\<forall>f \<in> set ex_files. rf_ok f"
    using ex_two_revisions(1) by (auto simp: revision_dir_def)
  have dp: "dir_path ex_dir" using revision_base_facts(1) [OF ex_dir_ok] .
  have dom: "\<forall>e \<in> rf_stored sz ` set ex_files. rev_domain (st_value e)" using ok by (auto simp: rf_ok_def)
  have one: "rev_domain 1" by (simp add: rev_domain_def MAX_REVISION_NUMBER_def)
  have lim: "Some (10 :: int) = None \<or> (\<exists>l > 0. Some (10 :: int) = Some l)" by simp
  show ?thesis
    by (rule exI [of _ sz], rule partitioned_listing_exact [OF lay dom one ordered_names_revisions [OF ok dp] lim])
qed

text \<open>C1: the latest revision of a metafile is a snapshot read. In a revision directory with one file
  per revision number, a transaction always gets an answer, and it is the largest revision that the
  transaction wrote itself or whose transaction ended before it started; where there is none, the
  object is not found, or the undefined revision is returned if the caller asked for that.\<close>

theorem latest_revision_snapshot:
  assumes "revision_dir F fs dir R" "logs_end_times F fs log_dir E R" "txn_id \<noteq> []" "inj_on rf_revision R"
  shows "\<exists>r. is_latest R (sees E st txn_id) r \<and>
    latest_revision F fs dir (Some log_dir) (Some st) (Some txn_id) ignore_missing =
      Some (case r of None \<Rightarrow> if ignore_missing then Inr mri_undefined else Inl ObjectNotFoundError
                    | Some f \<Rightarrow> Inr (rf_mri dir f))"
  using latest_revision_walk [OF assms(1-3), of st ignore_missing]
    walk_result_latest [OF _ assms(4) revision_dir_max [OF assms(1)]] by metis

theorem latest_revision_snapshot_witness:
  "\<exists>r. is_latest (set ex_files) (sees (ex_end_times ex_logs) 1700000000000000400 (ex_id 1700000000000000400)) r \<and>
    latest_revision (mem_F id) (ex_fs ex_files ex_logs) ex_dir (Some ex_log) (Some 1700000000000000400)
      (Some (ex_id 1700000000000000400)) False =
      Some (case r of None \<Rightarrow> if False then Inr mri_undefined else Inl ObjectNotFoundError
                    | Some f \<Rightarrow> Inr (rf_mri ex_dir f))"
  by (rule latest_revision_snapshot [OF ex_two_revisions ex_id_not_Nil ex_files_unique])

text \<open>C26: also with several files at one revision number, which concurrent transactions leave behind,
  the search for the latest revision ends, what it returns is visible to the transaction, and every
  larger revision number has a file that is not visible.\<close>

theorem latest_revision_concurrent:
  assumes "revision_dir F fs dir R" "logs_end_times F fs log_dir E R" "txn_id \<noteq> []"
  shows "\<exists>r. walk_result R (sees E st txn_id) MAX_REVISION_NUMBER r \<and>
    latest_revision F fs dir (Some log_dir) (Some st) (Some txn_id) ignore_missing =
      Some (case r of None \<Rightarrow> if ignore_missing then Inr mri_undefined else Inl ObjectNotFoundError
                    | Some f \<Rightarrow> Inr (rf_mri dir f))"
  using latest_revision_walk [OF assms, of st ignore_missing] by metis

theorem latest_revision_concurrent_witness:
  "\<exists>r. walk_result (set ex_files) (sees (ex_end_times ex_logs) 1700000000000000050 (ex_id 1700000000000000050))
      MAX_REVISION_NUMBER r \<and>
    latest_revision (mem_F id) (ex_fs ex_files ex_logs) ex_dir (Some ex_log) (Some 1700000000000000050)
      (Some (ex_id 1700000000000000050)) True =
      Some (case r of None \<Rightarrow> if True then Inr mri_undefined else Inl ObjectNotFoundError
                    | Some f \<Rightarrow> Inr (rf_mri ex_dir f))"
  by (rule latest_revision_concurrent [OF ex_two_revisions ex_id_not_Nil])

text \<open>C5: a new revision continues the latest visible one. CREATE succeeds exactly when nothing is
  visible or the latest visible revision is a deletion, every other operation exactly when the latest
  visible revision is not a deletion; the new number is one more (or 1), and each refusal is the
  error the operation names.\<close>

theorem new_revision_outcomes:
  assumes "revision_dir F fs dir R" "logs_end_times F fs log_dir E R" "txn_id \<noteq> []" "inj_on rf_revision R"
  shows "\<exists>r. is_latest R (sees E st txn_id) r \<and>
    new_revision F fs dir op st txn_id ext (Some log_dir) =
      Some (case r of
        None \<Rightarrow> if op = CREATE then Inr (created_revision dir op txn_id ext 1) else Inl ObjectNotFoundError
      | Some f \<Rightarrow>
          if rf_op f = DELETE \<and> op \<noteq> CREATE then Inl ObjectDeletedError
          else if rf_op f \<noteq> DELETE \<and> op = CREATE then Inl ObjectAlreadyExistsError
          else Inr (created_revision dir op txn_id ext (rf_revision f + 1)))"
proof -
  obtain r where "walk_result R (sees E st txn_id) MAX_REVISION_NUMBER r"
    "new_revision F fs dir op st txn_id ext (Some log_dir) = Some (revision_outcome dir op txn_id ext r)"
    using new_revision_walk [OF assms(1-3)] .
  then show ?thesis
    using walk_result_latest [OF _ assms(4) revision_dir_max [OF assms(1)]] unfolding revision_outcome_def by blast
qed

theorem new_revision_outcomes_witness:
  "\<exists>r. is_latest (set ex_files) (sees (ex_end_times ex_logs) 1700000000000000400 (ex_id 1700000000000000400)) r \<and>
    new_revision (mem_F id) (ex_fs ex_files ex_logs) ex_dir UPDATE 1700000000000000400 (ex_id 1700000000000000400)
      METAFILE_EXT (Some ex_log) =
      Some (case r of
        None \<Rightarrow> if UPDATE = CREATE then Inr (created_revision ex_dir UPDATE (ex_id 1700000000000000400) METAFILE_EXT 1)
                else Inl ObjectNotFoundError
      | Some f \<Rightarrow>
          if rf_op f = DELETE \<and> UPDATE \<noteq> CREATE then Inl ObjectDeletedError
          else if rf_op f \<noteq> DELETE \<and> UPDATE = CREATE then Inl ObjectAlreadyExistsError
          else Inr (created_revision ex_dir UPDATE (ex_id 1700000000000000400) METAFILE_EXT (rf_revision f + 1)))"
  by (rule new_revision_outcomes [OF ex_two_revisions ex_id_not_Nil ex_files_unique])

text \<open>C2: the conflict check decides exactly whether the transaction may keep its revision file. With
  at most one page of files at the revision number it passes if and only if every other transaction
  with a file at that number has a smaller identifier and is not completed, and it raises the
  concurrent modification error otherwise.\<close>

theorem conflict_check_decides:
  assumes "revision_dir F fs dir R" "logs_end_times F fs log_dir E R" "f \<in> R"
    "card {g \<in> R. rf_revision g = rf_revision f} \<le> nat DEFAULT_PAGE_SIZE"
  shows "check_for_concurrent_txn_conflict F fs log_dir (rf_path dir f) =
    (if \<forall>g \<in> R. rf_revision g = rf_revision f \<and> rf_txn_id g \<noteq> rf_txn_id f \<longrightarrow>
          rf_txn_id g < rf_txn_id f \<and> \<not> completed E (rf_txn_id g)
     then Inr () else Inl ConcurrentModificationError)"
  using check_conflict_eq [OF assms] by (simp only: conflict_free_def)

theorem conflict_check_decides_witness:
  "check_for_concurrent_txn_conflict (mem_F id) (ex_fs ex_files ex_logs) ex_log
     (rf_path ex_dir (ex_file 2 UPDATE 1700000000000000300)) = Inr ()"
proof -
  let ?f = "ex_file 2 UPDATE 1700000000000000300"
  have c: "{g \<in> set ex_files. rf_revision g = rf_revision ?f} = {?f}" by (auto simp: ex_files_def ex_file_def)
  have few: "card {g \<in> set ex_files. rf_revision g = rf_revision ?f} \<le> nat DEFAULT_PAGE_SIZE"
    unfolding c by (simp add: DEFAULT_PAGE_SIZE_def)
  have "?f \<in> set ex_files" by (simp add: ex_files_def)
  note check = conflict_check_decides [OF ex_two_revisions this few]
  have "\<forall>g \<in> set ex_files. rf_revision g = rf_revision ?f \<and> rf_txn_id g \<noteq> rf_txn_id ?f \<longrightarrow>
      rf_txn_id g < rf_txn_id ?f \<and> \<not> completed (ex_end_times ex_logs) (rf_txn_id g)"
  proof (intro ballI impI)
    fix g assume g: "g \<in> set ex_files" "rf_revision g = rf_revision ?f \<and> rf_txn_id g \<noteq> rf_txn_id ?f"
    then have "g = ?f" using c by blast
    then show "rf_txn_id g < rf_txn_id ?f \<and> \<not> completed (ex_end_times ex_logs) (rf_txn_id g)" using g by blast
  qed
  then show ?thesis unfolding check by (rule if_P)
qed

subsection \<open>Where the code departs from its intent\<close>

text \<open>
  Two files at revision 2: the transaction started at ...300 is completed, a second one started at
  ...350 is running and its file sorts first. Revision 3 does not exist.
\<close>

definition ex_hidden_files :: "rev_file list" where
  "ex_hidden_files = [ex_file 1 CREATE 1700000000000000000, ex_file 2 UPDATE 1700000000000000300,
     ex_file 2 UPDATE 1700000000000000350]"

definition ex_hidden_logs :: "(int \<times> int) list" where
  "ex_hidden_logs = [(1700000000000000000, 1700000000000000100), (1700000000000000300, 1700000000000000400)]"

text \<open>An example: an uncommitted file hides a committed one of the same revision number. A transaction that
  starts after the update to revision 2 was committed still reads revision 1 while another
  transaction has an uncommitted file for revision 2, because the search looks at one file per
  revision number only.\<close>

lemma committed_revision_hidden:
  "sees (ex_end_times ex_hidden_logs) 1700000000000000500 (ex_id 1700000000000000500)
     (ex_file 2 UPDATE 1700000000000000300) \<and>
   latest_revision (mem_F id) (ex_fs ex_hidden_files ex_hidden_logs) ex_dir (Some ex_log)
     (Some 1700000000000000500) (Some (ex_id 1700000000000000500)) False =
   Some (Inr (rf_mri ex_dir (ex_file 1 CREATE 1700000000000000000)))"
proof
  have "ex_end_times ex_hidden_logs (ex_id 1700000000000000300) = Some 1700000000000000400" by code_simp
  then show "sees (ex_end_times ex_hidden_logs) 1700000000000000500 (ex_id 1700000000000000500)
      (ex_file 2 UPDATE 1700000000000000300)" by (simp add: sees_def ex_file_def)
qed code_simp

text \<open>A limit larger than one returns too few revisions. With three visible revisions and a
  limit of three, two are returned, because the limit is reduced by the number of all revisions
  collected so far at every step and not by one.\<close>

lemma list_revisions_limit_short:
  "map_option (map_sum id (map mri_revision))
     (list_revisions (mem_F id) (ex_fs [ex_file 1 CREATE 1700000000000000000, ex_file 2 UPDATE 1700000000000000000,
        ex_file 3 UPDATE 1700000000000000000] []) ex_dir (Some ex_log) None None (Some 3)) = Some (Inr [3, 2])"
  by code_simp

end
