(* ===== verification/RevisionWrites.thy ===== *)
theory RevisionWrites
  imports TransactionOutcomes RevisionProperties
begin

text \<open>
  Writing revisions (\<^verbatim>\<open>_write_metafile_revision\<close> of \<^verbatim>\<open>metafile.py\<close>) on any file system with the contract
  \<open>file_store\<close>: the directory keeps the layout that reading relies on, the file is the next revision
  after the latest visible one, the writing transaction reads it back, and no other transaction sees it.
\<close>

subsection \<open>Revision directories of a store\<close>

text \<open>The files below \<open>dir\<close> are exactly the revision files \<open>R\<close>.\<close>

definition holds_revisions :: "(string \<Rightarrow> 'd option) \<Rightarrow> string \<Rightarrow> rev_file set \<Rightarrow> bool" where
  "holds_revisions c dir R \<longleftrightarrow> revision_base dir \<and> (\<forall>f \<in> R. rf_ok f) \<and>
     (\<forall>p. c p \<noteq> None \<and> below dir p \<noteq> None \<longleftrightarrow> p \<in> rf_path dir ` R)"

lemma below_rf_path:
  assumes "rf_ok f" "dir_path dir"
  shows "below dir (rf_path dir f) \<noteq> None"
proof -
  let ?n = "revision_file_name (rf_revision f) (rf_op f) (rf_txn_id f) (dot # rf_ext f)"
  have dom: "rev_domain (rf_revision f)" using assms(1) by (simp add: rf_ok_def)
  have cs: "\<forall>n \<in> set (dirs_of rev_transform (rf_revision f) @ [?n]). component n"
    using rev_scheme.dirs_facts(3) [OF dom] rf_ok_facts(4) [OF assms] by auto
  have "rf_path dir f = path_join_all dir (dirs_of rev_transform (rf_revision f) @ [?n])"
    by (simp add: rf_path_def rf_dir_def path_join_all_append)
  then show ?thesis using below_path_join_all [OF assms(2), of "[]"] cs by simp
qed

lemma holds_revisions_insert:
  assumes "holds_revisions c dir R" "rf_ok f"
  shows "holds_revisions (c(rf_path dir f \<mapsto> data)) dir (insert f R)"
  using assms below_rf_path [OF assms(2)] revision_base_facts(1)
  by (auto simp: holds_revisions_def)

lemma finite_map_list:
  assumes "finite (dom c)"
  obtains m where "map_of m = c" "distinct (map fst m)"
proof -
  obtain ks where ks: "set ks = dom c" "distinct ks" using finite_distinct_list [OF assms] by blast
  have "map_of (map (\<lambda>k. (k, the (c k))) ks) = c"
  proof
    fix k show "map_of (map (\<lambda>k. (k, the (c k))) ks) k = c k"
      using ks(1) by (auto simp: map_of_map_restrict restrict_map_def)
  qed
  moreover have "distinct (map fst (map (\<lambda>k. (k, the (c k))) ks))" using ks(2) by (simp add: comp_def)
  ultimately show ?thesis using that by blast
qed

context file_store begin

lemma store_select:
  assumes ok: "ok fs" and m: "map_of m = contents fs" "distinct (map fst m)" and d: "dir_path d"
    and sel: "mem_select size_of m d False allow = Inr xs"
  obtains fis where "fs_select F fs d False allow = Inr fis" "distinct fis" "set fis = set xs"
proof -
  obtain fis where f: "distinct fis" "set fis = store_children (contents fs) size_of d"
    "fs_select F fs d False allow = (if fis = [] \<and> \<not> allow then Inl FileNotFoundError else Inr fis)"
    using select_law [OF ok d] by blast
  let ?c = "List.map_filter (mem_child size_of d False) m"
  have c: "set ?c = set fis" using mem_children [OF m(2), of size_of d] m(1) f(2) by simp
  then have "?c = [] \<longleftrightarrow> fis = []" by (metis set_empty)
  then show ?thesis using that f(1,3) sel c by (auto simp: mem_select_def Let_def split: if_splits)
qed

lemma store_lists_dirs:
  assumes "ok fs" "map_of m = contents fs" "distinct (map fst m)" "dir_path d" "lists_dirs (mem_F size_of) m d allow N"
  shows "lists_dirs F fs d allow N"
proof -
  obtain xs where xs: "mem_select size_of m d False allow = Inr xs" "fi_path ` set xs = path_join d ` N" "distinct (map fi_path xs)"
    "\<forall>fi \<in> set xs. fi_size fi = None"
    using assms(5) by (auto simp: lists_dirs_def)
  obtain fis where f: "fs_select F fs d False allow = Inr fis" "distinct fis" "set fis = set xs"
    using store_select [OF assms(1-4) xs(1)] .
  then show ?thesis using xs by (auto simp: lists_dirs_def distinct_map)
qed

lemma store_lists_files:
  assumes "ok fs" "map_of m = contents fs" "distinct (map fst m)" "dir_path d" "lists_files (mem_F size_of) m d X"
  shows "lists_files F fs d X"
proof -
  obtain xs where xs: "mem_select size_of m d False False = Inr xs" "(\<lambda>fi. (fi_path fi, fi_size fi)) ` set xs = X" "distinct (map fi_path xs)"
    using assms(5) by (auto simp: lists_files_def)
  obtain fis where f: "fs_select F fs d False False = Inr fis" "distinct fis" "set fis = set xs"
    using store_select [OF assms(1-4) xs(1)] .
  then show ?thesis using xs by (auto simp: lists_files_def distinct_map)
qed

lemma holds_revision_dir:
  assumes ok: "ok fs" and holds: "holds_revisions (contents fs) dir R"
  shows "revision_dir F fs dir R"
proof -
  have base: "revision_base dir" "\<forall>f \<in> R. rf_ok f" and files: "contents fs p \<noteq> None \<and> below dir p \<noteq> None \<longleftrightarrow> p \<in> rf_path dir ` R" for p
    using holds by (auto simp: holds_revisions_def)
  note dp = revision_base_facts(1) [OF base(1)]
  obtain m where m: "map_of m = contents fs" "distinct (map fst m)" using finite_map_list [OF finite_law [OF ok]] .
  let ?sz = "\<lambda>f. size_of (the (contents fs (rf_path dir f)))"
  have in_m: "(p, c) \<in> set m \<longleftrightarrow> contents fs p = Some c" for p c using m by (metis map_of_eq_Some_iff)
  have "mem_holds size_of m dir rev_transform (rf_stored ?sz ` R)"
    unfolding mem_holds_def
  proof (intro conjI m(2) set_eqI iffI)
    fix x assume "x \<in> (\<lambda>(p, c). (p, Some (size_of c))) ` {q \<in> set m. below dir (fst q) \<noteq> None}"
    then obtain p c where "x = (p, Some (size_of c))" "contents fs p = Some c" "below dir p \<noteq> None" using in_m by auto
    then show "x \<in> stored_entry dir rev_transform ` rf_stored ?sz ` R"
      using files [of p] by (auto simp: stored_entry_def rf_stored_def image_image stored_path_def rf_path_def rf_dir_def)
  next
    fix x assume "x \<in> stored_entry dir rev_transform ` rf_stored ?sz ` R"
    then obtain f where f: "f \<in> R" "x = (rf_path dir f, Some (?sz f))"
      by (auto simp: stored_entry_def rf_stored_def stored_path_def rf_path_def rf_dir_def)
    moreover obtain c where "contents fs (rf_path dir f) = Some c" "below dir (rf_path dir f) \<noteq> None" using files [of "rf_path dir f"] f(1) by auto
    ultimately show "x \<in> (\<lambda>(p, c). (p, Some (size_of c))) ` {q \<in> set m. below dir (fst q) \<noteq> None}"
      using in_m by (auto intro!: image_eqI [of _ _ "(rf_path dir f, c)"])
  qed
  from mem_revision_dir [OF base this] obtain sz where
    lay: "partitioned_layout (mem_F size_of) m dir rev_transform 2 mri_parse_revision True (rf_stored sz ` R)"
    by (auto simp: revision_dir_def)
  have tree: "tree_ok rev_transform 2 (rf_stored sz ` R)"
    using base(2) rev_scheme.dirs_facts rf_ok_facts(5) [OF _ dp] by (auto simp: tree_ok_def rf_ok_def)
  have pre: "dir_path (path_join_all dir pre)" if "pre \<in> prefixes_of rev_transform (rf_stored sz ` R)" for pre
    using dir_path_join_all [OF dp] tree_ok_prefix(1) [OF tree that] by blast
  have "partitioned_layout F fs dir rev_transform 2 mri_parse_revision True (rf_stored sz ` R)"
    unfolding partitioned_layout_def
  proof (intro conjI ballI impI)
    show "dir_path dir" by (rule dp)
    show "lists_dirs F fs dir True {d. [d] \<in> prefixes_of rev_transform (rf_stored sz ` R)}"
      by (rule store_lists_dirs [OF ok m dp layout_base [OF lay]])
    show "visible (st_name e)" "mri_parse_revision (stored_path dir rev_transform e) = Inr (Some (st_value e))"
      if "e \<in> rf_stored sz ` R" for e using lay that unfolding partitioned_layout_def by blast+
    show "lists_dirs F fs (path_join_all dir p) False {d. p @ [d] \<in> prefixes_of rev_transform (rf_stored sz ` R)}"
      if "p \<in> prefixes_of rev_transform (rf_stored sz ` R)" "length p < 2" for p
      by (rule store_lists_dirs [OF ok m pre [OF that(1)] layout_dirs [OF lay that]])
    show "lists_files F fs (path_join_all dir p)
        {stored_entry dir rev_transform e | e. e \<in> rf_stored sz ` R \<and> dirs_of rev_transform (st_value e) = p}"
      if "p \<in> prefixes_of rev_transform (rf_stored sz ` R)" "length p = 2" for p
      using store_lists_files [OF ok m pre [OF that(1)] layout_files [OF lay that]] by (simp add: setcompr_eq_image)
  qed
  then show ?thesis using base by (auto simp: revision_dir_def)
qed

end

subsection \<open>Frames\<close>

lemma same_small_lists:
  assumes "distinct xs" "distinct ys" "set xs = set ys"
  shows "length xs = length ys" "xs = [x] \<Longrightarrow> ys = [x]" "xs = [] \<longleftrightarrow> ys = []"
proof -
  show "length xs = length ys" using assms by (metis distinct_card)
  show "xs = [x] \<Longrightarrow> ys = [x]" using assms distinct_singleton by fastforce
  show "xs = [] \<longleftrightarrow> ys = []" using assms by (metis set_empty)
qed

lemma store_children_cong:
  assumes "\<And>p. below d p \<noteq> None \<Longrightarrow> c' p = c p"
  shows "store_children c' size_of d \<subseteq> store_children c size_of d"
proof
  fix x assume "x \<in> store_children c' size_of d"
  then obtain n p where np: "c' p \<noteq> None"
    "x = \<lparr>fi_path = path_join d n, fi_size = map_option size_of (c' p), fi_type = File\<rparr> \<and> below d p = Some [n] \<or>
     x = \<lparr>fi_path = path_join d n, fi_size = None, fi_type = Directory\<rparr> \<and> (\<exists>m ns. below d p = Some (n # m # ns))"
    unfolding store_children_def by blast
  then have c: "c' p = c p" using assms [of p] by auto
  show "x \<in> store_children c size_of d" using np unfolding store_children_def c by blast
qed

lemma two_entries:
  "2 \<le> length (xs :: entry list) \<Longrightarrow> (case xs of [] \<Rightarrow> Inr None | [(p, _)] \<Rightarrow> g p | _ \<Rightarrow> Inl ValueError) = (Inl ValueError :: int option res)"
  by (cases xs rule: remdups_adj.cases) auto

context file_store begin

text \<open>Reading an end time depends only on what is stored below the log directory.\<close>

lemma end_time_frame:
  assumes "ok fs" "ok fs'" "dir_path d" "\<And>p. below d p \<noteq> None \<Longrightarrow> contents fs' p = contents fs p"
  shows "read_end_time F fs' d = read_end_time F fs d"
proof -
  obtain xs where x: "fs_select F fs d False True = Inr xs" "distinct xs" "set xs = store_children (contents fs) size_of d"
    using select_allowed [OF assms(1,3)] .
  obtain ys where y: "fs_select F fs' d False True = Inr ys" "distinct ys" "set ys = store_children (contents fs') size_of d"
    using select_allowed [OF assms(2,3)] .
  have "store_children (contents fs') size_of d = store_children (contents fs) size_of d"
    using store_children_cong [of d "contents fs'" "contents fs"] store_children_cong [of d "contents fs" "contents fs'"] assms(4)
    by (metis subset_antisym)
  then have same: "set ys = set xs" using x(3) y(3) by simp
  let ?l = "\<lambda>zs. sort_desc fst (map (\<lambda>fi. (fi_path fi, fi_size fi)) (filter (\<lambda>f. is_listed d default_exclude_prefixes (fi_path f)) zs))"
  have run: "list_directory F fs d None True False = Inr (?l xs)" "list_directory F fs' d None True False = Inr (?l ys)"
    using x(1) y(1) by (simp_all add: list_directory_def)
  let ?P = "\<lambda>f. is_listed d default_exclude_prefixes (fi_path f)"
  have f: "distinct (filter ?P xs)" "distinct (filter ?P ys)" "set (filter ?P xs) = set (filter ?P ys)" using x(2) y(2) same by auto
  show ?thesis
  proof (cases "length (filter ?P xs) \<le> 1")
    case True
    then have "filter ?P ys = filter ?P xs" using same_small_lists [OF f] by (cases "filter ?P xs") auto
    then show ?thesis by (simp add: read_end_time_def run)
  next
    case False
    then have "2 \<le> length (?l xs)" "2 \<le> length (?l ys)" using same_small_lists(1) [OF f] by simp_all
    then show ?thesis by (simp add: read_end_time_def run two_entries del: length_sort_desc length_map)
  qed
qed

end

subsection \<open>Writing a revision\<close>

definition new_file :: "txn_op_type \<Rightarrow> string \<Rightarrow> string \<Rightarrow> int \<Rightarrow> rev_file" where
  "new_file op i ext n = \<lparr>rf_revision = n, rf_op = op, rf_txn_id = i, rf_ext = ext\<rparr>"

lemma remove_partitions_base:
  assumes "remove_exponential_partitions d b l True = Inr d" "dir_path d" "component n"
  shows "remove_exponential_partitions (path_join d n) b l False = Inr (path_join d n)"
proof -
  have "n \<noteq> []" using assms(3) by (simp add: component_def)
  then show ?thesis
    using assms(1) dirname_path_join [OF assms(2,3)] basename_path_join [OF assms(2,3)]
    by (auto simp: remove_exponential_partitions_def Let_def split: if_splits option.splits)
qed

lemma new_revision_path_created:
  assumes base: "revision_base dir" and id: "txn_id_text (w_txn_id w)" and n: "rev_domain n" and e: "slash \<notin> set e"
    and new: "new_revision (env_fs E) fs dir op (w_start_time w) (w_txn_id w) (dot # e) (Some (success_log_dir (w_root w))) =
      Some (Inr (created_revision dir op (w_txn_id w) (dot # e) n))"
  shows "new_revision_path E fs w dir op (dot # e) = Some (Inr (path_join dir (revision_file_name n op (w_txn_id w) (dot # e)), n))"
proof -
  note dp = revision_base_facts(1,2) [OF base]
  let ?m = "created_revision dir op (w_txn_id w) (dot # e) n"
  have i: "w_txn_id w \<noteq> []" using id by (auto simp: txn_id_text_def)
  have "component (revision_file_name n op (w_txn_id w) (dot # e))"
    using revision_file_name_chars(1) [OF _ id, of n "dot # e"] n e by (simp add: rev_domain_def)
  note rm = remove_partitions_base [OF dp(2,1) this]
  have "mri_file_name ?m = Inr (Some (revision_file_name n op (w_txn_id w) (dot # e)))"
    using mri_file_name_eq [of ?m op "w_txn_id w"] i by (simp add: created_revision_def get_extension_def)
  then have "mri_path ?m = Inr (Some (path_join dir (revision_file_name n op (w_txn_id w) (dot # e))))"
    using dp(1) by (simp add: mri_path_def created_revision_def)
  then show ?thesis by (simp add: new_revision_path_def new rm) (simp add: created_revision_def)
qed

context file_store begin

lemma write_new_file:
  assumes ok: "ok fs" and base: "revision_base dir" and f: "rf_ok (new_file op i e n)"
  obtains fs' where "write_file_partitioned F (path_join dir (revision_file_name n op i (dot # e))) data n rev_transform 0 fs =
      (Inr (rf_path dir (new_file op i e n)), fs')" "ok fs'"
    "contents fs' = (contents fs)(rf_path dir (new_file op i e n) \<mapsto> data)"
proof -
  note dp = revision_base_facts(1) [OF base]
  have n: "rev_domain n" using f by (simp add: rf_ok_def new_file_def)
  have name: "component (revision_file_name n op i (dot # e))" using rf_ok_facts(4) [OF f dp] by (simp add: new_file_def)
  have ds: "rev_transform n = Inr (dirs_of rev_transform n)" "\<forall>d \<in> set (dirs_of rev_transform n). component d"
    using rev_scheme.dirs_facts(1,3) [OF n] by auto
  have "partitioned_write_path (path_join dir (revision_file_name n op i (dot # e))) (dirs_of rev_transform n) 0 =
      Inr (rf_path dir (new_file op i e n))"
    using partitioned_write_path_here [OF dp name ds(2)] by (simp add: rf_path_def rf_dir_def new_file_def)
  from write_partitioned [where transform = rev_transform, OF ok ds(1) this] show ?thesis using that by blast
qed

lemma write_revision_outcome:
  assumes F: "env_fs E = F" and ok: "ok fs" and holds: "holds_revisions (contents fs) dir R"
    and logs: "logs_end_times F fs (success_log_dir (w_root w)) ends R"
    and id: "txn_id_text (w_txn_id w)" and op: "is_write_operation op" and ser: "env_serialize E m = Inr data"
    and max: "\<forall>f \<in> R. rf_revision f < MAX_REVISION_NUMBER"
  obtains r where "walk_result R (sees ends (w_start_time w) (w_txn_id w)) MAX_REVISION_NUMBER r"
    "case revision_outcome dir op (w_txn_id w) METAFILE_EXT r of
       Inl e \<Rightarrow> write_metafile_revision E w m dir op (fs, tx) = Some (Inl e, (fs, tx))
     | Inr x \<Rightarrow> (let f = new_file op (w_txn_id w) ''mpk'' (mri_revision x) in rf_ok f \<and>
         (\<exists>fs'. write_metafile_revision E w m dir op (fs, tx) =
             Some (Inr (rf_path dir f), (fs', append_metafile_write_path (rf_path dir f) tx)) \<and>
           ok fs' \<and> contents fs' = (contents fs)(rf_path dir f \<mapsto> data) \<and> holds_revisions (contents fs') dir (insert f R)))"
proof -
  have R: "revision_dir F fs dir R" using holds_revision_dir [OF ok holds] .
  have base: "revision_base dir" using holds by (simp add: holds_revisions_def)
  have i: "w_txn_id w \<noteq> []" using id by (auto simp: txn_id_text_def)
  have ext: "METAFILE_EXT = dot # ''mpk''" by (simp add: METAFILE_EXT_def)
  obtain r where r: "walk_result R (sees ends (w_start_time w) (w_txn_id w)) MAX_REVISION_NUMBER r"
    "new_revision F fs dir op (w_start_time w) (w_txn_id w) METAFILE_EXT (Some (success_log_dir (w_root w))) =
       Some (revision_outcome dir op (w_txn_id w) METAFILE_EXT r)"
    using new_revision_walk [OF R logs i] .
  have "case revision_outcome dir op (w_txn_id w) METAFILE_EXT r of
       Inl e \<Rightarrow> write_metafile_revision E w m dir op (fs, tx) = Some (Inl e, (fs, tx))
     | Inr x \<Rightarrow> (let f = new_file op (w_txn_id w) ''mpk'' (mri_revision x) in rf_ok f \<and>
         (\<exists>fs'. write_metafile_revision E w m dir op (fs, tx) =
             Some (Inr (rf_path dir f), (fs', append_metafile_write_path (rf_path dir f) tx)) \<and>
           ok fs' \<and> contents fs' = (contents fs)(rf_path dir f \<mapsto> data) \<and> holds_revisions (contents fs') dir (insert f R)))"
  proof (cases "revision_outcome dir op (w_txn_id w) METAFILE_EXT r")
    case (Inl e)
    then show ?thesis using r(2) F by (simp add: write_metafile_revision_def pio_bind_def ask_fs_def new_revision_path_def)
  next
    case (Inr x)
    obtain n where x: "x = created_revision dir op (w_txn_id w) METAFILE_EXT n" "rev_domain n"
    proof -
      have "rev_domain 1" by (simp add: rev_domain_def MAX_REVISION_NUMBER_def)
      moreover have "rev_domain (rf_revision f + 1)" if "r = Some f" for f
      proof -
        have "f \<in> R" using r(1) that by (simp add: walk_result_def)
        then show ?thesis using max holds by (auto simp: holds_revisions_def rf_ok_def rev_domain_def)
      qed
      ultimately show thesis using that Inr by (auto simp: revision_outcome_def split: option.splits if_splits)
    qed
    let ?f = "new_file op (w_txn_id w) ''mpk'' n"
    have f: "rf_ok ?f" using id op x(2) by (simp add: rf_ok_def new_file_def)
    have "new_revision_path E fs w dir op METAFILE_EXT =
        Some (Inr (path_join dir (revision_file_name n op (w_txn_id w) METAFILE_EXT), n))"
      using new_revision_path_created [OF base id x(2), of "''mpk''" E fs op] r(2) Inr x(1) F by (simp add: ext)
    moreover obtain fs' where "write_file_partitioned F (path_join dir (revision_file_name n op (w_txn_id w) (dot # ''mpk''))) data n rev_transform 0 fs =
        (Inr (rf_path dir ?f), fs')" "ok fs'" "contents fs' = (contents fs)(rf_path dir ?f \<mapsto> data)"
      using write_new_file [OF ok base f] .
    ultimately have "write_metafile_revision E w m dir op (fs, tx) =
        Some (Inr (rf_path dir ?f), (fs', append_metafile_write_path (rf_path dir ?f) tx)) \<and> ok fs' \<and>
        contents fs' = (contents fs)(rf_path dir ?f \<mapsto> data) \<and> holds_revisions (contents fs') dir (insert ?f R)"
      using ser F holds_revisions_insert [OF holds f]
      by (simp add: write_metafile_revision_def pio_bind_def ask_fs_def on_fs_def upd_op_def ext)
    then show ?thesis using Inr x f by (auto simp: created_revision_def Let_def)
  qed
  then show ?thesis using that r(1) by blast
qed

end

subsection \<open>Reading after a write\<close>

lemma is_latest_unique:
  assumes "inj_on rf_revision R" "is_latest R vis r" "is_latest R vis r'"
  shows "r = r'"
proof (cases r; cases r')
  fix f g assume r: "r = Some f" "r' = Some g"
  then have "f \<in> R" "g \<in> R" "rf_revision f = rf_revision g" using assms(2,3) by (auto simp: is_latest_def intro!: antisym)
  then show ?thesis using r assms(1) by (simp add: inj_on_def)
qed (use assms(2,3) in \<open>auto simp: is_latest_def\<close>)

lemma latest_revision_eq:
  assumes "revision_dir F fs dir R" "logs_end_times F fs log_dir ends R" "i \<noteq> []" "inj_on rf_revision R"
    "is_latest R (sees ends st i) r"
  shows "latest_revision F fs dir (Some log_dir) (Some st) (Some i) ignore_missing =
      Some (case r of None \<Rightarrow> if ignore_missing then Inr mri_undefined else Inl ObjectNotFoundError
                    | Some f \<Rightarrow> Inr (rf_mri dir f))"
  using latest_revision_walk [OF assms(1-3), of st ignore_missing]
    is_latest_unique [OF assms(4,5) walk_result_latest [OF _ assms(4) revision_dir_max [OF assms(1)]]] by metis

text \<open>Log directories of transactions, and files of the catalog that are not below them.\<close>

lemma success_log_dir_path: "success_log_dir root = log_path root ST_SUCCESS []"
  by (simp add: success_log_dir_def log_path_def)

lemma success_dir_components:
  assumes "success_txn_log_dir_path (success_log_dir root) i = Inr d" "txn_id_text i"
  obtains ns where "d = log_path root ST_SUCCESS ns" "\<forall>n \<in> set ns. component n"
proof -
  obtain t u ds where p: "epoch_timestamp_partition_transform t = Inr ds" "d = path_join (path_join_all (success_log_dir root) ds) i"
    using assms(1) by (auto simp: success_txn_log_dir_path_def partitioned_txn_log_path_def rbind_Inr_iff)
  have "component i" using assms(2) by (auto simp: component_def txn_id_text_def)
  then show ?thesis using that [of "ds @ [i]"] p epoch_transform_component [OF p(1)]
    by (simp add: success_log_dir_path log_path_join log_path_join_all)
qed

lemma rf_path_not_log:
  assumes root: "dir_path root" and dir: "data_path root dir" and f: "rf_ok f" and ns: "\<forall>n \<in> set ns. component n"
  shows "below (log_path root s ns) (rf_path dir f) = None"
proof -
  obtain c cs where c: "dir = path_join_all root (c # cs)" "c \<noteq> TXN_DIR_NAME" "\<forall>n \<in> set (c # cs). component n \<and> n \<noteq> ''.''"
    using dir by (rule data_pathE)
  have dp: "dir_path dir" unfolding c(1) by (rule dir_path_join_all [OF root]) (use c(3) in blast)
  let ?ns = "dirs_of rev_transform (rf_revision f) @ [revision_file_name (rf_revision f) (rf_op f) (rf_txn_id f) (dot # rf_ext f)]"
  have dom: "rev_domain (rf_revision f)" using f by (simp add: rf_ok_def)
  have cs: "\<forall>n \<in> set (c # cs @ ?ns). component n"
    using c(3) rev_scheme.dirs_facts(3) [OF dom] rf_ok_facts(4) [OF f dp] by auto
  have "rf_path dir f = path_join_all root (c # cs @ ?ns)"
    by (simp add: rf_path_def rf_dir_def c(1) path_join_all_append)
  then show ?thesis
    using below_path_join_all [OF root, of "TXN_DIR_NAME # dir_name s # ns" "c # cs @ ?ns"] cs ns c(2) by (simp add: log_path_def)
qed

context file_store begin

lemma logs_after_write:
  assumes ok: "ok fs" "ok fs'" and root: "dir_path root" and dir: "data_path root dir" and f: "rf_ok f"
    and c': "contents fs' = (contents fs)(rf_path dir f \<mapsto> data)"
    and logs: "logs_end_times F fs (success_log_dir root) ends R" and R: "\<forall>g \<in> R. rf_ok g"
  shows "logs_end_times F fs' (success_log_dir root) ends R"
proof -
  have "\<exists>d. success_txn_log_dir_path (success_log_dir root) (rf_txn_id g) = Inr d \<and> read_end_time F fs' d = Inr (ends (rf_txn_id g))"
    if g: "g \<in> R" for g
  proof -
    obtain d where d: "success_txn_log_dir_path (success_log_dir root) (rf_txn_id g) = Inr d" "read_end_time F fs d = Inr (ends (rf_txn_id g))"
      using logs g by (auto simp: logs_end_times_def)
    have "txn_id_text (rf_txn_id g)" using R g by (simp add: rf_ok_def)
    from success_dir_components [OF d(1) this] obtain ns where ns: "d = log_path root ST_SUCCESS ns" "\<forall>n \<in> set ns. component n" .
    have "contents fs' p = contents fs p" if "below d p \<noteq> None" for p
      using c' that rf_path_not_log [OF root dir f ns(2)] ns(1) by auto
    from end_time_frame [OF ok dir_path_log_path [OF root ns(2)] this [unfolded ns(1)]] show ?thesis using d ns(1) by auto
  qed
  then show ?thesis using logs by (simp add: logs_end_times_def)
qed

end

subsection \<open>Properties\<close>

lemma write_serialized:
  assumes "write_metafile_revision E w m dir op s = Some (Inr p, s')"
  obtains data where "env_serialize E m = Inr data"
  using assms that by (auto simp: write_metafile_revision_def pio_bind_Inr_iff ask_fs_def)

text \<open>What a transaction without concurrent writers writes: a file above every other.\<close>

context file_store begin

lemma write_alone:
  assumes F: "env_fs E = F" and ok: "ok fs" and holds: "holds_revisions (contents fs) dir R" and inj: "inj_on rf_revision R"
    and logs: "logs_end_times F fs (success_log_dir (w_root w)) ends R"
    and id: "txn_id_text (w_txn_id w)" and op: "is_write_operation op"
    and max: "\<forall>f \<in> R. rf_revision f < MAX_REVISION_NUMBER" and alone: "\<forall>f \<in> R. sees ends (w_start_time w) (w_txn_id w) f"
    and run: "write_metafile_revision E w m dir op (fs, tx) = Some (Inr p, (fs', tx'))"
  obtains f data where "rf_ok f" "p = rf_path dir f" "rf_txn_id f = w_txn_id w" "rf_op f = op" "\<forall>g \<in> R. rf_revision g < rf_revision f"
    "ok fs'" "contents fs' = (contents fs)(rf_path dir f \<mapsto> data)" "holds_revisions (contents fs') dir (insert f R)"
proof -
  obtain data where ser: "env_serialize E m = Inr data" using write_serialized [OF run] .
  obtain r where r: "walk_result R (sees ends (w_start_time w) (w_txn_id w)) MAX_REVISION_NUMBER r"
    and out: "case revision_outcome dir op (w_txn_id w) METAFILE_EXT r of
       Inl e \<Rightarrow> write_metafile_revision E w m dir op (fs, tx) = Some (Inl e, (fs, tx))
     | Inr x \<Rightarrow> (let f = new_file op (w_txn_id w) ''mpk'' (mri_revision x) in rf_ok f \<and>
         (\<exists>fs'. write_metafile_revision E w m dir op (fs, tx) =
             Some (Inr (rf_path dir f), (fs', append_metafile_write_path (rf_path dir f) tx)) \<and>
           ok fs' \<and> contents fs' = (contents fs)(rf_path dir f \<mapsto> data) \<and> holds_revisions (contents fs') dir (insert f R)))"
    using write_revision_outcome [OF F ok holds logs id op ser max] .
  obtain x where x: "revision_outcome dir op (w_txn_id w) METAFILE_EXT r = Inr x"
    using out run by (cases "revision_outcome dir op (w_txn_id w) METAFILE_EXT r") auto
  let ?f = "new_file op (w_txn_id w) ''mpk'' (mri_revision x)"
  have w: "rf_ok ?f" "p = rf_path dir ?f" "ok fs'" "contents fs' = (contents fs)(rf_path dir ?f \<mapsto> data)"
    "holds_revisions (contents fs') dir (insert ?f R)"
    using out run by (auto simp: x Let_def)
  have l: "is_latest R (sees ends (w_start_time w) (w_txn_id w)) r"
    using walk_result_latest [OF r inj revision_dir_max [OF holds_revision_dir [OF ok holds]]] .
  have "rf_revision g < mri_revision x" if "g \<in> R" for g
    using l alone that x by (fastforce simp: is_latest_def revision_outcome_def created_revision_def split: option.splits if_splits)
  then show ?thesis using that [OF w(1,2) _ _ _ w(3-5)] by (simp add: new_file_def)
qed

end

text \<open>C8: Without concurrent writers, a transaction reads its own write and nobody else does. On every file system with
  the contract \<open>file_store\<close>, take a directory with one file per revision number in which the writer sees every file, that
  is, no other transaction has an uncommitted file there or one committed after the writer started. After the running
  transaction wrote a revision, the directory again has the layout that reading relies on, with exactly one file more;
  the latest revision for the writer is the one it wrote, and for every other transaction, whatever its start time, it
  is what it was before. (With a second uncommitted file of the same number, written later, this does not hold: see
  \<open>committed_revision_hidden\<close>.)\<close>

theorem write_then_read:
  assumes store: "file_store F ok contents size_of" and F: "env_fs E = F" and ok: "ok fs"
    and holds: "holds_revisions (contents fs) dir R" and inj: "inj_on rf_revision R"
    and logs: "logs_end_times F fs (success_log_dir (w_root w)) ends R"
    and paths: "dir_path (w_root w)" "data_path (w_root w) dir"
    and id: "txn_id_text (w_txn_id w)" "success_txn_log_dir_path (success_log_dir (w_root w)) (w_txn_id w) = Inr d"
      "read_end_time F fs d = Inr None" "ends (w_txn_id w) = None"
    and op: "is_write_operation op"
    and max: "\<forall>f \<in> R. rf_revision f < MAX_REVISION_NUMBER" and alone: "\<forall>f \<in> R. sees ends (w_start_time w) (w_txn_id w) f"
    and run: "write_metafile_revision E w m dir op (fs, tx) = Some (Inr p, (fs', tx'))"
  shows "\<exists>f. p = rf_path dir f \<and> rf_txn_id f = w_txn_id w \<and> rf_op f = op \<and> holds_revisions (contents fs') dir (insert f R) \<and>
    latest_revision F fs' dir (Some (success_log_dir (w_root w))) (Some (w_start_time w)) (Some (w_txn_id w)) b =
      Some (Inr (rf_mri dir f)) \<and>
    (\<forall>st i. i \<noteq> [] \<and> i \<noteq> w_txn_id w \<longrightarrow>
      latest_revision F fs' dir (Some (success_log_dir (w_root w))) (Some st) (Some i) b =
      latest_revision F fs dir (Some (success_log_dir (w_root w))) (Some st) (Some i) b)"
proof -
  let ?log = "success_log_dir (w_root w)"
  obtain f data where f: "rf_ok f" "p = rf_path dir f" "rf_txn_id f = w_txn_id w" "rf_op f = op" "\<forall>g \<in> R. rf_revision g < rf_revision f"
    "ok fs'" "contents fs' = (contents fs)(rf_path dir f \<mapsto> data)" "holds_revisions (contents fs') dir (insert f R)"
    using file_store.write_alone [OF store F ok holds inj logs id(1) op max alone run] .
  have R: "revision_dir F fs dir R" "revision_dir F fs' dir (insert f R)"
    by (rule file_store.holds_revision_dir [OF store ok holds], rule file_store.holds_revision_dir [OF store f(6,8)])
  have oks: "\<forall>g \<in> insert f R. rf_ok g" using holds f(1) by (simp add: holds_revisions_def)
  have "logs_end_times F fs ?log ends (insert f R)" using logs id(2-4) f(3) by (simp add: logs_end_times_def)
  from file_store.logs_after_write [OF store ok f(6) paths f(1,7) this oks]
  have logs': "logs_end_times F fs' ?log ends (insert f R)" .
  have "rf_revision f \<notin> rf_revision ` R"
  proof
    assume "rf_revision f \<in> rf_revision ` R"
    then obtain g where "g \<in> R" "rf_revision g = rf_revision f" by force
    then show False using bspec [OF f(5)] by force
  qed
  then have inj': "inj_on rf_revision (insert f R)" using inj by (simp add: inj_on_insert) blast
  have "is_latest (insert f R) (sees ends (w_start_time w) (w_txn_id w)) (Some f)"
    using f(3,5) by (auto simp: is_latest_def sees_def intro: less_imp_le)
  moreover have "w_txn_id w \<noteq> []" using id(1) by (auto simp: txn_id_text_def)
  ultimately have own: "latest_revision F fs' dir (Some ?log) (Some (w_start_time w)) (Some (w_txn_id w)) b = Some (Inr (rf_mri dir f))"
    using latest_revision_eq [OF R(2) logs' _ inj'] by simp
  have other: "latest_revision F fs' dir (Some ?log) (Some st) (Some i) b = latest_revision F fs dir (Some ?log) (Some st) (Some i) b"
    if i: "i \<noteq> []" "i \<noteq> w_txn_id w" for st i
  proof -
    obtain r where r: "is_latest R (sees ends st i) r"
      using latest_revision_walk [OF R(1) logs i(1)] walk_result_latest [OF _ inj revision_dir_max [OF R(1)]] by metis
    have "\<not> sees ends st i f" using f(3) id(4) i(2) by (simp add: sees_def)
    then have "is_latest (insert f R) (sees ends st i) r" using r by (auto simp: is_latest_def split: option.splits)
    then show ?thesis using latest_revision_eq [OF R(1) logs i(1) inj r] latest_revision_eq [OF R(2) logs' i(1) inj'] by simp
  qed
  show ?thesis using f(2-4,8) own other by blast
qed

lemma holds_revisions_map_of:
  assumes "revision_base dir" "list_all rf_ok L" "set (filter (\<lambda>p. below dir p \<noteq> None) (map fst fs)) = set (map (rf_path dir) L)"
  shows "holds_revisions (map_of fs) dir (set L)"
proof -
  have "map_of fs p \<noteq> None \<and> below dir p \<noteq> None \<longleftrightarrow> p \<in> set (filter (\<lambda>p. below dir p \<noteq> None) (map fst fs))" for p
    by (auto simp: map_of_eq_None_iff)
  then show ?thesis unfolding holds_revisions_def assms(3) using assms(1,2) by (simp add: list_all_iff)
qed

definition ex_writer :: write_ctx where
  "ex_writer = \<lparr>w_root = ''root'', w_start_time = 1700000000000000400, w_txn_id = ex_id 1700000000000000400\<rparr>"

definition ex_one_file :: "rev_file list" where "ex_one_file = [ex_file 1 CREATE 1700000000000000000]"

definition ex_write :: "(string res \<times> nat mem \<times> unit txn_op) option" where
  "ex_write = write_metafile_revision (te_env ex_txn_env) ex_writer ex_namespace ex_dir UPDATE
     (ex_fs ex_one_file ex_logs, hd (txn_operations ex_session_txn))"

lemma ex_write_returns: "\<exists>p fs' tx'. ex_write = Some (Inr p, (fs', tx'))"
proof -
  have "(case ex_write of Some (Inr _, _) \<Rightarrow> True | _ \<Rightarrow> False)" by code_simp
  then show ?thesis by (cases "the ex_write") (auto split: option.splits sum.splits simp del: not_Some_eq, blast)
qed

lemma ex_one_file_ok: "ex_ok ex_one_file ex_logs"
  by code_simp

theorem write_then_read_witness:
  "\<exists>p fs' tx' f. ex_write = Some (Inr p, (fs', tx')) \<and>
    p = rf_path ex_dir f \<and> rf_txn_id f = w_txn_id ex_writer \<and> rf_op f = UPDATE \<and> holds_revisions (map_of fs') ex_dir (insert f (set ex_one_file)) \<and>
    latest_revision (mem_F id) fs' ex_dir (Some (success_log_dir (w_root ex_writer))) (Some (w_start_time ex_writer)) (Some (w_txn_id ex_writer)) True =
      Some (Inr (rf_mri ex_dir f)) \<and>
    (\<forall>st i. i \<noteq> [] \<and> i \<noteq> w_txn_id ex_writer \<longrightarrow>
      latest_revision (mem_F id) fs' ex_dir (Some (success_log_dir (w_root ex_writer))) (Some st) (Some i) True =
      latest_revision (mem_F id) (ex_fs ex_one_file ex_logs) ex_dir (Some (success_log_dir (w_root ex_writer))) (Some st) (Some i) True)"
proof -
  obtain p fs' tx' where run: "ex_write = Some (Inr p, (fs', tx'))" using ex_write_returns by blast
  have log: "success_log_dir (w_root ex_writer) = ex_log" by code_simp
  have i: "w_txn_id ex_writer = ex_id 1700000000000000400" "w_root ex_writer = ''root''" by (simp_all add: ex_writer_def)
  have "\<exists>d. success_txn_log_dir_path ex_log (ex_id 1700000000000000400) = Inr d \<and> read_end_time (mem_F id) (ex_fs ex_one_file ex_logs) d = Inr None"
  proof -
    have "(case success_txn_log_dir_path ex_log (ex_id 1700000000000000400) of Inl _ \<Rightarrow> False
        | Inr d \<Rightarrow> read_end_time (mem_F id) (ex_fs ex_one_file ex_logs) d = Inr None)" by code_simp
    then show ?thesis by (auto split: sum.splits)
  qed
  then obtain d where d: "success_txn_log_dir_path ex_log (ex_id 1700000000000000400) = Inr d"
    "read_end_time (mem_F id) (ex_fs ex_one_file ex_logs) d = Inr None" by blast
  have "\<exists>f. p = rf_path ex_dir f \<and> rf_txn_id f = w_txn_id ex_writer \<and> rf_op f = UPDATE \<and> holds_revisions (map_of fs') ex_dir (insert f (set ex_one_file)) \<and>
    latest_revision (mem_F id) fs' ex_dir (Some (success_log_dir (w_root ex_writer))) (Some (w_start_time ex_writer)) (Some (w_txn_id ex_writer)) True =
      Some (Inr (rf_mri ex_dir f)) \<and>
    (\<forall>st i. i \<noteq> [] \<and> i \<noteq> w_txn_id ex_writer \<longrightarrow>
      latest_revision (mem_F id) fs' ex_dir (Some (success_log_dir (w_root ex_writer))) (Some st) (Some i) True =
      latest_revision (mem_F id) (ex_fs ex_one_file ex_logs) ex_dir (Some (success_log_dir (w_root ex_writer))) (Some st) (Some i) True)"
  proof (rule write_then_read [OF mem.file_store_axioms])
    show "env_fs (te_env ex_txn_env) = mem_F id" by (simp add: ex_txn_env_def)
    show "distinct (map fst (ex_fs ex_one_file ex_logs))" by code_simp
    show "holds_revisions (map_of (ex_fs ex_one_file ex_logs)) ex_dir (set ex_one_file)"
      by (rule holds_revisions_map_of [OF ex_dir_ok]) code_simp+
    show "inj_on rf_revision (set ex_one_file)" by (simp add: ex_one_file_def)
    show "logs_end_times (mem_F id) (ex_fs ex_one_file ex_logs) (success_log_dir (w_root ex_writer)) (ex_end_times ex_logs) (set ex_one_file)"
      unfolding log by (rule ex_catalog [OF ex_one_file_ok])
    show "dir_path (w_root ex_writer)" "data_path (w_root ex_writer) ex_dir" by code_simp+
    show "txn_id_text (w_txn_id ex_writer)" "is_write_operation UPDATE" "ex_end_times ex_logs (w_txn_id ex_writer) = None" by code_simp+
    show "success_txn_log_dir_path (success_log_dir (w_root ex_writer)) (w_txn_id ex_writer) = Inr d" using d(1) unfolding log i(1) .
    show "read_end_time (mem_F id) (ex_fs ex_one_file ex_logs) d = Inr None" by (rule d(2))
    show "\<forall>f \<in> set ex_one_file. rf_revision f < MAX_REVISION_NUMBER" by (simp add: ex_one_file_def ex_file_def MAX_REVISION_NUMBER_def)
    show "\<forall>f \<in> set ex_one_file. sees (ex_end_times ex_logs) (w_start_time ex_writer) (w_txn_id ex_writer) f"
      by (simp add: ex_one_file_def ex_file_def sees_def ex_end_times_def ex_logs_def ex_writer_def)
    show "write_metafile_revision (te_env ex_txn_env) ex_writer ex_namespace ex_dir UPDATE
        (ex_fs ex_one_file ex_logs, hd (txn_operations ex_session_txn)) = Some (Inr p, (fs', tx'))"
      using run by (simp only: ex_write_def)
  qed
  then show ?thesis using run by blast
qed

end
