(* ===== verification/SnapshotIsolation.thy ===== *)
theory SnapshotIsolation
  imports RevisionWrites
begin

text \<open>
  Sealing a transaction and reading revisions together: a commit is invisible to every transaction
  that started before it ended, and visible to every transaction that starts after it.
\<close>

lemma length_partition_components: "length (partition_components s) = 5"
  by (simp add: partition_components_def split: prod.split)

lemma length_start_dirs:
  assumes "epoch_timestamp_partition_transform t = Inr ds" shows "length ds = 5"
  using assms by (auto simp: epoch_timestamp_partition_transform_def rbind_Inr_iff length_partition_components split: if_splits)

lemma other_success_dir:
  assumes "success_txn_log_dir_path (success_log_dir root) j = Inr d" "txn_id_text j" "j \<noteq> i" "dir_path root"
    and i: "component i" "\<forall>n \<in> set ds. component n" "length ds = 5" "component n"
  shows "below d (log_path root ST_SUCCESS (ds @ [i, n])) = None" "\<exists>ns. d = log_path root ST_SUCCESS ns \<and> (\<forall>n \<in> set ns. component n)"
proof -
  obtain t u es where p: "epoch_timestamp_partition_transform t = Inr es" "d = path_join (path_join_all (success_log_dir root) es) j"
    using assms(1) by (auto simp: success_txn_log_dir_path_def partitioned_txn_log_path_def rbind_Inr_iff)
  have "component j" using assms(2) by (auto simp: component_def txn_id_text_def)
  then have cs: "\<forall>n \<in> set (es @ [j]). component n" using epoch_transform_component [OF p(1)] by auto
  have d: "d = log_path root ST_SUCCESS (es @ [j])" using p(2) by (simp add: success_log_dir_path log_path_join log_path_join_all)
  then show "\<exists>ns. d = log_path root ST_SUCCESS ns \<and> (\<forall>n \<in> set ns. component n)" using cs by blast
  have "take 6 (ds @ [i, n]) = ds @ [i]" using i(3) by simp
  then have "take (length (es @ [j])) (ds @ [i, n]) \<noteq> es @ [j]" using length_start_dirs [OF p(1)] assms(3) by auto
  moreover have "\<forall>m \<in> set (ds @ [i, n]). component m" using i by auto
  ultimately show "below d (log_path root ST_SUCCESS (ds @ [i, n])) = None"
    unfolding d using below_log_path [OF assms(4) cs] by auto
qed

context file_store begin

lemma logs_after_seal:
  assumes active: "txn_active st u t" and ok: "ok fs" "ok fs'" and e: "0 \<le> e" and fresh: "undecided (contents fs) st u t"
    and c': "contents fs' = (contents fs)(success_log t st u e \<mapsto> data, running_log t st u := None)"
    and logs: "logs_end_times F fs (success_log_dir (txn_root t)) ends R" and R: "\<forall>g \<in> R. rf_ok g"
  shows "logs_end_times F fs' (success_log_dir (txn_root t)) (ends(txn_id_of st u \<mapsto> e)) R"
proof -
  note a = txn_activeD [OF active]
  let ?i = "txn_id_of st u" and ?log = "success_log_dir (txn_root t)"
  have "\<exists>d. success_txn_log_dir_path ?log (rf_txn_id g) = Inr d \<and> read_end_time F fs' d = Inr ((ends(?i \<mapsto> e)) (rf_txn_id g))"
    if g: "g \<in> R" for g
  proof (cases "rf_txn_id g = ?i")
    case True
    have "success_txn_log_dir_path ?log ?i = Inr (success_dir t st u)"
      using a(1,8) by (simp add: success_txn_log_dir_path_def partitioned_txn_log_path_def success_log_dir_path log_path_join log_path_join_all)
    then show ?thesis using committed_facts(1) [OF active ok(2) e fresh c'] True by simp
  next
    case False
    obtain d where d: "success_txn_log_dir_path ?log (rf_txn_id g) = Inr d" "read_end_time F fs d = Inr (ends (rf_txn_id g))"
      using logs g by (auto simp: logs_end_times_def)
    have gi: "txn_id_text (rf_txn_id g)" using R g by (simp add: rf_ok_def)
    have n: "component (int_to_str e)" using int_to_str_visible [OF e] by simp
    note o = other_success_dir [OF d(1) gi False a(7) a(3,2) length_start_dirs [OF a(1)] n]
    obtain ns where ns: "d = log_path (txn_root t) ST_SUCCESS ns" "\<forall>n \<in> set ns. component n" using o(2) by blast
    have "below d (running_log t st u) = None" unfolding ns(1) using below_log_path [OF a(7) ns(2)] a(3) by simp
    then have "contents fs' p = contents fs p" if "below d p \<noteq> None" for p using c' that o(1) by auto
    from end_time_frame [OF ok dir_path_log_path [OF a(7) ns(2)] this [unfolded ns(1)]] show ?thesis using d ns(1) False by auto
  qed
  then show ?thesis using logs by (simp add: logs_end_times_def)
qed

end

lemma log_not_below_data:
  assumes "dir_path root" "data_path root dir" "\<forall>n \<in> set ns. component n"
  shows "below dir (log_path root s ns) = None"
proof -
  obtain c cs where c: "dir = path_join_all root (c # cs)" "c \<noteq> TXN_DIR_NAME" "\<forall>n \<in> set (c # cs). component n \<and> n \<noteq> ''.''"
    using assms(2) by (rule data_pathE)
  then show ?thesis
    using below_path_join_all [OF assms(1), of "c # cs" "TXN_DIR_NAME # dir_name s # ns"] assms(3) by (simp add: log_path_def)
qed

lemma holds_revisions_frame:
  assumes "holds_revisions c dir R" "\<And>p. below dir p \<noteq> None \<Longrightarrow> c' p = c p"
  shows "holds_revisions c' dir R"
proof -
  have "c' p \<noteq> None \<and> below dir p \<noteq> None \<longleftrightarrow> c p \<noteq> None \<and> below dir p \<noteq> None" for p
    using assms(2) [of p] by (cases "below dir p = None") simp_all
  then show ?thesis using assms(1) unfolding holds_revisions_def by simp
qed

text \<open>C6: Snapshot isolation. When a transaction that wrote revisions of a metafile is sealed without conflict
  at end time \<open>e\<close>, the latest revision for every other transaction that started at \<open>e\<close> or before
  is what it was before the commit, and for every transaction that starts after \<open>e\<close> it is the committed
  revision, if that is the newest in the directory.\<close>

theorem commit_snapshot:
  assumes store: "file_store F ok contents size_of" and F: "te_fs T = F" and ok: "ok fs"
    and t: "sealable (contents fs) st u t" and e: "st \<le> e"
    and free: "check_conflicts F fs (status_dir ST_SUCCESS (txn_root t)) (written_paths t) = Inr ()"
    and holds: "holds_revisions (contents fs) dir R" and inj: "inj_on rf_revision R" and dir: "data_path (txn_root t) dir"
    and logs: "logs_end_times F fs (success_log_dir (txn_root t)) ends R" and i: "ends (txn_id_of st u) = None"
  shows "\<exists>x fs' t'. txn_seal T (Inr e) (fs, t) = Some (Inr x, (fs', t')) \<and>
    (\<forall>st' j. j \<noteq> [] \<and> j \<noteq> txn_id_of st u \<and> st' \<le> e \<longrightarrow>
       latest_revision F fs' dir (Some (success_log_dir (txn_root t))) (Some st') (Some j) b =
       latest_revision F fs dir (Some (success_log_dir (txn_root t))) (Some st') (Some j) b) \<and>
    (\<forall>st' j f. j \<noteq> [] \<and> e < st' \<and> f \<in> R \<and> rf_txn_id f = txn_id_of st u \<and> (\<forall>g \<in> R. rf_revision g \<le> rf_revision f) \<longrightarrow>
       latest_revision F fs' dir (Some (success_log_dir (txn_root t))) (Some st') (Some j) b = Some (Inr (rf_mri dir f)))"
proof -
  note active = t [unfolded sealable_def, THEN conjunct1]
  note a = txn_activeD [OF active]
  let ?log = "success_log_dir (txn_root t)" and ?i = "txn_id_of st u" and ?s = "success_log t st u e" and ?r = "running_log t st u"
  have e0: "0 \<le> e" using a(4) e by simp
  have life: "\<not> time_set (txn_end_time t)" "has_write_operations t" "txn_running_log_written t" "undecided (contents fs) st u t"
    "contents fs ?r \<noteq> None"
    using t by (simp_all add: sealable_def time_set_def)
  obtain x fs' data where s: "seal_steps T (Inr e) (fs, t) = Some (Inr x, (fs', t\<lparr>txn_end_time := Some e\<rparr>))" "ok fs'"
    "contents fs' = (contents fs)(?s \<mapsto> data, ?r := None)"
    using file_store.seal_outcome [OF store F active ok e0 life(1-3,5)] e free by auto
  have ns: "\<forall>n \<in> set (start_dirs st @ [?i, int_to_str e]). component n" "\<forall>n \<in> set [?i]. component n"
    using a(2,3) int_to_str_visible [OF e0] by auto
  have out: "below dir ?s = None" "below dir ?r = None" using log_not_below_data [OF a(7) dir] ns by blast+
  have "contents fs' p = contents fs p" if "below dir p \<noteq> None" for p using that out s(3) by auto
  then have holds': "holds_revisions (contents fs') dir R" by (rule holds_revisions_frame [OF holds])
  have oks: "\<forall>g \<in> R. rf_ok g" using holds by (simp add: holds_revisions_def)
  have logs': "logs_end_times F fs' ?log (ends(?i \<mapsto> e)) R"
    by (rule file_store.logs_after_seal [OF store active ok s(2) e0 life(4) s(3) logs oks])
  have R: "revision_dir F fs dir R" "revision_dir F fs' dir R"
    by (rule file_store.holds_revision_dir [OF store ok holds], rule file_store.holds_revision_dir [OF store s(2) holds'])
  have early: "latest_revision F fs' dir (Some ?log) (Some st') (Some j) b = latest_revision F fs dir (Some ?log) (Some st') (Some j) b"
    if j: "j \<noteq> []" "j \<noteq> ?i" "st' \<le> e" for st' j
  proof -
    obtain r where r: "is_latest R (sees ends st' j) r"
      using latest_revision_walk [OF R(1) logs j(1)] walk_result_latest [OF _ inj revision_dir_max [OF R(1)]] by metis
    have "sees (ends(?i \<mapsto> e)) st' j = sees ends st' j" using i j(2,3) by (intro ext) (auto simp: sees_def)
    then show ?thesis using latest_revision_eq [OF R(1) logs j(1) inj r] latest_revision_eq [OF R(2) logs' j(1) inj] r by simp
  qed
  have late: "latest_revision F fs' dir (Some ?log) (Some st') (Some j) b = Some (Inr (rf_mri dir f))"
    if j: "j \<noteq> []" "e < st'" "f \<in> R" "rf_txn_id f = ?i" "\<forall>g \<in> R. rf_revision g \<le> rf_revision f" for st' j f
  proof -
    have "is_latest R (sees (ends(?i \<mapsto> e)) st' j) (Some f)" using j(2-5) by (simp add: is_latest_def sees_def)
    then show ?thesis using latest_revision_eq [OF R(2) logs' j(1) inj] by simp
  qed
  show ?thesis unfolding sealable_seal [OF t] s(1) using early late by blast
qed

text \<open>The session that creates a namespace, sealed.\<close>

definition ex_session_dir :: string where "ex_session_dir = ''root/dest-id/rev''"

definition ex_session_file :: rev_file where
  "ex_session_file = \<lparr>rf_revision = 1, rf_op = CREATE, rf_txn_id = txn_id_of ex_start ex_uuid, rf_ext = ''mpk''\<rparr>"

theorem commit_snapshot_witness:
  "\<exists>x fs' t'. txn_seal ex_txn_env (Inr (ex_start + 5)) (ex_session_fs, ex_session_txn) = Some (Inr x, (fs', t')) \<and>
    latest_revision (mem_F id) fs' ex_session_dir (Some (success_log_dir (txn_root ex_session_txn))) (Some (ex_start + 5)) (Some ''reader'') True =
    latest_revision (mem_F id) ex_session_fs ex_session_dir (Some (success_log_dir (txn_root ex_session_txn))) (Some (ex_start + 5)) (Some ''reader'') True \<and>
    latest_revision (mem_F id) fs' ex_session_dir (Some (success_log_dir (txn_root ex_session_txn))) (Some (ex_start + 6)) (Some ''reader'') True =
      Some (Inr (rf_mri ex_session_dir ex_session_file))"
proof -
  have e: "ex_start \<le> ex_start + 5" by simp
  have holds: "holds_revisions (map_of ex_session_fs) ex_session_dir {ex_session_file}"
  proof -
    have "revision_base ex_session_dir" "list_all rf_ok [ex_session_file]"
      "set (filter (\<lambda>p. below ex_session_dir p \<noteq> None) (map fst ex_session_fs)) = set (map (rf_path ex_session_dir) [ex_session_file])"
      by code_simp+
    from holds_revisions_map_of [OF this] show ?thesis by simp
  qed
  have dir: "data_path (txn_root ex_session_txn) ex_session_dir" by code_simp
  have log: "(case success_txn_log_dir_path (success_log_dir (txn_root ex_session_txn)) (rf_txn_id ex_session_file) of Inl _ \<Rightarrow> False
      | Inr d \<Rightarrow> read_end_time (mem_F id) ex_session_fs d = Inr None)" by code_simp
  have "success_log_dir (txn_root ex_session_txn) \<noteq> []" by code_simp
  with log have logs: "logs_end_times (mem_F id) ex_session_fs (success_log_dir (txn_root ex_session_txn)) (\<lambda>_. None) {ex_session_file}"
    by (auto simp: logs_end_times_def split: sum.splits)
  have other: "''reader'' \<noteq> txn_id_of ex_start ex_uuid" "rf_txn_id ex_session_file = txn_id_of ex_start ex_uuid" by code_simp+
  from commit_snapshot [OF mem.file_store_axioms ex_session_sealable(3,2,1) e ex_session_active(2) holds _ dir logs, of True]
  show ?thesis using other by fastforce
qed

end
