(* ===== verification/CommitProtocol.thy ===== *)
theory CommitProtocol
  imports SnapshotIsolation RevisionProperties
begin

text \<open>
  Two transactions that wrote the same revision number of a metafile. Once one of them has been sealed, sealing the
  other fails and removes what it wrote, whatever happened in between. Sealing checks for conflicts before it writes
  the success log, and the writing does not check again.
\<close>

lemma check_conflicts_Inr: "check_conflicts F fs log_dir ps = Inr () \<Longrightarrow> p \<in> set ps \<Longrightarrow> check_for_concurrent_txn_conflict F fs log_dir p = Inr ()"
  by (induction ps) (auto simp: rbind_Inr_iff)

text \<open>A completed transaction with a file of the same number is a conflict.\<close>

lemma completed_conflict:
  assumes R: "revision_dir F fs dir R" and logs: "logs_end_times F fs log_dir ends R"
    and f: "f \<in> R" "completed ends (rf_txn_id f)"
    and g: "g \<in> R" "rf_revision g = rf_revision f" "rf_txn_id g \<noteq> rf_txn_id f" "rf_path dir g \<in> set ps"
    and few: "card {h \<in> R. rf_revision h = rf_revision f} \<le> nat DEFAULT_PAGE_SIZE"
  shows "\<exists>err. check_conflicts F fs log_dir ps = Inl err"
proof -
  have "\<not> conflict_free ends R g" using f g(2,3) by (auto simp: conflict_free_def)
  then have "check_for_concurrent_txn_conflict F fs log_dir (rf_path dir g) = Inl ConcurrentModificationError"
    using check_conflict_eq [OF R logs g(1)] few g(2) by simp
  then show ?thesis using check_conflicts_Inr [OF _ g(4), of F fs log_dir] by (cases "check_conflicts F fs log_dir ps") auto
qed

context file_store begin

text \<open>The success log of a transaction survives the cleanup of another one.\<close>

lemma cleanup_keeps_end_time:
  assumes t: "txn_active st u t" and t': "txn_active st' u' t'" "txn_root t' = txn_root t" and ok: "ok fs" "ok fs'"
    and c: "contents fs' = cleaned st' u' t' (given_up t' (running_log t' st' u') None) data (contents fs)"
  shows "read_end_time F fs' (success_dir t st u) = read_end_time F fs (success_dir t st u)"
proof -
  note a = txn_activeD [OF t] and a' = txn_activeD [OF t'(1)]
  have ns: "\<forall>n \<in> set (start_dirs st @ [txn_id_of st u]). component n" "\<forall>n \<in> set [txn_id_of st' u']. component n"
    "\<forall>n \<in> set (start_dirs st' @ [txn_id_of st' u']). component n" using a(2,3) a'(2,3) by auto
  have out: "below (success_dir t st u) (running_log t' st' u') = None" "below (success_dir t st u) (failed_log t' st' u') = None"
    unfolding t'(2) using below_log_path [OF a(7) ns(1)] ns by simp_all
  have "below (success_dir t st u) p = None" if "p \<in> set (written_paths t')" for p
    using that t' below_log_data [OF a(7) ns(1)] unfolding txn_active_def by metis
  then have "contents fs' p = contents fs p" if "below (success_dir t st u) p \<noteq> None" for p
    using that out by (auto simp: c cleaned_def given_up_def truthy_def)
  then show ?thesis by (rule end_time_frame [OF ok dir_path_log_path [OF a(7) ns(1)]])
qed

lemma sealed_end_time_kept:
  assumes F: "te_fs T = F" and ok: "ok fs" and t: "sealable (contents fs) st u t" and e: "st \<le> e"
    and seal: "txn_seal T (Inr e) (fs, t) = Some (Inr x, (fs1, t1))"
    and later: "ok fs2" "\<And>p. below (success_dir t st u) p \<noteq> None \<Longrightarrow> contents fs2 p = None \<longleftrightarrow> contents fs1 p = None"
  shows "read_end_time F fs2 (success_dir t st u) = Inr (Some e)"
proof -
  note active = t [unfolded sealable_def, THEN conjunct1]
  note a = txn_activeD [OF active]
  have e0: "0 \<le> e" using a(4) e by simp
  have life: "\<not> time_set (txn_end_time t)" "has_write_operations t" "txn_running_log_written t" "undecided (contents fs) st u t"
    "contents fs (running_log t st u) \<noteq> None"
    using t by (simp_all add: sealable_def time_set_def)
  obtain data where s: "ok fs1" "contents fs1 = (contents fs)(success_log t st u e \<mapsto> data, running_log t st u := None)"
    using seal_outcome [OF F active ok e0 life(1-3,5)] e seal unfolding sealable_seal [OF t]
    by (cases "check_conflicts F fs (status_dir ST_SUCCESS (txn_root t)) (written_paths t)") auto
  have ns: "\<forall>n \<in> set (start_dirs st @ [txn_id_of st u]). component n" "\<forall>n \<in> set (start_dirs st @ [txn_id_of st u, int_to_str e]). component n"
    "\<forall>n \<in> set [txn_id_of st u]. component n" using a(2,3) int_to_str_visible [OF e0] by auto
  show ?thesis
  proof (rule end_time_present [OF later(1) dir_path_log_path [OF a(7) ns(1)] e0])
    fix p
    have "below (success_dir t st u) (success_log t st u e) = Some [int_to_str e]" "below (success_dir t st u) (running_log t st u) = None"
      using below_log_path [OF a(7) ns(1)] ns(2,3) by simp_all
    moreover have "success_log t st u e = path_join (success_dir t st u) (int_to_str e)" by (simp add: log_paths)
    moreover have "contents fs p = None \<or> below (success_dir t st u) p = None" using life(4) by (auto simp: undecided_def)
    ultimately show "contents fs2 p \<noteq> None \<and> below (success_dir t st u) p \<noteq> None \<longleftrightarrow> p = path_join (success_dir t st u) (int_to_str e)"
      using later(2) [of p] s(2) by (auto split: if_splits)
  qed
qed

end

text \<open>C7: First committer wins. A transaction is sealed at end time \<open>e\<close>, and after any changes that leave its
  success log in place, another transaction that wrote the same revision number of a metafile is sealed. The second
  \<^verbatim>\<open>seal\<close> raises, no end time can be read for it, the file it wrote is gone, and the first transaction's file and end
  time are as they were. At most 1000 files of one revision number are assumed, the page size of the check.\<close>

theorem first_committer_wins:
  assumes store: "file_store F ok contents size_of" and F: "te_fs T = F" "te_fs T' = F" and ok: "ok fs"
    and t: "sealable (contents fs) st u t" and e: "st \<le> e" "0 \<le> e'"
    and seal: "txn_seal T (Inr e) (fs, t) = Some (Inr x, (fs1, t1))"
    and later: "ok fs2" "\<And>p. below (success_dir t st u) p \<noteq> None \<Longrightarrow> contents fs2 p = None \<longleftrightarrow> contents fs1 p = None"
    and t': "sealable (contents fs2) st' u' t'" "txn_root t' = txn_root t"
    and holds: "holds_revisions (contents fs2) dir R" and dir: "data_path (txn_root t) dir"
    and logs: "logs_end_times F fs2 (success_log_dir (txn_root t)) ends R"
    and f: "f \<in> R" "rf_txn_id f = txn_id_of st u" "rf_path dir f \<notin> set (written_paths t')"
    and g: "g \<in> R" "rf_txn_id g = txn_id_of st' u'" "rf_path dir g \<in> set (written_paths t')"
    and same: "rf_revision g = rf_revision f" "txn_id_of st' u' \<noteq> txn_id_of st u"
    and few: "card {h \<in> R. rf_revision h = rf_revision f} \<le> nat DEFAULT_PAGE_SIZE"
  shows "\<exists>err fs3 t3. txn_seal T' (Inr e') (fs2, t') = Some (Inl err, (fs3, t3)) \<and>
    read_end_time F fs3 (success_dir t' st' u') = Inr None \<and> contents fs3 (rf_path dir g) = None \<and>
    read_end_time F fs3 (success_dir t st u) = Inr (Some e) \<and> contents fs3 (rf_path dir f) = contents fs2 (rf_path dir f)"
proof -
  note active = t [unfolded sealable_def, THEN conjunct1] and active' = t'(1) [unfolded sealable_def, THEN conjunct1]
  note a = txn_activeD [OF active] and a' = txn_activeD [OF active']
  have A: "read_end_time F fs2 (success_dir t st u) = Inr (Some e)"
    by (rule file_store.sealed_end_time_kept [OF store F(1) ok t e(1) seal later])
  have "success_txn_log_dir_path (success_log_dir (txn_root t)) (txn_id_of st u) = Inr (success_dir t st u)"
    using a(1,8) by (simp add: success_txn_log_dir_path_def partitioned_txn_log_path_def success_log_dir_path log_path_join log_path_join_all)
  then have "completed ends (rf_txn_id f)" using logs f(1,2) A a(4) e(1) by (force simp: logs_end_times_def completed_def)
  from completed_conflict [OF file_store.holds_revision_dir [OF store later(1) holds] logs f(1) this g(1) same(1) _ g(3) few]
  obtain err where c: "check_conflicts F fs2 (status_dir ST_SUCCESS (txn_root t')) (written_paths t') = Inl err"
    using same(2) f(2) g(2) t'(2) by (auto simp: success_log_dir_path log_path_status)
  have life: "\<not> time_set (txn_end_time t')" "has_write_operations t'" "txn_running_log_written t'" "undecided (contents fs2) st' u' t'"
    "contents fs2 (running_log t' st' u') \<noteq> None"
    using t'(1) by (simp_all add: sealable_def time_set_def)
  obtain fs3 data where s: "seal_steps T' (Inr e') (fs2, t') = Some (Inl err, (fs3, t'\<lparr>txn_end_time := Some e'\<rparr>))" "ok fs3"
    "contents fs3 = cleaned st' u' t' (given_up t' (running_log t' st' u') None) data (contents fs2)"
    using file_store.seal_outcome [OF store F(2) active' later(1) e(2) life(1-3,5)] c by auto
  have "read_end_time F fs3 (success_dir t' st' u') = Inr None"
    using file_store.aborted_facts(1) [OF store active' s(2) life(4) _ _ s(3)] failed_not_given_up [OF active' _ e(2)]
    by (auto simp: given_up_def)
  moreover have "read_end_time F fs3 (success_dir t st u) = Inr (Some e)"
    using file_store.cleanup_keeps_end_time [OF store active active' t'(2) later(1) s(2,3)] A by simp
  moreover have "contents fs3 (rf_path dir g) = None" using s(3) g(3) by (auto simp: cleaned_def given_up_def)
  moreover have "contents fs3 (rf_path dir f) = contents fs2 (rf_path dir f)"
  proof -
    have "holds_revisions (contents fs2) dir R \<Longrightarrow> below dir (rf_path dir f) \<noteq> None" using f(1) by (auto simp: holds_revisions_def)
    then have "below dir (rf_path dir f) \<noteq> None" using holds by blast
    moreover have "\<forall>n \<in> set [txn_id_of st' u']. component n" "\<forall>n \<in> set (start_dirs st' @ [txn_id_of st' u']). component n"
      using a'(2,3) by auto
    ultimately have "rf_path dir f \<noteq> running_log t' st' u'" "rf_path dir f \<noteq> failed_log t' st' u'"
      using log_not_below_data [OF a(7) dir] t'(2) by metis+
    then show ?thesis using s(3) f(3) by (auto simp: cleaned_def given_up_def truthy_def)
  qed
  ultimately show ?thesis unfolding sealable_seal [OF t'(1)] using s(1) by blast
qed


text \<open>
  The session that creates a namespace is sealed; then another transaction writes the first revision of the same
  metafile and is sealed.
\<close>

definition ex_late_file :: rev_file where
  "ex_late_file = \<lparr>rf_revision = 1, rf_op = CREATE, rf_txn_id = txn_id_of (ex_start + 2) ex_uuid, rf_ext = ''mpk''\<rparr>"

definition ex_late_path :: string where
  "ex_late_path = path_join_all ''root'' [''dest-id'', ''rev'', ''1000000'', ''1000'',
     ''00000000000000000001_create_1700000000000000002_a0eebc99-9c0b-4ef8-bb6d-6bb9bd380a11.mpk'']"

definition ex_late_txn :: "unit txn" where
  "ex_late_txn =
     \<lparr>txn_operations = [\<lparr>op_type = CREATE, op_dest = ex_namespace\<lparr>mf_id := Some ''dest-id''\<rparr>, op_src = None, op_read_limit = None,
        op_metafile_write_paths = [ex_late_path], op_locator_write_paths = []\<rparr>],
      txn_interactive = True, txn_commit_message = None, txn_id = Some (txn_id_of (ex_start + 2) ex_uuid),
      txn_start_time = Some (ex_start + 2), txn_pause_time = None, txn_end_time = None, txn_root = ''root'',
      txn_provider = Some SystemProvider, txn_historic_timestamp = None, txn_running_log_written = True, txn_list_results = []\<rparr>"

definition ex_late_fs :: "nat mem" where
  "ex_late_fs = [(ex_late_path, 1), (''root/txn/running/1700000000000000002_a0eebc99-9c0b-4ef8-bb6d-6bb9bd380a11'', 7),
     (''root/txn/success/2023/11/14/22/13/1700000000000000000_a0eebc99-9c0b-4ef8-bb6d-6bb9bd380a11/1700000000000000005'', 7),
     (ex_revision_path, 1), (ex_mapping_path, 0)]"

lemma ex_session_seal:
  "\<exists>x fs1 t1 data. txn_seal ex_txn_env (Inr (ex_start + 5)) (ex_session_fs, ex_session_txn) = Some (Inr x, (fs1, t1)) \<and>
    map_of fs1 = (map_of ex_session_fs)(success_log ex_session_txn ex_start ex_uuid (ex_start + 5) \<mapsto> data,
      running_log ex_session_txn ex_start ex_uuid := None)"
proof -
  have life: "\<not> time_set (txn_end_time ex_session_txn)" "has_write_operations ex_session_txn" "txn_running_log_written ex_session_txn"
    using ex_session_sealable(1) by (simp_all add: sealable_def time_set_def)
  have e: "0 \<le> ex_start + 5" by (simp add: ex_start_def)
  show ?thesis
    using mem.seal_outcome [OF ex_session_sealable(3) ex_session_active(1) ex_session_sealable(2) e life ex_session_log]
      ex_session_active(2)
    unfolding sealable_seal [OF ex_session_sealable(1)] by auto
qed

lemma ex_late_sealable: "sealable (map_of ex_late_fs) (ex_start + 2) ex_uuid ex_late_txn"
proof -
  have undecided: "undecided (map_of ex_late_fs) (ex_start + 2) ex_uuid ex_late_txn"
    by (rule undecided_map_of) code_simp
  have log: "map_of ex_late_fs (running_log ex_late_txn (ex_start + 2) ex_uuid) \<noteq> None" by code_simp
  have active: "txn_active (ex_start + 2) ex_uuid ex_late_txn" by code_simp
  show ?thesis
    unfolding sealable_def using active undecided log
    by (simp add: ex_late_txn_def has_write_operations_def is_read_operation_def read_operations_def)
qed

theorem first_committer_wins_witness:
  "\<exists>err fs3 t3. txn_seal ex_txn_env (Inr (ex_start + 9)) (ex_late_fs, ex_late_txn) = Some (Inl err, (fs3, t3)) \<and>
    map_of fs3 (rf_path ex_session_dir ex_late_file) = None \<and>
    read_end_time (mem_F id) fs3 (success_dir ex_session_txn ex_start ex_uuid) = Inr (Some (ex_start + 5))"
proof -
  let ?R = "{ex_late_file, ex_session_file}" and ?logs = "success_log_dir (txn_root ex_session_txn)"
  let ?ends = "[txn_id_of ex_start ex_uuid \<mapsto> ex_start + 5]"
  let ?dir = "success_dir ex_session_txn ex_start ex_uuid" and ?log_file = "success_log ex_session_txn ex_start ex_uuid (ex_start + 5)"
  obtain x fs1 t1 data where seal: "txn_seal ex_txn_env (Inr (ex_start + 5)) (ex_session_fs, ex_session_txn) = Some (Inr x, (fs1, t1))"
    "map_of fs1 = (map_of ex_session_fs)(?log_file \<mapsto> data, running_log ex_session_txn ex_start ex_uuid := None)"
    using ex_session_seal by blast
  have present: "list_all (\<lambda>(p, _). below ?dir p = None \<or> p = ?log_file) ex_late_fs" "map_of ex_late_fs ?log_file \<noteq> None"
    "below ?dir (running_log ex_session_txn ex_start ex_uuid) = None" by code_simp+
  have later: "map_of ex_late_fs p = None \<longleftrightarrow> map_of fs1 p = None" if "below ?dir p \<noteq> None" for p
  proof -
    have "map_of ex_late_fs p \<noteq> None \<longleftrightarrow> p = ?log_file"
      using present(1,2) that map_of_SomeD [of ex_late_fs p] by (fastforce simp: list_all_iff)
    moreover have "map_of ex_session_fs p = None" using ex_session_undecided that by (auto simp: undecided_def)
    ultimately show ?thesis using that present(3) by (auto simp: seal(2))
  qed
  have ok: "distinct (map fst ex_late_fs)" by code_simp
  have holds: "holds_revisions (map_of ex_late_fs) ex_session_dir ?R"
  proof -
    have "revision_base ex_session_dir" "list_all rf_ok [ex_late_file, ex_session_file]"
      "set (filter (\<lambda>p. below ex_session_dir p \<noteq> None) (map fst ex_late_fs)) = set (map (rf_path ex_session_dir) [ex_late_file, ex_session_file])"
      by code_simp+
    from holds_revisions_map_of [OF this] show ?thesis by simp
  qed
  have "list_all (\<lambda>f. case success_txn_log_dir_path ?logs (rf_txn_id f) of Inl _ \<Rightarrow> False
      | Inr d \<Rightarrow> read_end_time (mem_F id) ex_late_fs d = Inr (?ends (rf_txn_id f))) [ex_late_file, ex_session_file]" "?logs \<noteq> []"
    by code_simp+
  then have logs: "logs_end_times (mem_F id) ex_late_fs ?logs ?ends ?R"
    by (auto simp: logs_end_times_def split: sum.splits)
  have facts: "txn_root ex_late_txn = txn_root ex_session_txn" "data_path (txn_root ex_session_txn) ex_session_dir"
    "rf_txn_id ex_session_file = txn_id_of ex_start ex_uuid" "rf_path ex_session_dir ex_session_file \<notin> set (written_paths ex_late_txn)"
    "rf_txn_id ex_late_file = txn_id_of (ex_start + 2) ex_uuid" "rf_path ex_session_dir ex_late_file \<in> set (written_paths ex_late_txn)"
    "rf_revision ex_late_file = rf_revision ex_session_file" "txn_id_of (ex_start + 2) ex_uuid \<noteq> txn_id_of ex_start ex_uuid"
    by code_simp+
  have "card {h \<in> ?R. rf_revision h = rf_revision ex_session_file} \<le> card ?R" by (rule card_mono) auto
  also have "\<dots> \<le> nat DEFAULT_PAGE_SIZE" by (simp add: DEFAULT_PAGE_SIZE_def card_insert_if)
  finally have few: "card {h \<in> ?R. rf_revision h = rf_revision ex_session_file} \<le> nat DEFAULT_PAGE_SIZE" .
  from first_committer_wins [where R = ?R and f = ex_session_file and g = ex_late_file and T' = ex_txn_env and e' = "ex_start + 9",
      OF mem.file_store_axioms ex_session_sealable(3,3,2,1) _ _ seal(1) ok later ex_late_sealable facts(1) holds facts(2) logs _ facts(3,4) _ facts(5-8) few]
  show ?thesis by (auto simp: ex_start_def)
qed

text \<open>
  The write of the success log does not look at other transactions: for a transaction that passed the check before
  the first one was sealed, the rest of \<^verbatim>\<open>seal\<close> succeeds as well, and both have committed the same revision.
\<close>

lemma commit_race:
  assumes store: "file_store F ok contents size_of" and F: "te_fs T = F" "te_fs T' = F" and ok: "ok fs"
    and t: "sealable (contents fs) st u t" and e: "st \<le> e" "st' \<le> e'"
    and seal: "txn_seal T (Inr e) (fs, t) = Some (Inr x, (fs1, t1))"
    and later: "ok fs2" "\<And>p. below (success_dir t st u) p \<noteq> None \<Longrightarrow> contents fs2 p = None \<longleftrightarrow> contents fs1 p = None"
    and t': "sealable (contents fs2) st' u' t'" "txn_root t' = txn_root t" "txn_id_of st' u' \<noteq> txn_id_of st u"
  shows "\<exists>p fs3. write_success_log T' (txn_id_of st' u') e' (fs2, t') = Some (Inr p, (fs3, t')) \<and>
    read_end_time F fs3 (success_dir t' st' u') = Inr (Some e') \<and> read_end_time F fs3 (success_dir t st u) = Inr (Some e)"
proof -
  note active = t [unfolded sealable_def, THEN conjunct1] and active' = t'(1) [unfolded sealable_def, THEN conjunct1]
  note a = txn_activeD [OF active] and a' = txn_activeD [OF active']
  have e0: "0 \<le> e'" using a'(4) e(2) by simp
  obtain fs3 data where w: "write_success_log T' (txn_id_of st' u') e' (fs2, t') = Some (Inr (success_log t' st' u' e'), (fs3, t'))"
    "ok fs3" "contents fs3 = (contents fs2)(success_log t' st' u' e' \<mapsto> data)"
    using file_store.success_log_outcome [OF store F(2) active' later(1) e0] e(2) by auto
  have n: "component (int_to_str e')" using int_to_str_visible [OF e0] by simp
  have ns: "\<forall>n \<in> set (start_dirs st' @ [txn_id_of st' u']). component n" "\<forall>n \<in> set (start_dirs st @ [txn_id_of st u]). component n"
    "\<forall>n \<in> set (start_dirs st' @ [txn_id_of st' u', int_to_str e']). component n" using a(2,3) a'(2,3) n by auto
  have len: "length (start_dirs st) = 5" "length (start_dirs st') = 5" using length_start_dirs a(1) a'(1) by blast+
  have "below (success_dir t st u) (success_log t' st' u' e') = None"
    unfolding t'(2) using below_log_path [OF a(7) ns(2,3)] t'(3) len by auto
  then have "contents fs3 p = contents fs2 p" if "below (success_dir t st u) p \<noteq> None" for p using that w(3) by auto
  from file_store.end_time_frame [OF store later(1) w(2) dir_path_log_path [OF a(7) ns(2)] this]
    file_store.sealed_end_time_kept [OF store F(1) ok t e(1) seal later]
  have "read_end_time F fs3 (success_dir t st u) = Inr (Some e)" by simp
  moreover have "read_end_time F fs3 (success_dir t' st' u') = Inr (Some e')"
  proof (rule file_store.end_time_present [OF store w(2) dir_path_log_path [OF a'(7) ns(1)] e0])
    fix p
    have b: "below (success_dir t' st' u') (success_log t' st' u' e') = Some [int_to_str e']"
      using below_log_path [OF a'(7) ns(1,3)] by simp
    have "success_log t' st' u' e' = path_join (success_dir t' st' u') (int_to_str e')" by (simp add: log_paths)
    moreover have "contents fs2 p = None \<or> below (success_dir t' st' u') p = None"
      using t'(1) by (auto simp: sealable_def undecided_def)
    ultimately show "contents fs3 p \<noteq> None \<and> below (success_dir t' st' u') p \<noteq> None \<longleftrightarrow> p = path_join (success_dir t' st' u') (int_to_str e')"
      using b w(3) by auto
  qed
  ultimately show ?thesis using w(1) by blast
qed

end
