(* ===== verification/TimeProvider.thy ===== *)
theory TimeProvider
  imports TransactionTypes
begin

text \<open>
  The transaction time providers of \<^verbatim>\<open>deltacat/storage/model/transaction.py\<close>. The clocks of the
  operating system are a parameter: two streams of readings and a position that every reading moves
  on. The class attributes of \<^verbatim>\<open>TransactionSystemTimeProvider\<close> that all threads share are the state.
  They are not locked: a call reads the largest known time at its beginning, waits for the clock, and records
  its result at its end, and the calls of other threads begin and end in between. Reading the known times and
  recording one are single steps.
\<close>

subsection \<open>Definitions\<close>

record clock =
  wall :: "nat \<Rightarrow> int"
  monotonic :: "nat \<Rightarrow> int"

type_synonym thread_key = "nat \<times> nat"

record time_state =
  last_known_start_times :: "(thread_key \<times> int) list"
  last_known_end_times :: "(thread_key \<times> int) list"
  readings :: nat

definition initial_time_state :: time_state where
  "initial_time_state = \<lparr>last_known_start_times = [], last_known_end_times = [], readings = 0\<rparr>"

text \<open>\<^verbatim>\<open>max(d.values() or [0])\<close> for a dictionary kept as an association list.\<close>

fun max_list :: "int \<Rightarrow> int list \<Rightarrow> int" where
  "max_list m [] = m"
| "max_list m (x # xs) = max_list (max m x) xs"

definition max_value :: "(thread_key \<times> int) list \<Rightarrow> int" where
  "max_value d = (case map snd d of [] \<Rightarrow> 0 | v # vs \<Rightarrow> max_list v vs)"

definition max_sync_wait_time :: int where
  "max_sync_wait_time = 60 * NANOS_PER_SEC"

text \<open>
  The while loop of both methods: read the wall clock until it is no longer behind, and give up once
  the monotonic clock has moved by more than the largest wait. \<open>None\<close> is a loop that does not end.
\<close>

partial_function (option) wait_clock ::
  "clock \<Rightarrow> (int \<Rightarrow> bool) \<Rightarrow> int \<Rightarrow> int \<Rightarrow> nat \<Rightarrow> (int res \<times> nat) option" where
  "wait_clock c behind elapsed_start_time current_time i =
     (if \<not> behind current_time then Some (Inr current_time, i)
      else if monotonic c i - elapsed_start_time > max_sync_wait_time then Some (Inl TimeoutError, Suc i)
      else wait_clock c behind elapsed_start_time (wall c (Suc i)) (Suc (Suc i)))"

declare wait_clock.simps [code]

text \<open>
  The beginning of a call, which reads the times known to all threads, and its end, which waits until the
  clock is past the time that was read and records the result for the thread.
\<close>

definition start_begin :: "time_state \<Rightarrow> int" where
  "start_begin s = max_value (last_known_end_times s)"

definition start_finish :: "clock \<Rightarrow> thread_key \<Rightarrow> int \<Rightarrow> time_state \<Rightarrow> (int res \<times> time_state) option" where
  "start_finish c key max_known_end_time s =
     (let i = readings s
      in case wait_clock c (\<lambda>t. t \<le> max_known_end_time) (monotonic c i) (wall c (Suc i)) (Suc (Suc i)) of
           None \<Rightarrow> None
         | Some (Inl e, j) \<Rightarrow> Some (Inl e, s\<lparr>readings := j\<rparr>)
         | Some (Inr t, j) \<Rightarrow>
             Some (Inr t, s\<lparr>readings := j, last_known_end_times := dict_set key t (last_known_end_times s)\<rparr>))"

definition end_begin :: "time_state \<Rightarrow> int" where
  "end_begin s = max_value (last_known_start_times s)"

definition end_finish :: "clock \<Rightarrow> thread_key \<Rightarrow> int \<Rightarrow> time_state \<Rightarrow> (int res \<times> time_state) option" where
  "end_finish c key last_start_time s =
     (let i = readings s
      in case wait_clock c (\<lambda>t. t < last_start_time) (monotonic c i) (wall c (Suc i)) (Suc (Suc i)) of
           None \<Rightarrow> None
         | Some (Inl e, j) \<Rightarrow> Some (Inl e, s\<lparr>readings := j\<rparr>)
         | Some (Inr t, j) \<Rightarrow>
             Some (Inr t, s\<lparr>readings := j, last_known_start_times := dict_set key t (last_known_start_times s)\<rparr>))"

text \<open>A call that no other thread interrupts.\<close>

definition start_time :: "clock \<Rightarrow> thread_key \<Rightarrow> time_state \<Rightarrow> (int res \<times> time_state) option" where
  "start_time c key s = start_finish c key (start_begin s) s"

definition end_time :: "clock \<Rightarrow> thread_key \<Rightarrow> time_state \<Rightarrow> (int res \<times> time_state) option" where
  "end_time c key s = end_finish c key (end_begin s) s"

text \<open>
  \<^verbatim>\<open>TransactionHistoricTimeProvider\<close> over the system provider: construction reads a start time to
  refuse timestamps in the future, after that the start time is fixed.
\<close>

definition historic_provider :: "clock \<Rightarrow> thread_key \<Rightarrow> int \<Rightarrow> time_state \<Rightarrow> (int res \<times> time_state) option" where
  "historic_provider c key historic_timestamp s =
     map_option (\<lambda>(r, s'). (rbind r (\<lambda>now. if historic_timestamp > now then Inl ValueError
                                            else Inr historic_timestamp), s'))
       (start_time c key s)"

text \<open>A sequence of calls one after the other, with the times they return; the first error ends it.\<close>

datatype time_call = StartCall thread_key | EndCall thread_key

fun run_time_calls :: "clock \<Rightarrow> time_call list \<Rightarrow> time_state \<Rightarrow> (int list \<times> int list) option" where
  "run_time_calls c [] s = Some ([], [])"
| "run_time_calls c (StartCall k # calls) s =
     (case start_time c k s of
        Some (Inr t, s') \<Rightarrow> map_option (\<lambda>(ss, es). (t # ss, es)) (run_time_calls c calls s')
      | _ \<Rightarrow> None)"
| "run_time_calls c (EndCall k # calls) s =
     (case end_time c k s of
        Some (Inr t, s') \<Rightarrow> map_option (\<lambda>(ss, es). (ss, t # es)) (run_time_calls c calls s')
      | _ \<Rightarrow> None)"

text \<open>
  The threads of a process. A thread that is in a call has the time it read at the beginning. The times
  returned so far are kept in the order of the returns, and for every call that returned, together with its time
  those that had been returned when it began.
\<close>

datatype pending = InStart int "int list" | InEnd int "int list"

record process =
  pr_state :: time_state
  pr_pending :: "thread_key \<Rightarrow> pending option"
  pr_starts :: "int list"
  pr_ends :: "int list"
  pr_start_calls :: "(int list \<times> int) list"
  pr_end_calls :: "(int list \<times> int) list"

definition initial_process :: process where
  "initial_process = \<lparr>pr_state = initial_time_state, pr_pending = (\<lambda>_. None), pr_starts = [], pr_ends = [],
     pr_start_calls = [], pr_end_calls = []\<rparr>"

text \<open>
  The steps of the threads, in any order: a thread that is in no call begins one, or a call ends with a time or with
  an error. The readings of the clocks while a call waits are its own, so every end has its clocks.
\<close>

inductive thread_step :: "process \<Rightarrow> process \<Rightarrow> bool" where
  start_begins: "pr_pending p k = None \<Longrightarrow>
    thread_step p (p\<lparr>pr_pending := (pr_pending p)(k \<mapsto> InStart (start_begin (pr_state p)) (pr_starts p))\<rparr>)"
| start_returns: "pr_pending p k = Some (InStart b before) \<Longrightarrow> start_finish c k b (pr_state p) = Some (Inr t, s') \<Longrightarrow>
    thread_step p (p\<lparr>pr_state := s', pr_pending := (pr_pending p)(k := None), pr_starts := pr_starts p @ [t],
      pr_start_calls := pr_start_calls p @ [(before, t)]\<rparr>)"
| start_raises: "pr_pending p k = Some (InStart b before) \<Longrightarrow> start_finish c k b (pr_state p) = Some (Inl e, s') \<Longrightarrow>
    thread_step p (p\<lparr>pr_state := s', pr_pending := (pr_pending p)(k := None)\<rparr>)"
| end_begins: "pr_pending p k = None \<Longrightarrow>
    thread_step p (p\<lparr>pr_pending := (pr_pending p)(k \<mapsto> InEnd (end_begin (pr_state p)) (pr_ends p))\<rparr>)"
| end_returns: "pr_pending p k = Some (InEnd b before) \<Longrightarrow> end_finish c k b (pr_state p) = Some (Inr t, s') \<Longrightarrow>
    thread_step p (p\<lparr>pr_state := s', pr_pending := (pr_pending p)(k := None), pr_ends := pr_ends p @ [t],
      pr_end_calls := pr_end_calls p @ [(before, t)]\<rparr>)"
| end_raises: "pr_pending p k = Some (InEnd b before) \<Longrightarrow> end_finish c k b (pr_state p) = Some (Inl e, s') \<Longrightarrow>
    thread_step p (p\<lparr>pr_state := s', pr_pending := (pr_pending p)(k := None)\<rparr>)"

subsection \<open>The largest recorded time\<close>

lemma max_list_ge: "m \<le> max_list m xs \<and> (\<forall>x \<in> set xs. x \<le> max_list m xs)"
  by (induction m xs rule: max_list.induct) auto

lemma max_list_in: "max_list m xs = m \<or> max_list m xs \<in> set xs"
  by (induction m xs rule: max_list.induct) (auto simp: max_def)

lemma max_value_ge: "v \<in> snd ` set d \<Longrightarrow> v \<le> max_value d"
proof (cases d)
  case (Cons p ps)
  assume "v \<in> snd ` set d"
  then have "v = snd p \<or> v \<in> set (map snd ps)" using Cons by auto
  then show ?thesis using max_list_ge [of "snd p" "map snd ps"] Cons by (auto simp: max_value_def)
qed simp

lemma max_value_in: "d \<noteq> [] \<Longrightarrow> max_value d \<in> snd ` set d"
proof (cases d)
  case (Cons p ps)
  have "max_value d \<in> set (map snd (p # ps))"
    using max_list_in [of "snd p" "map snd ps"] by (auto simp: max_value_def Cons)
  then show ?thesis by (simp add: Cons)
qed simp

lemma dict_set_values: "v \<in> snd ` set (dict_set k v d) \<and> snd ` set (dict_set k v d) \<subseteq> insert v (snd ` set d)"
proof (induction k v d rule: dict_set.induct)
  case (2 k v k' v' d)
  show ?case
  proof (cases "k' = k")
    case True
    then show ?thesis by auto
  next
    case False
    then show ?thesis using 2 [OF False] by auto
  qed
qed simp

lemma max_value_dict_set:
  assumes "d = [] \<or> max_value d \<le> v"
  shows "max_value (dict_set k v d) = v"
proof (rule antisym)
  note vals = dict_set_values [of v k d]
  have "max_value (dict_set k v d) \<in> snd ` set (dict_set k v d)" by (simp add: max_value_in)
  then have "max_value (dict_set k v d) = v \<or> max_value (dict_set k v d) \<in> snd ` set d" using vals by auto
  then show "max_value (dict_set k v d) \<le> v"
  proof
    assume m: "max_value (dict_set k v d) \<in> snd ` set d"
    then have "d \<noteq> []" by auto
    then show ?thesis using max_value_ge [OF m] assms by linarith
  qed simp
  show "v \<le> max_value (dict_set k v d)" using vals by (simp add: max_value_ge)
qed

subsection \<open>Waiting\<close>

lemma wait_clock_result:
  assumes "wait_clock c behind t0 t i = Some (Inr u, j)"
  shows "\<not> behind u"
proof -
  have "\<forall>u j. r = (Inr u, j) \<longrightarrow> \<not> behind u" if "wait_clock c behind t0 t i = Some r" for r
    by (rule wait_clock.raw_induct [OF _ that, of "\<lambda>_ behind _ _ _ r. \<forall>u j. r = (Inr u, j) \<longrightarrow> \<not> behind u"])
      (fastforce split: if_splits)
  then show ?thesis using assms by blast
qed

lemma wait_clock_error:
  assumes "wait_clock c behind t0 t i = Some (Inl e, j)"
  shows "e = TimeoutError"
proof -
  have "\<forall>e j. r = (Inl e, j) \<longrightarrow> e = TimeoutError" if "wait_clock c behind t0 t i = Some r" for r
    by (rule wait_clock.raw_induct [OF _ that, of "\<lambda>_ _ _ _ _ r. \<forall>e j. r = (Inl e, j) \<longrightarrow> e = TimeoutError"])
      (fastforce split: if_splits)
  then show ?thesis using assms by blast
qed

lemma wait_clock_terminates:
  assumes mono: "\<And>k. monotonic c k < monotonic c (Suc k)"
  shows "\<exists>r. wait_clock c behind t0 t i = Some r"
proof (induction "nat (t0 + max_sync_wait_time + 1 - monotonic c i)" arbitrary: t i rule: less_induct)
  case less
  show ?case
  proof (cases "behind t \<and> monotonic c i - t0 \<le> max_sync_wait_time")
    case False
    then show ?thesis by (subst wait_clock.simps) auto
  next
    case True
    have "monotonic c i < monotonic c (Suc (Suc i))" using mono [of i] mono [of "Suc i"] by simp
    then have "nat (t0 + max_sync_wait_time + 1 - monotonic c (Suc (Suc i))) < nat (t0 + max_sync_wait_time + 1 - monotonic c i)"
      using True by linarith
    from less.hyps [OF this, of "wall c (Suc i)"] show ?thesis using True by (subst wait_clock.simps) auto
  qed
qed

lemma start_finish_result:
  assumes "start_finish c k b s = Some (r, s')"
  shows "case r of Inl e \<Rightarrow> last_known_end_times s' = last_known_end_times s \<and> last_known_start_times s' = last_known_start_times s
    | Inr t \<Rightarrow> b < t \<and> last_known_end_times s' = dict_set k t (last_known_end_times s) \<and> last_known_start_times s' = last_known_start_times s"
  using assms by (auto simp: start_finish_def Let_def dest!: wait_clock_result split: option.splits prod.splits sum.splits)

lemma end_finish_result:
  assumes "end_finish c k b s = Some (r, s')"
  shows "case r of Inl e \<Rightarrow> last_known_end_times s' = last_known_end_times s \<and> last_known_start_times s' = last_known_start_times s
    | Inr t \<Rightarrow> b \<le> t \<and> last_known_start_times s' = dict_set k t (last_known_start_times s) \<and> last_known_end_times s' = last_known_end_times s"
  using assms by (auto simp: end_finish_def Let_def dest!: wait_clock_result split: option.splits prod.splits sum.splits)

subsection \<open>Threads\<close>

text \<open>
  Recording a time for a thread never lowers the largest known time, because the time recorded before for the same
  thread was known when its call began.
\<close>

lemma max_value_grows:
  assumes "\<And>v. map_of d k = Some v \<Longrightarrow> v \<le> t" "distinct (map fst d)" "x \<le> max_value d" "d = [] \<Longrightarrow> x \<le> t"
  shows "x \<le> max_value (dict_set k t d)" "t \<le> max_value (dict_set k t d)"
proof -
  show t: "t \<le> max_value (dict_set k t d)" using dict_set_values [of t k d] by (simp add: max_value_ge)
  show "x \<le> max_value (dict_set k t d)"
  proof (cases "d = []")
    case False
    then obtain k' where k': "(k', max_value d) \<in> set d" using max_value_in [of d] by auto
    show ?thesis
    proof (cases "k' = k")
      case True
      then show ?thesis using k' assms(1) [of "max_value d"] assms(2,3) t by simp
    next
      case False
      then have "map_of (dict_set k t d) k' = Some (max_value d)" using k' assms(2) by simp
      then have "max_value d \<in> snd ` set (dict_set k t d)" by (metis map_of_SomeD rev_image_eqI snd_conv)
      then show ?thesis using max_value_ge assms(3) by fastforce
    qed
  qed (use assms(4) t in simp)
qed

text \<open>
  All times returned so far are known, a call in progress began with a time that is not below those returned
  before it and not below the one recorded for its thread, and the calls that returned are in order.
\<close>

definition known :: "(thread_key \<times> int) list \<Rightarrow> int list \<Rightarrow> bool" where
  "known d ts \<longleftrightarrow> distinct (map fst d) \<and> (d = [] \<longrightarrow> ts = []) \<and> (\<forall>t \<in> set ts. t \<le> max_value d)"

definition bounded :: "(thread_key \<times> int) list \<Rightarrow> thread_key \<Rightarrow> int \<Rightarrow> int list \<Rightarrow> bool" where
  "bounded d k b before \<longleftrightarrow> (\<forall>t \<in> set before. t \<le> b) \<and> (\<forall>v. map_of d k = Some v \<longrightarrow> v \<le> b)"

definition ordered_process :: "process \<Rightarrow> bool" where
  "ordered_process p \<longleftrightarrow>
     known (last_known_end_times (pr_state p)) (pr_starts p) \<and> known (last_known_start_times (pr_state p)) (pr_ends p) \<and>
     (\<forall>k b before. pr_pending p k = Some (InStart b before) \<longrightarrow> bounded (last_known_end_times (pr_state p)) k b before) \<and>
     (\<forall>k b before. pr_pending p k = Some (InEnd b before) \<longrightarrow> bounded (last_known_start_times (pr_state p)) k b before) \<and>
     (\<forall>(before, t) \<in> set (pr_start_calls p). \<forall>x \<in> set before. x < t) \<and>
     (\<forall>(before, t) \<in> set (pr_end_calls p). \<forall>x \<in> set before. x \<le> t)"

lemma known_bounded:
  assumes "known d ts"
  shows "bounded d k (max_value d) ts"
  using assms by (auto simp: known_def bounded_def intro!: max_value_ge rev_image_eqI dest!: map_of_SomeD)

lemma known_returned:
  assumes "known d ts" "bounded d k b before" "b \<le> t"
  shows "known (dict_set k t d) (ts @ [t])"
proof -
  have v: "\<And>v. map_of d k = Some v \<Longrightarrow> v \<le> t" using assms(2,3) by (fastforce simp: bounded_def)
  have d: "distinct (map fst d)" "\<And>x. x \<in> set ts \<Longrightarrow> x \<le> max_value d" "d = [] \<Longrightarrow> ts = []"
    using assms(1) by (auto simp: known_def)
  have "x \<le> max_value (dict_set k t d)" if x: "x \<in> set ts" for x
  proof (rule max_value_grows(1) [OF v d(1) d(2) [OF x]])
    show "d = [] \<Longrightarrow> x \<le> t" using d(3) x by simp
  qed
  moreover have "t \<le> max_value (dict_set k t d)" using dict_set_values [of t k d] by (simp add: max_value_ge)
  ultimately show ?thesis using d(1) by (auto simp: known_def)
qed

lemma bounded_other: "k' \<noteq> k \<Longrightarrow> bounded (dict_set k t d) k' b before = bounded d k' b before"
  by (simp add: bounded_def)

lemma thread_step_ordered:
  assumes "thread_step p p'" "ordered_process p"
  shows "ordered_process p'"
  using assms(1)
proof (cases rule: thread_step.cases)
  case (start_returns k b before c t s')
  have r: "b < t" "last_known_end_times s' = dict_set k t (last_known_end_times (pr_state p))"
    "last_known_start_times s' = last_known_start_times (pr_state p)"
    using start_finish_result [OF start_returns(3)] by simp_all
  have "bounded (last_known_end_times (pr_state p)) k b before" using assms(2) start_returns(2) unfolding ordered_process_def by blast
  then show ?thesis
    using assms(2) r known_returned [of _ "pr_starts p" k b before t] unfolding start_returns(1) ordered_process_def
    by (auto simp: bounded_other bounded_def [of _ k b before] simp del: split_paired_All)
next
  case (end_returns k b before c t s')
  have r: "b \<le> t" "last_known_start_times s' = dict_set k t (last_known_start_times (pr_state p))"
    "last_known_end_times s' = last_known_end_times (pr_state p)"
    using end_finish_result [OF end_returns(3)] by simp_all
  have "bounded (last_known_start_times (pr_state p)) k b before" using assms(2) end_returns(2) unfolding ordered_process_def by blast
  then show ?thesis
    using assms(2) r known_returned [of _ "pr_ends p" k b before t] unfolding end_returns(1) ordered_process_def
    by (auto simp: bounded_other bounded_def [of _ k b before] simp del: split_paired_All)
qed (use assms(2) known_bounded in \<open>auto simp: ordered_process_def start_begin_def end_begin_def simp del: split_paired_All
    dest!: start_finish_result end_finish_result\<close>)

lemma reachable_ordered: "thread_step\<^sup>*\<^sup>* initial_process p \<Longrightarrow> ordered_process p"
proof (induction rule: rtranclp_induct)
  case base
  show ?case by (simp add: ordered_process_def initial_process_def initial_time_state_def known_def)
qed (rule thread_step_ordered)

subsection \<open>Properties\<close>

text \<open>C27: the order of the times of a process. However the calls of the threads interleave, every start time is larger
  than all start times that any thread had got before the call began, and every end time is not smaller than the end
  times got before. Calls that overlap are not ordered.\<close>

theorem time_provider_order:
  assumes "thread_step\<^sup>*\<^sup>* initial_process p"
  shows "(\<forall>(before, t) \<in> set (pr_start_calls p). \<forall>x \<in> set before. x < t) \<and>
    (\<forall>(before, t) \<in> set (pr_end_calls p). \<forall>x \<in> set before. x \<le> t)"
  using reachable_ordered [OF assms] by (simp add: ordered_process_def)

text \<open>Two threads whose calls overlap get the same start time; a call that begins after both returned gets a larger one.\<close>

definition ex_clock :: clock where
  "ex_clock = \<lparr>wall = (\<lambda>i. 100 + int i div 6), monotonic = int\<rparr>"

lemma ex_start_finish:
  "start_finish ex_clock k 0 \<lparr>last_known_start_times = [], last_known_end_times = d, readings = 0\<rparr> =
     Some (Inr 100, \<lparr>last_known_start_times = [], last_known_end_times = dict_set k 100 d, readings = 2\<rparr>)"
  "start_finish ex_clock k 0 \<lparr>last_known_start_times = [], last_known_end_times = d, readings = 2\<rparr> =
     Some (Inr 100, \<lparr>last_known_start_times = [], last_known_end_times = dict_set k 100 d, readings = 4\<rparr>)"
  "start_finish ex_clock k 100 \<lparr>last_known_start_times = [], last_known_end_times = d, readings = 4\<rparr> =
     Some (Inr 101, \<lparr>last_known_start_times = [], last_known_end_times = dict_set k 101 d, readings = 8\<rparr>)"
  by (simp_all add: start_finish_def Let_def wait_clock.simps ex_clock_def max_sync_wait_time_def NANOS_PER_SEC_def)

lemma ex_threads:
  "\<exists>p. thread_step\<^sup>*\<^sup>* initial_process p \<and> pr_starts p = [100, 100, 101] \<and>
     pr_start_calls p = [([], 100), ([], 100), ([100, 100], 101)]"
proof -
  let ?p0 = "initial_process" and ?a = "(1, 1) :: thread_key" and ?b = "(1, 2) :: thread_key"
  let ?p1 = "?p0\<lparr>pr_pending := (\<lambda>_. None)(?a \<mapsto> InStart 0 [])\<rparr>"
  let ?p2 = "?p0\<lparr>pr_pending := (\<lambda>_. None)(?a \<mapsto> InStart 0 [], ?b \<mapsto> InStart 0 [])\<rparr>"
  let ?s3 = "\<lparr>last_known_start_times = [], last_known_end_times = [(?a, 100)], readings = 2\<rparr>"
  let ?p3 = "?p0\<lparr>pr_state := ?s3, pr_pending := (\<lambda>_. None)(?b \<mapsto> InStart 0 []), pr_starts := [100], pr_start_calls := [([], 100)]\<rparr>"
  let ?s4 = "\<lparr>last_known_start_times = [], last_known_end_times = [(?a, 100), (?b, 100)], readings = 4\<rparr>"
  let ?p4 = "?p0\<lparr>pr_state := ?s4, pr_starts := [100, 100], pr_start_calls := [([], 100), ([], 100)]\<rparr>"
  let ?p5 = "?p4\<lparr>pr_pending := (\<lambda>_. None)(?a \<mapsto> InStart 100 [100, 100])\<rparr>"
  let ?s6 = "\<lparr>last_known_start_times = [], last_known_end_times = [(?a, 101), (?b, 100)], readings = 8\<rparr>"
  let ?p6 = "?p4\<lparr>pr_state := ?s6, pr_starts := [100, 100, 101], pr_start_calls := [([], 100), ([], 100), ([100, 100], 101)]\<rparr>"
  note defs = initial_process_def initial_time_state_def start_begin_def max_value_def
  have "thread_step ?p0 ?p1" using start_begins [of ?p0 ?a] by (simp add: defs)
  moreover have "thread_step ?p1 ?p2" using start_begins [of ?p1 ?b] by (simp add: defs)
  moreover have "thread_step ?p2 ?p3"
    using start_returns [of ?p2 ?a 0 "[]" ex_clock 100 ?s3] ex_start_finish(1) [of ?a "[]"] by (simp add: defs fun_upd_twist)
  moreover have "thread_step ?p3 ?p4"
    using start_returns [of ?p3 ?b 0 "[]" ex_clock 100 ?s4] ex_start_finish(2) [of ?b "[(?a, 100)]"] by (simp add: defs)
  moreover have "thread_step ?p4 ?p5" using start_begins [of ?p4 ?a] by (simp add: defs)
  moreover have "thread_step ?p5 ?p6"
    using start_returns [of ?p5 ?a 100 "[100, 100]" ex_clock 101 ?s6] ex_start_finish(3) [of ?a "[(?a, 100), (?b, 100)]"] by (simp add: defs)
  ultimately have "thread_step\<^sup>*\<^sup>* ?p0 ?p6" by (meson rtranclp.rtrancl_into_rtrancl rtranclp.rtrancl_refl)
  then show ?thesis by (intro exI [of _ ?p6]) simp
qed

theorem time_provider_order_witness:
  "\<exists>p. thread_step\<^sup>*\<^sup>* initial_process p \<and> ([100, 100], 101) \<in> set (pr_start_calls p) \<and>
     (\<forall>(before, t) \<in> set (pr_start_calls p). \<forall>x \<in> set before. x < t)"
proof -
  obtain p where p: "thread_step\<^sup>*\<^sup>* initial_process p" "pr_start_calls p = [([], 100), ([], 100), ([100, 100], 101)]"
    using ex_threads by blast
  from p(1) time_provider_order [OF p(1)] show ?thesis by (intro exI [of _ p]) (simp add: p(2))
qed

text \<open>C28: taking a time always returns. Whatever the wall clock does, with a monotonic clock that moves
  on between readings both methods return: a time, or the timeout error after the largest wait.\<close>

theorem time_provider_returns:
  assumes "\<And>k. monotonic c k < monotonic c (Suc k)"
  shows "(\<exists>r s'. start_time c key s = Some (r, s') \<and> (r = Inl TimeoutError \<or> (\<exists>t. r = Inr t))) \<and>
         (\<exists>r s'. end_time c key s = Some (r, s') \<and> (r = Inl TimeoutError \<or> (\<exists>t. r = Inr t)))"
proof -
  have w: "\<exists>r j. wait_clock c behind t0 t i = Some (r, j) \<and> (r = Inl TimeoutError \<or> (\<exists>u. r = Inr u))" for behind t0 t i
  proof -
    obtain r j where rj: "wait_clock c behind t0 t i = Some (r, j)" using wait_clock_terminates [OF assms] by fastforce
    then show ?thesis using wait_clock_error by (cases r) blast+
  qed
  show ?thesis
    using w [of "\<lambda>t. t \<le> max_value (last_known_end_times s)" "monotonic c (readings s)" "wall c (Suc (readings s))" "Suc (Suc (readings s))"]
      w [of "\<lambda>t. t < max_value (last_known_start_times s)" "monotonic c (readings s)" "wall c (Suc (readings s))" "Suc (Suc (readings s))"]
    by (auto simp: start_time_def end_time_def start_finish_def end_finish_def start_begin_def end_begin_def Let_def)
qed

theorem time_provider_returns_witness:
  "(\<exists>r s'. start_time ex_clock (1, 1) initial_time_state = Some (r, s') \<and> (r = Inl TimeoutError \<or> (\<exists>t. r = Inr t))) \<and>
   (\<exists>r s'. end_time ex_clock (1, 1) initial_time_state = Some (r, s') \<and> (r = Inl TimeoutError \<or> (\<exists>t. r = Inr t)))"
  by (rule time_provider_returns) (simp add: ex_clock_def)

text \<open>A start time is not kept above the end times already handed out. The documentation of
  \<^verbatim>\<open>start_time\<close> promises a start time greater than the last known end time, but \<^verbatim>\<open>start_time\<close> records
  its own results where it looks for end times, and \<^verbatim>\<open>end_time\<close> records where start times are looked
  for. On a clock that repeats a reading the next transaction starts at the very time the previous
  one ended, and does not see its commit.\<close>

lemma start_time_not_after_end_time:
  "run_time_calls \<lparr>wall = (\<lambda>i. if i < 3 then 100 else 101), monotonic = int\<rparr>
     [StartCall (1, 1), EndCall (1, 1), StartCall (1, 1)] initial_time_state = Some ([100, 101], [101])"
  by code_simp

end
