(* ===== verification/TransactionLifecycle.thy ===== *)
theory TransactionLifecycle
  imports TransactionOutcomes
begin

text \<open>
  Rules of use of a transaction: which operations a transaction accepts, that a transaction on a
  historic timestamp never changes the catalog, that a transaction ends once, and that entering and
  leaving its context restores the context before it.
\<close>

subsection \<open>Runs of calls\<close>

text \<open>The states reached from \<open>s\<close> by any sequence of steps and seals, successful or not.\<close>

inductive txn_run :: "('fs, 'c, 'd) txn_env \<Rightarrow> 'fs \<times> 'c txn \<Rightarrow> 'fs \<times> 'c txn \<Rightarrow> bool" for T s where
  run_here: "txn_run T s s"
| run_step: "txn_run T s s' \<Longrightarrow> txn_step T k op s' = Some (r, s'') \<Longrightarrow> txn_run T s s''"
| run_seal: "txn_run T s s' \<Longrightarrow> txn_seal T now s' = Some (r, s'') \<Longrightarrow> txn_run T s s''"

text \<open>A started read-only transaction.\<close>

definition historic_txn :: "'c txn \<Rightarrow> bool" where
  "historic_txn t \<longleftrightarrow> txn_interactive t \<and> txn_historic_timestamp t \<noteq> None \<and> \<not> has_write_operations t"

lemma get_txn_id_state:
  assumes "get_txn_id u s = Some (r, s')"
  shows "fst s' = fst s \<and> txn_operations (snd s') = txn_operations (snd s) \<and> txn_interactive (snd s') = txn_interactive (snd s) \<and>
    txn_historic_timestamp (snd s') = txn_historic_timestamp (snd s)"
  using assms by (auto simp: get_txn_id_def assign_txn_id_def Let_def split: option.splits if_splits)

lemma step_read_state:
  assumes "step_read T op i s = Some (r, s')"
  shows "fst s' = fst s \<and> txn_operations (snd s') = txn_operations (snd s) \<and> txn_interactive (snd s') = txn_interactive (snd s) \<and>
    txn_historic_timestamp (snd s') = txn_historic_timestamp (snd s)"
  using assms
  by (auto simp: step_read_def pio_bind_def ask_fs_def upd_txn_def upd_op_def Let_def split: option.splits sum.splits)

lemma historic_step:
  assumes "historic_txn (snd s)" "txn_step T k op s = Some (r, s')"
  shows "fst s' = fst s \<and> historic_txn (snd s') \<and> (\<not> is_read_operation (op_type op) \<longrightarrow> (\<exists>e. r = Inl e))"
proof -
  obtain r1 s1 where g: "get_txn_id (te_uuid T) s = Some (r1, s1)" using assms(2) by (auto simp: txn_step_def pio_bind_def split: option.splits)
  note same = get_txn_id_state [OF g]
  have h1: "historic_txn (snd s1)" using assms(1) same by (simp add: historic_txn_def has_write_operations_def)
  show ?thesis
  proof (cases r1)
    case (Inl e)
    then show ?thesis using assms(2) g same h1 by (auto simp: txn_step_def pio_bind_def)
  next
    case (Inr i)
    have step: "txn_step T k op s =
      (if \<not> is_read_operation (op_type op) then Some (Inl RuntimeError, s1)
       else step_read T op i (fst s1, (snd s1)\<lparr>txn_operations := txn_operations (snd s1) @ [op]\<rparr>))"
      using g Inr h1 by (auto simp: txn_step_def pio_bind_def historic_txn_def Let_def)
    show ?thesis
    proof (cases "is_read_operation (op_type op)")
      case False
      then show ?thesis using assms(2) step same h1 by auto
    next
      case True
      then have "step_read T op i (fst s1, (snd s1)\<lparr>txn_operations := txn_operations (snd s1) @ [op]\<rparr>) = Some (r, s')"
        using step assms(2) by simp
      from step_read_state [OF this] show ?thesis
        using h1 True same by (auto simp: historic_txn_def has_write_operations_def)
    qed
  qed
qed

lemma historic_seal:
  assumes "historic_txn (snd s)" "txn_seal T now s = Some (r, s')"
  shows "fst s' = fst s \<and> historic_txn (snd s')"
proof -
  have "list_all (\<lambda>op. is_read_operation (op_type op)) (txn_operations (snd s))"
    using assms(1) by (auto simp: historic_txn_def has_write_operations_def list_all_iff)
  then show ?thesis
    using assms by (auto simp: txn_seal_def seal_steps_def historic_txn_def has_write_operations_def mark_end_time_def rbind_Inr_iff
        split: if_splits sum.splits)
qed

text \<open>C29: A transaction on a historic timestamp is read-only: whatever steps and seals are called on it, in
  any order and with any operations, the files stay exactly as they were, and no write operation is ever
  part of the transaction.\<close>

theorem historic_read_only:
  assumes "historic_txn (snd s)" "txn_run T s s'"
  shows "fst s' = fst s \<and> \<not> has_write_operations (snd s')"
proof -
  have "fst s' = fst s \<and> historic_txn (snd s')"
    using assms(2)
  proof (induction rule: txn_run.induct)
    case run_here
    show ?case using assms(1) by simp
  next
    case (run_step s' k op r s'')
    then show ?case using historic_step [of s' T k op r s''] by simp
  next
    case (run_seal s' now r s'')
    then show ?case using historic_seal [of s' T now r s''] by simp
  qed
  then show ?thesis by (simp add: historic_txn_def)
qed

definition ex_historic :: "unit txn" where
  "ex_historic = (txn_of None None)\<lparr>txn_start_time := Some 100, txn_historic_timestamp := Some 100, txn_id := Some ''100_u''\<rparr>"

theorem historic_read_only_witness:
  "\<exists>s'. txn_run ex_txn_env ([(''a'', 1)], ex_historic) s' \<and> fst s' = [(''a'', 1)] \<and>
     \<not> has_write_operations (snd s') \<and> txn_end_time (snd s') = Some 200"
proof -
  let ?s = "([(''a'', 1 :: nat)], ex_historic)" and ?op = "hd (txn_operations ex_session_txn)"
  have h: "historic_txn (snd ?s)"
    by (simp add: historic_txn_def ex_historic_def txn_of_def has_write_operations_def)
  have "txn_step ex_txn_env 0 ?op ?s = Some (Inl RuntimeError, ?s)"
    by (simp add: txn_step_def pio_bind_def get_txn_id_def assign_txn_id_def truthy_def ex_historic_def ex_session_txn_def
        is_read_operation_def read_operations_def Let_def)
  then have "txn_run ex_txn_env ?s ?s" by (rule run_step [OF run_here])
  moreover have "txn_seal ex_txn_env (Inr 200) ?s = Some (Inr (ReadResult []), ([(''a'', 1)], ex_historic\<lparr>txn_end_time := Some 200\<rparr>))"
    by (simp add: txn_seal_def seal_steps_def ex_historic_def txn_of_def has_write_operations_def mark_end_time_def time_set_def)
  ultimately have "txn_run ex_txn_env ?s ([(''a'', 1)], ex_historic\<lparr>txn_end_time := Some 200\<rparr>)" by (rule run_seal)
  then show ?thesis using historic_read_only [OF h] by (intro exI conjI) auto
qed

subsection \<open>Ending a transaction\<close>

text \<open>What every call keeps of a transaction once it has started.\<close>

definition same_life :: "'c txn \<Rightarrow> 'c txn \<Rightarrow> bool" where
  "same_life t t' \<longleftrightarrow> txn_start_time t' = txn_start_time t \<and> txn_end_time t' = txn_end_time t \<and>
     txn_interactive t' = txn_interactive t"

definition keeps_life :: "('fs \<times> 'c txn, 'a) pio \<Rightarrow> bool" where
  "keeps_life m \<longleftrightarrow> (\<forall>s r s'. m s = Some (r, s') \<longrightarrow> same_life (snd s) (snd s'))"

lemma keeps_lifeD: "keeps_life m \<Longrightarrow> m s = Some (r, s') \<Longrightarrow> same_life (snd s) (snd s')"
  unfolding keeps_life_def by blast

lemma same_life_refl: "same_life t t"
  by (simp add: same_life_def)

lemma keeps_life_bind [intro]: "keeps_life m \<Longrightarrow> (\<And>x. keeps_life (f x)) \<Longrightarrow> keeps_life (pio_bind m f)"
  unfolding keeps_life_def pio_bind_def same_life_def by (fastforce split: option.splits prod.splits sum.splits)

lemma keeps_life_try [intro]: "keeps_life m \<Longrightarrow> (\<And>e. keeps_life (h e)) \<Longrightarrow> keeps_life (pio_try m h)"
  unfolding keeps_life_def pio_try_def same_life_def by (fastforce split: option.splits prod.splits sum.splits)

lemma keeps_life_state: "(\<And>s. keeps_life (f s)) \<Longrightarrow> keeps_life (\<lambda>s. f s s)"
  unfolding keeps_life_def by blast

lemma keeps_life_basic [intro]:
  "keeps_life (pio_return x)" "keeps_life (pio_raise e)" "keeps_life (on_fs m)" "keeps_life (ask_fs g)"
  "keeps_life (get_txn_id u)" "keeps_life (serialized_txn T)" "keeps_life (upd_txn (\<lambda>t. t\<lparr>txn_running_log_written := b\<rparr>))"
  by (auto simp: keeps_life_def same_life_def on_fs_def ask_fs_def get_txn_id_def assign_txn_id_def serialized_txn_def
      upd_txn_def upd_op_def Let_def split: option.splits prod.splits if_splits)

lemma keeps_life_dump [intro]: "keeps_life (dump_txn T p)"
proof -
  have "keeps_life (on_fs (fs_write F p d))" "keeps_life (pio_bind (on_fs (fs_write F p d)) (\<lambda>_. pio_raise e))" for F d e
    by blast+
  note w = this [THEN keeps_lifeD]
  show ?thesis unfolding keeps_life_def
  proof (intro allI impI)
    fix s r s' assume "dump_txn T p s = Some (r, s')"
    then show "same_life (snd s) (snd s')"
      by (auto simp: dump_txn_def serialized_txn_def dest!: w split: sum.splits)
  qed
qed

lemma keeps_life_cleanup [intro]: "keeps_life (fail_and_cleanup T p q)"
proof -
  have "keeps_life (\<lambda>s. let t = snd s; F = te_fs T
       in pio_bind (on_fs (write_file_partitioned F (path_join (status_dir ST_FAILED (txn_root t)) i) data
                      (the (txn_start_time t)) epoch_timestamp_partition_transform 0)) (\<lambda>_ s'.
            Some (Inr (), (fold (delete_quietly F)
                   (txn_metafile_write_paths t @ txn_locator_write_paths t @ [p] @
                    (if truthy q then [the q] else [])) (fst s'), snd s'))) s)" for i data
    unfolding Let_def
    by (rule keeps_life_state, rule keeps_life_bind, blast) (auto simp: keeps_life_def same_life_def)
  then show ?thesis unfolding fail_and_cleanup_def by blast
qed

lemma keeps_life_write_success_log: "keeps_life (write_success_log T i e)"
proof -
  have w: "keeps_life (pio_bind (serialized_txn T) (\<lambda>data. on_fs (write_file_partitioned F p data v tr k)))" for F p v tr k
    by blast
  show ?thesis
    unfolding keeps_life_def
  proof (intro allI impI)
    fix s r s' assume run: "write_success_log T i e s = Some (r, s')"
    let ?p = "path_join (path_join (status_dir ST_SUCCESS (txn_root (snd s))) i) (int_to_str e)"
    obtain r1 s1 where m: "pio_bind (serialized_txn T) (\<lambda>data. on_fs (write_file_partitioned (te_fs T) ?p data
        (the (txn_start_time (snd s))) epoch_timestamp_partition_transform 1)) s = Some (r1, s1)"
      using run by (auto simp: write_success_log_def Let_def split: option.splits)
    have l1: "same_life (snd s) (snd s1)" using w m unfolding keeps_life_def by blast
    let ?g = "\<lambda>q. pio_bind (fail_and_cleanup T (running_log_path (snd s) i) (Some q)) (\<lambda>_. pio_raise RuntimeError) :: ('a \<times> 'b txn, string) pio"
    have g: "keeps_life (?g q)" for q by blast
    have "s' = s1 \<or> (\<exists>q. ?g q s1 = Some (r, s'))"
      using run m by (auto simp: write_success_log_def Let_def split: option.splits sum.splits)
    then have "same_life (snd s1) (snd s')"
    proof
      assume "\<exists>q. ?g q s1 = Some (r, s')"
      then obtain q where "?g q s1 = Some (r, s')" ..
      then show ?thesis by (rule keeps_lifeD [OF g])
    qed (simp add: same_life_refl)
    then show "same_life (snd s) (snd s')" using l1 by (simp add: same_life_def)
  qed
qed

lemma keeps_life_seal_writes: "keeps_life (seal_writes T e)"
proof -
  have log: "keeps_life (if b then pio_return () else write_running_log T p)" for b p
    unfolding write_running_log_def by auto
  have "keeps_life (\<lambda>s. let t = snd s; running_path = running_log_path t i
       in pio_bind (if txn_running_log_written t then pio_return () else write_running_log T running_path) (\<lambda>_.
          pio_bind (cleanup_on_error T running_path
                      (ask_fs (\<lambda>fs. Some (check_conflicts (te_fs T) fs (status_dir ST_SUCCESS (txn_root t))
                                 (txn_metafile_write_paths t @ txn_locator_write_paths t))))) (\<lambda>_.
          pio_bind (write_success_log T i e) (\<lambda>success_log_path.
          pio_bind (on_fs (fs_delete_file (te_fs T) running_path)) (\<lambda>_.
            pio_return
              (if list_all (\<lambda>op. is_write_operation (op_type op)) (txn_operations t)
               then WriteResult (txn_metafile_write_paths t) success_log_path
               else MixedResult (txn_list_results t) (txn_metafile_write_paths t) success_log_path))))) s)" for i
    unfolding Let_def cleanup_on_error_def
    by (rule keeps_life_state) (intro keeps_life_bind keeps_life_try keeps_life_basic log keeps_life_write_success_log keeps_life_cleanup)
  then show ?thesis unfolding seal_writes_def by blast
qed

lemma sealed_end_time:
  assumes "txn_seal T (Inr e) s = Some (r, s')" "txn_interactive (snd s)" "time_set (txn_start_time (snd s))"
    "\<not> (txn_historic_timestamp (snd s) \<noteq> None \<and> has_write_operations (snd s))" "e \<noteq> 0"
  shows "txn_interactive (snd s') \<and> time_set (txn_start_time (snd s')) \<and> time_set (txn_end_time (snd s'))"
proof -
  have steps: "seal_steps T (Inr e) s = Some (r, s')" using assms(1,2,4) by (auto simp: txn_seal_def split: if_splits)
  show ?thesis
  proof (cases "time_set (txn_end_time (snd s))")
    case True
    then show ?thesis using steps assms(2,3) by (auto simp: seal_steps_def mark_end_time_def)
  next
    case False
    let ?t = "(snd s)\<lparr>txn_end_time := Some e\<rparr>"
    have t: "txn_interactive ?t" "time_set (txn_start_time ?t)" "time_set (txn_end_time ?t)"
      using assms by (simp_all add: time_set_def)
    have "snd s' = ?t \<or> seal_writes T e (fst s, ?t) = Some (r, s')"
      using steps False assms(3) by (auto simp: seal_steps_def mark_end_time_def split: if_splits)
    then have "same_life ?t (snd s')" using keeps_lifeD [OF keeps_life_seal_writes] by (fastforce simp: same_life_refl)
    then show ?thesis using t by (simp add: same_life_def)
  qed
qed

text \<open>C31: A transaction ends once. After \<^verbatim>\<open>seal\<close> has returned or raised on a started transaction, sealing or
  pausing it again raises, and a second \<^verbatim>\<open>seal\<close> touches neither the files nor the transaction: a
  transaction whose writes were cleaned up cannot be committed later.\<close>

theorem seal_once:
  assumes "txn_seal T (Inr e) s = Some (r, s')" "txn_interactive (snd s)" "time_set (txn_start_time (snd s))"
    "\<not> (txn_historic_timestamp (snd s) \<noteq> None \<and> has_write_operations (snd s))" "e \<noteq> 0"
  shows "txn_seal T now s' = Some (Inl RuntimeError, s') \<and> mark_pause_time now (snd s') = Inl RuntimeError \<and>
    mark_start_time now (snd s') = Inl RuntimeError"
  using sealed_end_time [OF assms]
  by (auto simp: txn_seal_def seal_steps_def mark_end_time_def mark_pause_time_def mark_start_time_def)

theorem seal_once_witness:
  "\<exists>r s'. txn_seal ex_txn_env (Inr 200) ([(''a'', 1)], ex_historic) = Some (r, s') \<and>
     txn_seal ex_txn_env (Inr 300) s' = Some (Inl RuntimeError, s') \<and> mark_pause_time (Inr 300) (snd s') = Inl RuntimeError \<and>
     mark_start_time (Inr 300) (snd s') = Inl RuntimeError"
proof -
  let ?s = "([(''a'', 1 :: nat)], ex_historic)" and ?s' = "([(''a'', 1 :: nat)], ex_historic\<lparr>txn_end_time := Some 200\<rparr>)"
  have "txn_seal ex_txn_env (Inr 200) ?s = Some (Inr (ReadResult []), ?s')"
    by (simp add: txn_seal_def seal_steps_def ex_historic_def txn_of_def has_write_operations_def mark_end_time_def time_set_def)
  moreover from seal_once [OF this] have "txn_seal ex_txn_env (Inr 300) ?s' = Some (Inl RuntimeError, ?s') \<and>
      mark_pause_time (Inr 300) (snd ?s') = Inl RuntimeError \<and> mark_start_time (Inr 300) (snd ?s') = Inl RuntimeError"
    by (simp add: ex_historic_def txn_of_def time_set_def has_write_operations_def)
  ultimately show ?thesis by blast
qed

subsection \<open>Pausing and resuming\<close>

abbreviation paused_log :: "'c txn \<Rightarrow> int \<Rightarrow> string \<Rightarrow> string" where
  "paused_log t st u \<equiv> log_path (txn_root t) ST_PAUSED [txn_id_of st u]"

lemma dirname_log:
  assumes "txn_active st u t"
  shows "dirname (log_path (txn_root t) s [txn_id_of st u]) = status_dir s (txn_root t)"
proof -
  note a = txn_activeD [OF assms]
  have "dir_path (log_path (txn_root t) s [])" using dir_path_log_path [OF a(7)] by simp
  from dirname_path_join [OF this a(3)] show ?thesis by (simp add: log_paths)
qed

context file_store begin

text \<open>Moving a log file: both operations write the new log and then delete the old one.\<close>

lemma move_log:
  assumes F: "te_fs T = F" and active: "txn_active st u t" and ok: "ok fs" and old: "contents fs old \<noteq> None" "new \<noteq> old"
  shows "\<exists>fs' x. pio_bind (dump_txn T new) (\<lambda>_. on_fs (fs_delete_file F old)) (fs, t) = Some (Inr (), (fs', t)) \<and> ok fs' \<and>
    contents fs' = (contents fs)(new \<mapsto> te_dumps T x, old := None) \<and> ser_provider x = provider_name (txn_provider t)"
proof -
  obtain x where ser: "txn_to_serializable (txn_root t) (te_uuids T) t = Inr x"
    using active_serializable [OF active, of "te_uuids T"] by blast
  then have p: "ser_provider x = provider_name (txn_provider t)" by (auto simp: txn_to_serializable_def rbind_Inr_iff)
  obtain fs2 where 2: "fs_write F new (te_dumps T x) fs = (Inr (), fs2)" "ok fs2" "contents fs2 = (contents fs)(new \<mapsto> te_dumps T x)"
    using write_law [OF ok] by blast
  have "contents fs2 old \<noteq> None" using old 2(3) by simp
  then obtain fs3 where 3: "fs_delete_file F old fs2 = (Inr (), fs3)" "ok fs3" "contents fs3 = (contents fs2)(old := None)"
    using delete_law [OF 2(2), of old] by auto
  have "pio_bind (dump_txn T new) (\<lambda>_. on_fs (fs_delete_file F old)) (fs, t) = Some (Inr (), (fs3, t))"
    by (simp add: pio_bind_def on_fs_def dump_txn_def serialized_txn_def ser F 2(1) 3(1))
  then show ?thesis using 2(3) 3(2,3) p by auto
qed

lemma pause_outcome:
  assumes F: "te_fs T = F" and active: "txn_active st u t" and ok: "ok fs" and run: "contents fs (running_log t st u) \<noteq> None"
    and t: "\<not> time_set (txn_end_time t)"
  shows "\<exists>fs' x. txn_pause T (Inr n) (fs, t) = Some (Inr (), (fs', t\<lparr>txn_pause_time := Some n\<rparr>)) \<and> ok fs' \<and>
    contents fs' = (contents fs)(paused_log t st u \<mapsto> te_dumps T x, running_log t st u := None) \<and>
    ser_provider x = provider_name (txn_provider t)"
proof -
  note a = txn_activeD [OF active]
  let ?t = "t\<lparr>txn_pause_time := Some n\<rparr>"
  have act: "txn_active st u ?t" using active by (simp add: txn_active_def txn_metafile_write_paths_def txn_locator_write_paths_def)
  have ne: "paused_log t st u \<noteq> running_log t st u" using log_path_inject [OF a(7)] a(3) by simp
  have mark: "mark_pause_time (Inr n) t = Inr ?t" using t a(4,5) by (simp add: mark_pause_time_def time_set_def)
  obtain fs1 where 1: "fs_create_dir F (dirname (paused_log t st u)) True fs = (Inr (), fs1)" "ok fs1" "contents fs1 = contents fs"
    using create_law [OF ok] by blast
  have "contents fs1 (running_log t st u) \<noteq> None" using run 1(3) by simp
  from move_log [OF F act 1(2) this ne] obtain fs' x where 2:
    "pio_bind (dump_txn T (paused_log t st u)) (\<lambda>_. on_fs (fs_delete_file F (running_log t st u))) (fs1, ?t) = Some (Inr (), (fs', ?t))" "ok fs'"
    "contents fs' = (contents fs)(paused_log t st u \<mapsto> te_dumps T x, running_log t st u := None)"
    "ser_provider x = provider_name (txn_provider t)"
    unfolding 1(3) by auto
  have "txn_pause T (Inr n) (fs, t) = Some (Inr (), (fs', ?t))"
    unfolding txn_pause_def pio_bind_def [of "get_txn_id (te_uuid T)"]
    by (simp add: a(9) Let_def log_path_status log_path_join F pio_bind_def [of "on_fs (fs_create_dir F p r)" for p r]
        on_fs_def [of "fs_create_dir F p r" for p r] 1(1) mark 2(1))
  then show ?thesis using 2(2-4) by auto
qed

lemma resume_outcome:
  assumes F: "te_fs T = F" and active: "txn_active st u t" and ok: "ok fs"
    and paused: "contents fs (paused_log t st u) = Some d" "loads d = Inr x" "ser_provider x = ''TransactionSystemTimeProvider''"
    and t: "txn_pause_time t = Some n" "n \<le> n'"
  shows "\<exists>fs' y. txn_resume T loads (Inr n') (fs, t) = Some (Inr (), (fs', t\<lparr>txn_provider := Some SystemProvider\<rparr>)) \<and> ok fs' \<and>
    contents fs' = (contents fs)(running_log t st u \<mapsto> te_dumps T y, paused_log t st u := None)"
proof -
  note a = txn_activeD [OF active]
  let ?t = "t\<lparr>txn_provider := Some SystemProvider\<rparr>"
  have act: "txn_active st u ?t" using active by (simp add: txn_active_def txn_metafile_write_paths_def txn_locator_write_paths_def)
  have ne: "running_log t st u \<noteq> paused_log t st u" using log_path_inject [OF a(7)] a(3) by simp
  obtain fs1 where 1: "fs_create_dir F (dirname (running_log t st u)) True fs = (Inr (), fs1)" "ok fs1" "contents fs1 = contents fs"
    using create_law [OF ok] by blast
  have "contents fs1 (paused_log t st u) \<noteq> None" using paused(1) 1(3) by simp
  from move_log [OF F act 1(2) this ne] obtain fs' y where 2:
    "pio_bind (dump_txn T (running_log t st u)) (\<lambda>_. on_fs (fs_delete_file F (paused_log t st u))) (fs1, ?t) = Some (Inr (), (fs', ?t))" "ok fs'"
    "contents fs' = (contents fs)(running_log t st u \<mapsto> te_dumps T y, paused_log t st u := None)"
    unfolding 1(3) by auto
  have "txn_resume T loads (Inr n') (fs, t) = Some (Inr (), (fs', ?t))"
    unfolding txn_resume_def pio_bind_def [of "get_txn_id (te_uuid T)"]
    by (simp add: a(9) Let_def log_path_status log_path_join F read_law [OF ok] paused read_time_provider_def t
        pio_bind_def [of "on_fs (fs_create_dir F p r)" for p r] on_fs_def [of "fs_create_dir F p r" for p r] 1(1) 2(1) not_less)
  then show ?thesis using 2(2,3) by auto
qed

lemma state_undecided:
  assumes "ok fs" "txn_active st u t" "undecided (contents fs) st u t"
  shows "fst (txn_state_of F (txn_root t) (txn_id_of st u) fs) =
    Inr (if contents fs (running_log t st u) \<noteq> None then Some TS_RUNNING
         else if contents fs (paused_log t st u) \<noteq> None \<or> (\<exists>q. contents fs q \<noteq> None \<and> below (paused_log t st u) q \<noteq> None)
         then Some TS_PAUSED else None)"
proof -
  have d: "p \<noteq> failed_log t st u \<and> p \<noteq> success_dir t st u \<and> below (failed_log t st u) p = None \<and>
      below (success_dir t st u) p = None \<and> below (running_log t st u) p = None" if "contents fs p \<noteq> None" for p
    using assms(3) that unfolding undecided_def by simp
  have gone: "(contents fs (failed_log t st u) \<noteq> None \<or> (\<exists>q. contents fs q \<noteq> None \<and> below (failed_log t st u) q \<noteq> None)) = False"
    "(contents fs (success_dir t st u) \<noteq> None \<or> (\<exists>q. contents fs q \<noteq> None \<and> below (success_dir t st u) q \<noteq> None)) = False"
    "(\<exists>q. contents fs q \<noteq> None \<and> below (running_log t st u) q \<noteq> None) = False"
    using d by metis+
  show ?thesis unfolding state_law [OF assms(1,2)] Let_def state_of_presence_def gone by simp
qed

end

lemma undecided_upd:
  assumes "undecided c st u t"
  shows "undecided (c(p := None)) st u t"
    and "txn_active st u t \<Longrightarrow> s \<in> {ST_RUNNING, ST_PAUSED} \<Longrightarrow> undecided (c(log_path (txn_root t) s [txn_id_of st u] \<mapsto> d)) st u t"
proof -
  show "undecided (c(p := None)) st u t" using assms by (simp add: undecided_def)
  assume active: "txn_active st u t" and s: "s \<in> {ST_RUNNING, ST_PAUSED}"
  note a = txn_activeD [OF active]
  let ?l = "log_path (txn_root t) s [txn_id_of st u]"
  have ns: "\<forall>n \<in> set [txn_id_of st u]. component n" "\<forall>n \<in> set (start_dirs st @ [txn_id_of st u]). component n" using a(2,3) by auto
  have "?l \<notin> {failed_log t st u, success_dir t st u}" using log_path_inject [OF a(7)] ns s by auto
  moreover have "below (failed_log t st u) ?l = None" "below (success_dir t st u) ?l = None" "below (running_log t st u) ?l = None"
    using below_log_path [OF a(7)] ns s by auto
  ultimately show "undecided (c(?l \<mapsto> d)) st u t" using assms unfolding undecided_def by (metis fun_upd_other)
qed

text \<open>C30: Pausing moves the running log to the paused logs and resuming moves it back. On every file system
  with the contract \<open>file_store\<close> and a \<^verbatim>\<open>msgpack\<close> whose \<open>loads\<close> inverts \<open>dumps\<close>, pausing a running
  transaction of the system clock gives the state PAUSED, resuming it at a later time gives the state
  RUNNING, the transaction keeps its operations, times and identifier, and no file outside the log directory
  changes.\<close>

theorem pause_resume:
  assumes store: "file_store F ok contents size_of" and T: "te_fs T = F" "\<And>x. loads (te_dumps T x) = Inr x" and ok: "ok fs"
    and t: "txn_active st u t" "undecided (contents fs) st u t" "txn_end_time t = None" "txn_provider t = Some SystemProvider"
    and logs: "contents fs (running_log t st u) \<noteq> None" and n: "n \<le> n'"
  shows "\<exists>fs1 fs2. txn_pause T (Inr n) (fs, t) = Some (Inr (), (fs1, t\<lparr>txn_pause_time := Some n\<rparr>)) \<and>
    fst (txn_state_of F (txn_root t) (txn_id_of st u) fs1) = Inr (Some TS_PAUSED) \<and>
    txn_resume T loads (Inr n') (fs1, t\<lparr>txn_pause_time := Some n\<rparr>) = Some (Inr (), (fs2, t\<lparr>txn_pause_time := Some n\<rparr>)) \<and>
    fst (txn_state_of F (txn_root t) (txn_id_of st u) fs2) = Inr (Some TS_RUNNING) \<and>
    (\<forall>p. data_path (txn_root t) p \<longrightarrow> contents fs2 p = contents fs p)"
proof -
  note a = txn_activeD [OF t(1)]
  let ?t = "t\<lparr>txn_pause_time := Some n\<rparr>" and ?r = "running_log t st u" and ?p = "paused_log t st u"
  have ne: "?p \<noteq> ?r" using log_path_inject [OF a(7)] a(3) by simp
  have act: "txn_active st u ?t" using t(1) by (simp add: txn_active_def txn_metafile_write_paths_def txn_locator_write_paths_def)
  have "\<not> time_set (txn_end_time t)" using t(3) by (simp add: time_set_def)
  from file_store.pause_outcome [OF store T(1) t(1) ok logs this, of n]
  obtain fs1 x where 1: "txn_pause T (Inr n) (fs, t) = Some (Inr (), (fs1, ?t))" "ok fs1"
    "contents fs1 = (contents fs)(?p \<mapsto> te_dumps T x, ?r := None)" "ser_provider x = ''TransactionSystemTimeProvider''"
    using t(4) by (auto simp: provider_name_def)
  have same: "?t\<lparr>txn_provider := Some SystemProvider\<rparr> = ?t" using t(4) by (cases t) simp
  have "contents fs1 (paused_log ?t st u) = Some (te_dumps T x)" using 1(3) ne by simp
  note paused = this
  have root: "txn_root ?t = txn_root t" by simp
  have pt: "txn_pause_time ?t = Some n" by simp
  have "\<exists>fs2 y. txn_resume T loads (Inr n') (fs1, ?t) = Some (Inr (), (fs2, ?t\<lparr>txn_provider := Some SystemProvider\<rparr>)) \<and> ok fs2 \<and>
    contents fs2 = (contents fs1)(running_log ?t st u \<mapsto> te_dumps T y, paused_log ?t st u := None)"
    by (rule file_store.resume_outcome [where loads = loads and d = "te_dumps T x", OF store T(1) act 1(2) paused T(2) 1(4) pt n])
  then obtain fs2 y where 2: "txn_resume T loads (Inr n') (fs1, ?t) = Some (Inr (), (fs2, ?t))" "ok fs2"
    "contents fs2 = (contents fs1)(?r \<mapsto> te_dumps T y, ?p := None)"
    unfolding same root by (elim exE conjE) (rule that)
  have u1: "undecided (contents fs1) st u t" unfolding 1(3) by (intro undecided_upd t(1,2)) simp
  have u2: "undecided (contents fs2) st u t" unfolding 2(3) by (intro undecided_upd u1 t(1)) simp
  have "contents fs2 p = contents fs p" if "data_path (txn_root t) p" for p
  proof -
    have "p \<noteq> ?r" "p \<noteq> ?p" using that log_path_not_data [OF a(7), of "[txn_id_of st u]"] a(3) by auto
    then show ?thesis using 1(3) 2(3) by simp
  qed
  moreover have "fst (txn_state_of F (txn_root t) (txn_id_of st u) fs1) = Inr (Some TS_PAUSED)"
    using file_store.state_undecided [OF store 1(2) t(1) u1] 1(3) ne by simp
  moreover have "fst (txn_state_of F (txn_root t) (txn_id_of st u) fs2) = Inr (Some TS_RUNNING)"
    using file_store.state_undecided [OF store 2(2) t(1) u2] 2(3) ne by simp
  ultimately show ?thesis using 1(1) 2(1) by blast
qed

text \<open>A serializer that keeps the transaction, and the session of \<open>ex_session_txn\<close> under it.\<close>

definition ex_msgpack_env :: "(ser_txn option mem, unit, ser_txn option) txn_env" where
  "ex_msgpack_env =
     \<lparr>te_env = \<lparr>env_fs = mem_F (\<lambda>_. 1), env_sha1 = (\<lambda>s. ''d1''), env_serialize = (\<lambda>_. Inr None),
        env_load = (\<lambda>_ _ _. Inl ValueError), env_empty = None\<rparr>,
      te_dumps = Some, te_uuid = ex_uuid, te_uuids = (''src-id'', ''dest-id'')\<rparr>"

definition ex_paused_fs :: "ser_txn option mem" where
  "ex_paused_fs = map (\<lambda>(p, _). (p, None)) ex_session_fs"

theorem pause_resume_witness:
  "\<exists>fs1 fs2. txn_pause ex_msgpack_env (Inr (ex_start + 1)) (ex_paused_fs, ex_session_txn) =
      Some (Inr (), (fs1, ex_session_txn\<lparr>txn_pause_time := Some (ex_start + 1)\<rparr>)) \<and>
    fst (txn_state_of (mem_F (\<lambda>_. 1)) (txn_root ex_session_txn) (txn_id_of ex_start ex_uuid) fs1) = Inr (Some TS_PAUSED) \<and>
    txn_resume ex_msgpack_env (of_option ValueError) (Inr (ex_start + 2)) (fs1, ex_session_txn\<lparr>txn_pause_time := Some (ex_start + 1)\<rparr>) =
      Some (Inr (), (fs2, ex_session_txn\<lparr>txn_pause_time := Some (ex_start + 1)\<rparr>)) \<and>
    fst (txn_state_of (mem_F (\<lambda>_. 1)) (txn_root ex_session_txn) (txn_id_of ex_start ex_uuid) fs2) = Inr (Some TS_RUNNING) \<and>
    (\<forall>p. data_path (txn_root ex_session_txn) p \<longrightarrow> map_of fs2 p = map_of ex_paused_fs p)"
proof (rule pause_resume [OF mem.file_store_axioms])
  show "distinct (map fst ex_paused_fs)" by code_simp
  show "txn_active ex_start ex_uuid ex_session_txn" by (rule ex_session_active)
  show "undecided (map_of ex_paused_fs) ex_start ex_uuid ex_session_txn" by (rule undecided_map_of) code_simp
  show "map_of ex_paused_fs (running_log ex_session_txn ex_start ex_uuid) \<noteq> None" by code_simp
qed (simp_all add: ex_msgpack_env_def ex_session_txn_def)

end
