(* ===== verification/PyValues.thy ===== *)
theory PyValues
  imports PyNumbers
begin

text \<open>
  Python values as they occur as field defaults, merge orders and schema metadata
  (\<^verbatim>\<open>deltacat/storage/model/schema.py\<close>): the literals the code builds and compares, truth testing,
  equality and \<open>str.lower\<close>. Then the standard library's \<^verbatim>\<open>base64.b64encode\<close> and \<^verbatim>\<open>base64.b64decode\<close> in
  their default, non-validating mode, and the metadata codec of \<^verbatim>\<open>schema.py\<close> built on them. The
  serializer \<^verbatim>\<open>msgpack\<close> is a third-party package and a parameter of the codec. Floating-point
  numbers and bytes are not among the modelled values.
\<close>

subsection \<open>Values\<close>

datatype pyval =
    PNone | PBool bool | PInt int | PStr string
  | PList "pyval list" | PTuple "pyval list" | PDict "(string \<times> pyval) list"

fun py_truthy :: "pyval \<Rightarrow> bool" where
  "py_truthy PNone = False"
| "py_truthy (PBool b) = b"
| "py_truthy (PInt i) = (i \<noteq> 0)"
| "py_truthy (PStr s) = (s \<noteq> [])"
| "py_truthy (PList vs) = (vs \<noteq> [])"
| "py_truthy (PTuple vs) = (vs \<noteq> [])"
| "py_truthy (PDict kvs) = (kvs \<noteq> [])"

text \<open>
  \<open>canon\<close> makes Python's \<open>==\<close> an equality of values: \<open>True == 1\<close>, and dictionaries compare
  without their order, so that keys are unique and sorted in the canonical form.
\<close>

fun canon :: "pyval \<Rightarrow> pyval" where
  "canon (PBool b) = PInt (if b then 1 else 0)"
| "canon (PList vs) = PList (map canon vs)"
| "canon (PTuple vs) = PTuple (map canon vs)"
| "canon (PDict kvs) = PDict (sort_key fst (map (\<lambda>(k, v). (k, canon v)) kvs))"
| "canon v = v"

definition py_eq :: "pyval \<Rightarrow> pyval \<Rightarrow> bool" where
  "py_eq a b \<longleftrightarrow> canon a = canon b"

lemma py_eq_refl [simp]: "py_eq a a"
  by (simp add: py_eq_def)

lemma py_eq_sym: "py_eq a b \<Longrightarrow> py_eq b a"
  by (simp add: py_eq_def)

lemma py_eq_trans: "py_eq a b \<Longrightarrow> py_eq b c \<Longrightarrow> py_eq a c"
  by (simp add: py_eq_def)

lemma truthy_canon [simp]: "py_truthy (canon v) = py_truthy v"
proof (cases v)
  case (PDict kvs)
  have "set (sort_key fst (map (\<lambda>(k, v). (k, canon v)) kvs)) = {} \<longleftrightarrow> kvs = []" by simp
  then show ?thesis by (simp only: PDict canon.simps py_truthy.simps set_empty)
qed simp_all

lemma py_eq_truthy: "py_eq a b \<Longrightarrow> py_truthy a = py_truthy b"
  by (metis py_eq_def truthy_canon)

lemma py_eq_None [simp]: "py_eq PNone v \<longleftrightarrow> v = PNone" "py_eq v PNone \<longleftrightarrow> v = PNone"
  by (cases v; simp add: py_eq_def)+

text \<open>What a value becomes when it is written to a message and read back: tuples become lists.\<close>

fun unpacked :: "pyval \<Rightarrow> pyval" where
  "unpacked (PList vs) = PList (map unpacked vs)"
| "unpacked (PTuple vs) = PList (map unpacked vs)"
| "unpacked (PDict kvs) = PDict (map (\<lambda>(k, v). (k, unpacked v)) kvs)"
| "unpacked v = v"

lemma unpacked_idem [simp]: "unpacked (unpacked v) = unpacked v"
  by (induction v rule: unpacked.induct) auto

lemma unpacked_eq_None [simp]: "unpacked v = PNone \<longleftrightarrow> v = PNone"
  by (cases v) auto

lemma truthy_unpacked [simp]: "py_truthy (unpacked v) = py_truthy v"
  by (cases v) auto

definition lower_char :: "char \<Rightarrow> char" where
  "lower_char c = (if 65 \<le> (of_char c :: nat) \<and> (of_char c :: nat) \<le> 90
     then char_of ((of_char c :: nat) + 32) else c)"

definition str_lower :: "string \<Rightarrow> string" where
  "str_lower s = map lower_char s"

subsection \<open>Base64\<close>

definition b64_char :: "nat \<Rightarrow> char" where
  "b64_char v = (if v < 26 then char_of (65 + v) else if v < 52 then char_of (71 + v)
     else if v < 62 then char_of (v - 4) else if v = 62 then CHR ''+'' else CHR ''/'')"

definition b64_val :: "char \<Rightarrow> nat option" where
  "b64_val c = (let n = of_char c :: nat in
     if 65 \<le> n \<and> n \<le> 90 then Some (n - 65) else if 97 \<le> n \<and> n \<le> 122 then Some (n - 71)
     else if 48 \<le> n \<and> n \<le> 57 then Some (n + 4) else if c = CHR ''+'' then Some 62
     else if c = CHR ''/'' then Some 63 else None)"

text \<open>\<^verbatim>\<open>b64encode\<close>: three bytes give four characters, the last group is padded.\<close>

fun b64encode :: "string \<Rightarrow> string" where
  "b64encode (a # b # c # s) = (let x = of_char a; y = of_char b; z = of_char c in
     [b64_char (x div 4), b64_char (x mod 4 * 16 + y div 16),
      b64_char (y mod 16 * 4 + z div 64), b64_char (z mod 64)] @ b64encode s)"
| "b64encode [a, b] = (let x = of_char a; y = of_char b in
     [b64_char (x div 4), b64_char (x mod 4 * 16 + y div 16), b64_char (y mod 16 * 4), CHR ''=''])"
| "b64encode [a] = (let x = of_char a in
     [b64_char (x div 4), b64_char (x mod 4 * 16), CHR ''='', CHR ''=''])"
| "b64encode [] = []"

text \<open>
  \<^verbatim>\<open>b64decode\<close> (\<^verbatim>\<open>binascii.a2b_base64\<close> without \<open>strict_mode\<close>): the position in the group of four,
  the bits left over from the last character and the pads seen; characters outside the alphabet are
  skipped, a complete padding ends the input, and an incomplete last group raises.
\<close>

fun a2b_base64 :: "nat \<Rightarrow> nat \<Rightarrow> nat \<Rightarrow> string \<Rightarrow> string option" where
  "a2b_base64 q l p [] = (if q = 0 then Some [] else None)"
| "a2b_base64 q l p (c # s) =
     (if c = CHR ''='' then
        (if 2 \<le> q then (if 4 \<le> q + (p + 1) then Some [] else a2b_base64 q l (p + 1) s)
         else a2b_base64 q l p s)
      else case b64_val c of
        None \<Rightarrow> a2b_base64 q l p s
      | Some v \<Rightarrow>
          (if q = 0 then a2b_base64 1 v 0 s
           else if q = 1 then map_option ((#) (char_of (l * 4 + v div 16))) (a2b_base64 2 (v mod 16) 0 s)
           else if q = 2 then map_option ((#) (char_of (l * 16 + v div 4))) (a2b_base64 3 (v mod 4) 0 s)
           else map_option ((#) (char_of (l * 64 + v))) (a2b_base64 0 0 0 s)))"

definition b64decode :: "string \<Rightarrow> string option" where
  "b64decode s = a2b_base64 0 0 0 s"

lemma b64_vals: "list_all (\<lambda>v. b64_char v \<noteq> CHR ''='' \<and> b64_val (b64_char v) = Some v) [0..<64]"
  by code_simp

lemma b64_val_char [simp]: "v < 64 \<Longrightarrow> b64_val (b64_char v) = Some v"
  and b64_char_not_pad [simp]: "v < 64 \<Longrightarrow> b64_char v \<noteq> CHR ''=''"
  using b64_vals by (simp_all add: list_all_iff)

lemma of_char_less: "(of_char c :: nat) < 256"
  by (metis of_char_mod_256 mod_less_divisor zero_less_numeral)

lemma a2b_base64_digit:
  "v < 64 \<Longrightarrow> a2b_base64 0 l p (b64_char v # s) = a2b_base64 (Suc 0) v 0 s"
  "v < 64 \<Longrightarrow> a2b_base64 (Suc 0) l p (b64_char v # s) =
     map_option ((#) (char_of (l * 4 + v div 16))) (a2b_base64 2 (v mod 16) 0 s)"
  "v < 64 \<Longrightarrow> a2b_base64 2 l p (b64_char v # s) =
     map_option ((#) (char_of (l * 16 + v div 4))) (a2b_base64 3 (v mod 4) 0 s)"
  "v < 64 \<Longrightarrow> a2b_base64 3 l p (b64_char v # s) =
     map_option ((#) (char_of (l * 64 + v))) (a2b_base64 0 0 0 s)"
  by simp_all

lemma of_char_div: "(of_char c :: nat) div 4 < 64" "(of_char c :: nat) div 16 < 16"
  "(of_char c :: nat) div 64 < 4"
  using of_char_less [of c] by (simp_all add: less_mult_imp_div_less)

lemma b64_bounds:
  fixes x y :: nat
  shows "y < 16 \<Longrightarrow> x mod 4 * 16 + y < 64" "y < 4 \<Longrightarrow> x mod 16 * 4 + y < 64" "x mod 4 * 16 < 64"
    "x mod 16 * 4 < 64"
proof -
  have *: "x mod 4 \<le> 3" "x mod 16 \<le> 15" by simp_all
  show "y < 16 \<Longrightarrow> x mod 4 * 16 + y < 64" "y < 4 \<Longrightarrow> x mod 16 * 4 + y < 64" "x mod 4 * 16 < 64"
    "x mod 16 * 4 < 64"
    using * by linarith+
qed

lemma char_of_div_mod: "char_of ((of_char c :: nat) div n * n + of_char c mod n) = c"
  by simp

lemma b64decode_b64encode [simp]: "b64decode (b64encode s) = Some s"
  unfolding b64decode_def
  by (induction s rule: b64encode.induct)
     (simp_all add: Let_def a2b_base64_digit of_char_div b64_bounds del: a2b_base64.simps(2),
      simp_all add: char_of_div_mod of_char_div)

subsection \<open>Codecs\<close>

text \<open>
  What the metadata code relies on: an encoding that can be read back. Two of them compose.
\<close>

locale codec =
  fixes enc :: "'a \<Rightarrow> 'b" and dec :: "'b \<Rightarrow> 'a option"
  assumes dec_enc: "dec (enc x) = Some x"
begin

lemma enc_inject: "enc x = enc y \<longleftrightarrow> x = y"
  by (metis dec_enc option.inject)

lemma dec_enc_of_option: "of_option e (dec (enc x)) = Inr x"
  by (simp add: dec_enc)

end

interpretation b64: codec b64encode b64decode
  by unfold_locales (rule b64decode_b64encode)

subsection \<open>Loops that may raise\<close>

text \<open>
  A loop over a list that changes a state and stops at the first error: an invariant that every step
  of the list keeps holds when the loop ends, and the loop over a concatenation is two loops.
\<close>

locale res_loop =
  fixes step :: "'a \<Rightarrow> 's \<Rightarrow> 's res" and run :: "'a list \<Rightarrow> 's \<Rightarrow> 's res"
  assumes run_Nil: "run [] s = Inr s"
    and run_Cons: "run (x # xs) s = rbind (step x s) (run xs)"
begin

lemma run_invariant:
  "run xs s = Inr s' \<Longrightarrow> I s \<Longrightarrow>
   (\<And>x s s'. x \<in> set xs \<Longrightarrow> I s \<Longrightarrow> step x s = Inr s' \<Longrightarrow> I s') \<Longrightarrow> I s'"
proof (induction xs arbitrary: s)
  case (Cons x xs)
  then obtain t where t: "step x s = Inr t" "run xs t = Inr s'" by (auto simp: run_Cons rbind_Inr_iff)
  show ?case
    by (rule Cons.IH [OF t(2)]) (use Cons.prems t in auto)
qed (simp add: run_Nil)

lemma run_append: "run (xs @ ys) s = rbind (run xs s) (run ys)"
  by (induction xs arbitrary: s) (simp_all add: run_Nil run_Cons rbind_assoc cong: rbind_cong)

end

end
