(* ===== verification/SchemaTypes.thy ===== *)
theory SchemaTypes
  imports PyValues
begin

text \<open>
  The type compatibility check of schema evolution (\<^verbatim>\<open>SchemaUpdate._is_type_compatible\<close> in
  \<^verbatim>\<open>deltacat/storage/model/schema.py\<close>) and the part of PyArrow and msgpack that the schema code
  calls. PyArrow is a third-party package: its types are a type parameter \<open>'t\<close> whose equality is
  \<open>DataType.equals\<close>, and its functions are the components of the record \<open>arrow\<close>, with what the
  theorems need of their documented behaviour as the predicate \<open>arrow_laws\<close>.
\<close>

subsection \<open>PyArrow and msgpack as parameters\<close>

text \<open>
  The exceptions of PyArrow and what they are for Python: \<open>ArrowInvalid\<close> is a \<open>ValueError\<close>,
  \<open>ArrowTypeError\<close> a \<open>TypeError\<close> and \<open>ArrowNotImplementedError\<close> a \<open>NotImplementedError\<close>.
\<close>

datatype pa_error = ArrowInvalid | ArrowTypeError | ArrowNotImplementedError | OtherError py_error

fun raised :: "pa_error \<Rightarrow> py_error" where
  "raised ArrowInvalid = ValueError"
| "raised ArrowTypeError = TypeError"
| "raised ArrowNotImplementedError = NotImplementedError"
| "raised (OtherError e) = e"

text \<open>\<open>pa.Field\<close> and \<open>pa.Schema\<close>; missing metadata and empty metadata are both the empty list.\<close>

record 't arrow_field =
  af_name :: string
  af_type :: 't
  af_nullable :: bool
  af_metadata :: "(string \<times> string) list"

record 't arrow_schema =
  as_fields :: "'t arrow_field list"
  as_metadata :: "(string \<times> string) list"

record 't arrow =
  is_string :: "'t \<Rightarrow> bool"
  is_large_string :: "'t \<Rightarrow> bool"
  is_primitive :: "'t \<Rightarrow> bool"
  is_integer :: "'t \<Rightarrow> bool"
  is_floating :: "'t \<Rightarrow> bool"
  is_date :: "'t \<Rightarrow> bool"
  is_binary :: "'t \<Rightarrow> bool"
  is_struct :: "'t \<Rightarrow> bool"
  is_list :: "'t \<Rightarrow> bool"
  is_map :: "'t \<Rightarrow> bool"
  type_str :: "'t \<Rightarrow> string"
  bit_width :: "'t \<Rightarrow> nat"
  struct_fields :: "'t \<Rightarrow> (string \<times> 't) list"
  struct_field :: "'t \<Rightarrow> string \<Rightarrow> 't res"
  value_type :: "'t \<Rightarrow> 't"
  key_type :: "'t \<Rightarrow> 't"
  item_type :: "'t \<Rightarrow> 't"
  pa_scalar :: "pyval \<Rightarrow> 't \<Rightarrow> pa_error option"
  pa_array_of :: "pyval \<Rightarrow> 't \<Rightarrow> pa_error option"
  unify_schemas :: "'t arrow_schema list \<Rightarrow> pa_error + 't arrow_schema"
  msgpack_dumps :: "pyval \<Rightarrow> string res"
  msgpack_loads :: "string \<Rightarrow> pyval res"
  recursion_limit :: nat

text \<open>
  What the theorems use of them: a type belongs to at most one of the families the code
  distinguishes, a field found by its name is a field of the struct, and what msgpack writes is not
  empty and read back with tuples turned into lists, and unifying schemas without a common field name
  gives all their fields. msgpack never reads a tuple, and the interpreter allows at least one call.
\<close>

definition type_family :: "'t arrow \<Rightarrow> 't \<Rightarrow> bool list" where
  "type_family A t = [is_integer A t, is_floating A t, is_string A t, is_binary A t, is_struct A t,
     is_list A t, is_map A t]"

definition arrow_laws :: "'t arrow \<Rightarrow> bool" where
  "arrow_laws A \<longleftrightarrow>
     (\<forall>t. length (filter id (type_family A t)) \<le> 1) \<and>
     (\<forall>s n t. struct_field A s n = Inr t \<longrightarrow> (n, t) \<in> set (struct_fields A s)) \<and>
     (\<forall>v b. msgpack_dumps A v = Inr b \<longrightarrow> b \<noteq> [] \<and> msgpack_loads A b = Inr (unpacked v)) \<and>
     (\<forall>ss u. unify_schemas A ss = Inr u \<and> distinct (map af_name (concat (map as_fields ss))) \<longrightarrow>
        as_fields u = concat (map as_fields ss)) \<and>
     (\<forall>b v. msgpack_loads A b = Inr v \<longrightarrow> unpacked v = v) \<and> 0 < recursion_limit A"

lemma loads_unpacked: "arrow_laws A \<Longrightarrow> msgpack_loads A b = Inr v \<Longrightarrow> unpacked v = v"
  by (simp add: arrow_laws_def)

lemma limit_positive: "arrow_laws A \<Longrightarrow> 0 < recursion_limit A"
  by (simp add: arrow_laws_def)

lemma unify_fields:
  "arrow_laws A \<Longrightarrow> unify_schemas A ss = Inr u \<Longrightarrow> distinct (map af_name (concat (map as_fields ss))) \<Longrightarrow>
   as_fields u = concat (map as_fields ss)"
  by (simp add: arrow_laws_def)

subsection \<open>Type compatibility\<close>

fun str_contains :: "string \<Rightarrow> string \<Rightarrow> bool" where
  "str_contains p [] = (p = [])"
| "str_contains p (c # s) = (starts_with (c # s) p \<or> str_contains p s)"

definition signed_int :: "'t arrow \<Rightarrow> 't \<Rightarrow> bool" where
  "signed_int A t \<longleftrightarrow> str_contains ''int'' (type_str A t) \<and> \<not> str_contains ''uint'' (type_str A t)"

text \<open>A loop that returns \<open>False\<close> at the first element that fails, and Python's \<open>and\<close>.\<close>

fun res_all :: "('a \<Rightarrow> bool res) \<Rightarrow> 'a list \<Rightarrow> bool res" where
  "res_all f [] = Inr True"
| "res_all f (x # xs) = rbind (f x) (\<lambda>b. if b then res_all f xs else Inr False)"

lemma res_all_True_iff: "res_all f xs = Inr True \<longleftrightarrow> (\<forall>x \<in> set xs. f x = Inr True)"
  by (induction xs) (auto simp: rbind_Inr_iff split: if_splits)

definition res_and :: "bool res \<Rightarrow> bool res \<Rightarrow> bool res" where
  "res_and a b = rbind a (\<lambda>x. if x then b else Inr False)"

lemma res_and_True_iff: "res_and a b = Inr True \<longleftrightarrow> a = Inr True \<and> b = Inr True"
  by (auto simp: res_and_def rbind_Inr_iff split: if_splits)

text \<open>
  \<^verbatim>\<open>_is_type_compatible\<close>; the first number is how many more nested calls the interpreter allows
  before it raises \<open>RecursionError\<close>.
\<close>

fun is_type_compatible :: "'t arrow \<Rightarrow> nat \<Rightarrow> 't \<Rightarrow> 't \<Rightarrow> bool res" where
  "is_type_compatible A 0 old_type new_type = Inl RecursionError"
| "is_type_compatible A (Suc n) old_type new_type =
     (if old_type = new_type then Inr True
      else if is_integer A old_type \<and> is_integer A new_type then
        Inr (bit_width A old_type \<le> bit_width A new_type \<and> signed_int A old_type = signed_int A new_type)
      else if is_floating A old_type \<and> is_floating A new_type then
        Inr (bit_width A old_type \<le> bit_width A new_type)
      else if is_integer A old_type \<and> is_floating A new_type then Inr True
      else if is_string A old_type \<and> is_string A new_type then Inr True
      else if is_binary A old_type \<and> is_binary A new_type then Inr True
      else if is_struct A old_type \<and> is_struct A new_type then
        (if \<not> fst ` set (struct_fields A old_type) \<subseteq> fst ` set (struct_fields A new_type) then Inr False
         else res_all (\<lambda>(nm, t). rbind (struct_field A new_type nm)
                (\<lambda>t'. is_type_compatible A n t t')) (struct_fields A old_type))
      else if is_list A old_type \<and> is_list A new_type then
        is_type_compatible A n (value_type A old_type) (value_type A new_type)
      else if is_map A old_type \<and> is_map A new_type then
        res_and (is_type_compatible A n (key_type A old_type) (key_type A new_type))
          (is_type_compatible A n (item_type A old_type) (item_type A new_type))
      else Inr False)"

abbreviation type_compatible :: "'t arrow \<Rightarrow> 't \<Rightarrow> 't \<Rightarrow> bool" where
  "type_compatible A old_type new_type \<equiv> is_type_compatible A (recursion_limit A) old_type new_type = Inr True"

lemma compatible_refl: "0 < n \<Longrightarrow> is_type_compatible A n t t = Inr True"
  by (cases n) auto

lemma families_exclusive:
  assumes "arrow_laws A"
  shows "is_integer A t \<Longrightarrow> \<not> is_floating A t \<and> \<not> is_string A t \<and> \<not> is_binary A t \<and> \<not> is_struct A t \<and>
           \<not> is_list A t \<and> \<not> is_map A t"
    and "is_floating A t \<Longrightarrow> \<not> is_string A t \<and> \<not> is_binary A t \<and> \<not> is_struct A t \<and>
           \<not> is_list A t \<and> \<not> is_map A t"
    and "is_string A t \<Longrightarrow> \<not> is_binary A t \<and> \<not> is_struct A t \<and> \<not> is_list A t \<and> \<not> is_map A t"
    and "is_binary A t \<Longrightarrow> \<not> is_struct A t \<and> \<not> is_list A t \<and> \<not> is_map A t"
    and "is_struct A t \<Longrightarrow> \<not> is_list A t \<and> \<not> is_map A t"
    and "is_list A t \<Longrightarrow> \<not> is_map A t"
proof -
  have "length (filter id (type_family A t)) \<le> 1"
    using assms by (simp add: arrow_laws_def)
  then show "is_integer A t \<Longrightarrow> \<not> is_floating A t \<and> \<not> is_string A t \<and> \<not> is_binary A t \<and> \<not> is_struct A t \<and>
           \<not> is_list A t \<and> \<not> is_map A t"
    and "is_floating A t \<Longrightarrow> \<not> is_string A t \<and> \<not> is_binary A t \<and> \<not> is_struct A t \<and>
           \<not> is_list A t \<and> \<not> is_map A t"
    and "is_string A t \<Longrightarrow> \<not> is_binary A t \<and> \<not> is_struct A t \<and> \<not> is_list A t \<and> \<not> is_map A t"
    and "is_binary A t \<Longrightarrow> \<not> is_struct A t \<and> \<not> is_list A t \<and> \<not> is_map A t"
    and "is_struct A t \<Longrightarrow> \<not> is_list A t \<and> \<not> is_map A t"
    and "is_list A t \<Longrightarrow> \<not> is_map A t"
    by (auto simp: type_family_def split: if_splits)
qed

lemma struct_field_mem:
  "arrow_laws A \<Longrightarrow> struct_field A s n = Inr t \<Longrightarrow> (n, t) \<in> set (struct_fields A s)"
  by (simp add: arrow_laws_def)

text \<open>A successful check for every family of the old type.\<close>

lemma compatible_int:
  assumes "arrow_laws A" "is_integer A a"
  shows "is_type_compatible A (Suc n) a b = Inr True \<longleftrightarrow> a = b \<or> is_floating A b \<or>
    is_integer A b \<and> bit_width A a \<le> bit_width A b \<and> signed_int A a = signed_int A b"
  using families_exclusive(1) [OF assms] families_exclusive(1) [OF assms(1), of b] assms(2) by auto

lemma compatible_float:
  assumes "arrow_laws A" "is_floating A a"
  shows "is_type_compatible A (Suc n) a b = Inr True \<longleftrightarrow> a = b \<or>
    is_floating A b \<and> bit_width A a \<le> bit_width A b"
  using families_exclusive(1) [OF assms(1), of a] families_exclusive(2) [OF assms] assms(2) by auto

lemma compatible_string:
  assumes "arrow_laws A" "is_string A a"
  shows "is_type_compatible A (Suc n) a b = Inr True \<longleftrightarrow> a = b \<or> is_string A b"
  using families_exclusive(1,2) [OF assms(1), of a] families_exclusive(3) [OF assms] assms(2) by auto

lemma compatible_binary:
  assumes "arrow_laws A" "is_binary A a"
  shows "is_type_compatible A (Suc n) a b = Inr True \<longleftrightarrow> a = b \<or> is_binary A b"
  using families_exclusive(1-3) [OF assms(1), of a] families_exclusive(4) [OF assms] assms(2) by auto

lemma compatible_struct:
  assumes "arrow_laws A" "is_struct A a"
  shows "is_type_compatible A (Suc n) a b = Inr True \<longleftrightarrow> a = b \<or> is_struct A b \<and>
    fst ` set (struct_fields A a) \<subseteq> fst ` set (struct_fields A b) \<and>
    (\<forall>(nm, t) \<in> set (struct_fields A a).
       \<exists>t'. struct_field A b nm = Inr t' \<and> is_type_compatible A n t t' = Inr True)"
proof -
  have "\<not> is_integer A a" "\<not> is_floating A a" "\<not> is_string A a" "\<not> is_binary A a"
    using families_exclusive(1-4) [OF assms(1), of a] assms(2) by auto
  then show ?thesis
    using families_exclusive(5) [OF assms] assms(2)
    by (simp add: res_all_True_iff rbind_Inr_iff case_prod_unfold)
qed

lemma compatible_list:
  assumes "arrow_laws A" "is_list A a"
  shows "is_type_compatible A (Suc n) a b = Inr True \<longleftrightarrow> a = b \<or> is_list A b \<and>
    is_type_compatible A n (value_type A a) (value_type A b) = Inr True"
proof -
  have "\<not> is_integer A a" "\<not> is_floating A a" "\<not> is_string A a" "\<not> is_binary A a" "\<not> is_struct A a"
    using families_exclusive(1-5) [OF assms(1), of a] assms(2) by auto
  then show ?thesis
    using families_exclusive(6) [OF assms] assms(2) by simp
qed

lemma compatible_map:
  assumes "arrow_laws A" "is_map A a"
  shows "is_type_compatible A (Suc n) a b = Inr True \<longleftrightarrow> a = b \<or> is_map A b \<and>
    is_type_compatible A n (key_type A a) (key_type A b) = Inr True \<and>
    is_type_compatible A n (item_type A a) (item_type A b) = Inr True"
proof -
  have "\<not> is_integer A a" "\<not> is_floating A a" "\<not> is_string A a" "\<not> is_binary A a" "\<not> is_struct A a"
    "\<not> is_list A a"
    using families_exclusive(1-6) [OF assms(1), of a] assms(2) by auto
  then show ?thesis
    using assms(2) by (simp add: res_and_True_iff)
qed

lemma compatible_other:
  assumes "\<not> is_integer A a" "\<not> is_floating A a" "\<not> is_string A a" "\<not> is_binary A a" "\<not> is_struct A a"
    "\<not> is_list A a" "\<not> is_map A a"
  shows "is_type_compatible A (Suc n) a b = Inr True \<longleftrightarrow> a = b"
  using assms by simp

lemma compatible_struct_trans:
  assumes laws: "arrow_laws A"
    and ab: "\<forall>(nm, t) \<in> set (struct_fields A a).
       \<exists>t'. struct_field A b nm = Inr t' \<and> is_type_compatible A n t t' = Inr True"
    and bc: "\<forall>(nm, t) \<in> set (struct_fields A b).
       \<exists>t'. struct_field A c nm = Inr t' \<and> is_type_compatible A n t t' = Inr True"
    and trans: "\<And>a b c. is_type_compatible A n a b = Inr True \<Longrightarrow> is_type_compatible A n b c = Inr True \<Longrightarrow>
       is_type_compatible A n a c = Inr True"
  shows "\<forall>(nm, t) \<in> set (struct_fields A a).
       \<exists>t'. struct_field A c nm = Inr t' \<and> is_type_compatible A n t t' = Inr True"
proof clarify
  fix nm t assume "(nm, t) \<in> set (struct_fields A a)"
  with ab obtain t' where t': "struct_field A b nm = Inr t'" "is_type_compatible A n t t' = Inr True"
    by auto
  from struct_field_mem [OF laws t'(1)] bc obtain t'' where
    t'': "struct_field A c nm = Inr t''" "is_type_compatible A n t' t'' = Inr True" by auto
  with trans [OF t'(2) t''(2)] show "\<exists>t'. struct_field A c nm = Inr t' \<and> is_type_compatible A n t t' = Inr True"
    by auto
qed

lemma compatible_trans:
  assumes "arrow_laws A"
  shows "is_type_compatible A n a b = Inr True \<Longrightarrow> is_type_compatible A n b c = Inr True \<Longrightarrow>
    is_type_compatible A n a c = Inr True"
proof (induction n arbitrary: a b c)
  case (Suc n)
  note ab = Suc.prems(1) and bc = Suc.prems(2)
  consider "is_integer A a" | "is_floating A a" | "is_string A a" | "is_binary A a" | "is_struct A a" |
    "is_list A a" | "is_map A a" | "a = b"
    using ab compatible_other [of A a n b] by blast
  then show ?case
  proof cases
    case 1
    then show ?thesis using ab bc
      by (auto simp only: compatible_int [OF assms] compatible_float [OF assms])
  next
    case 2
    then show ?thesis using ab bc by (auto simp only: compatible_float [OF assms])
  next
    case 3
    then show ?thesis using ab bc by (auto simp only: compatible_string [OF assms])
  next
    case 4
    then show ?thesis using ab bc by (auto simp only: compatible_binary [OF assms])
  next
    case 5
    show ?thesis
    proof (cases "a = b \<or> b = c")
      case False
      then have ne: "a \<noteq> b" "b \<noteq> c" by auto
      from ab [unfolded compatible_struct [OF assms 5]] ne(1) have ab': "is_struct A b"
        "fst ` set (struct_fields A a) \<subseteq> fst ` set (struct_fields A b)"
        "\<forall>(nm, t) \<in> set (struct_fields A a).
           \<exists>t'. struct_field A b nm = Inr t' \<and> is_type_compatible A n t t' = Inr True"
        by simp_all
      from bc [unfolded compatible_struct [OF assms ab'(1)]] ne(2) have bc': "is_struct A c"
        "fst ` set (struct_fields A b) \<subseteq> fst ` set (struct_fields A c)"
        "\<forall>(nm, t) \<in> set (struct_fields A b).
           \<exists>t'. struct_field A c nm = Inr t' \<and> is_type_compatible A n t t' = Inr True"
        by simp_all
      show ?thesis
        unfolding compatible_struct [OF assms 5]
        by (intro disjI2 conjI bc'(1) subset_trans [OF ab'(2) bc'(2)]
            compatible_struct_trans [OF assms ab'(3) bc'(3) Suc.IH])
    next
      case True
      then show ?thesis using ab bc by (elim disjE) (simp_all only:)
    qed
  next
    case 6
    then show ?thesis using ab bc Suc.IH by (auto simp only: compatible_list [OF assms])
  next
    case 7
    then show ?thesis using ab bc Suc.IH by (auto simp only: compatible_map [OF assms])
  next
    case 8
    then show ?thesis using bc by simp
  qed
qed simp

subsection \<open>Integer types\<close>

text \<open>The values of an integer type, from the signedness the code reads off and its bit width.\<close>

definition int_values :: "'t arrow \<Rightarrow> 't \<Rightarrow> int set" where
  "int_values A t = (if signed_int A t then {- (2 ^ (bit_width A t - 1)) ..< 2 ^ (bit_width A t - 1)}
     else {0 ..< 2 ^ bit_width A t})"

lemma int_values_mono:
  assumes "signed_int A a = signed_int A b" "bit_width A a \<le> bit_width A b"
  shows "int_values A a \<subseteq> int_values A b"
proof -
  have "(2::int) ^ (bit_width A a - 1) \<le> 2 ^ (bit_width A b - 1)" "(2::int) ^ bit_width A a \<le> 2 ^ bit_width A b"
    using assms(2) by (auto intro: power_increasing)
  then show ?thesis
    using assms(1) by (auto simp: int_values_def)
qed

subsection \<open>A concrete instance\<close>

text \<open>
  An instance of the parameters for evaluating the definitions on examples: integers, floats,
  strings, lists and structs with their PyArrow names, and the msgpack encodings of short values.
\<close>

datatype sample_type = SInt bool nat | SFloat nat | SString | SList sample_type
  | SStruct "(string \<times> sample_type) list"

fun sample_str :: "sample_type \<Rightarrow> string" where
  "sample_str (SInt s w) = (if s then ''int'' else ''uint'') @ nat_to_str w"
| "sample_str (SFloat w) = ''float'' @ nat_to_str w"
| "sample_str SString = ''string''"
| "sample_str (SList t) = ''list''"
| "sample_str (SStruct fs) = ''struct''"

fun sample_field :: "sample_type \<Rightarrow> string \<Rightarrow> sample_type res" where
  "sample_field (SStruct fs) n = of_option KeyError (map_of fs n)"
| "sample_field t n = Inl KeyError"

fun sample_check :: "pyval \<Rightarrow> sample_type \<Rightarrow> pa_error option" where
  "sample_check PNone t = None"
| "sample_check (PInt i) (SInt s w) =
     (if (if s then - (2 ^ (w - 1)) \<le> i \<and> i < 2 ^ (w - 1) else 0 \<le> i \<and> i < 2 ^ w)
      then None else Some ArrowInvalid)"
| "sample_check (PInt i) (SFloat w) = None"
| "sample_check (PStr s) SString = None"
| "sample_check v t = Some ArrowTypeError"

fun sample_dumps :: "pyval \<Rightarrow> string res" where
  "sample_dumps PNone = Inr [char_of (192::nat)]"
| "sample_dumps (PDict []) = Inr [char_of (128::nat)]"
| "sample_dumps (PInt i) = (if 0 \<le> i \<and> i < 128 then Inr [char_of (nat i)] else Inl OverflowError)"
| "sample_dumps (PStr s) = (if length s < 32 then Inr (char_of (160 + length s) # s) else Inl OverflowError)"
| "sample_dumps (PTuple [PStr a, PStr b]) = (if length a < 32 then
     Inr ([char_of (146::nat), char_of (length a)] @ a @ b) else Inl OverflowError)"
| "sample_dumps (PList [PStr a, PStr b]) = (if length a < 32 then
     Inr ([char_of (146::nat), char_of (length a)] @ a @ b) else Inl OverflowError)"
| "sample_dumps v = Inl TypeError"

definition sample_loads :: "string \<Rightarrow> pyval res" where
  "sample_loads b = (case b of [] \<Rightarrow> Inl ValueError
   | c # s \<Rightarrow> (let n = of_char c :: nat in
       if n = 192 then Inr PNone else if n = 128 then Inr (PDict [])
       else if n < 128 then Inr (PInt (int n))
       else if n = 146 then (case s of [] \<Rightarrow> Inl ValueError
         | l # s' \<Rightarrow> Inr (PList [PStr (take (of_char l) s'), PStr (drop (of_char l) s')]))
       else if 160 \<le> n \<and> n < 192 then Inr (PStr s) else Inl ValueError))"

definition sample_arrow :: "sample_type arrow" where
  "sample_arrow = \<lparr>is_string = (\<lambda>t. t = SString), is_large_string = (\<lambda>t. False),
     is_primitive = (\<lambda>t. case t of SInt _ _ \<Rightarrow> True | SFloat _ \<Rightarrow> True | _ \<Rightarrow> False),
     is_integer = (\<lambda>t. case t of SInt _ _ \<Rightarrow> True | _ \<Rightarrow> False),
     is_floating = (\<lambda>t. case t of SFloat _ \<Rightarrow> True | _ \<Rightarrow> False),
     is_date = (\<lambda>t. False), is_binary = (\<lambda>t. False),
     is_struct = (\<lambda>t. case t of SStruct _ \<Rightarrow> True | _ \<Rightarrow> False),
     is_list = (\<lambda>t. case t of SList _ \<Rightarrow> True | _ \<Rightarrow> False), is_map = (\<lambda>t. False),
     type_str = sample_str,
     bit_width = (\<lambda>t. case t of SInt _ w \<Rightarrow> w | SFloat w \<Rightarrow> w | _ \<Rightarrow> 0),
     struct_fields = (\<lambda>t. case t of SStruct fs \<Rightarrow> fs | _ \<Rightarrow> []),
     struct_field = sample_field,
     value_type = (\<lambda>t. case t of SList v \<Rightarrow> v | _ \<Rightarrow> t), key_type = id, item_type = id,
     pa_scalar = sample_check, pa_array_of = sample_check,
     unify_schemas = (\<lambda>ss. Inr \<lparr>as_fields = concat (map as_fields ss),
       as_metadata = (case ss of [] \<Rightarrow> [] | s # _ \<Rightarrow> as_metadata s)\<rparr>),
     msgpack_dumps = sample_dumps, msgpack_loads = sample_loads, recursion_limit = 10\<rparr>"

lemma sample_field_mem: "sample_field s n = Inr t \<Longrightarrow> (n, t) \<in> set (case s of SStruct fs \<Rightarrow> fs | _ \<Rightarrow> [])"
  by (cases s) (auto dest: map_of_SomeD)

lemma sample_loads_dumps: "sample_dumps v = Inr b \<Longrightarrow> b \<noteq> [] \<and> sample_loads b = Inr (unpacked v)"
  by (induction v rule: sample_dumps.induct)
     (auto simp: sample_loads_def Let_def nat_less_iff nat_eq_iff split: if_splits)

lemma sample_loads_unpacked: "sample_loads b = Inr v \<Longrightarrow> unpacked v = v"
  by (auto simp: sample_loads_def Let_def split: list.splits if_splits)

lemma sample_laws: "arrow_laws sample_arrow"
proof -
  have "length (filter id (type_family sample_arrow t)) \<le> 1" for t
    by (cases t) (simp_all add: sample_arrow_def type_family_def)
  then show ?thesis
    using sample_field_mem sample_loads_dumps sample_loads_unpacked by (auto simp: arrow_laws_def sample_arrow_def)
qed

end
