(* ===== verification/SchemaFields.thy ===== *)
theory SchemaFields
  imports SchemaTypes
begin

text \<open>
  Schema fields (\<^verbatim>\<open>Field\<close> and \<^verbatim>\<open>MergeOrder\<close> of \<^verbatim>\<open>deltacat/storage/model/schema.py\<close>). A field keeps its
  identifier, documentation, merge key, merge order, event time, default values and consistency type
  in the metadata of its Arrow field, as text or through the metadata codec. \<open>field_of\<close> builds a
  field from an Arrow field and optional overrides; the lemmas state what its attributes are
  afterwards.
\<close>

subsection \<open>Metadata values\<close>

definition encode_metadata_value :: "'t arrow \<Rightarrow> pyval \<Rightarrow> string res" where
  "encode_metadata_value A v = rbind (msgpack_dumps A v) (\<lambda>b. Inr (b64encode b))"

definition decode_metadata_value :: "'t arrow \<Rightarrow> string \<Rightarrow> pyval res" where
  "decode_metadata_value A e =
     (let legacy = (case msgpack_loads A e of Inr v \<Rightarrow> Inr v | Inl _ \<Rightarrow> Inl ValueError) in
      case b64decode e of
        None \<Rightarrow> legacy
      | Some b \<Rightarrow> (case msgpack_loads A b of Inr v \<Rightarrow> Inr v | Inl _ \<Rightarrow> legacy))"

lemma b64encode_eq_Nil [simp]: "b64encode s = [] \<longleftrightarrow> s = []"
  by (cases s rule: b64encode.cases) (simp_all add: Let_def)

lemma encode_not_Nil: "arrow_laws A \<Longrightarrow> encode_metadata_value A v = Inr e \<Longrightarrow> e \<noteq> []"
  by (auto simp: encode_metadata_value_def rbind_Inr_iff arrow_laws_def)

lemma decode_encode:
  "arrow_laws A \<Longrightarrow> encode_metadata_value A v = Inr e \<Longrightarrow> decode_metadata_value A e = Inr (unpacked v)"
  by (auto simp: encode_metadata_value_def decode_metadata_value_def rbind_Inr_iff arrow_laws_def
      b64.dec_enc)

subsection \<open>Reading attributes\<close>

definition PARQUET_FIELD_ID_KEY_NAME :: string where
  "PARQUET_FIELD_ID_KEY_NAME = ''PARQUET:field_id''"
definition FIELD_DOC_KEY_NAME :: string where
  "FIELD_DOC_KEY_NAME = ''DELTACAT:doc''"
definition FIELD_MERGE_KEY_NAME :: string where
  "FIELD_MERGE_KEY_NAME = ''DELTACAT:merge_key''"
definition FIELD_MERGE_ORDER_KEY_NAME :: string where
  "FIELD_MERGE_ORDER_KEY_NAME = ''DELTACAT:merge_order''"
definition FIELD_EVENT_TIME_KEY_NAME :: string where
  "FIELD_EVENT_TIME_KEY_NAME = ''DELTACAT:event_time''"
definition FIELD_PAST_DEFAULT_KEY_NAME :: string where
  "FIELD_PAST_DEFAULT_KEY_NAME = ''DELTACAT:past_default''"
definition FIELD_FUTURE_DEFAULT_KEY_NAME :: string where
  "FIELD_FUTURE_DEFAULT_KEY_NAME = ''DELTACAT:future_default''"
definition FIELD_CONSISTENCY_TYPE_KEY_NAME :: string where
  "FIELD_CONSISTENCY_TYPE_KEY_NAME = ''DELTACAT:consistency_type''"

lemmas field_keys = PARQUET_FIELD_ID_KEY_NAME_def FIELD_DOC_KEY_NAME_def FIELD_MERGE_KEY_NAME_def
  FIELD_MERGE_ORDER_KEY_NAME_def FIELD_EVENT_TIME_KEY_NAME_def FIELD_PAST_DEFAULT_KEY_NAME_def
  FIELD_FUTURE_DEFAULT_KEY_NAME_def FIELD_CONSISTENCY_TYPE_KEY_NAME_def

datatype consistency = NONE | COERCE | VALIDATE

fun consistency_value :: "consistency \<Rightarrow> string" where
  "consistency_value NONE = ''none''"
| "consistency_value COERCE = ''coerce''"
| "consistency_value VALIDATE = ''validate''"

definition consistency_of :: "string \<Rightarrow> consistency res" where
  "consistency_of s = (if s = ''none'' then Inr NONE else if s = ''coerce'' then Inr COERCE
     else if s = ''validate'' then Inr VALIDATE else Inl ValueError)"

text \<open>\<^verbatim>\<open>metadata.get(key)\<close>, where missing metadata, a missing key and an empty value all count as absent.\<close>

definition metadata_get :: "'t arrow_field \<Rightarrow> string \<Rightarrow> string option" where
  "metadata_get f k = (case map_of (af_metadata f) k of None \<Rightarrow> None
     | Some v \<Rightarrow> if v = [] then None else Some v)"

definition field_id :: "'t arrow_field \<Rightarrow> int option res" where
  "field_id f = (case metadata_get f PARQUET_FIELD_ID_KEY_NAME of None \<Rightarrow> Inr None
     | Some b \<Rightarrow> of_option ValueError (map_option Some (py_int b)))"

definition field_doc :: "'t arrow_field \<Rightarrow> string option" where
  "field_doc f = metadata_get f FIELD_DOC_KEY_NAME"

definition field_is_merge_key :: "'t arrow_field \<Rightarrow> bool option" where
  "field_is_merge_key f = map_option (\<lambda>b. b \<noteq> []) (metadata_get f FIELD_MERGE_KEY_NAME)"

definition metadata_value :: "'t arrow \<Rightarrow> 't arrow_field \<Rightarrow> string \<Rightarrow> pyval res" where
  "metadata_value A f k = (case metadata_get f k of None \<Rightarrow> Inr PNone
     | Some b \<Rightarrow> decode_metadata_value A b)"

definition field_merge_order :: "'t arrow \<Rightarrow> 't arrow_field \<Rightarrow> pyval res" where
  "field_merge_order A f = metadata_value A f FIELD_MERGE_ORDER_KEY_NAME"

definition field_is_event_time :: "'t arrow_field \<Rightarrow> bool option" where
  "field_is_event_time f = map_option (\<lambda>b. b \<noteq> []) (metadata_get f FIELD_EVENT_TIME_KEY_NAME)"

definition field_past_default :: "'t arrow \<Rightarrow> 't arrow_field \<Rightarrow> pyval res" where
  "field_past_default A f = metadata_value A f FIELD_PAST_DEFAULT_KEY_NAME"

definition field_future_default :: "'t arrow \<Rightarrow> 't arrow_field \<Rightarrow> pyval res" where
  "field_future_default A f = metadata_value A f FIELD_FUTURE_DEFAULT_KEY_NAME"

definition field_consistency_type :: "'t arrow_field \<Rightarrow> consistency option res" where
  "field_consistency_type f = (case metadata_get f FIELD_CONSISTENCY_TYPE_KEY_NAME of None \<Rightarrow> Inr None
     | Some b \<Rightarrow> rbind (consistency_of b) (\<lambda>c. Inr (Some c)))"

subsection \<open>Validating and building\<close>

definition validate_consistency :: "consistency option \<Rightarrow> unit res" where
  "validate_consistency c = (if c \<noteq> None \<and> c \<noteq> Some VALIDATE then Inl ValueError else Inr ())"

definition validate_merge_key :: "'t arrow \<Rightarrow> 't arrow_field \<Rightarrow> consistency option \<Rightarrow> unit res" where
  "validate_merge_key A f c =
     (if \<not> (is_string A (af_type f) \<or> is_primitive A (af_type f) \<or> is_large_string A (af_type f))
      then Inl ValueError
      else rbind (validate_consistency c)
        (\<lambda>_. if is_floating A (af_type f) then Inl ValueError else Inr ()))"

definition validate_merge_order :: "'t arrow \<Rightarrow> 't arrow_field \<Rightarrow> consistency option \<Rightarrow> unit res" where
  "validate_merge_order A f c =
     (if \<not> is_primitive A (af_type f) then Inl ValueError else validate_consistency c)"

definition validate_event_time :: "'t arrow \<Rightarrow> 't arrow_field \<Rightarrow> consistency option \<Rightarrow> unit res" where
  "validate_event_time A f c =
     (if \<not> is_integer A (af_type f) \<and> \<not> is_floating A (af_type f) \<and> \<not> is_date A (af_type f)
      then Inl ValueError else validate_consistency c)"

definition validate_default :: "'t arrow \<Rightarrow> pyval \<Rightarrow> 't arrow_field \<Rightarrow> unit res" where
  "validate_default A v f = (case pa_scalar A v (af_type f) of None \<Rightarrow> Inr ()
     | Some ArrowInvalid \<Rightarrow> Inl ValueError | Some e \<Rightarrow> Inl (raised e))"

text \<open>The optional attributes of a field; \<open>PNone\<close> and \<open>None\<close> stand for Python's \<open>None\<close>.\<close>

record field_args =
  a_id :: "int option"
  a_merge_key :: "bool option"
  a_merge_order :: pyval
  a_event_time :: "bool option"
  a_doc :: "string option"
  a_past :: pyval
  a_future :: pyval
  a_consistency :: "consistency option"

definition no_args :: field_args where
  "no_args = \<lparr>a_id = None, a_merge_key = None, a_merge_order = PNone, a_event_time = None,
     a_doc = None, a_past = PNone, a_future = PNone, a_consistency = None\<rparr>"

text \<open>The value an entry of the metadata gets, and the entry itself when there is one.\<close>

definition add_meta :: "bool \<Rightarrow> unit res \<Rightarrow> string \<Rightarrow> string res \<Rightarrow>
    (string \<times> string) list \<Rightarrow> (string \<times> string) list res" where
  "add_meta present valid k v m =
     (if present then rbind valid (\<lambda>_. rbind v (\<lambda>b. Inr (dict_set k b m))) else Inr m)"

definition build_future :: "field_args \<Rightarrow> pyval" where
  "build_future a = (if a_past a \<noteq> PNone \<and> a_future a = PNone then a_past a else a_future a)"

definition build_consistency :: "field_args \<Rightarrow> consistency option" where
  "build_consistency a = (if a_consistency a = None \<and>
       (a_merge_key a = Some True \<or> py_truthy (a_merge_order a) \<or> a_event_time a = Some True)
     then Some VALIDATE else a_consistency a)"

definition build_meta :: "'t arrow \<Rightarrow> 't arrow_field \<Rightarrow> field_args \<Rightarrow> (string \<times> string) list res" where
  "build_meta A f a =
     (let future = build_future a; c = build_consistency a in
      rbind (add_meta (a_merge_key a = Some True) (validate_merge_key A f c)
               FIELD_MERGE_KEY_NAME (Inr ''True'') [])
      (\<lambda>m. rbind (add_meta (py_truthy (a_merge_order a)) (validate_merge_order A f c)
               FIELD_MERGE_ORDER_KEY_NAME (encode_metadata_value A (a_merge_order a)) m)
      (\<lambda>m. rbind (add_meta (a_event_time a = Some True) (validate_event_time A f c)
               FIELD_EVENT_TIME_KEY_NAME (Inr ''True'') m)
      (\<lambda>m. rbind (add_meta (a_past a \<noteq> PNone) (validate_default A (a_past a) f)
               FIELD_PAST_DEFAULT_KEY_NAME (encode_metadata_value A (a_past a)) m)
      (\<lambda>m. rbind (add_meta (future \<noteq> PNone) (validate_default A future f)
               FIELD_FUTURE_DEFAULT_KEY_NAME (encode_metadata_value A future) m)
      (\<lambda>m. rbind (add_meta (a_id a \<noteq> None) (Inr ()) PARQUET_FIELD_ID_KEY_NAME
               (Inr (int_to_str (the (a_id a)))) m)
      (\<lambda>m. rbind (add_meta (a_doc a \<noteq> None) (Inr ()) FIELD_DOC_KEY_NAME (Inr (the (a_doc a))) m)
      (\<lambda>m. add_meta (c \<noteq> None) (Inr ()) FIELD_CONSISTENCY_TYPE_KEY_NAME
               (Inr (consistency_value (the c))) m))))))))"

definition build_field :: "'t arrow \<Rightarrow> 't arrow_field \<Rightarrow> field_args \<Rightarrow> 't arrow_field res" where
  "build_field A f a = rbind (build_meta A f a) (\<lambda>m.
     Inr \<lparr>af_name = af_name f, af_type = af_type f, af_nullable = af_nullable f, af_metadata = m\<rparr>)"

subsection \<open>Fields\<close>

record 't field =
  f_arrow :: "'t arrow_field"
  f_path :: "string list option"
  f_native :: pyval

text \<open>The attributes of an Arrow field apart from its identifier, and with it.\<close>

definition read_attrs :: "'t arrow \<Rightarrow> 't arrow_field \<Rightarrow> field_args res" where
  "read_attrs A f =
     rbind (field_merge_order A f) (\<lambda>mo. rbind (field_past_default A f) (\<lambda>p.
     rbind (field_future_default A f) (\<lambda>u. rbind (field_consistency_type f) (\<lambda>c.
       Inr \<lparr>a_id = None, a_merge_key = field_is_merge_key f, a_merge_order = mo,
            a_event_time = field_is_event_time f, a_doc = field_doc f, a_past = p, a_future = u,
            a_consistency = c\<rparr>))))"

definition or_read :: "'a \<Rightarrow> 'a \<Rightarrow> 'a res \<Rightarrow> 'a res" where
  "or_read none x r = (if x = none then r else Inr x)"

text \<open>\<^verbatim>\<open>Field.of\<close>: every attribute that is not given is read from the Arrow field.\<close>

definition resolve_args :: "'t arrow \<Rightarrow> 't arrow_field \<Rightarrow> field_args \<Rightarrow> field_args res" where
  "resolve_args A f a =
     rbind (or_read None (a_id a) (field_id f)) (\<lambda>i.
     rbind (or_read PNone (a_merge_order a) (field_merge_order A f)) (\<lambda>mo.
     rbind (or_read PNone (a_past a) (field_past_default A f)) (\<lambda>p.
     rbind (or_read PNone (a_future a) (field_future_default A f)) (\<lambda>u.
     rbind (or_read None (a_consistency a) (field_consistency_type f)) (\<lambda>c.
       Inr \<lparr>a_id = i,
            a_merge_key = (if a_merge_key a = None then field_is_merge_key f else a_merge_key a),
            a_merge_order = mo,
            a_event_time = (if a_event_time a = None then field_is_event_time f else a_event_time a),
            a_doc = (if a_doc a = None then field_doc f else a_doc a),
            a_past = p, a_future = u, a_consistency = c\<rparr>)))))"

definition field_of :: "'t arrow \<Rightarrow> 't arrow_field \<Rightarrow> field_args \<Rightarrow> string list option \<Rightarrow> pyval \<Rightarrow> 't field res" where
  "field_of A f a path native =
     rbind (resolve_args A f a) (\<lambda>a'. rbind (build_field A f a') (\<lambda>g.
       Inr \<lparr>f_arrow = g, f_path = path, f_native = native\<rparr>))"

abbreviation f_name :: "'t field \<Rightarrow> string" where
  "f_name f \<equiv> af_name (f_arrow f)"

definition merge_order_of :: "string \<Rightarrow> string \<Rightarrow> pyval" where
  "merge_order_of sort_order null_order = PTuple [PStr sort_order, PStr null_order]"

subsection \<open>What building a field gives\<close>

lemma add_meta_get:
  "add_meta p va k v m = Inr m' \<Longrightarrow>
   map_of m' k' = (if p \<and> k' = k then (case v of Inr b \<Rightarrow> Some b | Inl _ \<Rightarrow> None) else map_of m k')"
  by (auto simp: add_meta_def rbind_Inr_iff split: if_splits)

lemma add_meta_ok: "add_meta p va k v m = Inr m' \<Longrightarrow> p \<Longrightarrow> va = Inr () \<and> (\<exists>b. v = Inr b)"
  by (auto simp: add_meta_def rbind_Inr_iff)

lemma py_int_of_int_to_str [simp]: "py_int (int_to_str i) = Some i"
proof (cases "i < 0")
  case True
  let ?n = "nat (- i)"
  have sp: "\<forall>c \<in> set (CHR ''-'' # nat_to_str ?n). \<not> is_space c"
    using isdigit_facts(5) [OF isdigit_nat_to_str, of ?n] by (auto simp: is_space_def)
  have "parse_digits 10 0 True (nat_to_str ?n) = Some (digits_value 0 (nat_to_str ?n))"
    using isdigit_nat_to_str [of ?n] by (intro parse_digits_decimal) (auto simp: isdigit_def)
  then show ?thesis
    using True strip_spaces_id [OF sp] by (simp add: py_int_base_def int_to_str_def drop_base_prefix_def Let_def)
qed simp

lemma int_to_str_not_Nil [simp]: "int_to_str i \<noteq> []"
  by (simp add: int_to_str_def)

lemma consistency_of_value [simp]: "consistency_of (consistency_value c) = Inr c"
  by (cases c) (simp_all add: consistency_of_def)

lemma consistency_value_not_Nil [simp]: "consistency_value c \<noteq> []"
  by (cases c) simp_all

lemma build_field_shape:
  assumes "build_field A f a = Inr g"
  shows "af_name g = af_name f" "af_type g = af_type f" "af_nullable g = af_nullable f"
  using assms by (auto simp: build_field_def Let_def rbind_Inr_iff)

text \<open>The metadata written, by key.\<close>

lemma field_keys_distinct:
  "distinct [PARQUET_FIELD_ID_KEY_NAME, FIELD_DOC_KEY_NAME, FIELD_MERGE_KEY_NAME, FIELD_MERGE_ORDER_KEY_NAME,
     FIELD_EVENT_TIME_KEY_NAME, FIELD_PAST_DEFAULT_KEY_NAME, FIELD_FUTURE_DEFAULT_KEY_NAME,
     FIELD_CONSISTENCY_TYPE_KEY_NAME]"
  "distinct [FIELD_CONSISTENCY_TYPE_KEY_NAME, FIELD_FUTURE_DEFAULT_KEY_NAME, FIELD_PAST_DEFAULT_KEY_NAME,
     FIELD_EVENT_TIME_KEY_NAME, FIELD_MERGE_ORDER_KEY_NAME, FIELD_MERGE_KEY_NAME, FIELD_DOC_KEY_NAME,
     PARQUET_FIELD_ID_KEY_NAME]"
  by (simp_all add: field_keys)

abbreviation meta_entry :: "bool \<Rightarrow> string res \<Rightarrow> string option" where
  "meta_entry p v \<equiv> if p then (case v of Inr b \<Rightarrow> Some b | Inl _ \<Rightarrow> None) else None"

lemma build_field_metadata:
  assumes "build_field A f a = Inr g"
  shows "map_of (af_metadata g) FIELD_MERGE_KEY_NAME = (if a_merge_key a = Some True then Some ''True'' else None)"
    and "map_of (af_metadata g) FIELD_MERGE_ORDER_KEY_NAME =
      meta_entry (py_truthy (a_merge_order a)) (encode_metadata_value A (a_merge_order a))"
    and "map_of (af_metadata g) FIELD_EVENT_TIME_KEY_NAME = (if a_event_time a = Some True then Some ''True'' else None)"
    and "map_of (af_metadata g) FIELD_PAST_DEFAULT_KEY_NAME =
      meta_entry (a_past a \<noteq> PNone) (encode_metadata_value A (a_past a))"
    and "map_of (af_metadata g) FIELD_FUTURE_DEFAULT_KEY_NAME =
      meta_entry (build_future a \<noteq> PNone) (encode_metadata_value A (build_future a))"
    and "map_of (af_metadata g) PARQUET_FIELD_ID_KEY_NAME = map_option int_to_str (a_id a)"
    and "map_of (af_metadata g) FIELD_DOC_KEY_NAME = a_doc a"
    and "map_of (af_metadata g) FIELD_CONSISTENCY_TYPE_KEY_NAME = map_option consistency_value (build_consistency a)"
    and "a_past a \<noteq> PNone \<Longrightarrow> \<exists>b. encode_metadata_value A (a_past a) = Inr b"
    and "build_future a \<noteq> PNone \<Longrightarrow> \<exists>b. encode_metadata_value A (build_future a) = Inr b"
    and "py_truthy (a_merge_order a) \<Longrightarrow> \<exists>b. encode_metadata_value A (a_merge_order a) = Inr b"
proof -
  have meta: "build_meta A f a = Inr (af_metadata g)"
    using assms by (auto simp: build_field_def rbind_Inr_iff)
  obtain m1 m2 m3 m4 m5 m6 m7 where
    1: "add_meta (a_merge_key a = Some True) (validate_merge_key A f (build_consistency a))
          FIELD_MERGE_KEY_NAME (Inr ''True'') [] = Inr m1" and
    2: "add_meta (py_truthy (a_merge_order a)) (validate_merge_order A f (build_consistency a))
          FIELD_MERGE_ORDER_KEY_NAME (encode_metadata_value A (a_merge_order a)) m1 = Inr m2" and
    3: "add_meta (a_event_time a = Some True) (validate_event_time A f (build_consistency a))
          FIELD_EVENT_TIME_KEY_NAME (Inr ''True'') m2 = Inr m3" and
    4: "add_meta (a_past a \<noteq> PNone) (validate_default A (a_past a) f)
          FIELD_PAST_DEFAULT_KEY_NAME (encode_metadata_value A (a_past a)) m3 = Inr m4" and
    5: "add_meta (build_future a \<noteq> PNone) (validate_default A (build_future a) f)
          FIELD_FUTURE_DEFAULT_KEY_NAME (encode_metadata_value A (build_future a)) m4 = Inr m5" and
    6: "add_meta (a_id a \<noteq> None) (Inr ()) PARQUET_FIELD_ID_KEY_NAME
          (Inr (int_to_str (the (a_id a)))) m5 = Inr m6" and
    7: "add_meta (a_doc a \<noteq> None) (Inr ()) FIELD_DOC_KEY_NAME (Inr (the (a_doc a))) m6 = Inr m7" and
    8: "add_meta (build_consistency a \<noteq> None) (Inr ()) FIELD_CONSISTENCY_TYPE_KEY_NAME
          (Inr (consistency_value (the (build_consistency a)))) m7 = Inr (af_metadata g)"
    using meta unfolding build_meta_def Let_def rbind_Inr_iff by blast
  note get = add_meta_get [OF 8] add_meta_get [OF 7] add_meta_get [OF 6] add_meta_get [OF 5]
    add_meta_get [OF 4] add_meta_get [OF 3] add_meta_get [OF 2] add_meta_get [OF 1]
  show "map_of (af_metadata g) FIELD_MERGE_KEY_NAME = (if a_merge_key a = Some True then Some ''True'' else None)"
    using field_keys_distinct by (simp add: get)
  show "map_of (af_metadata g) FIELD_MERGE_ORDER_KEY_NAME =
      meta_entry (py_truthy (a_merge_order a)) (encode_metadata_value A (a_merge_order a))"
    using field_keys_distinct by (simp add: get)
  show "map_of (af_metadata g) FIELD_EVENT_TIME_KEY_NAME = (if a_event_time a = Some True then Some ''True'' else None)"
    using field_keys_distinct by (simp add: get)
  show "map_of (af_metadata g) FIELD_PAST_DEFAULT_KEY_NAME =
      meta_entry (a_past a \<noteq> PNone) (encode_metadata_value A (a_past a))"
    using field_keys_distinct by (simp add: get)
  show "map_of (af_metadata g) FIELD_FUTURE_DEFAULT_KEY_NAME =
      meta_entry (build_future a \<noteq> PNone) (encode_metadata_value A (build_future a))"
    using field_keys_distinct by (simp add: get)
  show "map_of (af_metadata g) PARQUET_FIELD_ID_KEY_NAME = map_option int_to_str (a_id a)"
    using field_keys_distinct by (cases "a_id a") (simp_all add: get)
  show "map_of (af_metadata g) FIELD_DOC_KEY_NAME = a_doc a"
    using field_keys_distinct by (cases "a_doc a") (simp_all add: get)
  show "map_of (af_metadata g) FIELD_CONSISTENCY_TYPE_KEY_NAME = map_option consistency_value (build_consistency a)"
    using field_keys_distinct by (cases "build_consistency a") (simp_all add: get)
  show "a_past a \<noteq> PNone \<Longrightarrow> \<exists>b. encode_metadata_value A (a_past a) = Inr b"
    using add_meta_ok [OF 4] by blast
  show "build_future a \<noteq> PNone \<Longrightarrow> \<exists>b. encode_metadata_value A (build_future a) = Inr b"
    using add_meta_ok [OF 5] by blast
  show "py_truthy (a_merge_order a) \<Longrightarrow> \<exists>b. encode_metadata_value A (a_merge_order a) = Inr b"
    using add_meta_ok [OF 2] by blast
qed

lemma metadata_valueI:
  assumes "arrow_laws A" "map_of (af_metadata g) k = meta_entry p (encode_metadata_value A v)"
    "p \<Longrightarrow> \<exists>b. encode_metadata_value A v = Inr b"
  shows "metadata_value A g k = Inr (if p then unpacked v else PNone)"
proof (cases p)
  case True
  with assms(3) obtain b where b: "encode_metadata_value A v = Inr b" by blast
  with True assms(2) show ?thesis
    using encode_not_Nil [OF assms(1) b] decode_encode [OF assms(1) b]
    by (simp add: metadata_value_def metadata_get_def)
qed (use assms(2) in \<open>simp add: metadata_value_def metadata_get_def\<close>)

lemma build_field_attrs:
  assumes laws: "arrow_laws A" and g: "build_field A f a = Inr g"
  shows "field_id g = Inr (a_id a)"
    and "field_is_merge_key g = (if a_merge_key a = Some True then Some True else None)"
    and "field_merge_order A g = Inr (if py_truthy (a_merge_order a) then unpacked (a_merge_order a) else PNone)"
    and "field_is_event_time g = (if a_event_time a = Some True then Some True else None)"
    and "field_doc g = (if a_doc a = Some [] then None else a_doc a)"
    and "field_past_default A g = Inr (unpacked (a_past a))"
    and "field_future_default A g = Inr (unpacked (build_future a))"
    and "field_consistency_type g = Inr (build_consistency a)"
proof -
  note md = build_field_metadata [OF g]
  show "field_id g = Inr (a_id a)"
    by (cases "a_id a") (simp_all add: field_id_def metadata_get_def md)
  show "field_is_merge_key g = (if a_merge_key a = Some True then Some True else None)"
    by (simp add: field_is_merge_key_def metadata_get_def md)
  show "field_merge_order A g = Inr (if py_truthy (a_merge_order a) then unpacked (a_merge_order a) else PNone)"
    unfolding field_merge_order_def by (rule metadata_valueI [OF laws md(2) md(11)])
  show "field_is_event_time g = (if a_event_time a = Some True then Some True else None)"
    by (simp add: field_is_event_time_def metadata_get_def md)
  show "field_doc g = (if a_doc a = Some [] then None else a_doc a)"
    by (simp add: field_doc_def metadata_get_def md split: option.split)
  show "field_past_default A g = Inr (unpacked (a_past a))"
    using metadata_valueI [OF laws md(4) md(9)] by (auto simp: field_past_default_def split: if_splits)
  show "field_future_default A g = Inr (unpacked (build_future a))"
    using metadata_valueI [OF laws md(5) md(10)] by (auto simp: field_future_default_def split: if_splits)
  show "field_consistency_type g = Inr (build_consistency a)"
    by (cases "build_consistency a") (simp_all add: field_consistency_type_def metadata_get_def md)
qed

subsection \<open>Attributes of a built field\<close>

text \<open>All attributes of an Arrow field, and the normal form they have after \<open>field_of\<close>.\<close>

abbreviation field_attrs :: "'t arrow \<Rightarrow> 't arrow_field \<Rightarrow> field_args res" where
  "field_attrs A f \<equiv> resolve_args A f no_args"

definition normal :: "field_args \<Rightarrow> field_args" where
  "normal a = \<lparr>a_id = a_id a,
     a_merge_key = (if a_merge_key a = Some True then Some True else None),
     a_merge_order = (if py_truthy (a_merge_order a) then unpacked (a_merge_order a) else PNone),
     a_event_time = (if a_event_time a = Some True then Some True else None),
     a_doc = (if a_doc a = Some [] then None else a_doc a),
     a_past = unpacked (a_past a), a_future = unpacked (build_future a),
     a_consistency = build_consistency a\<rparr>"

lemma normal_idem [simp]: "normal (normal a) = normal a"
  by (simp add: normal_def build_future_def build_consistency_def)

lemma normal_id [simp]: "a_id (normal a) = a_id a"
  by (simp add: normal_def)

lemma field_attrs_eq:
  "field_attrs A f = rbind (field_id f) (\<lambda>i. rbind (read_attrs A f) (\<lambda>a. Inr (a\<lparr>a_id := i\<rparr>)))"
  by (simp add: resolve_args_def read_attrs_def no_args_def or_read_def rbind_assoc)

lemma field_of_Inr_iff:
  "field_of A f a p n = Inr F \<longleftrightarrow> (\<exists>a' g. resolve_args A f a = Inr a' \<and> build_field A f a' = Inr g \<and>
     F = \<lparr>f_arrow = g, f_path = p, f_native = n\<rparr>)"
  by (auto simp: field_of_def rbind_Inr_iff)

lemma field_of_shape:
  assumes "field_of A f a p n = Inr F"
  shows "f_name F = af_name f" "af_type (f_arrow F) = af_type f" "af_nullable (f_arrow F) = af_nullable f"
    "f_path F = p" "f_native F = n"
proof -
  obtain a' g where "build_field A f a' = Inr g" "F = \<lparr>f_arrow = g, f_path = p, f_native = n\<rparr>"
    using assms by (auto simp: field_of_Inr_iff)
  then show "f_name F = af_name f" "af_type (f_arrow F) = af_type f" "af_nullable (f_arrow F) = af_nullable f"
    "f_path F = p" "f_native F = n"
    by (simp_all add: build_field_shape)
qed

lemma built_attrs:
  assumes "arrow_laws A" "build_field A f a = Inr g"
  shows "field_attrs A g = Inr (normal a)"
  using build_field_attrs [OF assms]
  by (simp add: resolve_args_def no_args_def or_read_def normal_def)

lemma field_of_attrs:
  assumes "arrow_laws A" "field_of A f a p n = Inr F" "resolve_args A f a = Inr a'"
  shows "field_attrs A (f_arrow F) = Inr (normal a')"
  using assms built_attrs by (fastforce simp: field_of_Inr_iff)

text \<open>Overriding attributes that the field already has changes nothing, overriding its identifier only that.\<close>

lemma resolve_args_id:
  "field_attrs A f = Inr x \<Longrightarrow> resolve_args A f (no_args\<lparr>a_id := Some i\<rparr>) = Inr (x\<lparr>a_id := Some i\<rparr>)"
  by (auto simp: resolve_args_def no_args_def or_read_def rbind_Inr_iff)

lemma resolve_args_own:
  assumes "read_attrs A f = Inr x"
  shows "resolve_args A f (x\<lparr>a_id := Some i\<rparr>) = Inr (x\<lparr>a_id := Some i\<rparr>)"
  using assms by (auto simp: resolve_args_def read_attrs_def or_read_def rbind_Inr_iff)

lemma field_attrs_id: "field_attrs A f = Inr x \<Longrightarrow> field_id f = Inr (a_id x)"
  by (auto simp: resolve_args_def no_args_def or_read_def rbind_Inr_iff)

lemma field_attrs_read: "field_attrs A f = Inr x \<Longrightarrow> read_attrs A f = Inr (x\<lparr>a_id := None\<rparr>)"
  by (auto simp: field_attrs_eq rbind_Inr_iff read_attrs_def)

lemma field_attrs_getters:
  assumes "field_attrs A f = Inr x"
  shows "field_is_merge_key f = a_merge_key x" "field_merge_order A f = Inr (a_merge_order x)"
    "field_is_event_time f = a_event_time x" "field_doc f = a_doc x"
    "field_past_default A f = Inr (a_past x)" "field_future_default A f = Inr (a_future x)"
    "field_consistency_type f = Inr (a_consistency x)"
  using assms by (auto simp: resolve_args_def no_args_def or_read_def rbind_Inr_iff)

end
