(* ===== verification/Schemas.thy ===== *)
theory Schemas
  imports SchemaFields
begin

text \<open>
  Schemas (\<^verbatim>\<open>Schema\<close> of \<^verbatim>\<open>deltacat/storage/model/schema.py\<close>): construction from fields, from an Arrow
  schema or from named subschemas, with the assignment of missing field identifiers; lookups; the
  operations on subschemas; serialization through the Arrow schema; and the sort keys a schema
  derives from merge orders and event times. The cache of subschemas is not kept: it always equals
  what is computed. Tables are not modelled here.
\<close>

definition MAX_FIELD_ID_EXCLUSIVE :: int where
  "MAX_FIELD_ID_EXCLUSIVE = 2147483447"

definition SCHEMA_ID_KEY_NAME :: string where
  "SCHEMA_ID_KEY_NAME = ''DELTACAT:schema_id''"

definition SUBSCHEMAS_KEY_NAME :: string where
  "SUBSCHEMAS_KEY_NAME = ''DELTACAT:subschemas''"

definition BASE_SCHEMA_NAME :: string where
  "BASE_SCHEMA_NAME = ''_base''"

datatype 't single_schema = FieldList "'t field list" | ArrowSchema "'t arrow_schema"

datatype 't schema_input = Single "'t single_schema" | Multi "(string \<times> 't single_schema) list"

datatype field_locator = LName string | LPath "string list" | LId int

record 't schema =
  s_arrow :: "'t arrow_schema"
  s_merge_keys :: "int list option"
  s_fields :: "(int \<times> 't field) list"
  s_max_field_id :: int
  s_native :: pyval

subsection \<open>Names\<close>

fun to_pyarrow_schema :: "'t single_schema \<Rightarrow> 't arrow_schema" where
  "to_pyarrow_schema (ArrowSchema s) = s"
| "to_pyarrow_schema (FieldList fs) = \<lparr>as_fields = map f_arrow fs, as_metadata = []\<rparr>"

definition get_lower_case_field_names :: "'t single_schema \<Rightarrow> string list" where
  "get_lower_case_field_names s = map (\<lambda>f. str_lower (af_name f)) (as_fields (to_pyarrow_schema s))"

definition validate_schema_name :: "string \<Rightarrow> unit res" where
  "validate_schema_name name = (if name = [] then Inl ValueError
     else if 1024 < length name then Inl ValueError else Inr ())"

definition validate_field_names :: "'t schema_input \<Rightarrow> unit res" where
  "validate_field_names schema =
     rbind (case schema of
         Multi subs \<Rightarrow> rbind (res_map (\<lambda>(n, s). rbind (validate_schema_name n)
             (\<lambda>_. Inr (get_lower_case_field_names s))) subs) (\<lambda>ns. Inr (concat ns))
       | Single s \<Rightarrow> Inr (get_lower_case_field_names s))
     (\<lambda>all_names. if all_names = [] then Inl ValueError
        else if \<not> distinct all_names then Inl ValueError else Inr ())"

definition to_unified_pyarrow_schema ::
    "'t arrow \<Rightarrow> 't schema_input \<Rightarrow> ('t arrow_schema \<times> (string \<times> string list) list) res" where
  "to_unified_pyarrow_schema A schema =
     rbind (validate_field_names schema) (\<lambda>_.
       case schema of
         Multi subs \<Rightarrow>
           (case unify_schemas A (map (\<lambda>(n, s). to_pyarrow_schema s) subs) of
              Inl e \<Rightarrow> Inl (raised e)
            | Inr u \<Rightarrow> Inr (u, map (\<lambda>(n, s). (n, map af_name (as_fields (to_pyarrow_schema s)))) subs))
       | Single s \<Rightarrow> Inr (to_pyarrow_schema s, []))"

subsection \<open>Field identifiers\<close>

text \<open>
  \<^verbatim>\<open>_visit_fields\<close> calls the visitor on every field of the schema with its path. The recursion into
  nested types tests whether the \<^emph>\<open>field\<close> is a \<open>StructType\<close>, \<open>ListType\<close> or \<open>MapType\<close>, which a \<open>pa.Field\<close> never
  is, so the path of every visit is the name of a top-level field.
\<close>

fun visit_fields :: "('t arrow_field \<Rightarrow> string list \<Rightarrow> 's \<Rightarrow> 's res) \<Rightarrow> 't arrow_field list \<Rightarrow> 's \<Rightarrow> 's res" where
  "visit_fields visit [] s = Inr s"
| "visit_fields visit (f # fs) s = rbind (visit f [af_name f] s) (\<lambda>s'. visit_fields visit fs s')"

interpretation visits: res_loop "\<lambda>f. visit f [af_name f]" "visit_fields visit" for visit
  by unfold_locales simp_all

definition find_max_field_id :: "'t arrow \<Rightarrow> 't arrow_field \<Rightarrow> string list \<Rightarrow> int \<Rightarrow> int res" where
  "find_max_field_id A f path m =
     rbind (field_of A f no_args None PNone) (\<lambda>dc. rbind (field_id (f_arrow dc)) (\<lambda>i.
       Inr (max m (case i of None \<Rightarrow> 0 | Some n \<Rightarrow> n))))"

definition populate_fields ::
    "'t arrow \<Rightarrow> int \<Rightarrow> 't arrow_field \<Rightarrow> string list \<Rightarrow> (int \<times> 't field) list \<Rightarrow> (int \<times> 't field) list res" where
  "populate_fields A max_id f path d =
     rbind (field_of A f no_args None PNone) (\<lambda>dc. rbind (field_id (f_arrow dc)) (\<lambda>i.
       let fid = (case i of Some n \<Rightarrow> n
                  | None \<Rightarrow> (max_id + int (length d)) mod MAX_FIELD_ID_EXCLUSIVE) in
       if map_of d fid \<noteq> None then Inl ValueError
       else rbind (field_of A f (no_args\<lparr>a_id := Some fid\<rparr>) (Some path) PNone)
         (\<lambda>g. Inr (dict_set fid g d))))"

definition list_max :: "int list \<Rightarrow> int" where
  "list_max is = (case is of [] \<Rightarrow> 0 | i # js \<Rightarrow> fold max js i)"

subsection \<open>Construction\<close>

definition arrow_schema_field :: "'t arrow_schema \<Rightarrow> string \<Rightarrow> 't arrow_field res" where
  "arrow_schema_field s n = of_option KeyError (find (\<lambda>f. af_name f = n) (as_fields s))"

definition field_name_id :: "'t arrow \<Rightarrow> 't arrow_schema \<Rightarrow> string \<Rightarrow> int option res" where
  "field_name_id A s n = rbind (arrow_schema_field s n) (\<lambda>f.
     rbind (field_of A f no_args None PNone) (\<lambda>g. field_id (f_arrow g)))"

definition py_of_id :: "int option \<Rightarrow> pyval" where
  "py_of_id i = (case i of None \<Rightarrow> PNone | Some n \<Rightarrow> PInt n)"

definition subschema_ids :: "'t arrow \<Rightarrow> 't arrow_schema \<Rightarrow> (string \<times> string list) list \<Rightarrow> pyval res" where
  "subschema_ids A s subs =
     rbind (res_map (\<lambda>(n, names). rbind (res_map (field_name_id A s) names)
       (\<lambda>ids. Inr (n, PList (map py_of_id ids)))) subs) (\<lambda>kvs. Inr (PDict kvs))"

definition schema_metadata :: "(string \<times> string) list \<Rightarrow> int option \<Rightarrow> string \<Rightarrow> (string \<times> string) list" where
  "schema_metadata md schema_id subs =
     (let m1 = dict_update [] md;
          m2 = (case schema_id of None \<Rightarrow> m1 | Some i \<Rightarrow> dict_set SCHEMA_ID_KEY_NAME (int_to_str i) m1);
          m3 = (if map_of m2 SCHEMA_ID_KEY_NAME = None
                then dict_set SCHEMA_ID_KEY_NAME (int_to_str 0) m2 else m2)
      in dict_set SUBSCHEMAS_KEY_NAME subs m3)"

definition merge_key_ids :: "'t field list \<Rightarrow> int list option res" where
  "merge_key_ids fs =
     rbind (res_map (\<lambda>f. field_id (f_arrow f)) (filter (\<lambda>f. field_is_merge_key (f_arrow f) = Some True) fs))
       (\<lambda>ids. Inr (if ids = [] then None else Some (List.map_filter id ids)))"

definition schema_of :: "'t arrow \<Rightarrow> 't schema_input \<Rightarrow> int option \<Rightarrow> pyval \<Rightarrow> 't schema res" where
  "schema_of A schema schema_id native =
     (if schema_id \<noteq> None \<and> the schema_id < 0 then Inl ValueError
      else rbind (to_unified_pyarrow_schema A schema) (\<lambda>(pa, sub_names).
        rbind (visit_fields (find_max_field_id A) (as_fields pa) 0) (\<lambda>max_id.
        rbind (visit_fields (populate_fields A max_id) (as_fields pa) []) (\<lambda>d.
        rbind (merge_key_ids (map snd d)) (\<lambda>mks.
        let arrow = \<lparr>as_fields = map (\<lambda>p. f_arrow (snd p)) d, as_metadata = []\<rparr> in
        rbind (subschema_ids A arrow sub_names) (\<lambda>ids.
        rbind (encode_metadata_value A ids) (\<lambda>subs.
          Inr \<lparr>s_arrow = arrow\<lparr>as_metadata := schema_metadata (as_metadata pa) schema_id subs\<rparr>,
               s_merge_keys = mks, s_fields = d, s_max_field_id = list_max (map fst d),
               s_native = native\<rparr>)))))))"

definition schema_serialize :: "'t schema \<Rightarrow> 't arrow_schema" where
  "schema_serialize s = s_arrow s"

definition schema_deserialize :: "'t arrow \<Rightarrow> 't arrow_schema \<Rightarrow> 't schema res" where
  "schema_deserialize A serialized = schema_of A (Single (ArrowSchema serialized)) None PNone"

subsection \<open>Lookups\<close>

definition schema_fields :: "'t schema \<Rightarrow> 't field list" where
  "schema_fields s = map snd (s_fields s)"

definition schema_id :: "'t schema \<Rightarrow> int option res" where
  "schema_id s = (case map_of (as_metadata (s_arrow s)) SCHEMA_ID_KEY_NAME of None \<Rightarrow> Inr None
     | Some b \<Rightarrow> if b = [] then Inr None else of_option ValueError (map_option Some (py_int b)))"

fun schema_field_id :: "'t arrow \<Rightarrow> 't schema \<Rightarrow> field_locator \<Rightarrow> int option res" where
  "schema_field_id A s (LName n) = field_name_id A (s_arrow s) n"
| "schema_field_id A s (LPath []) = Inl ValueError"
| "schema_field_id A s (LPath [n]) = field_name_id A (s_arrow s) n"
| "schema_field_id A s (LPath (n # m # p)) = rbind (arrow_schema_field (s_arrow s) n) (\<lambda>_. Inl TypeError)"
| "schema_field_id A s (LId i) = Inl ValueError"

definition schema_field :: "'t arrow \<Rightarrow> 't schema \<Rightarrow> field_locator \<Rightarrow> 't field res" where
  "schema_field A s loc =
     rbind (case loc of LId i \<Rightarrow> Inr (Some i) | _ \<Rightarrow> schema_field_id A s loc) (\<lambda>i.
       case i of None \<Rightarrow> Inl KeyError | Some n \<Rightarrow> of_option KeyError (map_of (s_fields s) n))"

definition schema_field_name :: "'t schema \<Rightarrow> int \<Rightarrow> string list res" where
  "schema_field_name s i = rbind (of_option KeyError (map_of (s_fields s) i)) (\<lambda>f.
     case f_path f of None \<Rightarrow> Inl TypeError
     | Some p \<Rightarrow> Inr (if length p = 1 then [f_name f] else p))"

definition equivalent_to :: "'t schema \<Rightarrow> 't schema option \<Rightarrow> bool \<Rightarrow> bool" where
  "equivalent_to s other check_metadata = (case other of None \<Rightarrow> False
     | Some o' \<Rightarrow>
         map (\<lambda>f. (af_name f, af_type f, af_nullable f)) (as_fields (s_arrow s)) =
         map (\<lambda>f. (af_name f, af_type f, af_nullable f)) (as_fields (s_arrow o')) \<and>
         (check_metadata \<longrightarrow>
           map (\<lambda>f. set (af_metadata f)) (as_fields (s_arrow s)) =
           map (\<lambda>f. set (af_metadata f)) (as_fields (s_arrow o')) \<and>
           set (as_metadata (s_arrow s)) = set (as_metadata (s_arrow o'))))"

subsection \<open>Subschemas\<close>

text \<open>Iterating over a decoded value, and a decoded value as a field locator.\<close>

fun iter_py :: "pyval \<Rightarrow> pyval list res" where
  "iter_py (PList vs) = Inr vs"
| "iter_py (PTuple vs) = Inr vs"
| "iter_py (PStr s) = Inr (map (\<lambda>c. PStr [c]) s)"
| "iter_py (PDict kvs) = Inr (map (\<lambda>p. PStr (fst p)) kvs)"
| "iter_py v = Inl TypeError"

fun py_locator :: "pyval \<Rightarrow> field_locator res" where
  "py_locator (PInt i) = Inr (LId i)"
| "py_locator (PBool b) = Inr (LId (if b then 1 else 0))"
| "py_locator (PStr s) = Inr (LName s)"
| "py_locator (PList vs) = rbind (res_map (\<lambda>v. case v of PStr s \<Rightarrow> Inr s | _ \<Rightarrow> Inl TypeError) vs)
     (\<lambda>p. Inr (LPath p))"
| "py_locator v = Inl ValueError"

definition subschemas_to_field_ids :: "'t arrow \<Rightarrow> 't arrow_schema \<Rightarrow> pyval res" where
  "subschemas_to_field_ids A s = (case map_of (as_metadata s) SUBSCHEMAS_KEY_NAME of None \<Rightarrow> Inr PNone
     | Some b \<Rightarrow> if b = [] then Inr PNone else decode_metadata_value A b)"

definition build_subschema :: "'t arrow \<Rightarrow> 't schema \<Rightarrow> string \<times> pyval \<Rightarrow> (string \<times> 't schema) res" where
  "build_subschema A s = (\<lambda>(n, v). rbind (iter_py v) (\<lambda>vs.
     rbind (res_map (\<lambda>i. rbind (py_locator i) (schema_field A s)) vs) (\<lambda>fs.
     rbind (schema_id s) (\<lambda>sid.
     rbind (schema_of A (Single (ArrowSchema \<lparr>as_fields = map f_arrow fs, as_metadata = []\<rparr>)) sid (s_native s))
       (\<lambda>sub. Inr (n, sub))))))"

definition schema_subschemas :: "'t arrow \<Rightarrow> 't schema \<Rightarrow> (string \<times> 't schema) list res" where
  "schema_subschemas A s = rbind (subschemas_to_field_ids A (s_arrow s)) (\<lambda>v.
     case v of PDict kvs \<Rightarrow> res_map (build_subschema A s) kvs
     | _ \<Rightarrow> if py_truthy v then Inl AttributeError else Inr [])"

definition del_subschema :: "string \<Rightarrow> (string \<times> 'a) list \<Rightarrow> (string \<times> 'a) list res" where
  "del_subschema name subs = (if map_of subs name = None then Inl ValueError else Inr (dict_del name subs))"

definition add_subschema_to ::
    "string \<Rightarrow> 't single_schema \<Rightarrow> (string \<times> 't schema) list \<Rightarrow> (string \<times> 't single_schema) list res" where
  "add_subschema_to name schema subs = rbind (validate_schema_name name) (\<lambda>_.
     if name = BASE_SCHEMA_NAME then Inl ValueError
     else if map_of subs name \<noteq> None then Inl ValueError
     else Inr (dict_set name schema (map (\<lambda>(n, s). (n, ArrowSchema (s_arrow s))) subs)))"

definition next_schema_id :: "'t schema \<Rightarrow> int option res" where
  "next_schema_id s = rbind (schema_id s) (\<lambda>i. case i of None \<Rightarrow> Inl TypeError | Some n \<Rightarrow> Inr (Some (n + 1)))"

definition add_subschema :: "'t arrow \<Rightarrow> 't schema \<Rightarrow> string \<Rightarrow> 't single_schema \<Rightarrow> 't schema res" where
  "add_subschema A s name schema = rbind (schema_subschemas A s) (\<lambda>subs.
     rbind (add_subschema_to name schema (if subs = [] then [(BASE_SCHEMA_NAME, s)] else subs)) (\<lambda>subs'.
     rbind (next_schema_id s) (\<lambda>sid. schema_of A (Multi subs') sid PNone)))"

definition delete_subschema :: "'t arrow \<Rightarrow> 't schema \<Rightarrow> string \<Rightarrow> 't schema res" where
  "delete_subschema A s name = rbind (schema_subschemas A s) (\<lambda>subs.
     rbind (del_subschema name subs) (\<lambda>subs'.
     if subs' = [] then Inl ValueError
     else rbind (next_schema_id s) (\<lambda>sid.
       schema_of A (Multi (map (\<lambda>(n, x). (n, ArrowSchema (s_arrow x))) subs')) sid PNone)))"

definition replace_subschema :: "'t arrow \<Rightarrow> 't schema \<Rightarrow> string \<Rightarrow> 't single_schema \<Rightarrow> 't schema res" where
  "replace_subschema A s name schema = rbind (schema_subschemas A s) (\<lambda>subs.
     rbind (del_subschema name subs) (\<lambda>subs'. rbind (add_subschema_to name schema subs') (\<lambda>subs''.
     rbind (next_schema_id s) (\<lambda>sid. schema_of A (Multi subs'') sid PNone))))"

subsection \<open>Well-formed schemas\<close>

text \<open>What \<open>populate_fields\<close> stores for a field: the field with identifier \<open>i\<close>, its own if it had one.\<close>

definition populated :: "'t arrow \<Rightarrow> 't arrow_field \<Rightarrow> int \<times> 't field \<Rightarrow> bool" where
  "populated A f = (\<lambda>(i, g). \<exists>x. field_attrs A f = Inr x \<and> (a_id x = None \<or> a_id x = Some i) \<and>
     field_of A f (no_args\<lparr>a_id := Some i\<rparr>) (Some [af_name f]) PNone = Inr g)"

lemma field_of_id:
  assumes "arrow_laws A" "field_of A f no_args p n = Inr dc" "field_id (f_arrow dc) = Inr i"
  shows "\<exists>x. field_attrs A f = Inr x \<and> a_id x = i"
proof -
  obtain x where x: "field_attrs A f = Inr x" using assms(2) by (auto simp: field_of_Inr_iff)
  with field_attrs_id [OF field_of_attrs [OF assms(1,2) x]] assms(3) show ?thesis by simp
qed

lemma populate_fields_step:
  assumes "arrow_laws A" "populate_fields A m f [af_name f] d = Inr d'"
  shows "\<exists>p. d' = d @ [p] \<and> fst p \<notin> fst ` set d \<and> populated A f p"
proof -
  obtain dc i where dc: "field_of A f no_args None PNone = Inr dc" "field_id (f_arrow dc) = Inr i"
    using assms(2) by (auto simp: populate_fields_def rbind_Inr_iff)
  define fid where "fid = (case i of Some n \<Rightarrow> n | None \<Rightarrow> (m + int (length d)) mod MAX_FIELD_ID_EXCLUSIVE)"
  obtain g where g: "field_of A f (no_args\<lparr>a_id := Some fid\<rparr>) (Some [af_name f]) PNone = Inr g"
    and new: "map_of d fid = None" and d': "d' = dict_set fid g d"
    using assms(2) unfolding populate_fields_def dc rbind.simps Let_def
    by (auto simp: rbind_Inr_iff fid_def split: if_splits)
  obtain x where "field_attrs A f = Inr x" "a_id x = i" using field_of_id [OF assms(1) dc] by blast
  then have "populated A f (fid, g)"
    using g by (cases i) (auto simp: populated_def fid_def)
  moreover have "fid \<notin> fst ` set d" using new by (simp add: map_of_eq_None_iff)
  ultimately show ?thesis using d' dict_set_fresh by fastforce
qed

lemma visit_populate:
  assumes "arrow_laws A"
  shows "visit_fields (populate_fields A m) fs d = Inr d' \<Longrightarrow> distinct (map fst d) \<Longrightarrow>
    \<exists>e. d' = d @ e \<and> list_all2 (populated A) fs e \<and> distinct (map fst d')"
proof (induction fs arbitrary: d)
  case (Cons f fs)
  then obtain d1 where d1: "populate_fields A m f [af_name f] d = Inr d1"
    and rest: "visit_fields (populate_fields A m) fs d1 = Inr d'" by (auto simp: rbind_Inr_iff)
  obtain p where p: "d1 = d @ [p]" "fst p \<notin> fst ` set d" "populated A f p"
    using populate_fields_step [OF assms d1] by blast
  with Cons.prems(2) have "distinct (map fst d1)" by simp
  from Cons.IH [OF rest this] p(1) obtain e where
    "d' = d @ p # e" "list_all2 (populated A) fs e" "distinct (map fst d')" by auto
  with p(3) show ?case by auto
qed simp

lemma populated_attrs:
  assumes "arrow_laws A" "populated A f p"
  shows "\<exists>x. field_attrs A (f_arrow (snd p)) = Inr x \<and> normal x = x \<and> a_id x = Some (fst p)"
    "f_path (snd p) = Some [f_name (snd p)]" "f_name (snd p) = af_name f"
proof -
  obtain i g x where p: "p = (i, g)" and x: "field_attrs A f = Inr x"
    and g: "field_of A f (no_args\<lparr>a_id := Some i\<rparr>) (Some [af_name f]) PNone = Inr g"
    using assms(2) by (cases p) (auto simp: populated_def)
  show "\<exists>x. field_attrs A (f_arrow (snd p)) = Inr x \<and> normal x = x \<and> a_id x = Some (fst p)"
    using field_of_attrs [OF assms(1) g resolve_args_id [OF x]] p by simp
  show "f_path (snd p) = Some [f_name (snd p)]" "f_name (snd p) = af_name f"
    using field_of_shape [OF g] p by simp_all
qed

definition good_field :: "'t arrow \<Rightarrow> int \<times> 't field \<Rightarrow> bool" where
  "good_field A = (\<lambda>(i, f). f_path f = Some [f_name f] \<and>
     (\<exists>x. field_attrs A (f_arrow f) = Inr x \<and> normal x = x \<and> a_id x = Some i))"

definition schema_wf :: "'t arrow \<Rightarrow> 't schema \<Rightarrow> bool" where
  "schema_wf A s \<longleftrightarrow> s_fields s \<noteq> [] \<and> distinct (map fst (s_fields s)) \<and>
     distinct (map (\<lambda>p. str_lower (f_name (snd p))) (s_fields s)) \<and>
     list_all (good_field A) (s_fields s) \<and> (\<forall>i \<in> fst ` set (s_fields s). i \<le> s_max_field_id s) \<and>
     as_fields (s_arrow s) = map (\<lambda>p. f_arrow (snd p)) (s_fields s) \<and>
     s_merge_keys s = (let ks = map fst (filter (\<lambda>p. field_is_merge_key (f_arrow (snd p)) = Some True) (s_fields s))
       in if ks = [] then None else Some ks)"

lemma fold_max_ge: "i \<in> insert j (set is) \<Longrightarrow> i \<le> fold max is (j :: int)"
proof (induction "is" arbitrary: i j)
  case (Cons k ks)
  have "max k j \<le> fold max ks (max k j)" by (rule Cons.IH) simp
  then show ?case using Cons.IH [of i "max k j"] Cons.prems by auto
qed simp

lemma list_max_ge: "i \<in> set is \<Longrightarrow> i \<le> list_max is"
  using fold_max_ge by (cases "is") (auto simp: list_max_def)

lemma fold_max_in: "fold max is (j :: int) \<in> insert j (set is)"
  by (induction "is" arbitrary: j) (auto simp: max_def split: if_splits)

lemma list_max_in: "is \<noteq> [] \<Longrightarrow> list_max is \<in> set is"
  using fold_max_in by (cases "is") (auto simp: list_max_def)

lemma schema_of_parts:
  assumes "schema_of A inp sid n = Inr s"
  obtains pa names m subs where "to_unified_pyarrow_schema A inp = Inr (pa, names)"
    "visit_fields (find_max_field_id A) (as_fields pa) 0 = Inr m"
    "visit_fields (populate_fields A m) (as_fields pa) [] = Inr (s_fields s)"
    "merge_key_ids (map snd (s_fields s)) = Inr (s_merge_keys s)"
    "as_fields (s_arrow s) = map (\<lambda>p. f_arrow (snd p)) (s_fields s)"
    "as_metadata (s_arrow s) = schema_metadata (as_metadata pa) sid subs"
    "s_max_field_id s = list_max (map fst (s_fields s))" "\<not> (sid \<noteq> None \<and> the sid < 0)"
  using assms
  by (auto simp: schema_of_def rbind_Inr_iff Let_def split: if_splits prod.splits)

lemma merge_key_ids_good:
  assumes "list_all (good_field A) d"
  shows "merge_key_ids (map snd d) =
    Inr (let ks = map fst (filter (\<lambda>p. field_is_merge_key (f_arrow (snd p)) = Some True) d)
         in if ks = [] then None else Some ks)"
proof -
  let ?mk = "\<lambda>p. field_is_merge_key (f_arrow (snd p)) = Some True"
  have "field_id (f_arrow (snd p)) = Inr (Some (fst p))" if "p \<in> set d" for p
    using that assms field_attrs_id by (fastforce simp: list_all_iff good_field_def)
  then have "res_map (\<lambda>f. field_id (f_arrow f)) (map snd (filter ?mk d)) = Inr (map (\<lambda>p. Some (fst p)) (filter ?mk d))"
    by (induction d) auto
  then show ?thesis
    by (simp add: merge_key_ids_def filter_map o_def Let_def map_filter_def)
qed

lemma distinct_lower_names:
  "distinct (map (\<lambda>f. str_lower (af_name f)) fs) \<Longrightarrow> distinct (map af_name fs)"
  by (induction fs) auto

lemma unified_names:
  assumes "arrow_laws A" "to_unified_pyarrow_schema A inp = Inr (pa, names)"
  shows "as_fields pa \<noteq> []" "distinct (map (\<lambda>f. str_lower (af_name f)) (as_fields pa))"
proof -
  have "as_fields pa \<noteq> [] \<and> distinct (map (\<lambda>f. str_lower (af_name f)) (as_fields pa))"
  proof (cases inp)
    case (Single s)
    then show ?thesis
      using assms(2) by (auto simp: to_unified_pyarrow_schema_def validate_field_names_def
          get_lower_case_field_names_def rbind_Inr_iff split: if_splits)
  next
    case (Multi subs)
    let ?ss = "map (\<lambda>(n, s). to_pyarrow_schema s) subs"
    obtain u where u: "unify_schemas A ?ss = Inr u" "pa = u" and val: "validate_field_names (Multi subs) = Inr ()"
      using assms(2) Multi by (auto simp: to_unified_pyarrow_schema_def rbind_Inr_iff split: sum.splits)
    have res: "res_map (\<lambda>(n, s). rbind (validate_schema_name n) (\<lambda>_. Inr (get_lower_case_field_names s))) xs = Inr ns \<Longrightarrow>
      concat ns = map (\<lambda>f. str_lower (af_name f)) (concat (map as_fields (map (\<lambda>(n, s). to_pyarrow_schema s) xs)))"
      for xs ns
      by (induction xs arbitrary: ns)
         (auto simp: rbind_Inr_iff get_lower_case_field_names_def)
    obtain ns where ns: "res_map (\<lambda>(n, s). rbind (validate_schema_name n) (\<lambda>_. Inr (get_lower_case_field_names s))) subs = Inr ns"
      "concat ns \<noteq> []" "distinct (concat ns)"
      using val by (auto simp: validate_field_names_def rbind_Inr_iff simp del: concat_eq_Nil_conv split: if_splits)
    have all: "map (\<lambda>f. str_lower (af_name f)) (concat (map as_fields ?ss)) \<noteq> []"
      "distinct (map (\<lambda>f. str_lower (af_name f)) (concat (map as_fields ?ss)))"
      using ns(2,3) unfolding res [OF ns(1)] by blast+
    from this(2) have "distinct (map af_name (concat (map as_fields ?ss)))"
      by (rule distinct_lower_names)
    with unify_fields [OF assms(1) u(1)] u(2) have eq: "as_fields pa = concat (map as_fields ?ss)"
      by blast
    show ?thesis using all unfolding list.map_disc_iff eq by blast
  qed
  then show "as_fields pa \<noteq> []" "distinct (map (\<lambda>f. str_lower (af_name f)) (as_fields pa))" by auto
qed

lemma populated_all:
  assumes "arrow_laws A" "list_all2 (populated A) fs d"
  shows "list_all (good_field A) d" "map (\<lambda>p. f_name (snd p)) d = map af_name fs"
proof -
  have "list_all (good_field A) d \<and> map (\<lambda>p. f_name (snd p)) d = map af_name fs"
    using assms(2) by (induction rule: list_all2_induct)
      (auto simp: good_field_def dest: populated_attrs [OF assms(1)])
  then show "list_all (good_field A) d" "map (\<lambda>p. f_name (snd p)) d = map af_name fs" by auto
qed

lemma schema_of_wf:
  assumes laws: "arrow_laws A" and s: "schema_of A inp sid n = Inr s"
  shows "schema_wf A s"
  using s
proof (rule schema_of_parts)
  fix pa names m subs
  assume u: "to_unified_pyarrow_schema A inp = Inr (pa, names)"
    and pop: "visit_fields (populate_fields A m) (as_fields pa) [] = Inr (s_fields s)"
    and mk: "merge_key_ids (map snd (s_fields s)) = Inr (s_merge_keys s)"
    and arrow: "as_fields (s_arrow s) = map (\<lambda>p. f_arrow (snd p)) (s_fields s)"
    and mx: "s_max_field_id s = list_max (map fst (s_fields s))"
  from visit_populate [OF laws pop] have d: "list_all2 (populated A) (as_fields pa) (s_fields s)"
    "distinct (map fst (s_fields s))" by auto
  note good = populated_all [OF laws d(1)]
  have "s_fields s \<noteq> []" using unified_names(1) [OF laws u] d(1) by auto
  moreover have "distinct (map (\<lambda>p. str_lower (f_name (snd p))) (s_fields s))"
    using unified_names(2) [OF laws u] arg_cong [OF good(2), of "map str_lower"] by (simp add: o_def)
  moreover have "s_merge_keys s = (let ks = map fst (filter (\<lambda>p. field_is_merge_key (f_arrow (snd p)) = Some True)
      (s_fields s)) in if ks = [] then None else Some ks)"
    using merge_key_ids_good [OF good(1)] mk by simp
  ultimately show ?thesis
    using d(2) good(1) arrow list_max_ge [of _ "map fst (s_fields s)"] by (simp add: schema_wf_def mx)
qed

end
