(* ===== verification/SchemaUpdates.thy ===== *)
theory SchemaUpdates
  imports Schemas
begin

text \<open>
  Schema evolution (\<^verbatim>\<open>SchemaUpdate\<close>, \<^verbatim>\<open>SchemaUpdateOperation\<close> of
  \<^verbatim>\<open>deltacat/storage/model/schema.py\<close>): an update collects add, remove and update operations on a base
  schema; every updating method first reads the current state of the field from the base schema and
  the pending operations. \<open>apply_update\<close> checks the operations against each other, applies them in
  order to the list of fields and the mapping of names to positions, with the compatibility checks
  unless incompatible changes are allowed, and builds the next schema.
\<close>

subsection \<open>Operations and locators\<close>

datatype 't schema_op = AddField "'t field" | RemoveField field_locator | UpdateField field_locator "'t field"

fun op_locator :: "'t schema_op \<Rightarrow> field_locator option" where
  "op_locator (AddField f) = None"
| "op_locator (RemoveField l) = Some l"
| "op_locator (UpdateField l f) = Some l"

fun op_field :: "'t schema_op \<Rightarrow> 't field option" where
  "op_field (AddField f) = Some f"
| "op_field (RemoveField l) = None"
| "op_field (UpdateField l f) = Some f"

fun op_kind :: "'t schema_op \<Rightarrow> string" where
  "op_kind (AddField f) = ''add''"
| "op_kind (RemoveField l) = ''remove''"
| "op_kind (UpdateField l f) = ''update''"

record 't schema_update =
  u_base :: "'t schema"
  u_allow_incompatible :: bool
  u_operations :: "'t schema_op list"

definition schema_update_of :: "'t schema \<Rightarrow> bool \<Rightarrow> 't schema_update" where
  "schema_update_of base allow = \<lparr>u_base = base, u_allow_incompatible = allow, u_operations = []\<rparr>"

fun locator_str :: "field_locator option \<Rightarrow> string" where
  "locator_str (Some (LName n)) = n"
| "locator_str (Some (LPath (x # p))) = x"
| "locator_str (Some (LPath [])) = ''[]''"
| "locator_str (Some (LId i)) = int_to_str i"
| "locator_str None = ''None''"

fun field_locators_match :: "field_locator option \<Rightarrow> field_locator option \<Rightarrow> bool" where
  "field_locators_match (Some (LName a)) (Some (LName b)) = (a = b)"
| "field_locators_match (Some (LPath a)) (Some (LPath b)) = (a = b)"
| "field_locators_match (Some (LId a)) (Some (LId b)) = (a = b)"
| "field_locators_match a b = (locator_str a = locator_str b)"

fun get_field_name :: "'t arrow \<Rightarrow> 't schema \<Rightarrow> field_locator \<Rightarrow> string" where
  "get_field_name A base (LName n) = n"
| "get_field_name A base (LPath p) = (case p of [] \<Rightarrow> [] | x # _ \<Rightarrow> x)"
| "get_field_name A base (LId i) =
     (case schema_field A base (LId i) of
        Inr f \<Rightarrow> (case f_path f of Some (x # _) \<Rightarrow> x | _ \<Rightarrow> ''field_'' @ int_to_str i)
      | Inl _ \<Rightarrow> ''field_'' @ int_to_str i)"

text \<open>The name a field of the base schema is found by: the first part of its path.\<close>

definition base_field_name :: "'t field \<Rightarrow> string res" where
  "base_field_name f = (case f_path f of Some (x # _) \<Rightarrow> Inr x
     | _ \<Rightarrow> rbind (field_id (f_arrow f)) (\<lambda>i.
         Inr (''field_'' @ (case i of None \<Rightarrow> ''None'' | Some n \<Rightarrow> int_to_str n))))"

fun find_base_field :: "string \<Rightarrow> 't field list \<Rightarrow> 't field res" where
  "find_base_field n [] = Inl SchemaCompatibilityError"
| "find_base_field n (f # fs) = rbind (base_field_name f) (\<lambda>m. if m = n then Inr f else find_base_field n fs)"

definition get_existing_field :: "'t arrow \<Rightarrow> 't schema_update \<Rightarrow> field_locator \<Rightarrow> 't field option res" where
  "get_existing_field A u loc =
     rbind (find_base_field (get_field_name A (u_base u) loc) (schema_fields (u_base u))) (\<lambda>f.
       Inr (fold (\<lambda>op cur. if field_locators_match (op_locator op) (Some loc) then op_field op else cur)
              (u_operations u) (Some f)))"

subsection \<open>Collecting operations\<close>

definition push_op :: "'t schema_update \<Rightarrow> 't schema_op \<Rightarrow> 't schema_update" where
  "push_op u op = u\<lparr>u_operations := u_operations u @ [op]\<rparr>"

definition add_field :: "'t schema_update \<Rightarrow> 't field \<Rightarrow> 't schema_update" where
  "add_field u f = push_op u (AddField f)"

definition remove_field :: "'t schema_update \<Rightarrow> field_locator \<Rightarrow> 't schema_update" where
  "remove_field u loc = push_op u (RemoveField loc)"

definition update_field :: "'t schema_update \<Rightarrow> field_locator \<Rightarrow> 't field \<Rightarrow> 't schema_update" where
  "update_field u loc f = push_op u (UpdateField loc f)"

text \<open>
  The common part of the updating methods: read the current field (attribute access on a pending
  removal raises), change its Arrow field, and record the update.
\<close>

definition with_existing ::
    "'t arrow \<Rightarrow> 't schema_update \<Rightarrow> field_locator \<Rightarrow> ('t arrow_field \<Rightarrow> 't arrow_field res) \<Rightarrow> 't schema_update res" where
  "with_existing A u loc change =
     rbind (get_existing_field A u loc) (\<lambda>ex. case ex of None \<Rightarrow> Inl AttributeError
       | Some f \<Rightarrow> rbind (change (f_arrow f)) (\<lambda>g. Inr (update_field u loc (f\<lparr>f_arrow := g\<rparr>))))"

definition rename_field :: "'t arrow \<Rightarrow> 't schema_update \<Rightarrow> field_locator \<Rightarrow> string \<Rightarrow> 't schema_update res" where
  "rename_field A u loc new_name = with_existing A u loc (\<lambda>f. Inr (f\<lparr>af_name := new_name\<rparr>))"

definition update_field_type :: "'t arrow \<Rightarrow> 't schema_update \<Rightarrow> field_locator \<Rightarrow> 't \<Rightarrow> 't schema_update res" where
  "update_field_type A u loc new_type = with_existing A u loc (\<lambda>f. Inr (f\<lparr>af_type := new_type\<rparr>))"

definition update_field_nullability ::
    "'t arrow \<Rightarrow> 't schema_update \<Rightarrow> field_locator \<Rightarrow> bool \<Rightarrow> 't schema_update res" where
  "update_field_nullability A u loc nullable = with_existing A u loc (\<lambda>f. Inr (f\<lparr>af_nullable := nullable\<rparr>))"

text \<open>
  Replacing one entry of the metadata; without metadata there is no dictionary to change. A field with an empty
  dictionary is not told apart from one without; the fields of a schema have their identifier there, so neither occurs.
\<close>

definition replace_meta :: "string \<Rightarrow> string option \<Rightarrow> 't arrow_field \<Rightarrow> 't arrow_field res" where
  "replace_meta k v f = (if af_metadata f = [] then Inl AttributeError
     else Inr (f\<lparr>af_metadata := (case v of None \<Rightarrow> dict_del k (af_metadata f)
       | Some b \<Rightarrow> dict_set k b (dict_del k (af_metadata f)))\<rparr>))"

definition update_field_doc ::
    "'t arrow \<Rightarrow> 't schema_update \<Rightarrow> field_locator \<Rightarrow> string option \<Rightarrow> 't schema_update res" where
  "update_field_doc A u loc new_doc = with_existing A u loc (replace_meta FIELD_DOC_KEY_NAME new_doc)"

definition update_field_consistency_type ::
    "'t arrow \<Rightarrow> 't schema_update \<Rightarrow> field_locator \<Rightarrow> consistency option \<Rightarrow> 't schema_update res" where
  "update_field_consistency_type A u loc c =
     with_existing A u loc (replace_meta FIELD_CONSISTENCY_TYPE_KEY_NAME (map_option consistency_value c))"

definition validate_default_value :: "'t arrow \<Rightarrow> 't \<Rightarrow> pyval \<Rightarrow> unit res" where
  "validate_default_value A t v = (case pa_array_of A v t of None \<Rightarrow> Inr ()
     | Some ArrowNotImplementedError \<Rightarrow> Inl NotImplementedError
     | Some (OtherError e) \<Rightarrow> Inl (if e = TypeError then ValueError else e)
     | Some _ \<Rightarrow> Inl ValueError)"

definition update_field_future_default ::
    "'t arrow \<Rightarrow> 't schema_update \<Rightarrow> field_locator \<Rightarrow> pyval \<Rightarrow> 't schema_update res" where
  "update_field_future_default A u loc future = with_existing A u loc (\<lambda>f.
     if future = PNone then replace_meta FIELD_FUTURE_DEFAULT_KEY_NAME None f
     else rbind (validate_default_value A (af_type f) future) (\<lambda>_.
       if af_metadata f = [] then Inl AttributeError
       else rbind (encode_metadata_value A future) (\<lambda>b. replace_meta FIELD_FUTURE_DEFAULT_KEY_NAME (Some b) f)))"

subsection \<open>Compatibility checks\<close>

definition compat_check :: "bool \<Rightarrow> unit res" where
  "compat_check ok = (if ok then Inr () else Inl SchemaCompatibilityError)"

definition validate_add_field_compatibility :: "'t arrow \<Rightarrow> 't field \<Rightarrow> unit res" where
  "validate_add_field_compatibility A f =
     rbind (field_past_default A (f_arrow f)) (\<lambda>p. rbind (field_future_default A (f_arrow f)) (\<lambda>u.
       compat_check (af_nullable (f_arrow f) \<or> p \<noteq> PNone \<or> u \<noteq> PNone)))"

text \<open>Every removal is refused; the code only distinguishes the message.\<close>

definition validate_remove_field_compatibility :: "'t arrow \<Rightarrow> 't field \<Rightarrow> unit res" where
  "validate_remove_field_compatibility A f =
     (if field_is_merge_key (f_arrow f) = Some True then Inl SchemaCompatibilityError
      else rbind (field_merge_order A (f_arrow f)) (\<lambda>mo.
        if mo \<noteq> PNone then Inl SchemaCompatibilityError
        else if field_is_event_time (f_arrow f) = Some True then Inl SchemaCompatibilityError
        else Inl SchemaCompatibilityError))"

definition validate_consistency_type_evolution :: "consistency option \<Rightarrow> consistency option \<Rightarrow> unit res" where
  "validate_consistency_type_evolution old new =
     (if old = new then Inr ()
      else if old = None \<and> new = None then Inr ()
      else if new = Some NONE \<or> new = None then Inr ()
      else if old \<in> {Some COERCE, Some VALIDATE} \<and> new \<in> {Some COERCE, Some VALIDATE} then Inr ()
      else if old = None \<and> new \<in> {Some COERCE, Some VALIDATE} then Inr ()
      else Inl SchemaCompatibilityError)"

text \<open>Equality of \<open>Field\<close> dictionaries: Arrow fields compare without their metadata.\<close>

definition field_eq :: "'t field \<Rightarrow> 't field \<Rightarrow> bool" where
  "field_eq f g \<longleftrightarrow> f_name f = f_name g \<and> af_type (f_arrow f) = af_type (f_arrow g) \<and>
     af_nullable (f_arrow f) = af_nullable (f_arrow g) \<and> f_path f = f_path g \<and> py_eq (f_native f) (f_native g)"

definition check_field_id :: "'t schema \<Rightarrow> 't field \<Rightarrow> 't field \<Rightarrow> unit res" where
  "check_field_id base old new =
     rbind (field_id (f_arrow old)) (\<lambda>oi. rbind (field_id (f_arrow new)) (\<lambda>ni.
       if oi \<noteq> ni \<and> ni \<noteq> None
       then rbind (res_map (\<lambda>f. field_id (f_arrow f)) (filter (\<lambda>f. \<not> field_eq f old) (schema_fields base)))
         (\<lambda>ids. compat_check (ni \<notin> set ids))
       else Inr ()))"

definition validate_update_field_compatibility ::
    "'t arrow \<Rightarrow> 't schema \<Rightarrow> 't field \<Rightarrow> 't field \<Rightarrow> unit res" where
  "validate_update_field_compatibility A base old new =
     (let oa = f_arrow old; na = f_arrow new in
      rbind (compat_check (field_is_merge_key oa = field_is_merge_key na)) (\<lambda>_.
      rbind (field_merge_order A oa) (\<lambda>omo. rbind (field_merge_order A na) (\<lambda>nmo.
      rbind (compat_check (py_eq omo nmo)) (\<lambda>_.
      rbind (compat_check (field_is_event_time oa = field_is_event_time na)) (\<lambda>_.
      rbind (field_consistency_type oa) (\<lambda>oc. rbind (field_consistency_type na) (\<lambda>nc.
      rbind (validate_consistency_type_evolution oc nc) (\<lambda>_.
      rbind (field_past_default A oa) (\<lambda>op. rbind (field_past_default A na) (\<lambda>np.
      rbind (compat_check (py_eq op np)) (\<lambda>_.
      rbind (check_field_id base old new) (\<lambda>_.
      rbind (is_type_compatible A (recursion_limit A) (af_type oa) (af_type na)) (\<lambda>tc.
      rbind (compat_check tc) (\<lambda>_.
        if af_nullable oa \<and> \<not> af_nullable na
        then rbind (field_future_default A na) (\<lambda>nf. compat_check (np \<noteq> PNone \<and> nf \<noteq> PNone))
        else Inr ())))))))))))))))"

subsection \<open>Applying an update\<close>

type_synonym 't apply_state = "'t field list \<times> (string \<times> nat) list \<times> int"

definition nth_field :: "'t field list \<Rightarrow> nat \<Rightarrow> 't field res" where
  "nth_field fs i = (if i < length fs then Inr (fs ! i) else Inl IndexError)"

definition apply_add_field :: "'t arrow \<Rightarrow> 't schema_update \<Rightarrow> 't field \<Rightarrow> 't apply_state \<Rightarrow> 't apply_state res" where
  "apply_add_field A u f = (\<lambda>(fields, index, next_id).
     if map_of index (f_name f) \<noteq> None then Inl SchemaCompatibilityError
     else rbind (if u_allow_incompatible u then Inr () else validate_add_field_compatibility A f) (\<lambda>_.
       rbind (read_attrs A (f_arrow f)) (\<lambda>x.
       rbind (field_of A (f_arrow f) (x\<lparr>a_id := Some next_id\<rparr>) (Some [f_name f]) (f_native f)) (\<lambda>g.
         Inr (fields @ [g], dict_set (f_name f) (length fields) index, next_id + 1)))))"

definition apply_remove_field ::
    "'t arrow \<Rightarrow> 't schema_update \<Rightarrow> field_locator \<Rightarrow> 't apply_state \<Rightarrow> 't apply_state res" where
  "apply_remove_field A u loc = (\<lambda>(fields, index, next_id).
     let name = get_field_name A (u_base u) loc in
     case map_of index name of
       None \<Rightarrow> Inl SchemaCompatibilityError
     | Some i \<Rightarrow>
         rbind (nth_field fields i) (\<lambda>f.
         rbind (if u_allow_incompatible u then Inr () else validate_remove_field_compatibility A f) (\<lambda>_.
           Inr (take i fields @ drop (Suc i) fields,
                map (\<lambda>(n, j). (n, if i < j then j - 1 else j)) (dict_del name index), next_id))))"

definition apply_update_field ::
    "'t arrow \<Rightarrow> 't schema_update \<Rightarrow> field_locator \<Rightarrow> 't field \<Rightarrow> 't apply_state \<Rightarrow> 't apply_state res" where
  "apply_update_field A u loc new = (\<lambda>(fields, index, next_id).
     let name = get_field_name A (u_base u) loc; new_name = f_name new in
     case map_of index name of
       None \<Rightarrow> Inl SchemaCompatibilityError
     | Some i \<Rightarrow>
         rbind (nth_field fields i) (\<lambda>old.
         rbind (if u_allow_incompatible u then Inr ()
                else validate_update_field_compatibility A (u_base u) old new) (\<lambda>_.
         rbind (field_id (f_arrow new)) (\<lambda>fid.
         rbind (read_attrs A (f_arrow new)) (\<lambda>x.
         rbind (field_of A (f_arrow new) (x\<lparr>a_id := fid\<rparr>) (Some [new_name]) (f_native new)) (\<lambda>g.
           Inr (fields[i := g],
                if name \<noteq> new_name then dict_set new_name i (dict_del name index) else index, next_id)))))))"

fun apply_op :: "'t arrow \<Rightarrow> 't schema_update \<Rightarrow> 't schema_op \<Rightarrow> 't apply_state \<Rightarrow> 't apply_state res" where
  "apply_op A u (AddField f) st = apply_add_field A u f st"
| "apply_op A u (RemoveField loc) st = apply_remove_field A u loc st"
| "apply_op A u (UpdateField loc f) st = apply_update_field A u loc f st"

fun apply_ops :: "'t arrow \<Rightarrow> 't schema_update \<Rightarrow> 't schema_op list \<Rightarrow> 't apply_state \<Rightarrow> 't apply_state res" where
  "apply_ops A u [] st = Inr st"
| "apply_ops A u (op # ops) st = rbind (apply_op A u op st) (apply_ops A u ops)"

text \<open>The name an operation is filed under when looking for conflicts; identifiers have none.\<close>

fun conflict_name :: "'t schema_op \<Rightarrow> string option" where
  "conflict_name (AddField f) = (if f_name f = [] then None else Some (f_name f))"
| "conflict_name op = (case op_locator op of
     Some (LName n) \<Rightarrow> if n = [] then None else Some n
   | Some (LPath (x # _)) \<Rightarrow> if x = [] then None else Some x
   | _ \<Rightarrow> None)"

definition validate_no_conflicting_operations :: "'t schema_op list \<Rightarrow> unit res" where
  "validate_no_conflicting_operations ops =
     (if list_ex (\<lambda>op. conflict_name op \<noteq> None \<and>
           list_ex (\<lambda>op'. conflict_name op' = conflict_name op \<and> op_kind op' \<noteq> op_kind op) ops) ops
      then Inl ValueError else Inr ())"

definition name_index :: "'t field list \<Rightarrow> (string \<times> nat) list res" where
  "name_index fs = rbind (res_map base_field_name fs) (\<lambda>ns.
     Inr (fold (\<lambda>(n, i). dict_set n i) (zip ns [0..<length ns]) []))"

definition apply_update :: "'t arrow \<Rightarrow> 't schema_update \<Rightarrow> 't schema res" where
  "apply_update A u =
     (let base = u_base u; next_id = s_max_field_id base + 1 in
      rbind (name_index (schema_fields base)) (\<lambda>index.
      if MAX_FIELD_ID_EXCLUSIVE \<le> next_id then Inl SchemaCompatibilityError
      else rbind (validate_no_conflicting_operations (u_operations u)) (\<lambda>_.
        rbind (apply_ops A u (u_operations u) (schema_fields base, index, next_id)) (\<lambda>(fields, _, _).
        rbind (next_schema_id base) (\<lambda>sid.
        rbind (schema_of A (Single (FieldList fields)) sid PNone) (\<lambda>new.
          Inr (if s_max_field_id new < s_max_field_id base
               then new\<lparr>s_max_field_id := s_max_field_id base\<rparr> else new)))))))"

end
