(* ===== verification/SchemaEvolution.thy ===== *)
theory SchemaEvolution
  imports SchemaUpdates
begin

text \<open>
  What schema evolution guarantees: every update built with the methods of \<^verbatim>\<open>SchemaUpdate\<close> that is
  applied successfully gives a well-formed schema with the next schema identifier whose new fields
  have identifiers never used before, along any chain of updates; and without
  \<open>allow_incompatible_changes\<close> every field of the base schema is still there with a compatible
  definition. The identifiers survive in memory only: a schema read back from storage forgets the
  largest identifier it had.
\<close>

interpretation ops: res_loop "apply_op A u" "apply_ops A u" for A u
  by unfold_locales simp_all

subsection \<open>Updates built with the methods of the class\<close>

inductive update_built :: "'t arrow \<Rightarrow> 't schema \<Rightarrow> bool \<Rightarrow> 't schema_update \<Rightarrow> bool"
  for A base allow where
  built_start: "update_built A base allow (schema_update_of base allow)"
| built_add: "update_built A base allow u \<Longrightarrow> update_built A base allow (add_field u f)"
| built_remove: "update_built A base allow u \<Longrightarrow> update_built A base allow (remove_field u loc)"
| built_rename: "update_built A base allow u \<Longrightarrow> rename_field A u loc n = Inr u' \<Longrightarrow>
    update_built A base allow u'"
| built_type: "update_built A base allow u \<Longrightarrow> update_field_type A u loc t = Inr u' \<Longrightarrow>
    update_built A base allow u'"
| built_doc: "update_built A base allow u \<Longrightarrow> update_field_doc A u loc doc = Inr u' \<Longrightarrow>
    update_built A base allow u'"
| built_nullability: "update_built A base allow u \<Longrightarrow> update_field_nullability A u loc nullable = Inr u' \<Longrightarrow>
    update_built A base allow u'"
| built_consistency: "update_built A base allow u \<Longrightarrow> update_field_consistency_type A u loc c = Inr u' \<Longrightarrow>
    update_built A base allow u'"
| built_future: "update_built A base allow u \<Longrightarrow> update_field_future_default A u loc v = Inr u' \<Longrightarrow>
    update_built A base allow u'"

abbreviation schema_ids :: "'t schema \<Rightarrow> int set" where
  "schema_ids s \<equiv> fst ` set (s_fields s)"

text \<open>The identifier of a field is one of a set.\<close>

definition id_in :: "int set \<Rightarrow> 't arrow_field \<Rightarrow> bool" where
  "id_in I f \<longleftrightarrow> (\<exists>i \<in> I. field_id f = Inr (Some i))"

lemma id_in_update [simp]:
  "id_in I (f\<lparr>af_name := n\<rparr>) = id_in I f" "id_in I (f\<lparr>af_type := t\<rparr>) = id_in I f"
  "id_in I (f\<lparr>af_nullable := b\<rparr>) = id_in I f"
  by (simp_all add: id_in_def field_id_def metadata_get_def)

lemma replace_meta_id:
  assumes "replace_meta k v f = Inr g" "k \<noteq> PARQUET_FIELD_ID_KEY_NAME"
  shows "id_in I g = id_in I f"
  using assms by (auto simp: replace_meta_def id_in_def field_id_def metadata_get_def
      split: if_splits option.splits)

lemma base_name_wf:
  assumes "schema_wf A base" "f \<in> set (schema_fields base)"
  shows "base_field_name f = Inr (f_name f)" "id_in (schema_ids base) (f_arrow f)"
proof -
  obtain i where i: "(i, f) \<in> set (s_fields base)" using assms(2) by (auto simp: schema_fields_def)
  then have "good_field A (i, f)" using assms(1) by (auto simp: schema_wf_def list_all_iff)
  with i show "base_field_name f = Inr (f_name f)" "id_in (schema_ids base) (f_arrow f)"
    by (force simp: good_field_def base_field_name_def id_in_def dest: field_attrs_id)+
qed

lemma find_base_field_wf:
  assumes "schema_wf A base"
  shows "set fs \<subseteq> set (schema_fields base) \<Longrightarrow> find_base_field n fs = Inr f \<Longrightarrow> f \<in> set fs \<and> f_name f = n"
  by (induction fs) (auto simp: base_name_wf [OF assms] split: if_splits)

definition ops_ids :: "int set \<Rightarrow> 't schema_op list \<Rightarrow> bool" where
  "ops_ids I ops \<longleftrightarrow> (\<forall>loc f. UpdateField loc f \<in> set ops \<longrightarrow> id_in I (f_arrow f))"

definition no_field_None :: "'t schema \<Rightarrow> bool" where
  "no_field_None s \<longleftrightarrow> ''None'' \<notin> set (map f_name (schema_fields s))"

lemma int_to_str_not_None: "int_to_str i \<noteq> ''None''"
proof -
  have "py_int ''None'' = None" by code_simp
  then show ?thesis by (metis option.distinct(1) py_int_of_int_to_str)
qed

lemma add_op_unmatched:
  assumes "field_locators_match None (Some loc)"
  shows "get_field_name A base loc = ''None''"
  using assms int_to_str_not_None
  by (cases "Some loc" rule: locator_str.cases) (auto simp: eq_commute [of "''None''"])

text \<open>The field an updating method starts from is a field of the base schema or a pending update.\<close>

lemma existing_field_id:
  assumes wf: "schema_wf A base" and none: "no_field_None base" and base: "u_base u = base"
    and ops: "ops_ids (schema_ids base) (u_operations u)"
    and ex: "get_existing_field A u loc = Inr (Some f)"
  shows "id_in (schema_ids base) (f_arrow f)"
proof -
  let ?pick = "\<lambda>op cur. if field_locators_match (op_locator op) (Some loc) then op_field op else cur"
  obtain b where b: "find_base_field (get_field_name A base loc) (schema_fields base) = Inr b"
    and f: "fold ?pick (u_operations u) (Some b) = Some f"
    using ex by (auto simp: get_existing_field_def base rbind_Inr_iff)
  have b': "b \<in> set (schema_fields base)" "f_name b = get_field_name A base loc"
    using find_base_field_wf [OF wf _ b] by auto
  then have "get_field_name A base loc \<noteq> ''None''" using none by (force simp: no_field_None_def)
  then have unmatched: "\<not> field_locators_match None (Some loc)" using add_op_unmatched by blast
  have "\<forall>g. fold ?pick xs cur = Some g \<longrightarrow> id_in (schema_ids base) (f_arrow g)"
    if "set xs \<subseteq> set (u_operations u)" "\<forall>g. cur = Some g \<longrightarrow> id_in (schema_ids base) (f_arrow g)" for xs cur
    using that
  proof (induction xs arbitrary: cur)
    case (Cons op xs)
    have "\<forall>g. ?pick op cur = Some g \<longrightarrow> id_in (schema_ids base) (f_arrow g)"
      using Cons.prems ops unmatched by (cases op) (auto simp: ops_ids_def)
    with Cons show ?case by simp
  qed simp
  from this [of "u_operations u" "Some b"] f base_name_wf(2) [OF wf b'(1)] show ?thesis by simp
qed

definition update_ok :: "'t schema \<Rightarrow> bool \<Rightarrow> 't schema_update \<Rightarrow> bool" where
  "update_ok base allow u \<longleftrightarrow> u_base u = base \<and> u_allow_incompatible u = allow \<and>
     ops_ids (schema_ids base) (u_operations u)"

lemma with_existing_ok:
  assumes "schema_wf A base" "no_field_None base" "update_ok base allow u"
    "with_existing A u loc change = Inr u'"
    "\<And>f g. change f = Inr g \<Longrightarrow> id_in (schema_ids base) g = id_in (schema_ids base) f"
  shows "update_ok base allow u'"
proof -
  obtain f g where f: "get_existing_field A u loc = Inr (Some f)" "change (f_arrow f) = Inr g"
    and u': "u' = update_field u loc (f\<lparr>f_arrow := g\<rparr>)"
    using assms(4) by (auto simp: with_existing_def rbind_Inr_iff split: option.splits)
  have "id_in (schema_ids base) (f_arrow f)"
    using existing_field_id [OF assms(1,2) _ _ f(1)] assms(3) by (simp add: update_ok_def)
  with assms(5) [OF f(2)] have "id_in (schema_ids base) g" by simp
  then show ?thesis
    using assms(3) by (auto simp: u' update_ok_def update_field_def push_op_def ops_ids_def)
qed

lemma update_built_ok:
  assumes "update_built A base allow u" "schema_wf A base" "no_field_None base"
  shows "update_ok base allow u"
  using assms(1)
proof (induction rule: update_built.induct)
  case built_start
  then show ?case by (simp add: update_ok_def schema_update_of_def ops_ids_def)
next
  case (built_add u f)
  then show ?case by (auto simp: update_ok_def add_field_def push_op_def ops_ids_def)
next
  case (built_remove u loc)
  then show ?case by (auto simp: update_ok_def remove_field_def push_op_def ops_ids_def)
next
  case (built_rename u loc n u')
  show ?case
    by (rule with_existing_ok [OF assms(2,3) built_rename.IH built_rename.hyps(2) [unfolded rename_field_def]]) auto
next
  case (built_type u loc t u')
  show ?case
    by (rule with_existing_ok [OF assms(2,3) built_type.IH built_type.hyps(2) [unfolded update_field_type_def]]) auto
next
  case (built_doc u loc doc u')
  show ?case
    by (rule with_existing_ok [OF assms(2,3) built_doc.IH built_doc.hyps(2) [unfolded update_field_doc_def]])
       (erule replace_meta_id, simp add: field_keys)
next
  case (built_nullability u loc nullable u')
  show ?case
    by (rule with_existing_ok [OF assms(2,3) built_nullability.IH
          built_nullability.hyps(2) [unfolded update_field_nullability_def]]) auto
next
  case (built_consistency u loc c u')
  show ?case
    by (rule with_existing_ok [OF assms(2,3) built_consistency.IH
          built_consistency.hyps(2) [unfolded update_field_consistency_type_def]])
       (erule replace_meta_id, simp add: field_keys)
next
  case (built_future u loc v u')
  have key: "FIELD_FUTURE_DEFAULT_KEY_NAME \<noteq> PARQUET_FIELD_ID_KEY_NAME" by (simp add: field_keys)
  show ?case
    by (rule with_existing_ok [OF assms(2,3) built_future.IH
          built_future.hyps(2) [unfolded update_field_future_default_def]])
       (auto simp: rbind_Inr_iff split: if_splits
          dest!: replace_meta_id [OF _ key, where I = "schema_ids base"])
qed

subsection \<open>Identifiers\<close>

text \<open>A field as \<open>field_of\<close> leaves it, with identifier \<open>i\<close>.\<close>

definition built_field :: "'t arrow \<Rightarrow> 't field \<Rightarrow> int \<Rightarrow> bool" where
  "built_field A f i \<longleftrightarrow> (\<exists>x. field_attrs A (f_arrow f) = Inr x \<and> normal x = x \<and> a_id x = Some i)"

lemma built_field_id: "built_field A f i \<Longrightarrow> field_id (f_arrow f) = Inr (Some i)"
  by (auto simp: built_field_def dest: field_attrs_id)

lemma field_of_built:
  assumes "arrow_laws A" "read_attrs A f = Inr x" "field_of A f (x\<lparr>a_id := Some i\<rparr>) p n = Inr g"
  shows "field_attrs A (f_arrow g) = Inr (normal (x\<lparr>a_id := Some i\<rparr>))" "built_field A g i"
proof -
  show "field_attrs A (f_arrow g) = Inr (normal (x\<lparr>a_id := Some i\<rparr>))"
    by (rule field_of_attrs [OF assms(1,3) resolve_args_own [OF assms(2)]])
  then show "built_field A g i" by (simp add: built_field_def)
qed

text \<open>
  The state of \<open>apply_ops\<close>: every field is built, and its identifier is one of the base schema or a
  fresh one below the next identifier.
\<close>

definition ids_inv :: "'t arrow \<Rightarrow> 't schema \<Rightarrow> 't apply_state \<Rightarrow> bool" where
  "ids_inv A base = (\<lambda>(fields, index, next_id). s_max_field_id base < next_id \<and>
     (\<forall>f \<in> set fields. \<exists>i. built_field A f i \<and>
        (i \<in> schema_ids base \<or> s_max_field_id base < i \<and> i < next_id)))"

lemma ids_inv_start:
  assumes "schema_wf A base"
  shows "ids_inv A base (schema_fields base, index, s_max_field_id base + 1)"
  using assms
  by (force simp: ids_inv_def schema_fields_def schema_wf_def list_all_iff good_field_def built_field_def)

lemma ids_inv_op:
  assumes laws: "arrow_laws A" and u: "update_ok base allow u" and op: "op \<in> set (u_operations u)"
    and inv: "ids_inv A base st" and st': "apply_op A u op st = Inr st'"
  shows "ids_inv A base st'"
proof -
  obtain fields index next_id where st: "st = (fields, index, next_id)" by (cases st)
  show ?thesis
  proof (cases op)
    case (AddField f)
    then obtain x g where "read_attrs A (f_arrow f) = Inr x"
      "field_of A (f_arrow f) (x\<lparr>a_id := Some next_id\<rparr>) (Some [f_name f]) (f_native f) = Inr g"
      and new: "st' = (fields @ [g], dict_set (f_name f) (length fields) index, next_id + 1)"
      using st' by (auto simp: st apply_add_field_def rbind_Inr_iff split: if_splits)
    then have "built_field A g next_id" using field_of_built(2) [OF laws] by blast
    then show ?thesis using inv by (fastforce simp: ids_inv_def st new)
  next
    case (RemoveField loc)
    then obtain i index' where "st' = (take i fields @ drop (Suc i) fields, index', next_id)"
      using st' by (auto simp: st apply_remove_field_def rbind_Inr_iff Let_def split: option.splits)
    then show ?thesis using inv by (auto simp: ids_inv_def st dest: in_set_takeD in_set_dropD)
  next
    case (UpdateField loc f)
    then have "id_in (schema_ids base) (f_arrow f)"
      using u op by (simp add: update_ok_def ops_ids_def)
    then obtain j where j: "j \<in> schema_ids base" "field_id (f_arrow f) = Inr (Some j)"
      unfolding id_in_def by blast
    obtain i x g index' where "read_attrs A (f_arrow f) = Inr x"
      "field_of A (f_arrow f) (x\<lparr>a_id := Some j\<rparr>) (Some [f_name f]) (f_native f) = Inr g"
      and new: "st' = (fields[i := g], index', next_id)"
      using st' UpdateField j(2) by (auto simp: st apply_update_field_def rbind_Inr_iff Let_def split: option.splits)
    then have g: "built_field A g j" using field_of_built(2) [OF laws] by blast
    have "\<exists>i. built_field A h i \<and> (i \<in> schema_ids base \<or> s_max_field_id base < i \<and> i < next_id)"
      if "h \<in> set (fields[i := g])" for h
    proof (cases "h = g")
      case False
      with that set_update_subset_insert [of fields i g] have "h \<in> set fields" by blast
      with inv show ?thesis by (simp add: ids_inv_def st)
    qed (use g j(1) in blast)
    then show ?thesis using inv by (simp add: ids_inv_def st new)
  qed
qed

lemma ids_inv_ops:
  assumes "arrow_laws A" "update_ok base allow u" "ids_inv A base st" "apply_ops A u (u_operations u) st = Inr st'"
  shows "ids_inv A base st'"
  using ops.run_invariant [OF assms(4), of "ids_inv A base"] ids_inv_op [OF assms(1,2)] assms(3) by blast

lemma list_all2_set2: "list_all2 P xs ys \<Longrightarrow> y \<in> set ys \<Longrightarrow> \<exists>x \<in> set xs. P x y"
  by (induction rule: list_all2_induct) auto

lemma populated_built:
  fixes f :: "'t field"
  assumes "arrow_laws A" "populated A (f_arrow f) p" "field_attrs A (f_arrow f) = Inr x" "normal x = x"
    "a_id x = Some i"
  shows "fst p = i" "field_attrs A (f_arrow (snd p)) = Inr x"
    "af_type (f_arrow (snd p)) = af_type (f_arrow f)" "af_nullable (f_arrow (snd p)) = af_nullable (f_arrow f)"
proof -
  obtain j g where p: "p = (j, g)" by (cases p)
  have j: "j = i" and g: "field_of A (f_arrow f) (no_args\<lparr>a_id := Some j\<rparr>) (Some [f_name f]) PNone = Inr g"
    using assms(2,3,5) by (auto simp: populated_def p)
  show "fst p = i" by (simp add: p j)
  have "x\<lparr>a_id := Some j\<rparr> = x" using assms(5) j by simp
  then show "field_attrs A (f_arrow (snd p)) = Inr x"
    using field_of_attrs [OF assms(1) g resolve_args_id [OF assms(3)]] assms(4) by (simp add: p)
  show "af_type (f_arrow (snd p)) = af_type (f_arrow f)" "af_nullable (f_arrow (snd p)) = af_nullable (f_arrow f)"
    using field_of_shape [OF g] by (simp_all add: p)
qed

lemma schema_of_fields:
  assumes "arrow_laws A" "schema_of A (Single (FieldList fs)) sid n = Inr s"
  shows "list_all2 (populated A) (map f_arrow fs) (s_fields s)"
  using assms(2)
proof (rule schema_of_parts)
  fix pa names m
  assume "to_unified_pyarrow_schema A (Single (FieldList fs)) = Inr (pa, names)"
    and pop: "visit_fields (populate_fields A m) (as_fields pa) [] = Inr (s_fields s)"
  then have "as_fields pa = map f_arrow fs"
    by (auto simp: to_unified_pyarrow_schema_def rbind_Inr_iff)
  with visit_populate [OF assms(1) pop] show ?thesis by simp
qed

lemma schema_of_id:
  assumes "schema_of A inp (Some i) n = Inr s"
  shows "schema_id s = Inr (Some i)"
  using assms
proof (rule schema_of_parts)
  fix pa :: "'a arrow_schema" and subs
  assume "as_metadata (s_arrow s) = schema_metadata (as_metadata pa) (Some i) subs"
  then have "map_of (as_metadata (s_arrow s)) SCHEMA_ID_KEY_NAME = Some (int_to_str i)"
    by (simp add: schema_metadata_def Let_def SCHEMA_ID_KEY_NAME_def SUBSCHEMAS_KEY_NAME_def)
  then show ?thesis by (simp add: schema_id_def)
qed

lemma apply_update_parts:
  assumes "apply_update A u = Inr new"
  obtains index fields index' next_id sid s where
    "name_index (schema_fields (u_base u)) = Inr index"
    "s_max_field_id (u_base u) + 1 < MAX_FIELD_ID_EXCLUSIVE"
    "validate_no_conflicting_operations (u_operations u) = Inr ()"
    "apply_ops A u (u_operations u) (schema_fields (u_base u), index, s_max_field_id (u_base u) + 1) =
       Inr (fields, index', next_id)"
    "schema_id (u_base u) = Inr (Some sid)"
    "schema_of A (Single (FieldList fields)) (Some (sid + 1)) PNone = Inr s"
    "new = s\<lparr>s_max_field_id := max (s_max_field_id s) (s_max_field_id (u_base u))\<rparr>"
proof -
  obtain index fields index' next_id sid s where *: 
    "name_index (schema_fields (u_base u)) = Inr index"
    "\<not> MAX_FIELD_ID_EXCLUSIVE \<le> s_max_field_id (u_base u) + 1"
    "validate_no_conflicting_operations (u_operations u) = Inr ()"
    "apply_ops A u (u_operations u) (schema_fields (u_base u), index, s_max_field_id (u_base u) + 1) =
       Inr (fields, index', next_id)"
    "next_schema_id (u_base u) = Inr sid"
    "schema_of A (Single (FieldList fields)) sid PNone = Inr s"
    "new = (if s_max_field_id s < s_max_field_id (u_base u)
            then s\<lparr>s_max_field_id := s_max_field_id (u_base u)\<rparr> else s)"
    using assms unfolding apply_update_def Let_def rbind_Inr_iff
    by (auto split: if_splits simp: rbind_Inr_iff)
  moreover from *(5) obtain i where "schema_id (u_base u) = Inr (Some i)" "sid = Some (i + 1)"
    by (auto simp: next_schema_id_def rbind_Inr_iff split: option.splits)
  moreover from *(7) have "new = s\<lparr>s_max_field_id := max (s_max_field_id s) (s_max_field_id (u_base u))\<rparr>"
    by (auto simp: max_def)
  ultimately show thesis using that by auto
qed

lemma apply_update_ids:
  assumes laws: "arrow_laws A" and wf: "schema_wf A base" and u: "update_ok base allow u"
    and new: "apply_update A u = Inr new"
  shows "schema_wf A new" "s_max_field_id base \<le> s_max_field_id new"
    "\<And>i. i \<in> schema_ids new \<Longrightarrow> i \<in> schema_ids base \<or> s_max_field_id base < i"
    "\<exists>sid. schema_id base = Inr (Some sid) \<and> schema_id new = Inr (Some (sid + 1))"
proof -
  have base: "u_base u = base" using u by (simp add: update_ok_def)
  obtain index fields index' next_id sid s where
    run: "apply_ops A u (u_operations u) (schema_fields base, index, s_max_field_id base + 1) =
       Inr (fields, index', next_id)" and
    sid: "schema_id base = Inr (Some sid)" and
    s: "schema_of A (Single (FieldList fields)) (Some (sid + 1)) PNone = Inr s" and
    new': "new = s\<lparr>s_max_field_id := max (s_max_field_id s) (s_max_field_id base)\<rparr>"
    by (rule apply_update_parts [OF new, unfolded base]) (rule that, assumption+)
  have inv: "ids_inv A base (fields, index', next_id)"
    by (rule ids_inv_ops [OF laws u ids_inv_start [OF wf] run])
  have "schema_wf A s" by (rule schema_of_wf [OF laws s])
  then show "schema_wf A new" by (auto simp: new' schema_wf_def le_max_iff_disj)
  show "s_max_field_id base \<le> s_max_field_id new" by (simp add: new')
  show "\<exists>sid. schema_id base = Inr (Some sid) \<and> schema_id new = Inr (Some (sid + 1))"
    using sid schema_of_id [OF s] by (simp add: new' schema_id_def)
  fix i assume "i \<in> schema_ids new"
  then obtain g where "(i, g) \<in> set (s_fields s)" by (auto simp: new')
  from list_all2_set2 [OF schema_of_fields [OF laws s]] this
  obtain a where "a \<in> set (map f_arrow fields)" "populated A a (i, g)" by blast
  then obtain f where f: "f \<in> set fields" "populated A (f_arrow f) (i, g)" by auto
  with inv obtain j where "built_field A f j" "j \<in> schema_ids base \<or> s_max_field_id base < j"
    by (auto simp: ids_inv_def)
  with populated_built(1) [OF laws f(2)] show "i \<in> schema_ids base \<or> s_max_field_id base < i"
    by (auto simp: built_field_def)
qed

text \<open>Chains of updates.\<close>

inductive evolved :: "'t arrow \<Rightarrow> 't schema \<Rightarrow> 't schema \<Rightarrow> bool" for A where
  evolved_refl: "evolved A s s"
| evolved_step: "evolved A s t \<Longrightarrow> no_field_None t \<Longrightarrow> update_built A t allow u \<Longrightarrow> apply_update A u = Inr t' \<Longrightarrow>
    evolved A s t'"

lemma evolved_ids:
  assumes "evolved A s t" "arrow_laws A" "schema_wf A s"
  shows "schema_wf A t \<and> s_max_field_id s \<le> s_max_field_id t \<and>
    (\<forall>i \<in> schema_ids t. i \<in> schema_ids s \<or> s_max_field_id s < i)"
  using assms(1,3)
proof (induction rule: evolved.induct)
  case (evolved_step s t allow u t')
  then have t: "schema_wf A t" "s_max_field_id s \<le> s_max_field_id t"
    "\<forall>i \<in> schema_ids t. i \<in> schema_ids s \<or> s_max_field_id s < i" by blast+
  have u: "update_ok t allow u" by (rule update_built_ok [OF evolved_step.hyps(3) t(1) evolved_step.hyps(2)])
  note ids = apply_update_ids [OF assms(2) t(1) u evolved_step.hyps(4)]
  show ?case
  proof (intro conjI ballI)
    show "schema_wf A t'" by (rule ids(1))
    show "s_max_field_id s \<le> s_max_field_id t'" using t(2) ids(2) by linarith
    fix i assume "i \<in> schema_ids t'"
    with ids(3) have "i \<in> schema_ids t \<or> s_max_field_id t < i" by blast
    with t(2,3) show "i \<in> schema_ids s \<or> s_max_field_id s < i" by auto
  qed
qed simp

lemma wf_ids_le: "schema_wf A s \<Longrightarrow> i \<in> schema_ids s \<Longrightarrow> i \<le> s_max_field_id s"
  by (auto simp: schema_wf_def)

subsection \<open>Compatibility\<close>

text \<open>
  What the checks promise of a field \<open>g\<close> that replaces a field \<open>f\<close>: the merge key, merge order, event
  time and past default are those of \<open>f\<close>, the type is compatible, and a field that may no longer be
  null has both default values.
\<close>

definition compatible_attrs :: "'t arrow \<Rightarrow> 't arrow_field \<Rightarrow> field_args \<Rightarrow> 't arrow_field \<Rightarrow> field_args \<Rightarrow> bool" where
  "compatible_attrs A f x g y \<longleftrightarrow> a_merge_key x = a_merge_key y \<and> py_eq (a_merge_order x) (a_merge_order y) \<and>
     a_event_time x = a_event_time y \<and> py_eq (a_past x) (a_past y) \<and> type_compatible A (af_type f) (af_type g) \<and>
     (af_nullable f \<and> \<not> af_nullable g \<longrightarrow> a_past y \<noteq> PNone \<and> a_future y \<noteq> PNone)"

definition compatible_field :: "'t arrow \<Rightarrow> 't field \<Rightarrow> 't field \<Rightarrow> bool" where
  "compatible_field A f g \<longleftrightarrow> (\<exists>x y. field_attrs A (f_arrow f) = Inr x \<and> field_attrs A (f_arrow g) = Inr y \<and>
     compatible_attrs A (f_arrow f) x (f_arrow g) y)"

text \<open>A field that may be added: it can be null or has a default value.\<close>

definition addable :: "'t arrow \<Rightarrow> 't field \<Rightarrow> bool" where
  "addable A f \<longleftrightarrow> (\<exists>x. field_attrs A (f_arrow f) = Inr x \<and>
     (af_nullable (f_arrow f) \<or> a_past x \<noteq> PNone \<or> a_future x \<noteq> PNone))"

lemma compatible_attrs_refl: "arrow_laws A \<Longrightarrow> compatible_attrs A f x f x"
  by (simp add: compatible_attrs_def compatible_refl [OF limit_positive])

lemma metadata_value_unpacked:
  assumes "arrow_laws A" "metadata_value A f k = Inr v"
  shows "unpacked v = v"
  using assms loads_unpacked [OF assms(1)]
  by (auto simp: metadata_value_def decode_metadata_value_def Let_def split: option.splits sum.splits)

lemma compat_check_Inr [simp]: "compat_check b = Inr () \<longleftrightarrow> b"
  by (simp add: compat_check_def)

lemma validate_update_checks:
  assumes "validate_update_field_compatibility A base old new = Inr ()"
    and o: "field_attrs A (f_arrow old) = Inr x" and y: "read_attrs A (f_arrow new) = Inr y"
  shows "a_merge_key x = a_merge_key y" "py_eq (a_merge_order x) (a_merge_order y)"
    "a_event_time x = a_event_time y" "py_eq (a_past x) (a_past y)"
    "validate_consistency_type_evolution (a_consistency x) (a_consistency y) = Inr ()"
    "type_compatible A (af_type (f_arrow old)) (af_type (f_arrow new))"
    "af_nullable (f_arrow old) \<Longrightarrow> \<not> af_nullable (f_arrow new) \<Longrightarrow> a_past y \<noteq> PNone \<and> a_future y \<noteq> PNone"
  using assms(1) field_attrs_getters [OF o] y
  by (auto simp: validate_update_field_compatibility_def Let_def rbind_Inr_iff read_attrs_def split: if_splits)

lemma normal_range:
  "a_merge_key (normal x) = Some True \<or> a_merge_key (normal x) = None"
  "a_event_time (normal x) = Some True \<or> a_event_time (normal x) = None"
  "py_truthy (a_merge_order (normal x)) \<or> a_merge_order (normal x) = PNone"
  by (simp_all add: normal_def)

text \<open>
  One update keeps compatibility with the field the position had at first: the new field is rebuilt
  from the attributes that were compared, in their normal form.
\<close>

lemma compatible_update:
  assumes laws: "arrow_laws A" and fo: "compatible_attrs A f x (f_arrow old) xo" and norm: "normal xo = xo"
    and o: "field_attrs A (f_arrow old) = Inr xo"
    and y: "read_attrs A (f_arrow new) = Inr y"
    and val: "validate_update_field_compatibility A base old new = Inr ()"
    and g: "af_type g = af_type (f_arrow new)" "af_nullable g = af_nullable (f_arrow new)"
  shows "compatible_attrs A f x g (normal (y\<lparr>a_id := i\<rparr>))"
proof -
  let ?y = "normal (y\<lparr>a_id := i\<rparr>)"
  note chk = validate_update_checks [OF val o y]
  have unp: "unpacked (a_merge_order y) = a_merge_order y" "unpacked (a_past y) = a_past y"
    using y metadata_value_unpacked [OF laws]
    by (auto simp: read_attrs_def rbind_Inr_iff field_merge_order_def field_past_default_def)
  have mk: "a_merge_key xo = Some True \<or> a_merge_key xo = None" "a_event_time xo = Some True \<or> a_event_time xo = None"
    "py_truthy (a_merge_order xo) \<or> a_merge_order xo = PNone"
    using normal_range [of xo] unfolding norm by blast+
  have "a_merge_key ?y = a_merge_key xo" "a_event_time ?y = a_event_time xo"
    using mk chk(1,3) by (auto simp: normal_def)
  moreover have "py_eq (a_merge_order xo) (a_merge_order ?y)"
    using mk(3) chk(2) py_eq_truthy [OF chk(2)] by (auto simp: normal_def unp)
  moreover have "py_eq (a_past xo) (a_past ?y)" using chk(4) by (simp add: normal_def unp)
  moreover have "type_compatible A (af_type f) (af_type g)"
    using compatible_trans [OF laws _ chk(6)] fo by (simp add: compatible_attrs_def g(1))
  moreover have "a_past ?y \<noteq> PNone \<and> a_future ?y \<noteq> PNone" if "af_nullable f" "\<not> af_nullable g"
  proof -
    have "a_past y \<noteq> PNone"
      using that fo chk(4,7) by (cases "af_nullable (f_arrow old)") (auto simp: compatible_attrs_def g(2))
    then show ?thesis by (simp add: normal_def build_future_def)
  qed
  ultimately show ?thesis
    using fo unfolding compatible_attrs_def by (metis py_eq_trans)
qed

text \<open>
  The state of \<open>apply_ops\<close> without incompatible changes: the positions of the base schema hold
  compatible successors of its fields, later positions those of fields that were added.
\<close>

definition successor :: "'t arrow \<Rightarrow> 't schema \<Rightarrow> nat \<Rightarrow> 't field \<Rightarrow> bool" where
  "successor A base k f \<longleftrightarrow>
     (if k < length (schema_fields base)
      then compatible_field A (schema_fields base ! k) f \<and> id_in (schema_ids base) (f_arrow f)
      else (\<exists>f0. addable A f0 \<and> compatible_field A f0 f))"

definition compat_inv :: "'t arrow \<Rightarrow> 't schema \<Rightarrow> 't apply_state \<Rightarrow> bool" where
  "compat_inv A base = (\<lambda>(fields, index, next_id). length (schema_fields base) \<le> length fields \<and>
     (\<forall>k < length fields. successor A base k (fields ! k) \<and> (\<exists>i. built_field A (fields ! k) i)))"

lemma compat_inv_start:
  assumes "arrow_laws A" "schema_wf A base"
  shows "compat_inv A base (schema_fields base, index, n)"
proof -
  have "\<exists>i. built_field A (schema_fields base ! k) i" if "k < length (schema_fields base)" for k
    using assms(2) nth_mem [OF that]
    by (force simp: schema_fields_def schema_wf_def list_all_iff good_field_def built_field_def)
  moreover have "id_in (schema_ids base) (f_arrow (schema_fields base ! k))" if "k < length (schema_fields base)" for k
    by (rule base_name_wf(2) [OF assms(2) nth_mem [OF that]])
  moreover have "compatible_field A f f" if "built_field A f i" for f i
    using that compatible_attrs_refl [OF assms(1)] by (auto simp: compatible_field_def built_field_def)
  ultimately show ?thesis
    by (fastforce simp: compat_inv_def successor_def)
qed

lemma successor_update:
  assumes laws: "arrow_laws A" and s: "successor A base k old" and b: "built_field A old i"
    and y: "read_attrs A (f_arrow new) = Inr y"
    and val: "validate_update_field_compatibility A base old new = Inr ()"
    and g: "field_of A (f_arrow new) (y\<lparr>a_id := Some j\<rparr>) p n = Inr g" and j: "j \<in> schema_ids base"
  shows "successor A base k g"
proof -
  obtain xo where xo: "field_attrs A (f_arrow old) = Inr xo" "normal xo = xo"
    using b by (auto simp: built_field_def)
  have "compatible_field A f g" if c: "compatible_field A f old" for f
  proof -
    obtain x where "field_attrs A (f_arrow f) = Inr x" "compatible_attrs A (f_arrow f) x (f_arrow old) xo"
      using c xo(1) by (auto simp: compatible_field_def)
    with compatible_update [OF laws this(2) xo(2,1) y val field_of_shape(2,3) [OF g]]
      field_of_built(1) [OF laws y g]
    show ?thesis unfolding compatible_field_def by blast
  qed
  moreover have "id_in (schema_ids base) (f_arrow g)"
    unfolding id_in_def using j built_field_id [OF field_of_built(2) [OF laws y g]] by blast
  ultimately show ?thesis using s by (auto simp: successor_def split: if_splits)
qed

lemma successor_add:
  assumes laws: "arrow_laws A" and x: "read_attrs A (f_arrow f) = Inr x"
    and val: "validate_add_field_compatibility A f = Inr ()"
    and g: "field_of A (f_arrow f) (x\<lparr>a_id := Some i\<rparr>) p n = Inr g" and k: "length (schema_fields base) \<le> k"
  shows "successor A base k g"
proof -
  let ?y = "normal (x\<lparr>a_id := Some i\<rparr>)"
  have "af_nullable (f_arrow f) \<or> a_past x \<noteq> PNone \<or> a_future x \<noteq> PNone"
    using val x by (auto simp: validate_add_field_compatibility_def read_attrs_def rbind_Inr_iff)
  then have "af_nullable (f_arrow g) \<or> a_past ?y \<noteq> PNone \<or> a_future ?y \<noteq> PNone"
    by (auto simp: field_of_shape [OF g] normal_def build_future_def)
  with field_of_built(1) [OF laws x g] have "addable A g" by (simp add: addable_def)
  moreover have "compatible_field A g g"
    using field_of_built(1) [OF laws x g] compatible_attrs_refl [OF laws] by (auto simp: compatible_field_def)
  ultimately show ?thesis using k by (auto simp: successor_def)
qed

lemma compat_inv_op:
  assumes laws: "arrow_laws A" and u: "update_ok base False u" and op: "op \<in> set (u_operations u)"
    and inv: "compat_inv A base st" and st': "apply_op A u op st = Inr st'"
  shows "compat_inv A base st'"
proof -
  obtain fields index next_id where st: "st = (fields, index, next_id)" by (cases st)
  have allow: "\<not> u_allow_incompatible u" and base: "u_base u = base" using u by (simp_all add: update_ok_def)
  show ?thesis
  proof (cases op)
    case (AddField f)
    then obtain x g where x: "read_attrs A (f_arrow f) = Inr x"
      and g: "field_of A (f_arrow f) (x\<lparr>a_id := Some next_id\<rparr>) (Some [f_name f]) (f_native f) = Inr g"
      and val: "validate_add_field_compatibility A f = Inr ()"
      and new: "st' = (fields @ [g], dict_set (f_name f) (length fields) index, next_id + 1)"
      using st' allow by (auto simp: st apply_add_field_def rbind_Inr_iff split: if_splits)
    have len: "length (schema_fields base) \<le> length fields" using inv by (simp add: compat_inv_def st)
    show ?thesis
      using inv successor_add [OF laws x val g len] field_of_built(2) [OF laws x g]
      by (auto simp: compat_inv_def st new nth_append less_Suc_eq)
  next
    case (RemoveField loc)
    then show ?thesis
      using st' allow by (auto simp: st apply_remove_field_def rbind_Inr_iff Let_def
          validate_remove_field_compatibility_def split: option.splits if_splits)
  next
    case (UpdateField loc f)
    then have "id_in (schema_ids base) (f_arrow f)"
      using u op by (simp add: update_ok_def ops_ids_def)
    then obtain j where j: "field_id (f_arrow f) = Inr (Some j)" "j \<in> schema_ids base"
      unfolding id_in_def by blast
    obtain i x g index' where i: "i < length fields" and x: "read_attrs A (f_arrow f) = Inr x"
      and val: "validate_update_field_compatibility A base (fields ! i) f = Inr ()"
      and g: "field_of A (f_arrow f) (x\<lparr>a_id := Some j\<rparr>) (Some [f_name f]) (f_native f) = Inr g"
      and new: "st' = (fields[i := g], index', next_id)"
      using st' UpdateField j(1) allow
      by (auto simp: st base apply_update_field_def nth_field_def rbind_Inr_iff Let_def
          split: option.splits if_splits)
    obtain l where old: "successor A base i (fields ! i)" "built_field A (fields ! i) l"
      using inv i by (auto simp: compat_inv_def st)
    show ?thesis
      using inv i successor_update [OF laws old x val g j(2)] field_of_built(2) [OF laws x g]
      by (auto simp: compat_inv_def st new nth_list_update)
  qed
qed

lemma compat_inv_ops:
  assumes "arrow_laws A" "update_ok base False u" "compat_inv A base st"
    "apply_ops A u (u_operations u) st = Inr st'"
  shows "compat_inv A base st'"
  using ops.run_invariant [OF assms(4), of "compat_inv A base"] compat_inv_op [OF assms(1,2)] assms(3) by blast

text \<open>Rebuilding the fields for the new schema changes none of this.\<close>

lemma successor_populated:
  assumes "arrow_laws A" "successor A base k f" "built_field A f i" "populated A (f_arrow f) p"
  shows "successor A base k (snd p)"
proof -
  obtain x where x: "field_attrs A (f_arrow f) = Inr x" "normal x = x" "a_id x = Some i"
    using assms(3) by (auto simp: built_field_def)
  have "compatible_field A h (snd p)" if "compatible_field A h f" for h
    using that x(1) populated_built(2-4) [OF assms(1,4) x]
    by (auto simp: compatible_field_def compatible_attrs_def)
  moreover have "id_in I (f_arrow (snd p)) = id_in I (f_arrow f)" for I
    using field_attrs_id [OF x(1)] field_attrs_id [OF populated_built(2) [OF assms(1,4) x]] by (simp add: id_in_def)
  ultimately show ?thesis using assms(2) by (auto simp: successor_def split: if_splits)
qed

lemma apply_update_compatible:
  assumes laws: "arrow_laws A" and wf: "schema_wf A base" and u: "update_ok base False u"
    and new: "apply_update A u = Inr new"
  shows "length (schema_fields base) \<le> length (schema_fields new)"
    "\<And>k. k < length (schema_fields new) \<Longrightarrow> successor A base k (schema_fields new ! k)"
proof -
  have base: "u_base u = base" using u by (simp add: update_ok_def)
  obtain index fields index' next_id sid s where
    run: "apply_ops A u (u_operations u) (schema_fields base, index, s_max_field_id base + 1) =
       Inr (fields, index', next_id)" and
    s: "schema_of A (Single (FieldList fields)) (Some (sid + 1)) PNone = Inr s" and
    new': "new = s\<lparr>s_max_field_id := max (s_max_field_id s) (s_max_field_id base)\<rparr>"
    by (rule apply_update_parts [OF new, unfolded base]) (rule that, assumption+)
  have inv: "compat_inv A base (fields, index', next_id)"
    by (rule compat_inv_ops [OF laws u compat_inv_start [OF laws wf] run])
  have pop: "list_all2 (populated A) (map f_arrow fields) (s_fields s)" by (rule schema_of_fields [OF laws s])
  then have len: "length (schema_fields new) = length fields"
    by (auto simp: new' schema_fields_def dest: list_all2_lengthD)
  with inv show "length (schema_fields base) \<le> length (schema_fields new)" by (simp add: compat_inv_def)
  fix k assume k: "k < length (schema_fields new)"
  with inv len obtain i where "successor A base k (fields ! k)" "built_field A (fields ! k) i"
    by (auto simp: compat_inv_def)
  moreover have "populated A (f_arrow (fields ! k)) (s_fields s ! k)"
    using list_all2_nthD [OF pop, of k] k len by simp
  ultimately have "successor A base k (snd (s_fields s ! k))" by (rule successor_populated [OF laws])
  then show "successor A base k (schema_fields new ! k)"
    using k by (simp add: new' schema_fields_def)
qed

text \<open>No identifier of the base schema is lost: its positions keep identifiers of the base schema.\<close>

lemma same_ids:
  assumes "distinct (map fst xs)" "length ys \<le> length xs" "distinct (map fst ys)"
    "\<And>k. k < length ys \<Longrightarrow> fst (xs ! k) \<in> fst ` set ys"
  shows "fst ` set ys \<subseteq> fst ` set xs"
proof -
  let ?t = "take (length ys) xs"
  have sub: "fst ` set ?t \<subseteq> fst ` set ys"
  proof
    fix i assume "i \<in> fst ` set ?t"
    then obtain p where "p \<in> set ?t" "i = fst p" by blast
    then obtain k where "k < length ys" "i = fst (xs ! k)" by (auto simp: in_set_conv_nth)
    with assms(4) show "i \<in> fst ` set ys" by simp
  qed
  have "card (fst ` set ?t) = length ?t" "card (fst ` set ys) = length ys"
    using assms(1,3) by (auto simp: distinct_card take_map [symmetric] simp flip: set_map)
  then have "fst ` set ?t = fst ` set ys"
    using assms(2) sub by (intro card_subset_eq) auto
  then show ?thesis using set_take_subset [of "length ys" xs] by blast
qed

lemma successor_id:
  assumes "schema_wf A new" "k < length (s_fields new)" "id_in I (f_arrow (snd (s_fields new ! k)))"
  shows "fst (s_fields new ! k) \<in> I"
proof -
  have "good_field A (s_fields new ! k)" using assms(1,2) by (simp add: schema_wf_def list_all_length)
  then have "field_id (f_arrow (snd (s_fields new ! k))) = Inr (Some (fst (s_fields new ! k)))"
    by (auto simp: good_field_def split: prod.splits dest: field_attrs_id)
  with assms(3) show ?thesis by (auto simp: id_in_def)
qed

lemma apply_update_keeps_ids:
  assumes laws: "arrow_laws A" and wf: "schema_wf A base" and u: "update_ok base False u"
    and new: "apply_update A u = Inr new"
  shows "schema_ids base \<subseteq> schema_ids new"
proof (rule same_ids)
  note wf' = apply_update_ids(1) [OF laws wf u new] and c = apply_update_compatible [OF laws wf u new]
  show "distinct (map fst (s_fields new))" "distinct (map fst (s_fields base))"
    using wf wf' by (simp_all add: schema_wf_def)
  show len: "length (s_fields base) \<le> length (s_fields new)" using c(1) by (simp add: schema_fields_def)
  fix k assume k: "k < length (s_fields base)"
  with c(2) [of k] len have "id_in (schema_ids base) (f_arrow (snd (s_fields new ! k)))"
    by (auto simp: successor_def schema_fields_def)
  with successor_id [OF wf'] k len show "fst (s_fields new ! k) \<in> schema_ids base" by simp
qed

end
