(* ===== verification/SchemaProperties.thy ===== *)
theory SchemaProperties
  imports SchemaEvolution
begin

text \<open>
  The properties of schemas and schema evolution, each with an example: fields keep their
  attributes, built schemas are well-formed, type compatibility is a preorder that only widens
  integers, updates keep compatibility and never reuse field identifiers, and three cases in which
  the code does not do what its comments say.
\<close>

subsection \<open>Example schemas\<close>

definition ok_or :: "'a \<Rightarrow> 'a res \<Rightarrow> 'a" where
  "ok_or d r = (case r of Inr x \<Rightarrow> x | Inl _ \<Rightarrow> d)"

definition ex_arrow_field :: "string \<Rightarrow> sample_type \<Rightarrow> bool \<Rightarrow> (string \<times> string) list \<Rightarrow> sample_type arrow_field" where
  "ex_arrow_field n t nullable md = \<lparr>af_name = n, af_type = t, af_nullable = nullable, af_metadata = md\<rparr>"

definition ex_no_schema :: "sample_type schema" where
  "ex_no_schema = \<lparr>s_arrow = \<lparr>as_fields = [], as_metadata = []\<rparr>, s_merge_keys = None, s_fields = [],
     s_max_field_id = 0, s_native = PNone\<rparr>"

definition ex_input :: "sample_type schema_input" where
  "ex_input = Single (ArrowSchema \<lparr>as_fields =
     [ex_arrow_field ''id'' (SInt True 32) False [(FIELD_MERGE_KEY_NAME, ''True'')],
      ex_arrow_field ''name'' SString True []], as_metadata = []\<rparr>)"

definition ex_base :: "sample_type schema" where
  "ex_base = ok_or ex_no_schema (schema_of sample_arrow ex_input None PNone)"

definition ex_new_field :: "string \<Rightarrow> sample_type field" where
  "ex_new_field n = \<lparr>f_arrow = ex_arrow_field n SString True [], f_path = None, f_native = PNone\<rparr>"

definition ex_removed :: "sample_type schema_update" where
  "ex_removed = remove_field (schema_update_of ex_base True) (LName ''name'')"

definition ex_without_name :: "sample_type schema" where
  "ex_without_name = ok_or ex_no_schema (apply_update sample_arrow ex_removed)"

definition ex_added :: "sample_type schema_update" where
  "ex_added = add_field (schema_update_of ex_without_name False) (ex_new_field ''age'')"

definition ex_with_age :: "sample_type schema" where
  "ex_with_age = ok_or ex_no_schema (apply_update sample_arrow ex_added)"

lemma ex_base_ids: "schema_of sample_arrow ex_input None PNone = Inr ex_base \<and> map fst (s_fields ex_base) = [0, 1]
    \<and> no_field_None ex_base \<and> s_max_field_id ex_base = 1"
  by code_simp

lemma ex_without_name_ids: "apply_update sample_arrow ex_removed = Inr ex_without_name \<and>
    map fst (s_fields ex_without_name) = [0] \<and> no_field_None ex_without_name \<and> s_max_field_id ex_without_name = 1"
  by code_simp

lemma ex_with_age_ids: "apply_update sample_arrow ex_added = Inr ex_with_age \<and> map fst (s_fields ex_with_age) = [0, 2]"
  by code_simp

lemma ex_base_wf: "schema_wf sample_arrow ex_base"
  using schema_of_wf [OF sample_laws] ex_base_ids by blast

lemma ex_removed_built: "update_built sample_arrow ex_base True ex_removed"
  unfolding ex_removed_def by (intro built_remove built_start)

lemma ex_added_built: "update_built sample_arrow ex_without_name False ex_added"
  unfolding ex_added_def by (intro built_add built_start)

lemma ex_evolved: "evolved sample_arrow ex_base ex_without_name" "evolved sample_arrow ex_without_name ex_with_age"
  using evolved_step [OF evolved_refl _ ex_removed_built] evolved_step [OF evolved_refl _ ex_added_built]
    ex_base_ids ex_without_name_ids ex_with_age_ids by blast+

text \<open>An update that widens a merge key, renames a field and adds one, without incompatible changes.\<close>

definition ex_update1 :: "sample_type schema_update" where
  "ex_update1 = ok_or (schema_update_of ex_base False)
     (update_field_type sample_arrow (schema_update_of ex_base False) (LName ''id'') (SInt True 64))"

definition ex_update2 :: "sample_type schema_update" where
  "ex_update2 = ok_or ex_update1 (rename_field sample_arrow ex_update1 (LId 1) ''title'')"

definition ex_update :: "sample_type schema_update" where
  "ex_update = add_field ex_update2 (ex_new_field ''age'')"

definition ex_evolved_schema :: "sample_type schema" where
  "ex_evolved_schema = ok_or ex_no_schema (apply_update sample_arrow ex_update)"

lemma ex_update1_ok:
  "update_field_type sample_arrow (schema_update_of ex_base False) (LName ''id'') (SInt True 64) = Inr ex_update1"
  by code_simp

lemma ex_update2_ok: "rename_field sample_arrow ex_update1 (LId 1) ''title'' = Inr ex_update2"
  by code_simp

lemma ex_evolved_schema_ok: "apply_update sample_arrow ex_update = Inr ex_evolved_schema"
  by code_simp

lemma ex_evolved_schema_ids: "map fst (s_fields ex_evolved_schema) = [0, 1, 2] \<and>
    map f_name (schema_fields ex_evolved_schema) = [''id'', ''title'', ''age''] \<and>
    map (\<lambda>f. af_type (f_arrow f)) (schema_fields ex_evolved_schema) = [SInt True 64, SString, SString]"
  by code_simp

lemma ex_update_built: "update_built sample_arrow ex_base False ex_update"
  unfolding ex_update_def
  by (intro built_add built_rename [OF _ ex_update2_ok] built_type [OF _ ex_update1_ok] built_start)

definition ex_args :: field_args where
  "ex_args = no_args\<lparr>a_id := Some 7, a_merge_order := merge_order_of ''ascending'' ''at_end'', a_past := PInt 5\<rparr>"

definition ex_normal_args :: field_args where
  "ex_normal_args = \<lparr>a_id = Some 7, a_merge_key = None,
     a_merge_order = PList [PStr ''ascending'', PStr ''at_end''], a_event_time = None, a_doc = None,
     a_past = PInt 5, a_future = PInt 5, a_consistency = Some VALIDATE\<rparr>"

subsection \<open>Fields\<close>

text \<open>C34:
  Building a field and reading its attributes back gives what was passed, or what the Arrow field
  already had, in normal form: false flags become absent, tuples become lists, an empty
  documentation is dropped, a missing future default is the past default, and merge keys, merge orders
  and event times without a consistency type get \<open>VALIDATE\<close>. The name, type and nullability are those
  of the Arrow field.
\<close>

theorem field_attributes_roundtrip:
  assumes "arrow_laws A" "resolve_args A f a = Inr x" "field_of A f a path native = Inr F"
  shows "field_attrs A (f_arrow F) = Inr (normal x) \<and>
    f_name F = af_name f \<and> af_type (f_arrow F) = af_type f \<and> af_nullable (f_arrow F) = af_nullable f \<and>
    f_path F = path \<and> f_native F = native"
  using field_of_attrs [OF assms(1,3,2)] field_of_shape [OF assms(3)] by simp_all

theorem field_attributes_roundtrip_witness:
  "\<exists>F. field_of sample_arrow (ex_arrow_field ''id'' (SInt True 32) False []) ex_args None PNone = Inr F \<and>
     field_attrs sample_arrow (f_arrow F) = Inr ex_normal_args"
proof -
  let ?f = "ex_arrow_field ''id'' (SInt True 32) False []"
  have r: "resolve_args sample_arrow ?f ex_args = Inr ex_args" by code_simp
  have "\<not> isl (field_of sample_arrow ?f ex_args None PNone)" by code_simp
  then obtain F where F: "field_of sample_arrow ?f ex_args None PNone = Inr F"
    by (cases "field_of sample_arrow ?f ex_args None PNone") simp_all
  have "normal ex_args = ex_normal_args" by code_simp
  with field_attributes_roundtrip [OF sample_laws r F] F show ?thesis by simp
qed

text \<open>C22:
  Every schema that \<open>Schema.of\<close> builds is well-formed: it has a field, field identifiers are unique and
  at most the largest identifier, names are unique ignoring case, every field carries its identifier and path, the
  Arrow schema holds exactly these fields, and the merge keys are the identifiers of the merge key
  fields in order.
\<close>

theorem schema_of_well_formed:
  "arrow_laws A \<Longrightarrow> schema_of A schema sid native = Inr s \<Longrightarrow> schema_wf A s"
  by (rule schema_of_wf)

theorem schema_of_well_formed_witness:
  "schema_wf sample_arrow ex_base \<and> s_merge_keys ex_base = Some [0]"
proof -
  have "s_merge_keys ex_base = Some [0]" by code_simp
  with schema_of_well_formed [OF sample_laws] ex_base_ids show ?thesis by blast
qed

subsection \<open>Types\<close>

text \<open>C35:
  Type compatibility is a preorder: every type is compatible with itself, and a sequence of
  compatible changes is a compatible change.
\<close>

theorem type_compatibility_preorder:
  assumes "arrow_laws A"
  shows "type_compatible A t t \<and>
    (type_compatible A a b \<longrightarrow> type_compatible A b c \<longrightarrow> type_compatible A a c)"
  by (intro conjI impI compatible_refl [OF limit_positive [OF assms]]) (rule compatible_trans [OF assms])

theorem type_compatibility_preorder_witness:
  "type_compatible sample_arrow (SList (SInt True 8)) (SList (SFloat 32))"
proof -
  have "type_compatible sample_arrow (SList (SInt True 8)) (SList (SInt True 16))" by code_simp
  moreover have "type_compatible sample_arrow (SList (SInt True 16)) (SList (SFloat 32))" by code_simp
  ultimately show ?thesis by (rule type_compatibility_preorder [OF sample_laws, THEN conjunct2, rule_format])
qed

text \<open>A compatible change from one integer type to another keeps every value: the values of the old type
  are values of the new one.
\<close>

lemma integer_change_keeps_values:
  assumes "arrow_laws A" "is_integer A old" "is_integer A new" "type_compatible A old new"
  shows "int_values A old \<subseteq> int_values A new"
proof -
  obtain n where n: "recursion_limit A = Suc n"
    using limit_positive [OF assms(1)] by (cases "recursion_limit A") auto
  have "old = new \<or> bit_width A old \<le> bit_width A new \<and> signed_int A old = signed_int A new"
    using assms(3,4) families_exclusive(1) [OF assms(1,3)]
    unfolding n compatible_int [OF assms(1,2)] by blast
  then show ?thesis by (elim disjE conjE) (simp, rule int_values_mono)
qed

lemma integer_change_keeps_values_witness:
  "int_values sample_arrow (SInt False 8) \<subseteq> int_values sample_arrow (SInt False 16) \<and>
   \<not> type_compatible sample_arrow (SInt False 8) (SInt True 16)"
proof -
  have *: "is_integer sample_arrow (SInt False 8)" "is_integer sample_arrow (SInt False 16)"
    "type_compatible sample_arrow (SInt False 8) (SInt False 16)"
    "\<not> type_compatible sample_arrow (SInt False 8) (SInt True 16)" by code_simp+
  with integer_change_keeps_values [OF sample_laws *(1-3)] show ?thesis by blast
qed

subsection \<open>Evolution\<close>

text \<open>C20:
  An update without incompatible changes that is built with the methods of \<open>SchemaUpdate\<close> and applied
  successfully keeps every field of the base schema at its position with a compatible definition (the same
  merge key, merge order, event time and past default, a compatible type, and default values when it may no
  longer be null) and keeps all field identifiers; every further field comes from an added one
  that may be null or has a default value.
\<close>

theorem compatible_update_safe:
  assumes "arrow_laws A" "schema_wf A base" "no_field_None base"
    "update_built A base False u" "apply_update A u = Inr new"
  shows "schema_wf A new \<and> schema_ids base \<subseteq> schema_ids new \<and>
    length (schema_fields base) \<le> length (schema_fields new) \<and>
    (\<forall>k < length (schema_fields base). compatible_field A (schema_fields base ! k) (schema_fields new ! k)) \<and>
    (\<forall>k < length (schema_fields new). length (schema_fields base) \<le> k \<longrightarrow>
       (\<exists>f. addable A f \<and> compatible_field A f (schema_fields new ! k)))"
proof (intro conjI)
  have u: "update_ok base False u" by (rule update_built_ok [OF assms(4,2,3)])
  show "schema_wf A new" by (rule apply_update_ids(1) [OF assms(1,2) u assms(5)])
  show "schema_ids base \<subseteq> schema_ids new" by (rule apply_update_keeps_ids [OF assms(1,2) u assms(5)])
  note c = apply_update_compatible [OF assms(1,2) u assms(5)]
  show len: "length (schema_fields base) \<le> length (schema_fields new)" by (rule c(1))
  show "\<forall>k < length (schema_fields base). compatible_field A (schema_fields base ! k) (schema_fields new ! k)"
    using c(2) len by (force simp: successor_def)
  show "\<forall>k < length (schema_fields new). length (schema_fields base) \<le> k \<longrightarrow>
       (\<exists>f. addable A f \<and> compatible_field A f (schema_fields new ! k))"
    using c(2) by (force simp: successor_def)
qed

theorem compatible_update_safe_witness:
  "schema_wf sample_arrow ex_evolved_schema \<and>
   map f_name (schema_fields ex_evolved_schema) = [''id'', ''title'', ''age''] \<and>
   compatible_field sample_arrow (schema_fields ex_base ! 0) (schema_fields ex_evolved_schema ! 0)"
proof -
  have none: "no_field_None ex_base" and n: "length (schema_fields ex_base) = 2" by code_simp+
  note safe = compatible_update_safe [OF sample_laws ex_base_wf none ex_update_built ex_evolved_schema_ok]
  show ?thesis using safe ex_evolved_schema_ids n by simp
qed

text \<open>C21:
  Field identifiers are never reused in memory: along any chain of updates, an identifier that a
  schema had and a later one no longer has never comes back, and every identifier that a later schema
  adds is larger than all identifiers used before.
\<close>

theorem field_ids_never_reused:
  assumes "arrow_laws A" "schema_wf A s" "evolved A s t" "evolved A t v"
  shows "schema_wf A v \<and>
    (i \<in> schema_ids s \<longrightarrow> i \<notin> schema_ids t \<longrightarrow> i \<notin> schema_ids v) \<and>
    (i \<in> schema_ids v \<longrightarrow> i \<notin> schema_ids t \<longrightarrow> j \<in> schema_ids s \<union> schema_ids t \<longrightarrow> j < i)"
proof (intro conjI impI)
  have t: "schema_wf A t" "s_max_field_id s \<le> s_max_field_id t"
    using evolved_ids [OF assms(3,1,2)] by blast+
  have v: "schema_wf A v" "\<forall>i \<in> schema_ids v. i \<in> schema_ids t \<or> s_max_field_id t < i"
    using evolved_ids [OF assms(4,1) t(1)] by blast+
  have le: "j \<le> s_max_field_id t" if "j \<in> schema_ids s \<union> schema_ids t" for j
    using that
  proof
    assume "j \<in> schema_ids s"
    with wf_ids_le [OF assms(2)] have "j \<le> s_max_field_id s" by blast
    with t(2) show ?thesis by linarith
  next
    assume "j \<in> schema_ids t"
    with wf_ids_le [OF t(1)] show ?thesis by blast
  qed
  show "schema_wf A v" by (rule v(1))
  show "i \<notin> schema_ids v" if "i \<in> schema_ids s" "i \<notin> schema_ids t"
    using that v(2) le [of i] by (meson UnI1 linorder_not_le)
  show "j < i" if "i \<in> schema_ids v" "i \<notin> schema_ids t" "j \<in> schema_ids s \<union> schema_ids t"
    using that v(2) le [of j] by (meson le_less_trans)
qed

theorem field_ids_never_reused_witness:
  "(1::int) \<notin> schema_ids ex_with_age \<and> 1 \<in> schema_ids ex_base \<and> 1 \<notin> schema_ids ex_without_name"
proof -
  have "set (map fst (s_fields ex_base)) = {0, 1}" "set (map fst (s_fields ex_without_name)) = {0}"
    using ex_base_ids ex_without_name_ids by simp_all
  then have *: "1 \<in> schema_ids ex_base" "1 \<notin> schema_ids ex_without_name" by simp_all
  with field_ids_never_reused [OF sample_laws ex_base_wf ex_evolved] show ?thesis by blast
qed

subsection \<open>Where the code differs from its comments\<close>

definition ex_reloaded :: "sample_type schema" where
  "ex_reloaded = ok_or ex_no_schema (schema_deserialize sample_arrow (schema_serialize ex_without_name))"

definition ex_readded :: "sample_type schema" where
  "ex_readded = ok_or ex_no_schema
     (apply_update sample_arrow (add_field (schema_update_of ex_reloaded False) (ex_new_field ''age'')))"

text \<open>
  An example: the largest identifier of a schema does not survive storage. After the field with the largest
  identifier is removed and the schema is serialized and read back, the next field that is added gets
  the identifier of the removed one.
\<close>

lemma stored_schema_reuses_id:
  "schema_deserialize sample_arrow (schema_serialize ex_without_name) = Inr ex_reloaded \<and>
   s_max_field_id ex_without_name = 1 \<and> s_max_field_id ex_reloaded = 0 \<and>
   map fst (s_fields ex_base) = [0, 1] \<and> map f_name (schema_fields ex_base) = [''id'', ''name''] \<and>
   apply_update sample_arrow (add_field (schema_update_of ex_reloaded False) (ex_new_field ''age'')) = Inr ex_readded \<and>
   map fst (s_fields ex_readded) = [0, 1] \<and> map f_name (schema_fields ex_readded) = [''id'', ''age'']"
  by code_simp

definition ex_with_id :: "string \<Rightarrow> int \<Rightarrow> sample_type arrow_field" where
  "ex_with_id n i = ex_arrow_field n SString True [(PARQUET_FIELD_ID_KEY_NAME, int_to_str i)]"

definition ex_ids_of :: "sample_type arrow_field list \<Rightarrow> int list res" where
  "ex_ids_of fs = rbind (schema_of sample_arrow (Single (ArrowSchema \<lparr>as_fields = fs, as_metadata = []\<rparr>)) None PNone)
     (\<lambda>s. Inr (map fst (s_fields s)))"

text \<open>
  A field without an identifier that comes first gets the largest assigned identifier itself, not the one
  after it: the schema is refused as having a duplicate identifier, although the same fields in the
  other order are accepted.
\<close>

lemma unassigned_field_first_refused:
  "ex_ids_of [ex_arrow_field ''a'' SString True [], ex_with_id ''b'' 5] = Inl ValueError \<and>
   ex_ids_of [ex_with_id ''b'' 5, ex_arrow_field ''a'' SString True []] = Inr [5, 6]"
  by code_simp

definition ex_last_id :: "sample_type schema" where
  "ex_last_id = ok_or ex_no_schema (schema_of sample_arrow (Single (ArrowSchema
     \<lparr>as_fields = [ex_with_id ''a'' (MAX_FIELD_ID_EXCLUSIVE - 2)], as_metadata = []\<rparr>)) None PNone)"

text \<open>
  The overflow check of an update covers only the first added field: adding two fields to a schema
  whose largest identifier is two below the exclusive bound assigns the bound itself.
\<close>

lemma field_id_bound_exceeded:
  "rbind (apply_update sample_arrow
       (add_field (add_field (schema_update_of ex_last_id False) (ex_new_field ''b'')) (ex_new_field ''c'')))
     (\<lambda>s. Inr (map fst (s_fields s))) =
   Inr [MAX_FIELD_ID_EXCLUSIVE - 2, MAX_FIELD_ID_EXCLUSIVE - 1, MAX_FIELD_ID_EXCLUSIVE]"
  by code_simp

definition ex_loose :: "sample_type schema" where
  "ex_loose = ok_or ex_no_schema (schema_of sample_arrow (Single (ArrowSchema
     \<lparr>as_fields = [ex_arrow_field ''v'' SString True [(FIELD_CONSISTENCY_TYPE_KEY_NAME, ''none'')]], as_metadata = []\<rparr>))
     None PNone)"

definition ex_tighten :: "consistency option list \<Rightarrow> consistency option list res" where
  "ex_tighten cs = rbind (fold (\<lambda>c r. rbind r (\<lambda>u. update_field_consistency_type sample_arrow u (LName ''v'') c)) cs
       (Inr (schema_update_of ex_loose False)))
     (\<lambda>u. rbind (apply_update sample_arrow u) (\<lambda>s. res_map (\<lambda>f. field_consistency_type (f_arrow f)) (schema_fields s)))"

text \<open>
  The forbidden change of a consistency type from \<open>NONE\<close> to \<open>VALIDATE\<close> is refused when it is one change, and
  accepted as two: first to no consistency type, then to \<open>VALIDATE\<close>.
\<close>

lemma consistency_tightened_in_two_steps:
  "ex_tighten [Some VALIDATE] = Inl SchemaCompatibilityError \<and>
   ex_tighten [None, Some VALIDATE] = Inr [Some VALIDATE]"
  by code_simp

end
