(* ===== verification/Schemes.thy ===== *)
theory Schemes
  imports Schemas
begin

text \<open>
  Transforms, sort keys, sort schemes, partition keys and partition schemes
  (\<^verbatim>\<open>deltacat/storage/model/transform.py\<close>, \<^verbatim>\<open>sort_key.py\<close> and the scheme classes of \<^verbatim>\<open>partition.py\<close>),
  and the sort keys a schema derives from its merge orders and event times
  (\<^verbatim>\<open>Schema.merge_order_sort_keys\<close>). A transform is compared as the dictionary it is: its name,
  parameters and stored return type, not its class. The conversion to PyArrow sort options is not modelled.
\<close>

subsection \<open>Orders\<close>

datatype sort_order = ASCENDING | DESCENDING
datatype null_order = AT_START | AT_END

fun sort_order_value :: "sort_order \<Rightarrow> string" where
  "sort_order_value ASCENDING = ''ascending''"
| "sort_order_value DESCENDING = ''descending''"

fun null_order_value :: "null_order \<Rightarrow> string" where
  "null_order_value AT_START = ''at_start''"
| "null_order_value AT_END = ''at_end''"

text \<open>\<^verbatim>\<open>SortOrder(value)\<close> and \<^verbatim>\<open>NullOrder(value)\<close>, with the Iceberg spellings that \<^verbatim>\<open>_missing_\<close> accepts.\<close>

definition sort_order_of :: "string \<Rightarrow> sort_order res" where
  "sort_order_of v = (if v = ''ascending'' then Inr ASCENDING else if v = ''descending'' then Inr DESCENDING
     else if str_lower v = ''asc'' then Inr ASCENDING else if str_lower v = ''desc'' then Inr DESCENDING
     else Inl ValueError)"

definition null_order_of :: "string \<Rightarrow> null_order res" where
  "null_order_of v = (if v = ''at_start'' then Inr AT_START else if v = ''at_end'' then Inr AT_END
     else if str_lower v = ''nulls-first'' then Inr AT_START else if str_lower v = ''nulls-last'' then Inr AT_END
     else Inl ValueError)"

lemma order_of_value [simp]:
  "sort_order_of (sort_order_value x) = Inr x" "null_order_of (null_order_value y) = Inr y"
  by (cases x; cases y; simp add: sort_order_of_def null_order_of_def)+

subsection \<open>Transforms\<close>

datatype transform_class = PlainTransform | BucketTransform | TruncateTransform | IdentityTransform | HourTransform
  | DayTransform | MonthTransform | YearTransform | VoidTransform | UnknownTransform

text \<open>The return type is stored as a serialized Arrow schema of one column; the constructors store these two.\<close>

datatype return_type = Int32Return | NullReturn

record transform =
  t_class :: transform_class
  t_name :: string
  t_parameters :: "(string \<times> pyval) list option"
  t_return_type :: "return_type option"

definition bucket_transform :: "int \<Rightarrow> string \<Rightarrow> transform" where
  "bucket_transform num_buckets strategy = \<lparr>t_class = BucketTransform, t_name = ''bucket'',
     t_parameters = Some [(''numBuckets'', PInt num_buckets), (''bucketingStrategy'', PStr strategy)],
     t_return_type = Some Int32Return\<rparr>"

definition truncate_transform :: "int \<Rightarrow> string \<Rightarrow> transform" where
  "truncate_transform width strategy = \<lparr>t_class = TruncateTransform, t_name = ''truncate'',
     t_parameters = Some [(''width'', PInt width), (''truncateStrategy'', PStr strategy)], t_return_type = None\<rparr>"

definition simple_transform :: "transform_class \<Rightarrow> string \<Rightarrow> transform" where
  "simple_transform c n = \<lparr>t_class = c, t_name = n, t_parameters = None,
     t_return_type = (if c \<in> {HourTransform, DayTransform, MonthTransform, YearTransform} then Some Int32Return
       else if c = VoidTransform then Some NullReturn else None)\<rparr>"

definition is_multi_field_transform :: "transform \<Rightarrow> bool" where
  "is_multi_field_transform t \<longleftrightarrow> t_class t = BucketTransform"

definition transform_eq :: "transform option \<Rightarrow> transform option \<Rightarrow> bool" where
  "transform_eq a b \<longleftrightarrow> (case (a, b) of (None, None) \<Rightarrow> True
     | (Some s, Some t) \<Rightarrow> t_name s = t_name t \<and> t_return_type s = t_return_type t \<and>
         (case (t_parameters s, t_parameters t) of (None, None) \<Rightarrow> True
          | (Some p, Some q) \<Rightarrow> py_eq (PDict p) (PDict q) | _ \<Rightarrow> False)
     | _ \<Rightarrow> False)"

lemma transform_eq_equivalence:
  "transform_eq a a" "transform_eq a b \<Longrightarrow> transform_eq b a"
  "transform_eq a b \<Longrightarrow> transform_eq b c \<Longrightarrow> transform_eq a c"
  by (auto simp: transform_eq_def py_eq_sym split: option.splits intro: py_eq_trans)

subsection \<open>Sort keys and schemes\<close>

record sort_key =
  sk_key :: "field_locator list option"
  sk_sort_order :: string
  sk_null_order :: string
  sk_transform :: "transform option"

definition sort_key_of ::
    "field_locator list option \<Rightarrow> sort_order \<Rightarrow> null_order \<Rightarrow> transform option \<Rightarrow> sort_key" where
  "sort_key_of key so no tr = \<lparr>sk_key = key, sk_sort_order = sort_order_value so,
     sk_null_order = null_order_value no, sk_transform = tr\<rparr>"

definition sort_key_equivalent :: "sort_key \<Rightarrow> sort_key option \<Rightarrow> bool res" where
  "sort_key_equivalent k other = (case other of None \<Rightarrow> Inr False
     | Some k' \<Rightarrow>
         if \<not> (sk_key k = sk_key k' \<and> transform_eq (sk_transform k) (sk_transform k')) then Inr False
         else rbind (sort_order_of (sk_sort_order k)) (\<lambda>a. rbind (sort_order_of (sk_sort_order k')) (\<lambda>b.
           if a \<noteq> b then Inr False
           else rbind (null_order_of (sk_null_order k)) (\<lambda>c. rbind (null_order_of (sk_null_order k')) (\<lambda>d.
             Inr (c = d))))))"

record 'k scheme =
  sc_keys :: "'k list option"
  sc_name :: "string option"
  sc_id :: "string option"

text \<open>The loop of \<^verbatim>\<open>SortScheme.of\<close>: the first locator of every key must be new.\<close>

fun check_sort_keys :: "field_locator list \<Rightarrow> sort_key list \<Rightarrow> unit res" where
  "check_sort_keys seen [] = Inr ()"
| "check_sort_keys seen (k # ks) =
     (case sk_key k of None \<Rightarrow> Inl TypeError | Some [] \<Rightarrow> Inl IndexError
      | Some (l # _) \<Rightarrow> if l \<in> set seen then Inl ValueError else check_sort_keys (seen @ [l]) ks)"

definition sort_scheme_of ::
    "sort_key list option \<Rightarrow> string option \<Rightarrow> string option \<Rightarrow> sort_key scheme res" where
  "sort_scheme_of keys name scheme_id =
     rbind (case keys of None \<Rightarrow> Inr () | Some ks \<Rightarrow> if ks = [] then Inl ValueError else check_sort_keys [] ks)
       (\<lambda>_. Inr \<lparr>sc_keys = keys, sc_name = name, sc_id = scheme_id\<rparr>)"

text \<open>
  The comparison of two schemes, shared by \<^verbatim>\<open>SortScheme.equivalent_to\<close> and
  \<^verbatim>\<open>PartitionScheme.equivalent_to\<close>: the keys of the first scheme are compared with the keys of the
  second at the same index.
\<close>

fun compare_keys :: "('k \<Rightarrow> 'k option \<Rightarrow> bool res) \<Rightarrow> 'k list \<Rightarrow> 'k list \<Rightarrow> bool res" where
  "compare_keys eq [] ks = Inr True"
| "compare_keys eq (k # ks) [] = Inl IndexError"
| "compare_keys eq (k # ks) (k' # ks') = rbind (eq k (Some k')) (\<lambda>b. if b then compare_keys eq ks ks' else Inr False)"

definition scheme_equivalent ::
    "('k \<Rightarrow> 'k option \<Rightarrow> bool res) \<Rightarrow> 'k scheme \<Rightarrow> 'k scheme option \<Rightarrow> bool \<Rightarrow> bool res" where
  "scheme_equivalent eq s other check_identifiers = (case other of None \<Rightarrow> Inr False
     | Some s' \<Rightarrow>
         let same = \<not> check_identifiers \<or> sc_name s = sc_name s' \<and> sc_id s = sc_id s' in
         case (sc_keys s, sc_keys s') of
           (None, None) \<Rightarrow> Inr same
         | (Some ks, Some ks') \<Rightarrow> rbind (compare_keys eq ks ks') (\<lambda>b. Inr (b \<and> same))
         | _ \<Rightarrow> Inr False)"

definition sort_scheme_equivalent :: "sort_key scheme \<Rightarrow> sort_key scheme option \<Rightarrow> bool \<Rightarrow> bool res" where
  "sort_scheme_equivalent = scheme_equivalent sort_key_equivalent"

subsection \<open>Partition keys and schemes\<close>

record partition_key =
  pk_key :: "field_locator list"
  pk_name :: "string option"
  pk_id :: "int option"
  pk_transform :: "transform option"

definition partition_key_of ::
    "field_locator list \<Rightarrow> string option \<Rightarrow> int option \<Rightarrow> transform option \<Rightarrow> partition_key res" where
  "partition_key_of key name fid tr =
     (if 1 < length key \<and> (case tr of None \<Rightarrow> False | Some t \<Rightarrow> \<not> is_multi_field_transform t)
      then Inl ValueError
      else Inr \<lparr>pk_key = key, pk_name = name, pk_id = fid, pk_transform = tr\<rparr>)"

text \<open>\<open>A and B and not C or D\<close> reads as \<open>(A and B and not C) or D\<close>.\<close>

definition partition_key_equivalent :: "bool \<Rightarrow> partition_key \<Rightarrow> partition_key option \<Rightarrow> bool res" where
  "partition_key_equivalent check_identifiers k other = (case other of None \<Rightarrow> Inr False
     | Some k' \<Rightarrow>
         Inr ((pk_key k = pk_key k' \<and> transform_eq (pk_transform k) (pk_transform k') \<and> \<not> check_identifiers)
              \<or> (pk_name k = pk_name k' \<and> pk_id k = pk_id k')))"

text \<open>The loop of \<^verbatim>\<open>PartitionScheme.of\<close>: pairs of locators and transform class, and names, must be new.\<close>

fun check_partition_keys ::
    "(field_locator list \<times> transform_class option) list \<Rightarrow> string list \<Rightarrow> partition_key list \<Rightarrow> unit res" where
  "check_partition_keys pairs names [] = Inr ()"
| "check_partition_keys pairs names (k # ks) =
     (let pair = (pk_key k, map_option t_class (pk_transform k)) in
      if pair \<in> set pairs then Inl ValueError
      else case pk_name k of
        None \<Rightarrow> check_partition_keys (pair # pairs) names ks
      | Some n \<Rightarrow> if n \<in> set names then Inl ValueError else check_partition_keys (pair # pairs) (n # names) ks)"

definition partition_scheme_of ::
    "partition_key list option \<Rightarrow> string option \<Rightarrow> string option \<Rightarrow> partition_key scheme res" where
  "partition_scheme_of keys name scheme_id =
     rbind (case keys of None \<Rightarrow> Inr () | Some ks \<Rightarrow> if ks = [] then Inl ValueError else check_partition_keys [] [] ks)
       (\<lambda>_. Inr \<lparr>sc_keys = keys, sc_name = name, sc_id = scheme_id\<rparr>)"

definition partition_scheme_equivalent ::
    "partition_key scheme \<Rightarrow> partition_key scheme option \<Rightarrow> bool \<Rightarrow> bool res" where
  "partition_scheme_equivalent s other check_identifiers =
     scheme_equivalent (partition_key_equivalent check_identifiers) s other check_identifiers"

subsection \<open>Sort keys of a schema\<close>

definition invert_order :: "pyval \<Rightarrow> sort_order" where
  "invert_order v = (if v = PStr ''ascending'' then DESCENDING else ASCENDING)"

text \<open>Indexing a decoded merge order, and a null order as the value stored in a sort key.\<close>

definition py_index :: "pyval \<Rightarrow> nat \<Rightarrow> pyval res" where
  "py_index v i = (case v of
     PList vs \<Rightarrow> if i < length vs then Inr (vs ! i) else Inl IndexError
   | PTuple vs \<Rightarrow> if i < length vs then Inr (vs ! i) else Inl IndexError
   | PStr s \<Rightarrow> if i < length s then Inr (PStr [s ! i]) else Inl IndexError
   | PDict kvs \<Rightarrow> Inl KeyError
   | _ \<Rightarrow> Inl TypeError)"

definition merge_order_sort_key :: "'t arrow \<Rightarrow> 't field \<Rightarrow> (string \<times> sort_order \<times> pyval) res" where
  "merge_order_sort_key A f = rbind (field_merge_order A (f_arrow f)) (\<lambda>mo.
     rbind (py_index mo 0) (\<lambda>so. rbind (py_index mo 1) (\<lambda>no. Inr (f_name f, invert_order so, no))))"

fun fields_with_merge_order :: "'t arrow \<Rightarrow> 't field list \<Rightarrow> 't field list res" where
  "fields_with_merge_order A [] = Inr []"
| "fields_with_merge_order A (f # fs) = rbind (field_merge_order A (f_arrow f)) (\<lambda>mo.
     rbind (fields_with_merge_order A fs) (\<lambda>gs. Inr (if mo \<noteq> PNone then f # gs else gs)))"

definition event_time_sort_key :: "'t field \<Rightarrow> string \<times> sort_order \<times> pyval" where
  "event_time_sort_key f = (f_name f, ASCENDING, PStr (null_order_value AT_END))"

definition merge_order_sort_keys :: "'t arrow \<Rightarrow> 't schema \<Rightarrow> (string \<times> sort_order \<times> pyval) list option res" where
  "merge_order_sort_keys A s = rbind (fields_with_merge_order A (schema_fields s)) (\<lambda>mo.
     if mo \<noteq> [] then rbind (res_map (merge_order_sort_key A) mo) (\<lambda>ks. Inr (Some ks))
     else let et = filter (\<lambda>f. field_is_event_time (f_arrow f) = Some True) (schema_fields s) in
       Inr (if et \<noteq> [] then Some (map event_time_sort_key et) else None))"

subsection \<open>Validity and comparison of schemes\<close>

lemma check_sort_keys_distinct:
  "check_sort_keys seen ks = Inr () \<Longrightarrow> distinct seen \<Longrightarrow>
   distinct (seen @ map (\<lambda>k. hd (the (sk_key k))) ks) \<and> (\<forall>k \<in> set ks. \<exists>l p. sk_key k = Some (l # p))"
  by (induction seen ks rule: check_sort_keys.induct) (auto split: option.splits list.splits if_splits)

lemma check_partition_keys_distinct:
  "check_partition_keys pairs names ks = Inr () \<Longrightarrow> distinct pairs \<Longrightarrow> distinct names \<Longrightarrow>
   distinct (rev (map (\<lambda>k. (pk_key k, map_option t_class (pk_transform k))) ks) @ pairs) \<and>
   distinct (rev (List.map_filter pk_name ks) @ names)"
  by (induction pairs names ks rule: check_partition_keys.induct)
     (auto simp: Let_def map_filter_simps split: option.splits if_splits)

lemma compare_keys_prefix:
  "(\<And>k. k \<in> set ks \<Longrightarrow> eq k (Some k) = Inr True) \<Longrightarrow> compare_keys eq ks (ks @ ks') = Inr True"
  by (induction ks) auto

lemma compare_keys_short:
  "(\<And>k. k \<in> set ks \<Longrightarrow> eq k (Some k) = Inr True) \<Longrightarrow> compare_keys eq (ks @ k # ks') ks = Inl IndexError"
  by (induction ks) auto

lemma partition_key_equivalent_refl: "partition_key_equivalent c k (Some k) = Inr True"
  by (simp add: partition_key_equivalent_def)

text \<open>C40:
  The comparison of partition schemes does not compare partition keys: two keys with the same name
  and field identifier, in particular two keys that have neither, count as equivalent whatever
  fields and transforms they use; a scheme counts as equivalent to every extension of it by further
  keys, and comparing the extension with the scheme raises \<open>IndexError\<close>.
\<close>

theorem partition_schemes_confused:
  "partition_key_equivalent c \<lparr>pk_key = key, pk_name = n, pk_id = i, pk_transform = tr\<rparr>
     (Some \<lparr>pk_key = key', pk_name = n, pk_id = i, pk_transform = tr'\<rparr>) = Inr True \<and>
   partition_scheme_equivalent \<lparr>sc_keys = Some ks, sc_name = m, sc_id = j\<rparr>
     (Some \<lparr>sc_keys = Some (ks @ k # ks'), sc_name = m, sc_id = j\<rparr>) c = Inr True \<and>
   partition_scheme_equivalent \<lparr>sc_keys = Some (ks @ k # ks'), sc_name = m, sc_id = j\<rparr>
     (Some \<lparr>sc_keys = Some ks, sc_name = m, sc_id = j\<rparr>) c = Inl IndexError"
  by (simp add: partition_key_equivalent_def partition_scheme_equivalent_def scheme_equivalent_def
      compare_keys_prefix compare_keys_short partition_key_equivalent_refl)

end
