(* ===== verification/CatalogRoots.thy ===== *)
theory CatalogRoots
  imports Filesystem Locators PyValues
begin

text \<open>
  The parts of \<^verbatim>\<open>catalog/model/properties.py\<close> that do not resolve file systems: the version files below
  the catalog root, and the full paths that external readers get.
\<close>

subsection \<open>Catalog versions\<close>

record catalog_version =
  cv_version :: string
  cv_starting_from :: int

definition catalog_version_from_filename :: "string \<Rightarrow> catalog_version res" where
  "catalog_version_from_filename filename =
     (let parts = split_on dot filename
      in if length parts < 2 then Inl ValueError
         else rbind (of_option ValueError (py_int (last parts))) (\<lambda>starting_from.
           Inr \<lparr>cv_version = join_with [dot] (butlast parts), cv_starting_from = starting_from\<rparr>))"

definition catalog_version_to_filename :: "catalog_version \<Rightarrow> string" where
  "catalog_version_to_filename v = cv_version v @ dot # int_to_str (cv_starting_from v)"

definition CATALOG_VERSION_DIR_NAME :: string where
  "CATALOG_VERSION_DIR_NAME = ''version''"

text \<open>The loop over the version files: the first of the current version; other file names are skipped.\<close>

fun find_catalog_version :: "string \<Rightarrow> string list \<Rightarrow> catalog_version option" where
  "find_catalog_version current [] = None"
| "find_catalog_version current (f # fs) = (case catalog_version_from_filename f of
     Inl _ \<Rightarrow> find_catalog_version current fs
   | Inr v \<Rightarrow> if cv_version v = current then Some v else find_catalog_version current fs)"

text \<open>
  The version part of the constructor of \<^verbatim>\<open>CatalogProperties\<close>. The current version has the current time,
  \<open>no_data\<close> is the empty file; that the file cannot be written is only logged.
\<close>

definition init_catalog_version ::
    "('fs, 'd) filesystem \<Rightarrow> 'd \<Rightarrow> string \<Rightarrow> catalog_version \<Rightarrow> ('fs, catalog_version option) io" where
  "init_catalog_version F no_data root current_version =
     io_bind (io_lift (\<lambda>fs. list_directory F fs (path_join root CATALOG_VERSION_DIR_NAME) None True False)) (\<lambda>files.
       case find_catalog_version (cv_version current_version) (map (\<lambda>p. basename (fst p)) files) of
         Some v \<Rightarrow> io_return (Some v)
       | None \<Rightarrow>
           io_try (io_bind (write_file F (path_join (path_join root CATALOG_VERSION_DIR_NAME)
                               (catalog_version_to_filename current_version)) no_data) (\<lambda>_. io_return (Some current_version)))
             (\<lambda>_. io_return None))"

subsection \<open>Full paths\<close>

text \<open>
  \<^verbatim>\<open>urlparse(url).scheme\<close>: leading control characters and spaces, tabs and line ends are dropped; the
  scheme is what comes before the first colon if these are all scheme characters.
\<close>

definition is_scheme_char :: "char \<Rightarrow> bool" where
  "is_scheme_char c \<longleftrightarrow> (let n = of_char c :: nat in
     48 \<le> n \<and> n \<le> 57 \<or> 65 \<le> n \<and> n \<le> 90 \<or> 97 \<le> n \<and> n \<le> 122) \<or> c \<in> {CHR ''+'', CHR ''-'', CHR ''.''}"

definition url_scheme :: "string \<Rightarrow> string" where
  "url_scheme url =
     (let url = filter (\<lambda>c. (of_char c :: nat) \<notin> {9, 10, 13}) (dropWhile (\<lambda>c. (of_char c :: nat) \<le> 32) url);
          pre = takeWhile (\<lambda>c. c \<noteq> CHR '':'') url
      in if CHR '':'' \<in> set url \<and> list_all is_scheme_char pre then str_lower pre else [])"

definition reconstruct_full_path :: "string option \<Rightarrow> string \<Rightarrow> string" where
  "reconstruct_full_path original_root path =
     (if url_scheme path \<noteq> [] then path
      else if \<not> truthy original_root then path
      else let root = the original_root
           in if starts_with path ''/''
              then (if url_scheme root \<noteq> [] then url_scheme root @ '':/'' @ path else path)
              else path_join root path)"

subsection \<open>Version files\<close>

lemma dot_not_in_int_to_str: "0 \<le> i \<Longrightarrow> dot \<notin> set (int_to_str i)"
  by (rule isdigit_facts(4) [OF isdigit_int_to_str])

lemma version_filename_inverse:
  assumes "0 \<le> cv_starting_from v"
  shows "catalog_version_from_filename (catalog_version_to_filename v) = Inr v"
proof -
  have s: "split_on dot (catalog_version_to_filename v) = split_on dot (cv_version v) @ [int_to_str (cv_starting_from v)]"
    using dot_not_in_int_to_str [OF assms] by (simp add: catalog_version_to_filename_def split_on_append_sep)
  have "split_on dot (cv_version v) \<noteq> []" by simp
  then show ?thesis using assms by (simp add: catalog_version_from_filename_def s Suc_le_eq)
qed

lemma find_catalog_version_known:
  "catalog_version_from_filename f = Inr v \<Longrightarrow> f \<in> set fs \<Longrightarrow>
   \<exists>w. find_catalog_version (cv_version v) fs = Some w \<and> cv_version w = cv_version v"
  by (induction fs) (auto split: sum.splits)

lemma find_catalog_version_Some:
  "find_catalog_version c fs = Some w \<Longrightarrow> cv_version w = c \<and> (\<exists>f \<in> set fs. catalog_version_from_filename f = Inr w)"
  by (induction fs) (auto split: sum.splits if_splits)

end
