(* ===== verification/Manifests.thy ===== *)
theory Manifests
  imports CatalogRoots
begin

text \<open>
  Manifests of data files (\<^verbatim>\<open>storage/model/manifest.py\<close>, the media types of \<^verbatim>\<open>types/media.py\<close>, the
  file names of \<^verbatim>\<open>types/tables.py\<close> and the URLs of \<^verbatim>\<open>catalog/model/properties.py\<close>). The classes are
  dictionaries whose keys are left out for \<^verbatim>\<open>None\<close>, here records of options. Credentials, content type
  parameters and entry parameters are dictionaries and lists of the caller, here Python values with
  \<open>PNone\<close> for \<^verbatim>\<open>None\<close>.
\<close>

subsection \<open>Entry types\<close>

datatype entry_type = DATA | POSITIONAL_DELETE | EQUALITY_DELETE

fun entry_type_value :: "entry_type \<Rightarrow> string" where
  "entry_type_value DATA = ''data''"
| "entry_type_value POSITIONAL_DELETE = ''positional_delete''"
| "entry_type_value EQUALITY_DELETE = ''equality_delete''"

definition entry_type_get_default :: entry_type where
  "entry_type_get_default = DATA"

definition entry_types :: "entry_type list" where
  "entry_types = [DATA, POSITIONAL_DELETE, EQUALITY_DELETE]"

definition entry_type_list :: "string list" where
  "entry_type_list = map entry_type_value entry_types"

text \<open>\<^verbatim>\<open>EntryType(value)\<close>.\<close>

definition entry_type_of_value :: "string \<Rightarrow> entry_type res" where
  "entry_type_of_value v = of_option ValueError (find (\<lambda>t. entry_type_value t = v) entry_types)"

definition entry_params_of :: "pyval \<Rightarrow> pyval" where
  "entry_params_of equality_field_locators =
     PDict (if equality_field_locators = PNone then [] else [(''equality_field_locators'', equality_field_locators)])"

definition equality_field_locators :: "(string \<times> pyval) list \<Rightarrow> pyval" where
  "equality_field_locators params = (case map_of params ''equality_field_locators'' of None \<Rightarrow> PNone | Some v \<Rightarrow> v)"

subsection \<open>Manifest metadata, authors and entries\<close>

record manifest_meta =
  mm_record_count :: "int option"
  mm_content_length :: "int option"
  mm_source_content_length :: "int option"
  mm_content_type :: "string option"
  mm_content_type_parameters :: pyval
  mm_content_encoding :: "string option"
  mm_credentials :: pyval
  mm_entry_type :: "string option"
  mm_entry_params :: pyval
  mm_schema_id :: "int option"
  mm_sort_scheme_id :: "string option"

definition manifest_meta_of ::
    "int option \<Rightarrow> int option \<Rightarrow> string option \<Rightarrow> string option \<Rightarrow> int option \<Rightarrow> pyval \<Rightarrow> pyval \<Rightarrow>
     entry_type option \<Rightarrow> pyval \<Rightarrow> int option \<Rightarrow> string option \<Rightarrow> manifest_meta" where
  "manifest_meta_of record_count content_length content_type content_encoding source_content_length
     credentials content_type_parameters entry_type entry_params schema_id sort_scheme_id =
     \<lparr>mm_record_count = record_count, mm_content_length = content_length,
      mm_source_content_length = source_content_length, mm_content_type = content_type,
      mm_content_type_parameters = content_type_parameters, mm_content_encoding = content_encoding,
      mm_credentials = credentials, mm_entry_type = map_option entry_type_value entry_type,
      mm_entry_params = entry_params, mm_schema_id = schema_id, mm_sort_scheme_id = sort_scheme_id\<rparr>"

text \<open>The property \<^verbatim>\<open>entry_type\<close> parses the stored value.\<close>

definition meta_entry_type :: "manifest_meta \<Rightarrow> entry_type option res" where
  "meta_entry_type m = (case mm_entry_type m of None \<Rightarrow> Inr None
     | Some v \<Rightarrow> rbind (entry_type_of_value v) (\<lambda>t. Inr (Some t)))"

record manifest_author =
  ma_name :: "string option"
  ma_version :: "string option"

record manifest_entry =
  me_url :: "string option"
  me_uri :: "string option"
  me_meta :: "manifest_meta option"
  me_mandatory :: "bool option"
  me_id :: "string option"

definition manifest_entry_of ::
    "string option \<Rightarrow> manifest_meta option \<Rightarrow> bool option \<Rightarrow> string option \<Rightarrow> string option \<Rightarrow> manifest_entry res" where
  "manifest_entry_of url meta mandatory uri uuid =
     (if \<not> (truthy uri \<or> truthy url) then Inl ValueError
      else if truthy uri \<and> truthy url \<and> uri \<noteq> url then Inl ValueError
      else Inr \<lparr>me_url = (if truthy url then url else None),
                me_uri = (if truthy url then None else uri),
                me_meta = meta, me_mandatory = mandatory, me_id = uuid\<rparr>)"

text \<open>Python's \<open>or\<close> on optional strings, and the properties \<^verbatim>\<open>url\<close>, \<^verbatim>\<open>uri\<close> and \<^verbatim>\<open>mandatory\<close>.\<close>

definition str_or :: "string option \<Rightarrow> string option \<Rightarrow> string option" where
  "str_or a b = (if truthy a then a else b)"

definition entry_uri :: "manifest_entry \<Rightarrow> string option" where
  "entry_uri e = str_or (me_uri e) (me_url e)"

definition entry_url :: "manifest_entry \<Rightarrow> string option" where
  "entry_url e = str_or (me_url e) (me_uri e)"

definition entry_mandatory :: "manifest_entry \<Rightarrow> bool res" where
  "entry_mandatory e = of_option KeyError (me_mandatory e)"

subsection \<open>Manifests\<close>

record manifest =
  mn_id :: string
  mn_meta :: "manifest_meta option"
  mn_entries :: "manifest_entry list option"
  mn_author :: "manifest_author option"

text \<open>A fresh identifier is a parameter.\<close>

definition build_manifest ::
    "string \<Rightarrow> manifest_meta option \<Rightarrow> manifest_entry list option \<Rightarrow> manifest_author option \<Rightarrow> string option \<Rightarrow> manifest" where
  "build_manifest fresh meta entries author uuid =
     \<lparr>mn_id = (if truthy uuid then the uuid else fresh), mn_meta = meta, mn_entries = entries, mn_author = author\<rparr>"

text \<open>
  The variables that the loop over the entries assigns. An entry with another content type or
  encoding first resets the common one to \<^verbatim>\<open>None\<close>; the comparisons after it are those of the code.
\<close>

record manifest_totals =
  tot_content_type :: "string option"
  tot_content_encoding :: "string option"
  tot_record_count :: int
  tot_content_length :: int
  tot_source_content_length :: int

definition or_zero :: "int option \<Rightarrow> int" where
  "or_zero n = (case n of None \<Rightarrow> 0 | Some i \<Rightarrow> i)"

definition add_entry ::
    "entry_type option \<Rightarrow> pyval \<Rightarrow> pyval \<Rightarrow> pyval \<Rightarrow> manifest_meta \<Rightarrow> manifest_totals \<Rightarrow> manifest_totals res" where
  "add_entry entry_type entry_params credentials content_type_params meta a =
     (let content_type = (if mm_content_type meta \<noteq> tot_content_type a then None else tot_content_type a);
          content_encoding = (if mm_content_encoding meta \<noteq> tot_content_encoding a then None
                              else tot_content_encoding a)
      in if truthy content_type \<and> mm_content_type meta \<noteq> content_type then Inl ValueError
         else if truthy content_encoding \<and> mm_content_encoding meta \<noteq> content_encoding then Inl ValueError
         else rbind (meta_entry_type meta) (\<lambda>actual_entry_type.
           if entry_type \<noteq> None \<and> actual_entry_type \<noteq> entry_type then Inl ValueError
           else if py_truthy entry_params \<and> \<not> py_eq (mm_entry_params meta) entry_params then Inl ValueError
           else if py_truthy credentials \<and> \<not> py_eq (mm_credentials meta) credentials then Inl ValueError
           else if py_truthy content_type_params \<and>
                   \<not> py_eq (mm_content_type_parameters meta) content_type_params then Inl ValueError
           else Inr \<lparr>tot_content_type = content_type, tot_content_encoding = content_encoding,
                     tot_record_count = tot_record_count a + or_zero (mm_record_count meta),
                     tot_content_length = tot_content_length a + or_zero (mm_content_length meta),
                     tot_source_content_length =
                       tot_source_content_length a + or_zero (mm_source_content_length meta)\<rparr>))"

fun add_entries ::
    "entry_type option \<Rightarrow> pyval \<Rightarrow> pyval \<Rightarrow> pyval \<Rightarrow> manifest_meta list \<Rightarrow> manifest_totals \<Rightarrow> manifest_totals res" where
  "add_entries t ps cs ctps [] a = Inr a"
| "add_entries t ps cs ctps (m # ms) a = rbind (add_entry t ps cs ctps m a) (add_entries t ps cs ctps ms)"

definition latest_schema_id :: "manifest_meta list \<Rightarrow> int option" where
  "latest_schema_id ms =
     (let ids = map (\<lambda>m. case mm_schema_id m of None \<Rightarrow> -1 | Some i \<Rightarrow> i) ms;
          max_schema_id = (if ids \<noteq> [] then Max (set ids) else -1)
      in if 0 \<le> max_schema_id then Some max_schema_id else None)"

definition common_sort_scheme_id :: "manifest_meta list \<Rightarrow> string option" where
  "common_sort_scheme_id ms = (case remdups (List.map_filter mm_sort_scheme_id ms) of [i] \<Rightarrow> Some i | _ \<Rightarrow> None)"

text \<open>The metadata of the entries; an entry without them is Python's \<^verbatim>\<open>AttributeError\<close>.\<close>

definition entry_metas :: "manifest_entry list \<Rightarrow> manifest_meta list res" where
  "entry_metas es = res_map (\<lambda>e. of_option AttributeError (me_meta e)) es"

definition manifest_of ::
    "string \<Rightarrow> manifest_entry list option \<Rightarrow> manifest_author option \<Rightarrow> string option \<Rightarrow>
     entry_type option \<Rightarrow> pyval \<Rightarrow> manifest res" where
  "manifest_of fresh entries author uuid entry_type entry_params =
     (let uuid = (if truthy uuid then uuid else Some fresh)
      in rbind (entry_metas (case entries of None \<Rightarrow> [] | Some es \<Rightarrow> es)) (\<lambda>ms.
           case ms of
             [] \<Rightarrow> Inr (build_manifest fresh
                     (Some (manifest_meta_of (Some 0) (Some 0) None None (Some 0) PNone PNone entry_type entry_params None None))
                     entries author uuid)
           | m # _ \<Rightarrow>
               rbind (add_entries entry_type entry_params (mm_credentials m) (mm_content_type_parameters m) ms
                        \<lparr>tot_content_type = mm_content_type m, tot_content_encoding = mm_content_encoding m,
                         tot_record_count = 0, tot_content_length = 0, tot_source_content_length = 0\<rparr>) (\<lambda>a.
                 Inr (build_manifest fresh
                   (Some (manifest_meta_of (Some (tot_record_count a)) (Some (tot_content_length a))
                      (tot_content_type a) (tot_content_encoding a) (Some (tot_source_content_length a))
                      (mm_credentials m) (mm_content_type_parameters m) entry_type entry_params
                      (latest_schema_id ms) (common_sort_scheme_id ms)))
                   entries author uuid))))"

definition merge_manifests :: "string \<Rightarrow> manifest list \<Rightarrow> manifest_author option \<Rightarrow> manifest res" where
  "merge_manifests fresh manifests author =
     rbind (res_map (\<lambda>m. of_option TypeError (mn_entries m)) manifests) (\<lambda>ess.
       manifest_of fresh (Some (concat ess)) author None None PNone)"

subsection \<open>What a manifest says of its entries\<close>

text \<open>The loop in closed form: the entries it accepts, and the totals it computes.\<close>

definition entry_fits :: "entry_type option \<Rightarrow> pyval \<Rightarrow> pyval \<Rightarrow> pyval \<Rightarrow> manifest_meta \<Rightarrow> bool" where
  "entry_fits t ps cs ctps m \<longleftrightarrow>
     (case meta_entry_type m of Inl e \<Rightarrow> False | Inr t' \<Rightarrow> t = None \<or> t' = t) \<and>
     (py_truthy ps \<longrightarrow> py_eq (mm_entry_params m) ps) \<and>
     (py_truthy cs \<longrightarrow> py_eq (mm_credentials m) cs) \<and>
     (py_truthy ctps \<longrightarrow> py_eq (mm_content_type_parameters m) ctps)"

definition common :: "'a option \<Rightarrow> 'a option list \<Rightarrow> 'a option" where
  "common c cs = (if \<forall>c' \<in> set cs. c' = c then c else None)"

lemma common_Nil [simp]: "common c [] = c"
  by (simp add: common_def)

lemma meta_entry_type_error: "meta_entry_type m = Inl e \<Longrightarrow> e = ValueError"
  by (auto simp: meta_entry_type_def entry_type_of_value_def of_option_def split: option.splits)

lemma add_entry_closed:
  "add_entry t ps cs ctps m a =
     (if entry_fits t ps cs ctps m
      then Inr \<lparr>tot_content_type = common (tot_content_type a) [mm_content_type m],
                tot_content_encoding = common (tot_content_encoding a) [mm_content_encoding m],
                tot_record_count = tot_record_count a + or_zero (mm_record_count m),
                tot_content_length = tot_content_length a + or_zero (mm_content_length m),
                tot_source_content_length = tot_source_content_length a + or_zero (mm_source_content_length m)\<rparr>
      else Inl ValueError)"
proof (cases "meta_entry_type m")
  case (Inl e)
  then show ?thesis using meta_entry_type_error [OF Inl]
    by (simp add: add_entry_def entry_fits_def truthy_def)
next
  case (Inr t')
  then show ?thesis by (simp add: add_entry_def entry_fits_def truthy_def common_def)
qed

lemma add_entries_closed:
  "add_entries t ps cs ctps ms a =
     (if list_all (entry_fits t ps cs ctps) ms
      then Inr \<lparr>tot_content_type = common (tot_content_type a) (map mm_content_type ms),
                tot_content_encoding = common (tot_content_encoding a) (map mm_content_encoding ms),
                tot_record_count = tot_record_count a + sum_list (map (\<lambda>m. or_zero (mm_record_count m)) ms),
                tot_content_length = tot_content_length a + sum_list (map (\<lambda>m. or_zero (mm_content_length m)) ms),
                tot_source_content_length =
                  tot_source_content_length a + sum_list (map (\<lambda>m. or_zero (mm_source_content_length m)) ms)\<rparr>
      else Inl ValueError)"
proof (induction ms arbitrary: a)
  case (Cons m ms)
  have "common (common c [c']) cs = common c (c' # cs)" for c c' :: "string option" and cs
    by (auto simp: common_def)
  then show ?case by (simp add: add_entry_closed Cons.IH)
qed simp

lemma entry_metas_Inr: "entry_metas es = Inr ms \<longleftrightarrow> map me_meta es = map Some ms"
  unfolding entry_metas_def
  by (induction es arbitrary: ms) (auto simp: of_option_def rbind_Inr_iff split: option.splits)

lemma entry_metas_Inl: "entry_metas es = Inl e \<longleftrightarrow> e = AttributeError \<and> (\<exists>x \<in> set es. me_meta x = None)"
proof (induction es)
  case (Cons x es)
  then show ?case by (cases "me_meta x") (auto simp: entry_metas_def rbind_Inl_iff)
qed (simp add: entry_metas_def)

text \<open>The manifest that \<^verbatim>\<open>Manifest.of\<close> builds keeps its entries and has metadata.\<close>

lemma manifest_of_parts:
  assumes "manifest_of fresh entries author uuid t ps = Inr m"
  obtains ms where "map me_meta (case entries of None \<Rightarrow> [] | Some es \<Rightarrow> es) = map Some ms"
    "mn_entries m = entries" "mn_author m = author"
    "map_option mm_record_count (mn_meta m) = Some (Some (sum_list (map (\<lambda>m. or_zero (mm_record_count m)) ms)))"
proof -
  obtain ms where ms: "entry_metas (case entries of None \<Rightarrow> [] | Some es \<Rightarrow> es) = Inr ms"
    using assms by (cases "entry_metas (case entries of None \<Rightarrow> [] | Some es \<Rightarrow> es)") (auto simp: manifest_of_def Let_def)
  have "mn_entries m = entries \<and> mn_author m = author \<and>
    map_option mm_record_count (mn_meta m) = Some (Some (sum_list (map (\<lambda>m. or_zero (mm_record_count m)) ms)))"
    using assms ms
    by (cases ms) (auto simp: manifest_of_def Let_def build_manifest_def manifest_meta_of_def add_entries_closed
        split: if_splits)
  with ms that show thesis by (auto simp: entry_metas_Inr)
qed

lemma merge_manifests_entries:
  assumes "merge_manifests fresh ms author = Inr m"
  obtains ess where "res_map (\<lambda>m. of_option TypeError (mn_entries m)) ms = Inr ess" "mn_entries m = Some (concat ess)"
proof -
  obtain ess where ess: "res_map (\<lambda>m. of_option TypeError (mn_entries m)) ms = Inr ess"
    "manifest_of fresh (Some (concat ess)) author None None PNone = Inr m"
    using assms by (auto simp: merge_manifests_def rbind_Inr_iff)
  from ess(2) have "mn_entries m = Some (concat ess)" by (rule manifest_of_parts) simp
  with ess(1) show thesis by (rule that)
qed

lemma res_map_append: "res_map f (xs @ ys) = rbind (res_map f xs) (\<lambda>us. rbind (res_map f ys) (\<lambda>vs. Inr (us @ vs)))"
proof (induction xs)
  case Nil
  then show ?case by (cases "res_map f ys") simp_all
qed (simp add: rbind_assoc cong: rbind_cong)

lemma merged_entries:
  assumes "list_all2 (\<lambda>xs m. \<exists>fresh author. merge_manifests fresh xs author = Inr m) xss ms"
  shows "\<exists>ess ess'. res_map (\<lambda>m. of_option TypeError (mn_entries m)) ms = Inr ess \<and>
    res_map (\<lambda>m. of_option TypeError (mn_entries m)) (concat xss) = Inr ess' \<and> concat ess = concat ess'"
  using assms
proof (induction xss ms rule: list_all2_induct)
  case (Cons xs xss m ms)
  then obtain fresh author where "merge_manifests fresh xs author = Inr m" by blast
  then obtain es where "res_map (\<lambda>m. of_option TypeError (mn_entries m)) xs = Inr es" "mn_entries m = Some (concat es)"
    by (rule merge_manifests_entries)
  with Cons.IH show ?case by (auto simp: res_map_append)
qed simp

text \<open>A manifest built by \<^verbatim>\<open>Manifest.of\<close>, and the record count in its metadata.\<close>

definition built_manifest :: "manifest \<Rightarrow> bool" where
  "built_manifest m \<longleftrightarrow> (\<exists>fresh entries author uuid t ps. manifest_of fresh entries author uuid t ps = Inr m)"

definition manifest_records :: "manifest \<Rightarrow> int option" where
  "manifest_records m = Option.bind (mn_meta m) mm_record_count"

definition entry_records :: "manifest_entry \<Rightarrow> int" where
  "entry_records e = (case me_meta e of None \<Rightarrow> 0 | Some m \<Rightarrow> or_zero (mm_record_count m))"

lemma sum_entry_records:
  "map me_meta es = map Some ms \<Longrightarrow> sum_list (map (\<lambda>m. or_zero (mm_record_count m)) ms) = sum_list (map entry_records es)"
proof (induction es arbitrary: ms)
  case (Cons e es)
  then show ?case by (cases ms) (auto simp: entry_records_def)
qed simp

lemma built_records:
  assumes "built_manifest m"
  shows "manifest_records m = Some (sum_list (map entry_records (case mn_entries m of None \<Rightarrow> [] | Some es \<Rightarrow> es)))"
proof -
  obtain fresh entries author uuid t ps where "manifest_of fresh entries author uuid t ps = Inr m"
    using assms by (auto simp: built_manifest_def)
  then obtain ms where "map me_meta (case entries of None \<Rightarrow> [] | Some es \<Rightarrow> es) = map Some ms"
    "mn_entries m = entries"
    "map_option mm_record_count (mn_meta m) = Some (Some (sum_list (map (\<lambda>m. or_zero (mm_record_count m)) ms)))"
    by (rule manifest_of_parts)
  then show ?thesis using sum_entry_records by (auto simp: manifest_records_def)
qed

lemma merged_records:
  assumes "merge_manifests fresh ms author = Inr m" "\<forall>m' \<in> set ms. built_manifest m'"
  shows "built_manifest m \<and> manifest_records m = Some (sum_list (map (\<lambda>m'. the (manifest_records m')) ms))"
proof -
  obtain ess where ess: "res_map (\<lambda>m. of_option TypeError (mn_entries m)) ms = Inr ess" "mn_entries m = Some (concat ess)"
    using assms(1) by (rule merge_manifests_entries)
  have b: "built_manifest m" using assms(1) unfolding built_manifest_def merge_manifests_def rbind_Inr_iff by blast
  have "sum_list (map entry_records (concat ess)) = sum_list (map (\<lambda>m'. the (manifest_records m')) ms)"
    using ess(1) assms(2)
  proof (induction ms arbitrary: ess)
    case (Cons m' ms)
    then obtain es ess' where *: "mn_entries m' = Some es" "res_map (\<lambda>m. of_option TypeError (mn_entries m)) ms = Inr ess'"
      "ess = es # ess'" by (auto simp: rbind_Inr_iff of_option_Inr_iff)
    with Cons built_records [of m'] show ?case by simp
  qed simp
  with built_records [OF b] ess(2) b show ?thesis by simp
qed

subsection \<open>Media types\<close>

datatype content_type = AVRO | BINARY | CSV | JSON | FEATHER | ORC | PARQUET | PSV | TSV | UNESCAPED_TSV

fun content_type_value :: "content_type \<Rightarrow> string" where
  "content_type_value AVRO = ''application/avro''"
| "content_type_value BINARY = ''application/octet-stream''"
| "content_type_value CSV = ''text/csv''"
| "content_type_value JSON = ''application/json''"
| "content_type_value FEATHER = ''application/feather''"
| "content_type_value ORC = ''application/orc''"
| "content_type_value PARQUET = ''application/parquet''"
| "content_type_value PSV = ''text/psv''"
| "content_type_value TSV = ''text/tsv''"
| "content_type_value UNESCAPED_TSV = ''application/x-amzn-unescaped-tsv''"

datatype content_encoding = GZIP | DEFLATE | IDENTITY | ZSTD | BZIP2 | SNAPPY

fun content_encoding_value :: "content_encoding \<Rightarrow> string" where
  "content_encoding_value GZIP = ''gzip''"
| "content_encoding_value DEFLATE = ''deflate''"
| "content_encoding_value IDENTITY = ''identity''"
| "content_encoding_value ZSTD = ''zstd''"
| "content_encoding_value BZIP2 = ''bzip2''"
| "content_encoding_value SNAPPY = ''snappy''"

definition EXT_TO_CONTENT_TYPE :: "(string \<times> content_type) list" where
  "EXT_TO_CONTENT_TYPE =
     [(''.parquet'', PARQUET), (''.csv'', CSV), (''.tsv'', TSV), (''.psv'', PSV), (''.json'', JSON),
      (''.feather'', FEATHER), (''.avro'', AVRO), (''.orc'', ORC)]"

definition EXT_TO_CONTENT_ENCODING :: "(string \<times> content_encoding) list" where
  "EXT_TO_CONTENT_ENCODING =
     [(''.gz'', GZIP), (''.bz2'', BZIP2), (''.zst'', ZSTD), (''.sz'', SNAPPY), (''.zz'', DEFLATE), (''.zip'', DEFLATE)]"

text \<open>\<^verbatim>\<open>{v: k for k, v in d.items()}\<close>: of two keys with the same value the later one stays.\<close>

definition dict_invert :: "('k \<times> 'v) list \<Rightarrow> ('v \<times> 'k) list" where
  "dict_invert d = fold (\<lambda>(k, v). dict_set v k) d []"

definition CONTENT_TYPE_TO_EXT :: "(content_type \<times> string) list" where
  "CONTENT_TYPE_TO_EXT = dict_invert EXT_TO_CONTENT_TYPE"

definition CONTENT_ENCODING_TO_EXT :: "(content_encoding \<times> string) list" where
  "CONTENT_ENCODING_TO_EXT = dict_invert EXT_TO_CONTENT_ENCODING"

text \<open>The file name of a written block: a fresh identifier and the known extensions.\<close>

definition known_ext :: "('a \<times> string) list \<Rightarrow> 'a option \<Rightarrow> string" where
  "known_ext exts x = (case x of None \<Rightarrow> [] | Some y \<Rightarrow> (case map_of exts y of None \<Rightarrow> [] | Some e \<Rightarrow> e))"

definition write_filename :: "string \<Rightarrow> content_type option \<Rightarrow> content_encoding option \<Rightarrow> string" where
  "write_filename fresh content_type content_encoding =
     fresh @ known_ext CONTENT_TYPE_TO_EXT content_type @ known_ext CONTENT_ENCODING_TO_EXT content_encoding"

text \<open>The content type and encoding that \<^verbatim>\<open>ManifestEntry.from_path\<close> derives from a path.\<close>

definition derived_media :: "string \<Rightarrow> content_type \<times> content_encoding" where
  "derived_media path =
     (let (base_path, ext1) = splitext path
      in if ext1 = [] then (BINARY, IDENTITY)
         else let enc = (case map_of EXT_TO_CONTENT_ENCODING ext1 of None \<Rightarrow> IDENTITY | Some e \<Rightarrow> e);
                  known = (\<lambda>ext. case map_of EXT_TO_CONTENT_TYPE ext of None \<Rightarrow> BINARY | Some t \<Rightarrow> t)
              in (if enc \<noteq> IDENTITY
                  then let ext2 = snd (splitext base_path) in if ext2 \<noteq> [] then known ext2 else BINARY
                  else known ext1,
                  enc))"

definition manifest_entry_from_path ::
    "('fs, 'd) filesystem \<Rightarrow> 'fs \<Rightarrow> string \<Rightarrow> int \<Rightarrow> int option \<Rightarrow> string option \<Rightarrow> string option \<Rightarrow> pyval \<Rightarrow> pyval \<Rightarrow>
     entry_type option \<Rightarrow> pyval \<Rightarrow> int option \<Rightarrow> string option \<Rightarrow> string option \<Rightarrow> manifest_entry res" where
  "manifest_entry_from_path F fs path record_count source_content_length content_type content_encoding
     credentials content_type_parameters entry_type entry_params schema_id sort_scheme_id catalog_root =
     rbind (get_file_info F fs path False) (\<lambda>file_info.
     if fi_type file_info \<noteq> File then Inl FileNotFoundError
     else rbind (if truthy catalog_root then absolute_path_to_relative (the catalog_root) path else Inr path) (\<lambda>path.
       let (derived_content_type, derived_content_encoding) = derived_media path;
           final_content_type = (case content_type of None \<Rightarrow> content_type_value derived_content_type | Some t \<Rightarrow> t);
           final_content_encoding =
             (case content_encoding of None \<Rightarrow> content_encoding_value derived_content_encoding | Some e \<Rightarrow> e)
       in manifest_entry_of (Some path)
            (Some (manifest_meta_of (Some record_count) (map_option int (fi_size file_info)) (Some final_content_type)
               (Some final_content_encoding) source_content_length credentials content_type_parameters
               entry_type entry_params schema_id sort_scheme_id))
            (Some True) None None))"

subsection \<open>URLs of the entries\<close>

text \<open>
  \<^verbatim>\<open>group_manifest_urls_by_content_type\<close>: a dictionary of lists in the order of the entries. An entry
  without metadata is an \<^verbatim>\<open>AttributeError\<close>; a URL is always there in an entry that was built.
\<close>

definition dict_list :: "('k \<times> 'v list) list \<Rightarrow> 'k \<Rightarrow> 'v list" where
  "dict_list d k = (case map_of d k of None \<Rightarrow> [] | Some vs \<Rightarrow> vs)"

definition append_url ::
    "string option \<Rightarrow> manifest_entry \<Rightarrow> ((string option \<times> string option) \<times> string list) list \<Rightarrow>
     ((string option \<times> string option) \<times> string list) list res" where
  "append_url original_root e d =
     rbind (of_option AttributeError (me_meta e)) (\<lambda>meta.
     rbind (of_option TypeError (entry_url e)) (\<lambda>url.
       let key = (mm_content_type meta, mm_content_encoding meta)
       in Inr (dict_set key (dict_list d key @ [reconstruct_full_path original_root url]) d)))"

fun append_urls ::
    "string option \<Rightarrow> manifest_entry list \<Rightarrow> ((string option \<times> string option) \<times> string list) list \<Rightarrow>
     ((string option \<times> string option) \<times> string list) list res" where
  "append_urls original_root [] d = Inr d"
| "append_urls original_root (e # es) d = rbind (append_url original_root e d) (append_urls original_root es)"

definition group_manifest_urls_by_content_type ::
    "string option \<Rightarrow> manifest \<Rightarrow> ((string option \<times> string option) \<times> string list) list res" where
  "group_manifest_urls_by_content_type original_root manifest =
     append_urls original_root (case mn_entries manifest of None \<Rightarrow> [] | Some es \<Rightarrow> es) []"

interpretation url_groups: res_loop "append_url r" "append_urls r" for r
  by unfold_locales simp_all

text \<open>
  \<^verbatim>\<open>reconstruct_manifest_entry_url\<close> builds the copy with the constructor of \<^verbatim>\<open>dict\<close>, which sets only the
  two given keys.
\<close>

definition reconstruct_manifest_entry_url :: "string option \<Rightarrow> manifest_entry \<Rightarrow> manifest_entry res" where
  "reconstruct_manifest_entry_url original_root e =
     rbind (of_option TypeError (entry_url e)) (\<lambda>original_url.
       let reconstructed_url = reconstruct_full_path original_root original_url
       in Inr (if original_url \<noteq> reconstructed_url
               then \<lparr>me_url = Some reconstructed_url, me_uri = None, me_meta = me_meta e, me_mandatory = None, me_id = None\<rparr>
               else e))"

subsection \<open>Recovering media types from file names\<close>

lemma splitext_join_no_dot:
  assumes "dir_path d" "component n" "dot \<notin> set n"
  shows "splitext (path_join d n) = (path_join d n, [])"
  using assms by (simp add: splitext_def basename_path_join)

lemmas media_tables = CONTENT_TYPE_TO_EXT_def CONTENT_ENCODING_TO_EXT_def EXT_TO_CONTENT_TYPE_def
  EXT_TO_CONTENT_ENCODING_def dict_invert_def

definition ext_body :: "string \<Rightarrow> bool" where
  "ext_body x \<longleftrightarrow> slash \<notin> set x \<and> dot \<notin> set x"

lemma type_ext_cases:
  obtains (unknown) "known_ext CONTENT_TYPE_TO_EXT t = []" "t \<in> {None, Some BINARY, Some UNESCAPED_TSV}"
  | (known) t' x where "t = Some t'" "t' \<noteq> BINARY" "t' \<noteq> UNESCAPED_TSV" "known_ext CONTENT_TYPE_TO_EXT t = dot # x" "ext_body x"
      "map_of EXT_TO_CONTENT_TYPE (dot # x) = Some t'" "map_of EXT_TO_CONTENT_ENCODING (dot # x) = None"
proof (cases t)
  case (Some t')
  with that show thesis by (cases t') (auto simp: media_tables ext_body_def known_ext_def)
qed (use that in \<open>auto simp: known_ext_def\<close>)

lemma encoding_ext_cases:
  obtains (unknown) "known_ext CONTENT_ENCODING_TO_EXT c = []" "c \<in> {None, Some IDENTITY}"
  | (known) c' x where "c = Some c'" "c' \<noteq> IDENTITY" "known_ext CONTENT_ENCODING_TO_EXT c = dot # x" "ext_body x"
      "map_of EXT_TO_CONTENT_ENCODING (dot # x) = Some c'"
proof (cases c)
  case (Some c')
  with that show thesis by (cases c') (auto simp: media_tables ext_body_def known_ext_def)
qed (use that in \<open>auto simp: known_ext_def\<close>)

lemma splitext_written:
  assumes "dir_path d" "component n" "ext_body x" "\<exists>c \<in> set n. c \<noteq> dot"
  shows "splitext (path_join d (n @ dot # x)) = (path_join d n, dot # x)"
proof -
  have "splitext (path_join d (n @ dot # x)) = (d @ slash # n, dot # x)"
    using assms by (intro splitext_path_join) (auto simp: ext_body_def component_def)
  then show ?thesis using assms(1,2) by (simp add: path_join_component)
qed

text \<open>The content type that is recovered, which is not the written one when it has no extension.\<close>

definition recoverable :: "content_type option \<Rightarrow> content_type" where
  "recoverable t = (case t of None \<Rightarrow> BINARY | Some t' \<Rightarrow> if t' = UNESCAPED_TSV then BINARY else t')"

lemma derived_media_written:
  assumes d: "dir_path d" and n: "component n" "dot \<notin> set n"
  shows "derived_media (path_join d (write_filename n t c)) = (recoverable t, case c of None \<Rightarrow> IDENTITY | Some c' \<Rightarrow> c')"
proof -
  have some: "\<exists>c \<in> set n. c \<noteq> dot" using n by (cases n) (auto simp: component_def)
  note splits = splitext_written [OF d n(1) _ some]
  define m where "m = n @ known_ext CONTENT_TYPE_TO_EXT t"
  have m: "component m" "\<exists>c \<in> set m. c \<noteq> dot"
    by (cases t rule: type_ext_cases; use n some in \<open>force simp: m_def component_def ext_body_def\<close>)+
  have ext: "splitext (path_join d m) = (path_join d n, known_ext CONTENT_TYPE_TO_EXT t)"
    by (cases t rule: type_ext_cases) (simp_all add: m_def splitext_join_no_dot [OF d n] splits)
  show ?thesis
  proof (cases c rule: encoding_ext_cases)
    case unknown
    then have "write_filename n t c = m" by (simp add: write_filename_def m_def)
    then show ?thesis using ext unknown(2)
      by (cases t rule: type_ext_cases) (auto simp: derived_media_def recoverable_def)
  next
    case (known c' x)
    then have "write_filename n t c = m @ dot # x" by (simp add: write_filename_def m_def)
    then show ?thesis using ext known splitext_written [OF d m(1) known(4) m(2)]
      by (cases t rule: type_ext_cases) (auto simp: derived_media_def recoverable_def)
  qed
qed

subsection \<open>Grouping\<close>

text \<open>The full URLs of the entries with a content type and encoding, in order.\<close>

definition urls_with :: "string option \<Rightarrow> string option \<times> string option \<Rightarrow> manifest_entry list \<Rightarrow> string list" where
  "urls_with r key es = List.map_filter (\<lambda>e. case me_meta e of None \<Rightarrow> None
     | Some m \<Rightarrow> if (mm_content_type m, mm_content_encoding m) = key
                 then map_option (reconstruct_full_path r) (entry_url e) else None) es"

lemma append_urls_groups:
  assumes "append_urls r es d = Inr d'"
  shows "dict_list d' key = dict_list d key @ urls_with r key es"
  using assms
proof (induction es arbitrary: d)
  case (Cons e es)
  then obtain d1 where d1: "append_url r e d = Inr d1" "append_urls r es d1 = Inr d'" by (auto simp: rbind_Inr_iff)
  from d1(1) obtain m url where m: "me_meta e = Some m" "entry_url e = Some url"
    "d1 = dict_set (mm_content_type m, mm_content_encoding m)
       (dict_list d (mm_content_type m, mm_content_encoding m) @ [reconstruct_full_path r url]) d"
    by (auto simp: append_url_def rbind_Inr_iff of_option_Inr_iff Let_def)
  have "dict_list d1 key = dict_list d key @ urls_with r key [e]"
    unfolding m(3) by (simp add: m(1,2) dict_list_def urls_with_def map_filter_simps)
  with Cons.IH [OF d1(2)] show ?case by (simp add: urls_with_def map_filter_simps split: option.splits)
qed (simp add: urls_with_def map_filter_simps)

lemma append_urls_keys:
  assumes "append_urls r es d = Inr d'" "distinct (map fst d)" "\<forall>us \<in> snd ` set d. us \<noteq> []"
  shows "distinct (map fst d') \<and> (\<forall>us \<in> snd ` set d'. us \<noteq> [])"
proof -
  let ?I = "\<lambda>d. distinct (map fst d) \<and> (\<forall>us \<in> snd ` set d. us \<noteq> [])"
  have vals: "snd ` set (dict_set k v d) \<subseteq> insert v (snd ` set d)" for k v and d :: "('a \<times> 'b) list"
    by (induction k v d rule: dict_set.induct) auto
  show ?thesis
    by (rule url_groups.run_invariant [where I = ?I, OF assms(1)])
      (use assms(2,3) vals in \<open>fastforce simp: append_url_def rbind_Inr_iff Let_def\<close>)+
qed

end
