(* ===== verification/Deltas.thy ===== *)
theory Deltas
  imports Manifests
begin

text \<open>
  Deltas and how they are merged (\<^verbatim>\<open>storage/model/delta.py\<close>), over the manifests of \<^verbatim>\<open>Manifests\<close> and the locators
  of \<^verbatim>\<open>Locators\<close>. The digest of a locator is SHA-1 of its canonical string, with SHA-1 a parameter.
\<close>

subsection \<open>Deltas\<close>

datatype delta_type = ADD | APPEND | UPSERT | DELETE

record delta =
  d_locator :: "delta_locator option"
  d_type :: "delta_type option"
  d_meta :: "manifest_meta option"
  d_properties :: pyval
  d_manifest :: "manifest option"
  d_previous_stream_position :: "int option"

definition delta_of ::
    "delta_locator option \<Rightarrow> delta_type option \<Rightarrow> manifest_meta option \<Rightarrow> pyval \<Rightarrow> manifest option \<Rightarrow> int option \<Rightarrow> delta" where
  "delta_of locator delta_type meta properties manifest previous_stream_position =
     \<lparr>d_locator = locator, d_type = delta_type, d_meta = meta, d_properties = properties,
      d_manifest = manifest, d_previous_stream_position = previous_stream_position\<rparr>"

definition delta_partition_locator :: "delta \<Rightarrow> partition_locator option" where
  "delta_partition_locator d = Option.bind (d_locator d) dl_partition_locator"

definition delta_storage_type :: "delta \<Rightarrow> string option" where
  "delta_storage_type d = Option.bind (d_locator d) dl_stream_format"

definition delta_namespace :: "delta \<Rightarrow> string option" where
  "delta_namespace d = Option.bind (d_locator d) dl_namespace"

definition delta_table_name :: "delta \<Rightarrow> string option" where
  "delta_table_name d = Option.bind (d_locator d) dl_table_name"

definition delta_stream_position :: "delta \<Rightarrow> int option" where
  "delta_stream_position d = Option.bind (d_locator d) dl_stream_position"

definition locator_digest :: "(string \<Rightarrow> 'h) \<Rightarrow> any_locator \<Rightarrow> 'h" where
  "locator_digest sha1 l = sha1 (canonical_string l)"

subsection \<open>Merging\<close>

text \<open>
  A manifest is a non-empty dictionary, so only a missing one is refused. Unordered and ordered
  additions merge to an unordered one.
\<close>

definition merged_types :: "delta list \<Rightarrow> delta_type option list" where
  "merged_types ds =
     (let ts = remdups (map d_type ds)
      in if set ts = {Some ADD, Some APPEND} then [Some ADD] else ts)"

definition merged_previous_position :: "delta list \<Rightarrow> int option" where
  "merged_previous_position ds =
     (let ps = map d_previous_stream_position ds
      in if None \<in> set ps then None else Some (Max (set (map the ps))))"

definition merge_deltas ::
    "(string \<Rightarrow> 'h) \<Rightarrow> string \<Rightarrow> delta list \<Rightarrow> manifest_author option \<Rightarrow> int option \<Rightarrow> pyval \<Rightarrow> delta res" where
  "merge_deltas sha1 fresh deltas manifest_author stream_position properties =
     (if deltas = [] then Inl ValueError
      else if \<exists>d \<in> set deltas. d_manifest d = None then Inl ValueError
      else if length (remdups (map delta_storage_type deltas)) > 1 then Inl NotImplementedError
      else rbind (res_map (\<lambda>d. of_option AttributeError (delta_partition_locator d)) deltas) (\<lambda>pls.
        if length (remdups (map (\<lambda>l. locator_digest sha1 (PartitionLoc l)) pls)) > 1 then Inl ValueError
        else if length (merged_types deltas) > 1 then Inl ValueError
        else rbind (merge_manifests fresh (map (\<lambda>d. the (d_manifest d)) deltas) manifest_author) (\<lambda>merged_manifest.
          Inr (delta_of (Some (delta_locator_of (delta_partition_locator (hd deltas)) stream_position))
                 (hd (merged_types deltas)) (mn_meta merged_manifest) properties (Some merged_manifest)
                 (merged_previous_position deltas)))))"

subsection \<open>What a merged delta says\<close>

lemma remdups_single: "length (remdups xs) \<le> 1 \<longleftrightarrow> (\<forall>x \<in> set xs. \<forall>y \<in> set xs. x = y)"
proof -
  have "length (remdups xs) = card (set xs)" by (simp add: length_remdups_card_conv)
  then show ?thesis by (simp add: card_le_Suc0_iff_eq del: length_remdups_card_conv)
qed

lemma merged_types_result:
  assumes "ds \<noteq> []" "length (merged_types ds) \<le> 1"
  shows "(\<forall>d \<in> set ds. d_type d = hd (merged_types ds)) \<or>
    hd (merged_types ds) = Some ADD \<and> d_type ` set ds = {Some ADD, Some APPEND}"
proof (cases "set (remdups (map d_type ds)) = {Some ADD, Some APPEND}")
  case False
  then have m: "merged_types ds = remdups (map d_type ds)" by (simp add: merged_types_def Let_def)
  then have "hd (merged_types ds) \<in> set (map d_type ds)" using assms(1) by (metis hd_in_set map_is_Nil_conv remdups_eq_nil_iff set_remdups)
  moreover have "\<forall>t \<in> set (map d_type ds). \<forall>t' \<in> set (map d_type ds). t = t'"
    using assms(2) unfolding m by (simp only: remdups_single)
  ultimately show ?thesis by (auto simp only: set_map)
qed (simp add: merged_types_def Let_def)

lemma merge_deltas_parts:
  assumes "merge_deltas sha1 fresh ds author position properties = Inr d"
  obtains m where "ds \<noteq> []" "\<forall>d \<in> set ds. d_manifest d \<noteq> None" "length (merged_types ds) \<le> 1"
    "merge_manifests fresh (map (\<lambda>d. the (d_manifest d)) ds) author = Inr m"
    "d = delta_of (Some (delta_locator_of (delta_partition_locator (hd ds)) position)) (hd (merged_types ds))
       (mn_meta m) properties (Some m) (merged_previous_position ds)"
  using assms by (auto simp: merge_deltas_def rbind_Inr_iff not_less split: if_splits)

lemma merged_entries_concat:
  assumes "merge_manifests fresh ms author = Inr m"
  shows "mn_entries m = Some (concat (map (\<lambda>m'. the (mn_entries m')) ms))"
proof -
  obtain ess where ess: "res_map (\<lambda>m. of_option TypeError (mn_entries m)) ms = Inr ess" "mn_entries m = Some (concat ess)"
    using assms by (rule merge_manifests_entries)
  from ess(1) have "ess = map (\<lambda>m'. the (mn_entries m')) ms"
    by (induction ms arbitrary: ess) (auto simp: rbind_Inr_iff of_option_Inr_iff)
  with ess(2) show ?thesis by simp
qed

text \<open>The largest previous position, where all are known.\<close>

lemma merged_previous_position_None:
  "merged_previous_position ds = None \<longleftrightarrow> None \<in> d_previous_stream_position ` set ds"
  by (simp add: merged_previous_position_def Let_def)

lemma merged_previous_position_Some:
  assumes "merged_previous_position ds = Some p" "ds \<noteq> []"
  shows "Some p \<in> d_previous_stream_position ` set ds \<and> (\<forall>d \<in> set ds. the (d_previous_stream_position d) \<le> p)"
proof -
  let ?ps = "(\<lambda>d. the (d_previous_stream_position d)) ` set ds"
  have n: "None \<notin> d_previous_stream_position ` set ds" and p: "p = Max ?ps"
    using assms(1) by (auto simp: merged_previous_position_def Let_def image_image split: if_splits)
  have "p \<in> ?ps" unfolding p using assms(2) by (intro Max_in) auto
  then obtain d where d: "d \<in> set ds" "p = the (d_previous_stream_position d)" by auto
  then have "d_previous_stream_position d = Some p" using n by (cases "d_previous_stream_position d") force+
  with d show ?thesis unfolding p by (metis List.finite_set Max_ge finite_imageI imageI)
qed

end
