(* ===== verification/ListResults.thy ===== *)
theory ListResults
  imports Locators
begin

text \<open>
  Paged results (\<^verbatim>\<open>storage/model/list_result.py\<close>). A next-page provider is a function of the caller, here a
  value of a type \<open>'p\<close> with the parameter \<open>call\<close> that applies it to a pagination key. A list result is a
  dictionary with three keys, so it is never empty and the loop over pages ends only at \<^verbatim>\<open>None\<close>.
\<close>

record ('a, 'p) list_result =
  lr_items :: "'a list option"
  lr_pagination_key :: "string option"
  lr_next_page_provider :: "'p option"

definition list_result_empty :: "('a, 'p) list_result" where
  "list_result_empty = \<lparr>lr_items = Some [], lr_pagination_key = None, lr_next_page_provider = None\<rparr>"

definition next_page ::
    "('p \<Rightarrow> string \<Rightarrow> ('a, 'p) list_result res) \<Rightarrow> ('a, 'p) list_result \<Rightarrow> ('a, 'p) list_result option res" where
  "next_page call l =
     (if truthy (lr_pagination_key l)
      then (case lr_next_page_provider l of
              None \<Rightarrow> Inl ValueError
            | Some provider \<Rightarrow> rbind (call provider (the (lr_pagination_key l))) (\<lambda>next_list_result.
                Inr (Some (if lr_next_page_provider next_list_result = None
                           then next_list_result\<lparr>lr_next_page_provider := Some provider\<rparr> else next_list_result))))
      else Inr None)"

text \<open>The loop of \<^verbatim>\<open>all_items\<close>, which may turn pages for ever; extending a list by \<^verbatim>\<open>None\<close> is a \<^verbatim>\<open>TypeError\<close>.\<close>

partial_function (option) all_items_from ::
    "('p \<Rightarrow> string \<Rightarrow> ('a, 'p) list_result res) \<Rightarrow> 'a list \<Rightarrow> ('a, 'p) list_result \<Rightarrow> 'a list res option" where
  "all_items_from call items l =
     (case lr_items l of
        None \<Rightarrow> Some (Inl TypeError)
      | Some page \<Rightarrow>
          (case next_page call l of
             Inl e \<Rightarrow> Some (Inl e)
           | Inr None \<Rightarrow> Some (Inr (items @ page))
           | Inr (Some l') \<Rightarrow> all_items_from call (items @ page) l'))"

declare all_items_from.simps [code]

definition all_items ::
    "('p \<Rightarrow> string \<Rightarrow> ('a, 'p) list_result res) \<Rightarrow> ('a, 'p) list_result \<Rightarrow> 'a list res option" where
  "all_items call l = all_items_from call [] l"

subsection \<open>Pages\<close>

text \<open>The pages that follow a list result, up to the last one.\<close>

inductive pages :: "('p \<Rightarrow> string \<Rightarrow> ('a, 'p) list_result res) \<Rightarrow> ('a, 'p) list_result \<Rightarrow> 'a list list \<Rightarrow> bool"
  for call where
  last_page: "next_page call l = Inr None \<Longrightarrow> lr_items l = Some page \<Longrightarrow> pages call l [page]"
| more_pages: "next_page call l = Inr (Some l') \<Longrightarrow> lr_items l = Some page \<Longrightarrow> pages call l' ps \<Longrightarrow>
    pages call l (page # ps)"

lemma all_items_pages: "pages call l ps \<Longrightarrow> all_items_from call items l = Some (Inr (items @ concat ps))"
  by (induction arbitrary: items rule: pages.induct) (simp_all add: all_items_from.simps)

lemma all_items_Some:
  assumes "all_items_from call items l = Some (Inr xs)"
  shows "\<exists>ps. pages call l ps \<and> xs = items @ concat ps"
proof -
  have "\<forall>xs. r = Inr xs \<longrightarrow> (\<exists>ps. pages call l ps \<and> xs = items @ concat ps)"
    if "all_items_from call items l = Some r" for r
    by (rule all_items_from.raw_induct [OF _ that,
          of "\<lambda>call items l r. \<forall>xs. r = Inr xs \<longrightarrow> (\<exists>ps. pages call l ps \<and> xs = items @ concat ps)"])
      (fastforce split: option.splits sum.splits intro: pages.intros)
  then show ?thesis using assms by blast
qed

lemma all_items_terminates:
  fixes \<mu> :: "('a, 'p) list_result \<Rightarrow> nat"
  assumes "\<And>l l'. next_page call l = Inr (Some l') \<Longrightarrow> \<mu> l' < \<mu> l"
  shows "\<exists>r. all_items_from call items l = Some r"
proof (induction "\<mu> l" arbitrary: items l rule: less_induct)
  case less
  show ?case
    by (subst all_items_from.simps) (auto split: option.splits sum.splits intro: less assms)
qed

end
