(* ===== verification/ManifestProperties.thy ===== *)
theory ManifestProperties
  imports Deltas ListResults MemoryFS
begin

text \<open>
  Properties of catalog versions, manifests, deltas and paged results, with the examples on which the
  witnesses are evaluated.
\<close>

subsection \<open>Catalog versions\<close>

text \<open>A catalog keeps its version: initializing a catalog that has a version file of the current version
  writes nothing and returns that version with the time from which it applied first, whatever other
  files are in the version directory.
\<close>

lemma catalog_version_kept:
  assumes "list_directory F fs (path_join root CATALOG_VERSION_DIR_NAME) None True False = Inr files"
    and "p \<in> fst ` set files" "basename p = catalog_version_to_filename v"
    and "0 \<le> cv_starting_from v" "cv_version v = cv_version current_version"
  shows "\<exists>w. init_catalog_version F no_data root current_version fs = (Inr (Some w), fs) \<and>
    cv_version w = cv_version current_version \<and>
    (\<exists>q \<in> fst ` set files. catalog_version_from_filename (basename q) = Inr w)"
proof -
  let ?names = "map (\<lambda>p. basename (fst p)) files"
  have "catalog_version_to_filename v \<in> set ?names" using assms(2,3) by (force simp: image_iff)
  from find_catalog_version_known [OF version_filename_inverse [OF assms(4)] this]
  obtain w where w: "find_catalog_version (cv_version current_version) ?names = Some w" using assms(5) by auto
  then have "init_catalog_version F no_data root current_version fs = (Inr (Some w), fs)"
    by (simp add: init_catalog_version_def io_bind_def io_lift_def io_return_def assms(1))
  with find_catalog_version_Some [OF w] show ?thesis by auto
qed

definition ex_version :: "int \<Rightarrow> catalog_version" where
  "ex_version t = \<lparr>cv_version = ''2.0.0.post1'', cv_starting_from = t\<rparr>"

definition ex_versions_fs :: "string mem" where
  "ex_versions_fs = snd (init_catalog_version (mem_F length) [] ''/root'' (ex_version 100) [(''/root/version/notes'', [])])"

lemma catalog_version_kept_witness:
  "init_catalog_version (mem_F length) [] ''/root'' (ex_version 200) ex_versions_fs = (Inr (Some (ex_version 100)), ex_versions_fs)"
proof -
  have l: "list_directory (mem_F length) ex_versions_fs (path_join ''/root'' CATALOG_VERSION_DIR_NAME) None True False =
    Inr [(''/root/version/notes'', Some 0), (''/root/version/2.0.0.post1.100'', Some 0)]" by code_simp
  have b: "basename ''/root/version/2.0.0.post1.100'' = catalog_version_to_filename (ex_version 100)" by code_simp
  obtain w where w: "init_catalog_version (mem_F length) [] ''/root'' (ex_version 200) ex_versions_fs = (Inr (Some w), ex_versions_fs)"
    "\<exists>q \<in> fst ` set [(''/root/version/notes'', Some (0::nat)), (''/root/version/2.0.0.post1.100'', Some 0)].
       catalog_version_from_filename (basename q) = Inr w"
    using catalog_version_kept [OF l _ b, of "ex_version 200" "[]"] by (auto simp: ex_version_def)
  have "catalog_version_from_filename (basename ''/root/version/notes'') = Inl ValueError"
    "catalog_version_from_filename (basename ''/root/version/2.0.0.post1.100'') = Inr (ex_version 100)" by code_simp+
  then have "w = ex_version 100" using w(2) by auto
  with w(1) show ?thesis by simp
qed

subsection \<open>Manifests\<close>

definition ex_meta :: "int \<Rightarrow> content_type \<Rightarrow> int option \<Rightarrow> manifest_meta" where
  "ex_meta n t sid = manifest_meta_of (Some n) (Some (10 * n)) (Some (content_type_value t)) (Some ''identity'') None
     PNone PNone (Some DATA) PNone sid None"

definition ex_entry :: "string \<Rightarrow> int \<Rightarrow> content_type \<Rightarrow> int option \<Rightarrow> manifest_entry" where
  "ex_entry url n t sid =
     \<lparr>me_url = Some url, me_uri = None, me_meta = Some (ex_meta n t sid), me_mandatory = Some True, me_id = None\<rparr>"

text \<open>C24:
  A manifest of entries that all have metadata is refused exactly when an entry has an invalid or another
  entry type, or other parameters, credentials or content type parameters than required; otherwise
  it counts the records and bytes of all entries, has the content type and encoding that all
  entries share or none, the largest schema identifier, and the sort scheme if there is only one.
\<close>

theorem manifest_of_decides:
  assumes "map me_meta es = map Some (m # ms)"
  shows "manifest_of fresh (Some es) author uuid t ps =
    (if list_all (entry_fits t ps (mm_credentials m) (mm_content_type_parameters m)) (m # ms)
     then Inr \<lparr>mn_id = (if truthy uuid then the uuid else fresh),
       mn_meta = Some \<lparr>
         mm_record_count = Some (sum_list (map (\<lambda>m. or_zero (mm_record_count m)) (m # ms))),
         mm_content_length = Some (sum_list (map (\<lambda>m. or_zero (mm_content_length m)) (m # ms))),
         mm_source_content_length = Some (sum_list (map (\<lambda>m. or_zero (mm_source_content_length m)) (m # ms))),
         mm_content_type = (if \<forall>m' \<in> set ms. mm_content_type m' = mm_content_type m then mm_content_type m else None),
         mm_content_type_parameters = mm_content_type_parameters m,
         mm_content_encoding =
           (if \<forall>m' \<in> set ms. mm_content_encoding m' = mm_content_encoding m then mm_content_encoding m else None),
         mm_credentials = mm_credentials m, mm_entry_type = map_option entry_type_value t, mm_entry_params = ps,
         mm_schema_id = latest_schema_id (m # ms), mm_sort_scheme_id = common_sort_scheme_id (m # ms)\<rparr>,
       mn_entries = Some es, mn_author = author\<rparr>
     else Inl ValueError)"
proof -
  have "entry_metas es = Inr (m # ms)" using assms by (simp add: entry_metas_Inr)
  then show ?thesis
    by (simp add: manifest_of_def Let_def add_entries_closed build_manifest_def manifest_meta_of_def common_def truthy_def)
qed

theorem manifest_of_decides_witness:
  "map_option mm_record_count (mn_meta (projr (manifest_of ''u'' (Some [ex_entry ''a'' 3 PARQUET (Some 1), ex_entry ''b'' 4 CSV (Some 2)])
     None None (Some DATA) PNone))) = Some (Some 7) \<and>
   manifest_of ''u'' (Some [ex_entry ''a'' 3 PARQUET (Some 1), ex_entry ''b'' 4 CSV (Some 2)]) None None (Some EQUALITY_DELETE) PNone
     = Inl ValueError"
proof -
  have m: "map me_meta [ex_entry ''a'' 3 PARQUET (Some 1), ex_entry ''b'' 4 CSV (Some 2)] =
    map Some [ex_meta 3 PARQUET (Some 1), ex_meta 4 CSV (Some 2)]" by (simp add: ex_entry_def)
  have fits: "list_all (entry_fits (Some DATA) PNone (mm_credentials (ex_meta 3 PARQUET (Some 1)))
      (mm_content_type_parameters (ex_meta 3 PARQUET (Some 1)))) [ex_meta 3 PARQUET (Some 1), ex_meta 4 CSV (Some 2)]"
    "\<not> list_all (entry_fits (Some EQUALITY_DELETE) PNone (mm_credentials (ex_meta 3 PARQUET (Some 1)))
      (mm_content_type_parameters (ex_meta 3 PARQUET (Some 1)))) [ex_meta 3 PARQUET (Some 1), ex_meta 4 CSV (Some 2)]"
    by code_simp+
  show ?thesis unfolding manifest_of_decides [OF m] using fits by (simp add: ex_meta_def manifest_meta_of_def or_zero_def)
qed

text \<open>C36:
  Merging manifests in stages is merging them at once: the manifests that groups of manifests merge to
  merge to the same manifest as all of the groups together.
\<close>

theorem merge_in_stages:
  assumes "list_all2 (\<lambda>xs m. \<exists>fresh author. merge_manifests fresh xs author = Inr m) xss ms"
  shows "merge_manifests fresh ms author = merge_manifests fresh (concat xss) author"
  using merged_entries [OF assms] by (auto simp: merge_manifests_def)

definition ex_manifest :: "string \<Rightarrow> manifest_entry list \<Rightarrow> manifest" where
  "ex_manifest u es = projr (manifest_of u (Some es) None None None PNone)"

definition ex_m1 :: manifest where "ex_m1 = ex_manifest ''m1'' [ex_entry ''a'' 3 PARQUET (Some 1)]"
definition ex_m2 :: manifest where "ex_m2 = ex_manifest ''m2'' [ex_entry ''b'' 4 PARQUET (Some 2), ex_entry ''c'' 5 PARQUET None]"

theorem merge_in_stages_witness:
  "merge_manifests ''x'' [projr (merge_manifests ''y'' [ex_m1, ex_m2] None), ex_m1] None = merge_manifests ''x'' [ex_m1, ex_m2, ex_m1] None"
proof -
  have "\<not> isl (merge_manifests ''y'' [ex_m1, ex_m2] None)" "merge_manifests ''m1'' [ex_m1] None = Inr ex_m1" by code_simp+
  then have "list_all2 (\<lambda>xs m. \<exists>fresh author. merge_manifests fresh xs author = Inr m) [[ex_m1, ex_m2], [ex_m1]]
    [projr (merge_manifests ''y'' [ex_m1, ex_m2] None), ex_m1]" by (fastforce simp: isl_def)
  from merge_in_stages [OF this, of "''x''" None] show ?thesis by simp
qed

text \<open>Reading back the media types of a written file: the content type and encoding derived from the path
  of a file named by the writer are the written ones, except that a file of unescaped tab-separated values,
  which has no extension, is taken for binary data.
\<close>

lemma media_types_recovered:
  assumes "dir_path d" "component n" "dot \<notin> set n"
  shows "derived_media (path_join d (write_filename n t c)) =
    (case t of None \<Rightarrow> BINARY | Some t' \<Rightarrow> if t' = UNESCAPED_TSV then BINARY else t',
     case c of None \<Rightarrow> IDENTITY | Some c' \<Rightarrow> c')"
  using derived_media_written [OF assms] by (simp add: recoverable_def)

lemma media_types_recovered_witness:
  "write_filename ''f'' (Some PARQUET) (Some DEFLATE) = ''f.parquet.zip'' \<and>
   derived_media (path_join ''/r/data.d'' (write_filename ''f'' (Some PARQUET) (Some DEFLATE))) = (PARQUET, DEFLATE)"
proof -
  have "write_filename ''f'' (Some PARQUET) (Some DEFLATE) = ''f.parquet.zip''" by code_simp
  then show ?thesis
    using media_types_recovered [of "''/r/data.d''" "''f''" "Some PARQUET" "Some DEFLATE"]
    by (simp add: dir_path_def component_def)
qed

text \<open>Grouping the URLs of a manifest loses and invents none: the groups have distinct keys and are not empty, and the
  group of a content type and encoding lists the full URLs of exactly the entries that have
  them, in the order of the manifest.
\<close>

lemma grouped_urls_complete:
  assumes "group_manifest_urls_by_content_type r m = Inr groups" "mn_entries m = Some es"
  shows "distinct (map fst groups) \<and> (\<forall>us \<in> snd ` set groups. us \<noteq> []) \<and>
    (\<forall>key. (case map_of groups key of None \<Rightarrow> [] | Some us \<Rightarrow> us) = urls_with r key es)"
proof -
  have a: "append_urls r es [] = Inr groups" using assms by (simp add: group_manifest_urls_by_content_type_def)
  from append_urls_keys [OF a] append_urls_groups [OF a] show ?thesis by (simp add: dict_list_def)
qed

definition ex_grouped :: "((string option \<times> string option) \<times> string list) list" where
  "ex_grouped =
     [((Some ''application/parquet'', Some ''identity''), [''s3://b/root/a'', ''s3://x/c'']),
      ((Some ''text/csv'', Some ''identity''), [''s3://b/root/b''])]"

definition ex_mixed :: manifest where
  "ex_mixed = ex_manifest ''m'' [ex_entry ''a'' 3 PARQUET None, ex_entry ''b'' 4 CSV None, ex_entry ''s3://x/c'' 5 PARQUET None]"

lemma grouped_urls_complete_witness:
  "group_manifest_urls_by_content_type (Some ''s3://b/root'') ex_mixed = Inr ex_grouped \<and>
   urls_with (Some ''s3://b/root'') (Some ''text/csv'', Some ''identity'') (the (mn_entries ex_mixed)) = [''s3://b/root/b'']"
proof -
  have g: "group_manifest_urls_by_content_type (Some ''s3://b/root'') ex_mixed = Inr ex_grouped" by code_simp
  have "mn_entries ex_mixed \<noteq> None" by code_simp
  then have e: "mn_entries ex_mixed = Some (the (mn_entries ex_mixed))" by simp
  have "map_of ex_grouped (Some ''text/csv'', Some ''identity'') = Some [''s3://b/root/b'']" by code_simp
  with grouped_urls_complete [OF g e] g show ?thesis by (metis option.simps(5))
qed

text \<open>
  An entry whose URL is reconstructed loses its identifier and whether it is mandatory: reading the
  property afterwards raises \<open>KeyError\<close>.
\<close>

lemma reconstructed_entry_incomplete:
  "rbind (reconstruct_manifest_entry_url (Some ''s3://b/root'') (ex_entry ''a'' 3 PARQUET None)) entry_mandatory = Inl KeyError \<and>
   entry_mandatory (ex_entry ''a'' 3 PARQUET None) = Inr True"
  by code_simp

text \<open>
  Whether credentials are compared depends on the order of the entries: an entry with credentials
  after one without is accepted, and its credentials are not those of the manifest.
\<close>

definition ex_private :: manifest_entry where
  "ex_private = (ex_entry ''p'' 1 PARQUET None)\<lparr>me_meta := Some ((ex_meta 1 PARQUET None)\<lparr>mm_credentials := PDict [(''key'', PStr ''k'')]\<rparr>)\<rparr>"

lemma credentials_depend_on_order:
  "rbind (manifest_of ''u'' (Some [ex_entry ''a'' 3 PARQUET None, ex_private]) None None None PNone)
     (\<lambda>m. Inr (map_option mm_credentials (mn_meta m))) = Inr (Some PNone) \<and>
   manifest_of ''u'' (Some [ex_private, ex_entry ''a'' 3 PARQUET None]) None None None PNone = Inl ValueError"
  by code_simp

subsection \<open>Deltas\<close>

text \<open>C23:
  Merging deltas keeps all data: the merged delta belongs to the partition of the first delta, lists the
  manifest entries of all deltas in order, counts the sum of their records, has their common type
  (an unordered addition for a mix of unordered and ordered ones), and follows the largest of their previous stream positions,
  which is known only if all are.
\<close>

theorem merge_deltas_result:
  assumes "merge_deltas sha1 fresh ds author position properties = Inr d"
    and "\<forall>d' \<in> set ds. \<forall>m. d_manifest d' = Some m \<longrightarrow> built_manifest m"
  shows "\<exists>m. d_manifest d = Some m \<and> d_meta d = mn_meta m \<and>
      mn_entries m = Some (concat (map (\<lambda>d'. the (mn_entries (the (d_manifest d')))) ds)) \<and>
      manifest_records m = Some (sum_list (map (\<lambda>d'. the (manifest_records (the (d_manifest d')))) ds)) \<and>
      delta_partition_locator d = delta_partition_locator (hd ds) \<and> delta_stream_position d = position \<and>
      ((\<forall>d' \<in> set ds. d_type d' = d_type d) \<or> d_type d = Some ADD \<and> d_type ` set ds = {Some ADD, Some APPEND}) \<and>
      (d_previous_stream_position d = None \<longleftrightarrow> None \<in> d_previous_stream_position ` set ds) \<and>
      (\<forall>p. d_previous_stream_position d = Some p \<longrightarrow>
         Some p \<in> d_previous_stream_position ` set ds \<and> (\<forall>d' \<in> set ds. the (d_previous_stream_position d') \<le> p))"
proof -
  obtain m where m: "ds \<noteq> []" "\<forall>d \<in> set ds. d_manifest d \<noteq> None" "length (merged_types ds) \<le> 1"
    "merge_manifests fresh (map (\<lambda>d. the (d_manifest d)) ds) author = Inr m"
    "d = delta_of (Some (delta_locator_of (delta_partition_locator (hd ds)) position)) (hd (merged_types ds))
       (mn_meta m) properties (Some m) (merged_previous_position ds)"
    using assms(1) by (rule merge_deltas_parts)
  have built: "\<forall>m' \<in> set (map (\<lambda>d. the (d_manifest d)) ds). built_manifest m'" using m(2) assms(2) by auto
  have records: "manifest_records m = Some (sum_list (map (\<lambda>d'. the (manifest_records (the (d_manifest d')))) ds))"
    using merged_records [OF m(4) built] by (simp add: comp_def)
  have entries: "mn_entries m = Some (concat (map (\<lambda>d'. the (mn_entries (the (d_manifest d')))) ds))"
    using merged_entries_concat [OF m(4)] by (simp add: comp_def)
  have d: "d_manifest d = Some m" "d_meta d = mn_meta m" "d_type d = hd (merged_types ds)"
    "d_previous_stream_position d = merged_previous_position ds"
    "delta_partition_locator d = delta_partition_locator (hd ds)" "delta_stream_position d = position"
    by (simp_all add: m(5) delta_of_def delta_partition_locator_def delta_stream_position_def delta_locator_of_def)
  show ?thesis unfolding d
    by (intro exI [of _ m] conjI refl entries records merged_types_result [OF m(1,3)]
        merged_previous_position_None allI impI merged_previous_position_Some [OF _ m(1)])
qed

definition ex_delta :: "string \<Rightarrow> delta_type \<Rightarrow> manifest \<Rightarrow> int \<Rightarrow> delta" where
  "ex_delta table t m prev =
     delta_of (Some (projr (delta_locator_at (Some ''ns'') (Some table) (Some ''1'') None (Some ''deltacat'') None None None)))
       (Some t) (mn_meta m) PNone (Some m) (Some prev)"

theorem merge_deltas_result_witness:
  "\<exists>d m. merge_deltas (\<lambda>s. s) ''u'' [ex_delta ''t'' APPEND ex_m1 4, ex_delta ''t'' ADD ex_m2 7] None (Some 9) PNone = Inr d \<and>
     d_manifest d = Some m \<and> manifest_records m = Some 12 \<and> d_type d = Some ADD \<and> d_previous_stream_position d = Some 7"
proof -
  let ?ds = "[ex_delta ''t'' APPEND ex_m1 4, ex_delta ''t'' ADD ex_m2 7]"
  have "\<not> isl (merge_deltas (\<lambda>s. s) ''u'' ?ds None (Some 9) PNone)" by code_simp
  then obtain d where d: "merge_deltas (\<lambda>s. s) ''u'' ?ds None (Some 9) PNone = Inr d"
    by (cases "merge_deltas (\<lambda>s. s) ''u'' ?ds None (Some 9) PNone") simp_all
  have built: "built_manifest ex_m1" "built_manifest ex_m2"
  proof -
    have "\<not> isl (manifest_of ''m1'' (Some [ex_entry ''a'' 3 PARQUET (Some 1)]) None None None PNone)"
      "\<not> isl (manifest_of ''m2'' (Some [ex_entry ''b'' 4 PARQUET (Some 2), ex_entry ''c'' 5 PARQUET None]) None None None PNone)"
      by code_simp+
    then show "built_manifest ex_m1" "built_manifest ex_m2"
      unfolding built_manifest_def ex_m1_def ex_m2_def ex_manifest_def by (metis sum.collapse(2))+
  qed
  have r: "manifest_records ex_m1 = Some 3" "manifest_records ex_m2 = Some 9" by code_simp+
  have "\<forall>d' \<in> set ?ds. \<forall>m. d_manifest d' = Some m \<longrightarrow> built_manifest m"
    using built by (simp add: ex_delta_def delta_of_def)
  from merge_deltas_result [OF d this] obtain m where m: "d_manifest d = Some m"
    "manifest_records m = Some (sum_list (map (\<lambda>d'. the (manifest_records (the (d_manifest d')))) ?ds))"
    "(\<forall>d' \<in> set ?ds. d_type d' = d_type d) \<or> d_type d = Some ADD \<and> d_type ` set ?ds = {Some ADD, Some APPEND}"
    "d_previous_stream_position d = None \<longleftrightarrow> None \<in> d_previous_stream_position ` set ?ds"
    "\<forall>p. d_previous_stream_position d = Some p \<longrightarrow>
       Some p \<in> d_previous_stream_position ` set ?ds \<and> (\<forall>d' \<in> set ?ds. the (d_previous_stream_position d') \<le> p)"
    by (elim exE conjE) (rule that, assumption+)
  have "manifest_records m = Some 12" using m(2) by (simp add: ex_delta_def delta_of_def r)
  moreover have "d_type d = Some ADD" using m(3) by (auto simp: ex_delta_def delta_of_def)
  moreover have "d_previous_stream_position d = Some 7"
    using m(4,5) by (cases "d_previous_stream_position d") (auto simp: ex_delta_def delta_of_def)
  ultimately show ?thesis using d m(1) by blast
qed

text \<open>Merging does not compare tables: partitions are compared by the digests of their own names, so two
  deltas of different tables, versions or streams merge into a delta of the first one's partition
  whenever their partition values and identifiers agree and their manifests merge.
\<close>

lemma merge_ignores_tables:
  assumes "d_manifest d1 = Some m1" "d_manifest d2 = Some m2" "d_type d1 = d_type d2"
    and "delta_storage_type d1 = delta_storage_type d2"
    and "delta_partition_locator d1 = Some p1" "delta_partition_locator d2 = Some p2"
    and "pl_partition_values p1 = pl_partition_values p2" "pl_partition_id p1 = pl_partition_id p2"
    and "merge_manifests fresh [m1, m2] author = Inr m"
  shows "\<exists>d. merge_deltas sha1 fresh [d1, d2] author position properties = Inr d \<and>
    d_manifest d = Some m \<and> delta_partition_locator d = Some p1"
proof -
  have "canonical_string (PartitionLoc p1) = canonical_string (PartitionLoc p2)"
    using assms(7,8) by (simp add: canonical_string_def)
  moreover have "merged_types [d1, d2] = [d_type d2]" using assms(3) by (auto simp: merged_types_def)
  ultimately show ?thesis
    using assms by (simp add: merge_deltas_def locator_digest_def delta_of_def delta_partition_locator_def delta_locator_of_def)
qed

lemma merge_ignores_tables_witness:
  "\<exists>d. merge_deltas (\<lambda>s. s) ''u'' [ex_delta ''orders'' ADD ex_m1 4, ex_delta ''users'' ADD ex_m2 7] None None PNone = Inr d \<and>
     delta_table_name (ex_delta ''users'' ADD ex_m2 7) = Some ''users'' \<and>
     delta_partition_locator d = delta_partition_locator (ex_delta ''orders'' ADD ex_m1 4)"
proof -
  let ?p = "\<lambda>d. the (delta_partition_locator d)" and ?d1 = "ex_delta ''orders'' ADD ex_m1 4" and ?d2 = "ex_delta ''users'' ADD ex_m2 7"
  have p: "delta_partition_locator ?d1 \<noteq> None" "delta_partition_locator ?d2 \<noteq> None"
    "delta_storage_type ?d1 = delta_storage_type ?d2" "delta_table_name ?d2 = Some ''users''"
    "pl_partition_values (?p ?d1) = pl_partition_values (?p ?d2)" "pl_partition_id (?p ?d1) = pl_partition_id (?p ?d2)"
    "\<not> isl (merge_manifests ''u'' [ex_m1, ex_m2] None)" by code_simp+
  have d: "d_manifest ?d1 = Some ex_m1" "d_manifest ?d2 = Some ex_m2" "d_type ?d1 = d_type ?d2"
    by (simp_all add: ex_delta_def delta_of_def)
  have m: "merge_manifests ''u'' [ex_m1, ex_m2] None = Inr (projr (merge_manifests ''u'' [ex_m1, ex_m2] None))"
    using p(7) by simp
  have l: "delta_partition_locator ?d1 = Some (?p ?d1)" "delta_partition_locator ?d2 = Some (?p ?d2)" using p(1,2) by simp_all
  from merge_ignores_tables [OF d p(3) l p(5,6) m] p(4) l(1) show ?thesis by metis
qed

text \<open>Manifests without entries are not refused, although the error message speaks of empty manifests.\<close>

lemma empty_manifests_merge:
  "rbind (merge_deltas (\<lambda>s. s) ''u'' [ex_delta ''t'' ADD (ex_manifest ''e'' []) 1] None None PNone)
     (\<lambda>d. Inr (Option.bind (d_manifest d) mn_entries)) = Inr (Some [])"
  by code_simp

subsection \<open>Paged results\<close>

text \<open>Where the provider of pages makes progress, collecting all items returns; and it returns items exactly
  when the pages can be turned up to the last, and then the items of all pages in order.
\<close>

lemma all_items_flattens:
  assumes "\<And>l l'. next_page call l = Inr (Some l') \<Longrightarrow> \<mu> l' < (\<mu> l :: nat)"
  shows "(\<exists>r. all_items call l = Some r) \<and>
    (all_items call l = Some (Inr xs) \<longleftrightarrow> (\<exists>ps. pages call l ps \<and> xs = concat ps))"
proof
  show "\<exists>r. all_items call l = Some r" unfolding all_items_def by (rule all_items_terminates) (rule assms)
  show "all_items call l = Some (Inr xs) \<longleftrightarrow> (\<exists>ps. pages call l ps \<and> xs = concat ps)"
    using all_items_Some [of call "[]" l xs] all_items_pages [of call l _ "[]"] by (auto simp: all_items_def)
qed

text \<open>A provider of the pages of a list of four items.\<close>

definition ex_call :: "unit \<Rightarrow> string \<Rightarrow> (nat, unit) list_result res" where
  "ex_call p key = Inr (if key = ''second''
     then \<lparr>lr_items = Some [3], lr_pagination_key = Some ''third'', lr_next_page_provider = None\<rparr>
     else \<lparr>lr_items = Some [4], lr_pagination_key = None, lr_next_page_provider = None\<rparr>)"

definition ex_left :: "(nat, unit) list_result \<Rightarrow> nat" where
  "ex_left l = (case lr_pagination_key l of None \<Rightarrow> 0 | Some k \<Rightarrow> if k = ''second'' then 2 else if k = [] then 0 else 1)"

definition ex_first_page :: "(nat, unit) list_result" where
  "ex_first_page = \<lparr>lr_items = Some [1, 2], lr_pagination_key = Some ''second'', lr_next_page_provider = Some ()\<rparr>"

lemma all_items_flattens_witness:
  "(\<exists>ps. pages ex_call ex_first_page ps \<and> [1, 2, 3, 4] = concat ps) \<and> all_items ex_call ex_first_page = Some (Inr [1, 2, 3, 4])"
proof -
  have p: "ex_left l' < ex_left l" if "next_page ex_call l = Inr (Some l')" for l l'
    using that by (auto simp: next_page_def ex_call_def ex_left_def truthy_def split: if_splits option.splits)
  have "all_items ex_call ex_first_page = Some (Inr [1, 2, 3, 4])" by code_simp
  with all_items_flattens [of ex_call ex_left, OF p] show ?thesis by blast
qed

end
