(* ===== verification/StorageObjects.thy ===== *)
theory StorageObjects
  imports Transaction Deltas Schemes
begin

text \<open>
  The catalog objects that the storage layer reads and writes: the contents of the metafile classes
  \<^verbatim>\<open>Namespace\<close>, \<^verbatim>\<open>Table\<close>, \<^verbatim>\<open>TableVersion\<close>, \<^verbatim>\<open>Stream\<close>, \<^verbatim>\<open>Partition\<close> and \<^verbatim>\<open>Delta\<close> of \<^verbatim>\<open>storage/model\<close>, their
  constructors and aliases. An object is a metafile of \<^verbatim>\<open>Metafile\<close> with such a content; reading a
  property that its class does not have is Python's \<^verbatim>\<open>AttributeError\<close>. Native objects of other
  libraries are left out. Partition values are the text by which locators name them, see \<open>no_values\<close>.
\<close>

subsection \<open>States\<close>

datatype lifecycle_state = CREATED | UNRELEASED | ACTIVE | DEPRECATED | BETA | DELETED
datatype commit_state = STAGED | COMMITTED | DEPRECATED

definition UNPARTITIONED_SCHEME_ID :: string where
  "UNPARTITIONED_SCHEME_ID = ''deadbeef-7277-49a4-a195-fdc8ed235d42''"

definition UNPARTITIONED_SCHEME :: "partition_key scheme" where
  "UNPARTITIONED_SCHEME = \<lparr>sc_keys = None, sc_name = Some ''unpartitioned_scheme'', sc_id = Some UNPARTITIONED_SCHEME_ID\<rparr>"

definition UNSORTED_SCHEME :: "sort_key scheme" where
  "UNSORTED_SCHEME = \<lparr>sc_keys = None, sc_name = Some ''unsorted_scheme'',
     sc_id = Some ''deadbeef-7277-49a4-a195-fdc8ed235d42''\<rparr>"

definition DEFAULT_TABLE_VERSION :: string where
  "DEFAULT_TABLE_VERSION = ''1''"

definition DELTACAT_FORMAT :: string where
  "DELTACAT_FORMAT = ''deltacat''"

subsection \<open>Contents\<close>

record table_data =
  td_description :: "string option"
  td_properties :: pyval
  td_latest_active_table_version :: "string option"
  td_latest_table_version :: "string option"

record 't table_version_data =
  tvd_schema :: "'t schema option"
  tvd_partition_scheme :: "partition_key scheme option"
  tvd_description :: "string option"
  tvd_properties :: pyval
  tvd_content_types :: "content_type list option"
  tvd_sort_scheme :: "sort_key scheme option"
  tvd_watermark :: "int option"
  tvd_state :: "lifecycle_state option"
  tvd_schemas :: "'t schema list option"
  tvd_partition_schemes :: "partition_key scheme list option"
  tvd_sort_schemes :: "sort_key scheme list option"
  tvd_previous_table_version :: "string option"

record stream_data =
  sd_partition_scheme :: "partition_key scheme option"
  sd_state :: "commit_state option"
  sd_previous_stream_id :: "string option"
  sd_watermark :: "int option"

record partition_data =
  pd_content_types :: "content_type list option"
  pd_state :: "commit_state option"
  pd_previous_stream_position :: "int option"
  pd_previous_partition_id :: "string option"
  pd_stream_position :: "int option"
  pd_partition_scheme_id :: "string option"
  pd_compaction_round_completion_info :: pyval

record delta_data =
  dd_type :: "delta_type option"
  dd_meta :: "manifest_meta option"
  dd_properties :: pyval
  dd_manifest :: "manifest option"
  dd_previous_stream_position :: "int option"

datatype 't content =
    NamespaceC pyval
  | TableC table_data
  | TableVersionC "'t table_version_data"
  | StreamC stream_data
  | PartitionC partition_data
  | DeltaC delta_data

type_synonym 't object = "'t content metafile"

subsection \<open>Aliases and construction\<close>

text \<open>
  \<^verbatim>\<open>locator_alias\<close>: streams and partitions that are not staged are also found by their format or by
  their partition values and scheme.
\<close>

definition object_alias :: "any_locator \<Rightarrow> 't content \<Rightarrow> any_locator option" where
  "object_alias loc c =
     (case (loc, c) of
        (StreamLoc l, StreamC d) \<Rightarrow>
          if sd_state d \<noteq> Some STAGED then Some (StreamAlias (sl_format l) (sl_table_version_locator l)) else None
      | (PartitionLoc l, PartitionC d) \<Rightarrow>
          if pd_state d \<noteq> Some STAGED
          then Some (PartitionAlias (pl_partition_values l) (pd_partition_scheme_id d) (pl_stream_locator l)) else None
      | _ \<Rightarrow> None)"

definition new_object :: "any_locator \<Rightarrow> 't content \<Rightarrow> 't object" where
  "new_object loc c =
     \<lparr>mf_id = None, mf_locator = loc, mf_locator_alias = object_alias loc c, mf_ancestor_ids = [], mf_content = c\<rparr>"

definition with_content :: "'t content \<Rightarrow> 't object \<Rightarrow> 't object" where
  "with_content c m = m\<lparr>mf_content := c, mf_locator_alias := object_alias (mf_locator m) c\<rparr>"

definition with_locator :: "any_locator \<Rightarrow> 't object \<Rightarrow> 't object" where
  "with_locator l m = m\<lparr>mf_locator := l, mf_locator_alias := object_alias l (mf_content m)\<rparr>"

definition namespace_of :: "namespace_locator \<Rightarrow> pyval \<Rightarrow> 't object" where
  "namespace_of l properties = new_object (NamespaceLoc l) (NamespaceC properties)"

definition table_of :: "table_locator \<Rightarrow> string option \<Rightarrow> pyval \<Rightarrow> 't object" where
  "table_of l description properties = new_object (TableLoc l) (TableC
     \<lparr>td_description = description, td_properties = properties, td_latest_active_table_version = None,
      td_latest_table_version = None\<rparr>)"

definition no_table_version_data :: "'t table_version_data" where
  "no_table_version_data = \<lparr>tvd_schema = None, tvd_partition_scheme = None, tvd_description = None, tvd_properties = PNone,
     tvd_content_types = None, tvd_sort_scheme = None, tvd_watermark = None, tvd_state = None, tvd_schemas = None,
     tvd_partition_schemes = None, tvd_sort_schemes = None, tvd_previous_table_version = None\<rparr>"

definition table_version_of :: "table_version_locator \<Rightarrow> 't table_version_data \<Rightarrow> 't object" where
  "table_version_of l d = new_object (TableVersionLoc l) (TableVersionC d)"

definition stream_of :: "stream_locator \<Rightarrow> partition_key scheme option \<Rightarrow> commit_state option \<Rightarrow> 't object" where
  "stream_of l scheme state = new_object (StreamLoc l) (StreamC
     \<lparr>sd_partition_scheme = scheme, sd_state = state, sd_previous_stream_id = None, sd_watermark = None\<rparr>)"

text \<open>Partition values are absent or the empty list, whose text is \<^verbatim>\<open>[]\<close>.\<close>

definition no_values :: "string option \<Rightarrow> bool" where
  "no_values vs \<longleftrightarrow> vs = None \<or> vs = Some ''[]''"

definition partition_of ::
    "partition_locator \<Rightarrow> content_type list option \<Rightarrow> commit_state option \<Rightarrow> string option \<Rightarrow> 't object" where
  "partition_of l content_types state partition_scheme_id = new_object (PartitionLoc l) (PartitionC
     \<lparr>pd_content_types = content_types, pd_state = state, pd_previous_stream_position = None,
      pd_previous_partition_id = None, pd_stream_position = None,
      pd_partition_scheme_id = (if \<not> no_values (pl_partition_values l) then partition_scheme_id
                                else Some UNPARTITIONED_SCHEME_ID),
      pd_compaction_round_completion_info = PNone\<rparr>)"

definition no_delta_data :: delta_data where
  "no_delta_data = \<lparr>dd_type = None, dd_meta = None, dd_properties = PNone, dd_manifest = None,
     dd_previous_stream_position = None\<rparr>"

definition delta_object :: "delta_locator \<Rightarrow> delta_data \<Rightarrow> 't object" where
  "delta_object l d = new_object (DeltaLoc l) (DeltaC d)"

subsection \<open>Properties of objects\<close>

definition table_data_of :: "'t object \<Rightarrow> table_data res" where
  "table_data_of m = (case mf_content m of TableC d \<Rightarrow> Inr d | _ \<Rightarrow> Inl AttributeError)"

definition table_version_data_of :: "'t object \<Rightarrow> 't table_version_data res" where
  "table_version_data_of m = (case mf_content m of TableVersionC d \<Rightarrow> Inr d | _ \<Rightarrow> Inl AttributeError)"

definition stream_data_of :: "'t object \<Rightarrow> stream_data res" where
  "stream_data_of m = (case mf_content m of StreamC d \<Rightarrow> Inr d | _ \<Rightarrow> Inl AttributeError)"

definition partition_data_of :: "'t object \<Rightarrow> partition_data res" where
  "partition_data_of m = (case mf_content m of PartitionC d \<Rightarrow> Inr d | _ \<Rightarrow> Inl AttributeError)"

definition delta_data_of :: "'t object \<Rightarrow> delta_data res" where
  "delta_data_of m = (case mf_content m of DeltaC d \<Rightarrow> Inr d | _ \<Rightarrow> Inl AttributeError)"

definition table_locator_of_object :: "'t object \<Rightarrow> table_locator res" where
  "table_locator_of_object m = (case mf_locator m of TableLoc l \<Rightarrow> Inr l | _ \<Rightarrow> Inl AttributeError)"

definition stream_locator_of_object :: "'t object \<Rightarrow> stream_locator res" where
  "stream_locator_of_object m = (case mf_locator m of StreamLoc l \<Rightarrow> Inr l | _ \<Rightarrow> Inl AttributeError)"

definition partition_locator_of_object :: "'t object \<Rightarrow> partition_locator res" where
  "partition_locator_of_object m = (case mf_locator m of PartitionLoc l \<Rightarrow> Inr l | _ \<Rightarrow> Inl AttributeError)"

definition delta_locator_of_object :: "'t object \<Rightarrow> delta_locator res" where
  "delta_locator_of_object m = (case mf_locator m of DeltaLoc l \<Rightarrow> Inr l | _ \<Rightarrow> Inl AttributeError)"

definition is_supported_content_type :: "partition_data \<Rightarrow> content_type \<Rightarrow> bool" where
  "is_supported_content_type d t \<longleftrightarrow> (case pd_content_types d of None \<Rightarrow> True | Some ts \<Rightarrow> ts = [] \<or> t \<in> set ts)"

end
