(* ===== verification/Storage.thy ===== *)
theory Storage
  imports StorageObjects
begin

text \<open>
  The storage operations of \<^verbatim>\<open>storage/main/impl.py\<close> on namespaces, tables, table versions, streams, partitions and
  deltas. Every operation runs in a transaction through \<^verbatim>\<open>transaction.step\<close>: a \<open>session\<close> has the step for
  reading and the step for writing, and \<open>txn_session\<close> is that of \<^verbatim>\<open>Transaction\<close>. \<open>storage_call\<close> is an operation that is called
  without a transaction and sets up its own, \<open>storage_list_alone\<close> a lookup that commits one of a single operation. Fresh identifiers are arguments. Limits of listings are
  passed where they matter; reading the latest revision ignores them.
\<close>

subsection \<open>Sessions\<close>

text \<open>
  A reading step returns the results, a writing step the written object with the identifiers that the
  step assigned to it.
\<close>

record ('s, 'c) session =
  ss_read :: "txn_op_type \<Rightarrow> 'c metafile \<Rightarrow> int option \<Rightarrow> ('s, 'c metafile option list) pio"
  ss_write :: "txn_op_type \<Rightarrow> 'c metafile \<Rightarrow> 'c metafile option \<Rightarrow> ('s, 'c metafile) pio"

definition pio_of :: "'a res \<Rightarrow> ('s, 'a) pio" where
  "pio_of r s = Some (r, s)"

definition txn_session :: "('fs, 'c, 'd) txn_env \<Rightarrow> ('fs \<times> 'c txn, 'c) session" where
  "txn_session T =
     \<lparr>ss_read = (\<lambda>t m limit. pio_bind (pio_of (txn_op_of t (Some m) None limit)) (\<lambda>op.
        pio_bind (txn_step T 0 op) (\<lambda>r. case r of ReadStep ms \<Rightarrow> pio_return ms | WriteStep _ _ \<Rightarrow> pio_raise AttributeError))),
      ss_write = (\<lambda>t m src. pio_bind (pio_of (txn_op_of t (Some m) src None)) (\<lambda>op.
        pio_bind (txn_step T 0 op) (\<lambda>_ s. Some (Inr (op_dest (last (txn_operations (snd s)))), s))))\<rparr>"

definition storage_call ::
    "('fs, 'c, 'd) txn_env \<Rightarrow> string \<Rightarrow> int res \<Rightarrow> int res \<Rightarrow>
     (('fs \<times> 'c txn, 'c) session \<Rightarrow> ('fs \<times> 'c txn, 'a) pio) \<Rightarrow> 'fs \<Rightarrow> ('a res \<times> ('fs \<times> 'c txn)) option" where
  "storage_call T root start_now end_now f fs =
     (case txn_start (te_fs T) root None start_now (txn_of None None) fs of
        (Inl e, fs') \<Rightarrow> Some (Inl e, (fs', txn_of None None))
      | (Inr t, fs') \<Rightarrow> pio_bind (f (txn_session T)) (\<lambda>r. pio_bind (txn_seal T end_now) (\<lambda>_. pio_return r)) (fs', t))"

text \<open>\<^verbatim>\<open>except e: raise e'\<close>.\<close>

definition renaming :: "py_error \<Rightarrow> py_error \<Rightarrow> ('s, 'a) pio \<Rightarrow> ('s, 'a) pio" where
  "renaming e e' m = pio_try m (\<lambda>x. pio_raise (if x = e then e' else x))"

definition storage_list ::
    "('s, 'c) session \<Rightarrow> 'c metafile \<Rightarrow> txn_op_type \<Rightarrow> int option \<Rightarrow> ('s, 'c metafile option list) pio" where
  "storage_list S m t limit = ss_read S t m (if limit = Some 0 then None else limit)"

definition storage_list_alone ::
    "('fs, 'c, 'd) txn_env \<Rightarrow> string \<Rightarrow> int res \<Rightarrow> int res \<Rightarrow> 'c metafile \<Rightarrow> txn_op_type \<Rightarrow> int option \<Rightarrow> 'fs \<Rightarrow>
     ('c metafile option list res \<times> ('fs \<times> 'c txn)) option" where
  "storage_list_alone T root start_now end_now m t limit fs =
     (case txn_op_of t (Some m) None (if limit = Some 0 then None else limit) of
        Inl e \<Rightarrow> Some (Inl e, (fs, txn_of None None))
      | Inr op \<Rightarrow> pio_bind (\<lambda>_. txn_commit T root start_now end_now (txn_of (Some [op]) None) fs)
          (\<lambda>r. case r of ReadResult (items # _) \<Rightarrow> pio_return items | _ \<Rightarrow> pio_raise TypeError) (fs, txn_of None None))"

definition storage_latest :: "('s, 'c) session \<Rightarrow> 'c metafile \<Rightarrow> ('s, 'c metafile option) pio" where
  "storage_latest S m = pio_bind (storage_list S m READ_LATEST None) (\<lambda>rs.
     pio_return (case rs of [] \<Rightarrow> None | r # _ \<Rightarrow> r))"

definition storage_exists :: "('s, 'c) session \<Rightarrow> 'c metafile \<Rightarrow> ('s, bool) pio" where
  "storage_exists S m = pio_bind (storage_list S m READ_EXISTS None) (\<lambda>rs. pio_return (rs \<noteq> []))"

text \<open>An object that has to be there.\<close>

definition required :: "py_error \<Rightarrow> 'a option \<Rightarrow> ('s, 'a) pio" where
  "required e x = pio_of (of_option e x)"

definition refuse :: "bool \<Rightarrow> py_error \<Rightarrow> ('s, unit) pio" where
  "refuse b e = (if b then pio_raise e else pio_return ())"

subsection \<open>Namespaces\<close>

definition get_namespace :: "('s, 't content) session \<Rightarrow> string option \<Rightarrow> ('s, 't object option) pio" where
  "get_namespace S ns = storage_latest S (namespace_of (namespace_locator_of ns) PNone)"

definition namespace_exists :: "('s, 't content) session \<Rightarrow> string option \<Rightarrow> ('s, bool) pio" where
  "namespace_exists S ns = storage_exists S (namespace_of (namespace_locator_of ns) PNone)"

definition list_namespaces :: "('s, 't content) session \<Rightarrow> int option \<Rightarrow> ('s, 't object option list) pio" where
  "list_namespaces S limit = storage_list S (namespace_of (namespace_locator_of (Some ''placeholder'')) PNone) READ_SIBLINGS limit"

definition create_namespace :: "('s, 't content) session \<Rightarrow> string option \<Rightarrow> pyval \<Rightarrow> ('s, 't object) pio" where
  "create_namespace S ns properties =
     renaming ObjectAlreadyExistsError NamespaceAlreadyExistsError
       (ss_write S CREATE (namespace_of (namespace_locator_of ns) properties) None)"

definition update_namespace ::
    "('s, 't content) session \<Rightarrow> string option \<Rightarrow> pyval \<Rightarrow> string option \<Rightarrow> ('s, unit) pio" where
  "update_namespace S ns properties new_namespace =
     pio_bind (get_namespace S ns) (\<lambda>found.
     pio_bind (required NamespaceNotFoundError found) (\<lambda>old.
       let renamed = (if truthy new_namespace then with_locator (NamespaceLoc (namespace_locator_of new_namespace)) old else old);
           new = (if properties \<noteq> PNone then with_content (NamespaceC properties) renamed else renamed)
       in pio_bind (renaming ObjectAlreadyExistsError NamespaceAlreadyExistsError (ss_write S UPDATE new (Some old)))
            (\<lambda>_. pio_return ())))"

definition delete_namespace :: "('s, 't content) session \<Rightarrow> string option \<Rightarrow> bool \<Rightarrow> ('s, unit) pio" where
  "delete_namespace S ns purge =
     pio_bind (refuse purge NotImplementedError) (\<lambda>_.
     pio_bind (get_namespace S ns) (\<lambda>found.
     pio_bind (required NamespaceNotFoundError found) (\<lambda>old.
     pio_bind (ss_write S txn_op_type.DELETE old None) (\<lambda>_. pio_return ()))))"

subsection \<open>Tables\<close>

definition get_table :: "('s, 't content) session \<Rightarrow> string option \<Rightarrow> string option \<Rightarrow> ('s, 't object option) pio" where
  "get_table S ns t = storage_latest S (table_of (table_locator_at ns t) None PNone)"

definition table_exists :: "('s, 't content) session \<Rightarrow> string option \<Rightarrow> string option \<Rightarrow> ('s, bool) pio" where
  "table_exists S ns t = storage_exists S (table_of (table_locator_at ns t) None PNone)"

definition list_tables :: "('s, 't content) session \<Rightarrow> string option \<Rightarrow> int option \<Rightarrow> ('s, 't object option list) pio" where
  "list_tables S ns limit = renaming ObjectNotFoundError NamespaceNotFoundError
     (storage_list S (table_of (table_locator_at ns (Some ''placeholder'')) None PNone) READ_SIBLINGS limit)"

definition create_table ::
    "('s, 't content) session \<Rightarrow> string option \<Rightarrow> string option \<Rightarrow> string option \<Rightarrow> pyval \<Rightarrow> ('s, 't object) pio" where
  "create_table S ns t description properties =
     renaming ObjectAlreadyExistsError TableAlreadyExistsError
       (ss_write S CREATE (table_of (table_locator_at ns t) description properties) None)"

definition update_table ::
    "('s, 't content) session \<Rightarrow> string option \<Rightarrow> string option \<Rightarrow> string option \<Rightarrow> pyval \<Rightarrow> string option \<Rightarrow> ('s, 't object) pio" where
  "update_table S ns t description properties new_table_name =
     pio_bind (get_table S ns t) (\<lambda>found.
     pio_bind (required TableNotFoundError found) (\<lambda>old.
     pio_bind (pio_of (table_data_of old)) (\<lambda>d.
     pio_bind (pio_of (table_locator_of_object old)) (\<lambda>l.
       let d' = d\<lparr>td_description := str_or description (td_description d),
                  td_properties := (if py_truthy properties then properties else td_properties d)\<rparr>;
           new = with_locator (TableLoc (l\<lparr>tl_table_name := str_or new_table_name (tl_table_name l)\<rparr>)) (with_content (TableC d') old)
       in renaming ObjectAlreadyExistsError TableAlreadyExistsError (ss_write S UPDATE new (Some old))))))"

definition delete_table :: "('s, 't content) session \<Rightarrow> string option \<Rightarrow> string option \<Rightarrow> bool \<Rightarrow> ('s, unit) pio" where
  "delete_table S ns t purge =
     pio_bind (refuse purge NotImplementedError) (\<lambda>_.
     pio_bind (get_table S ns t) (\<lambda>found.
     pio_bind (required TableNotFoundError found) (\<lambda>old.
     pio_bind (ss_write S txn_op_type.DELETE old None) (\<lambda>_. pio_return ()))))"

subsection \<open>Table versions\<close>

definition resolve_latest_active_table_version_id ::
    "('s, 't content) session \<Rightarrow> string option \<Rightarrow> string option \<Rightarrow> bool \<Rightarrow> ('s, string option) pio" where
  "resolve_latest_active_table_version_id S ns t fail_if_none =
     pio_bind (get_table S ns t) (\<lambda>found.
     pio_bind (required TableNotFoundError found) (\<lambda>table.
     pio_bind (pio_of (table_data_of table)) (\<lambda>d.
     pio_bind (refuse (fail_if_none \<and> \<not> truthy (td_latest_active_table_version d)) TableVersionNotFoundError) (\<lambda>_.
       pio_return (td_latest_active_table_version d)))))"

definition resolve_latest_table_version_id ::
    "('s, 't content) session \<Rightarrow> string option \<Rightarrow> string option \<Rightarrow> bool \<Rightarrow> ('s, string option) pio" where
  "resolve_latest_table_version_id S ns t fail_if_none =
     pio_bind (get_table S ns t) (\<lambda>found.
     pio_bind (required TableNotFoundError found) (\<lambda>table.
     pio_bind (pio_of (table_data_of table)) (\<lambda>d.
     pio_bind (refuse (fail_if_none \<and> \<not> truthy (td_latest_table_version d)) TableVersionNotFoundError) (\<lambda>_.
       pio_return (td_latest_table_version d)))))"

definition get_table_version ::
    "('s, 't content) session \<Rightarrow> string option \<Rightarrow> string option \<Rightarrow> string option \<Rightarrow> ('s, 't object option) pio" where
  "get_table_version S ns t v =
     pio_bind (pio_of (table_version_locator_at ns t v)) (\<lambda>l. storage_latest S (table_version_of l no_table_version_data))"

definition table_version_exists ::
    "('s, 't content) session \<Rightarrow> string option \<Rightarrow> string option \<Rightarrow> string option \<Rightarrow> ('s, bool) pio" where
  "table_version_exists S ns t v =
     pio_bind (pio_of (table_version_locator_at ns t v)) (\<lambda>l. storage_exists S (table_version_of l no_table_version_data))"

definition list_table_versions ::
    "('s, 't content) session \<Rightarrow> string option \<Rightarrow> string option \<Rightarrow> int option \<Rightarrow> ('s, 't object option list) pio" where
  "list_table_versions S ns t limit =
     pio_bind (pio_of (table_version_locator_at ns t (Some ''placeholder.0''))) (\<lambda>l.
       renaming ObjectNotFoundError TableNotFoundError
         (storage_list S (table_version_of l no_table_version_data) READ_SIBLINGS limit))"

definition get_latest_table_version ::
    "('s, 't content) session \<Rightarrow> string option \<Rightarrow> string option \<Rightarrow> ('s, 't object option) pio" where
  "get_latest_table_version S ns t =
     pio_bind (resolve_latest_table_version_id S ns t False) (\<lambda>v.
       if truthy v then get_table_version S ns t v else pio_return None)"

definition get_latest_active_table_version ::
    "('s, 't content) session \<Rightarrow> string option \<Rightarrow> string option \<Rightarrow> ('s, 't object option) pio" where
  "get_latest_active_table_version S ns t =
     pio_bind (resolve_latest_active_table_version_id S ns t False) (\<lambda>v.
       if truthy v then get_table_version S ns t v else pio_return None)"

text \<open>A missing table version has no property \<^verbatim>\<open>schema\<close>.\<close>

definition get_table_version_schema ::
    "('s, 't content) session \<Rightarrow> string option \<Rightarrow> string option \<Rightarrow> string option \<Rightarrow> ('s, 't schema option) pio" where
  "get_table_version_schema S ns t v =
     pio_bind (if truthy v then get_table_version S ns t v else get_latest_active_table_version S ns t) (\<lambda>found.
     pio_bind (required AttributeError found) (\<lambda>m.
     pio_bind (pio_of (table_version_data_of m)) (\<lambda>d. pio_return (tvd_schema d))))"

definition get_table_version_column_names ::
    "('s, 't content) session \<Rightarrow> string option \<Rightarrow> string option \<Rightarrow> string option \<Rightarrow> ('s, string list option) pio" where
  "get_table_version_column_names S ns t v =
     pio_bind (get_table_version_schema S ns t v) (\<lambda>s.
       pio_return (map_option (\<lambda>s. map af_name (as_fields (s_arrow s))) s))"

subsection \<open>Streams\<close>

definition get_stream_by_id ::
    "('s, 't content) session \<Rightarrow> table_version_locator option \<Rightarrow> string option \<Rightarrow> ('s, 't object option) pio" where
  "get_stream_by_id S tvl sid = storage_latest S (stream_of (stream_locator_of tvl sid None) None None)"

definition resolved_version ::
    "('s, 't content) session \<Rightarrow> string option \<Rightarrow> string option \<Rightarrow> string option \<Rightarrow> bool \<Rightarrow> ('s, string option) pio" where
  "resolved_version S ns t v fail_if_none =
     (if truthy v then pio_return v else resolve_latest_active_table_version_id S ns t fail_if_none)"

definition get_stream ::
    "('s, 't content) session \<Rightarrow> string option \<Rightarrow> string option \<Rightarrow> string option \<Rightarrow> string option \<Rightarrow> ('s, 't object option) pio" where
  "get_stream S ns t v fmt =
     pio_bind (resolved_version S ns t v False) (\<lambda>v'.
     pio_bind (pio_of (stream_locator_at ns t v' None fmt)) (\<lambda>l. storage_latest S (stream_of l None (Some COMMITTED))))"

definition stream_exists ::
    "('s, 't content) session \<Rightarrow> string option \<Rightarrow> string option \<Rightarrow> string option \<Rightarrow> string option \<Rightarrow> ('s, bool) pio" where
  "stream_exists S ns t v fmt =
     pio_bind (resolved_version S ns t v False) (\<lambda>v'.
     pio_bind (pio_of (stream_locator_at ns t v' None fmt)) (\<lambda>l. storage_exists S (stream_of l None (Some COMMITTED))))"

definition list_streams ::
    "('s, 't content) session \<Rightarrow> string option \<Rightarrow> string option \<Rightarrow> string option \<Rightarrow> int option \<Rightarrow> ('s, 't object option list) pio" where
  "list_streams S ns t v limit =
     pio_bind (pio_of (stream_locator_at ns t v (Some ''placeholder'') None)) (\<lambda>l.
       renaming ObjectNotFoundError TableVersionNotFoundError (storage_list S (stream_of l None None) READ_SIBLINGS limit))"

text \<open>\<open>uuid\<close> is the identifier of the new stream.\<close>

definition stage_stream ::
    "('s, 't content) session \<Rightarrow> string \<Rightarrow> string option \<Rightarrow> string option \<Rightarrow> string option \<Rightarrow> string option \<Rightarrow> ('s, 't object) pio" where
  "stage_stream S uuid ns t v fmt =
     pio_bind (resolved_version S ns t v True) (\<lambda>v'.
     pio_bind (get_table_version S ns t v') (\<lambda>found.
     pio_bind (required TableVersionNotFoundError found) (\<lambda>tv.
     pio_bind (pio_of (stream_locator_at ns t v' (Some uuid) (str_or fmt (Some DELTACAT_FORMAT)))) (\<lambda>l.
     pio_bind (pio_of (table_version_data_of tv)) (\<lambda>tvd.
     pio_bind (get_stream S (sl_namespace l) (sl_table_name l) (sl_table_version l) (sl_format l)) (\<lambda>prev.
     pio_bind (case prev of
                 None \<Rightarrow> pio_return None
               | Some p \<Rightarrow> pio_bind (pio_of (stream_locator_of_object p)) (\<lambda>pl.
                   pio_bind (refuse (sl_stream_id pl = Some uuid) TableValidationError) (\<lambda>_. pio_return (sl_stream_id pl)))) (\<lambda>previous_id.
       renaming ObjectAlreadyExistsError StreamAlreadyExistsError
         (ss_write S CREATE (new_object (StreamLoc l) (StreamC
            \<lparr>sd_partition_scheme = tvd_partition_scheme tvd, sd_state = Some STAGED, sd_previous_stream_id = previous_id,
             sd_watermark = None\<rparr>)) None))))))))"

text \<open>
  The staged stream is read back by its identifier. The checks against the committed stream come after
  the first write.
\<close>

definition commit_stream :: "('s, 't content) session \<Rightarrow> stream_locator \<Rightarrow> ('s, 't object) pio" where
  "commit_stream S sl =
     pio_bind (refuse (\<not> truthy (sl_stream_id sl)) ValueError) (\<lambda>_.
     pio_bind (refuse (sl_table_version_locator sl = None) ValueError) (\<lambda>_.
     pio_bind (get_stream_by_id S (sl_table_version_locator sl) (sl_stream_id sl)) (\<lambda>found.
     pio_bind (required StreamNotFoundError found) (\<lambda>staged.
     pio_bind (pio_of (stream_data_of staged)) (\<lambda>d.
     pio_bind (refuse (sd_state d \<noteq> Some STAGED) TableValidationError) (\<lambda>_.
     pio_bind (pio_of (stream_locator_of_object staged)) (\<lambda>l.
     pio_bind (get_stream S (sl_namespace l) (sl_table_name l) (sl_table_version l) (sl_format l)) (\<lambda>committed.
       let new = with_content (StreamC (d\<lparr>sd_state := Some COMMITTED\<rparr>)) staged
       in (case committed of
             None \<Rightarrow> ss_write S UPDATE new (Some staged)
           | Some c \<Rightarrow>
               pio_bind (ss_write S REPLACE new (Some staged)) (\<lambda>written.
               pio_bind (pio_of (stream_locator_of_object c)) (\<lambda>cl.
               pio_bind (refuse (sl_stream_id cl \<noteq> sd_previous_stream_id d) ConcurrentModificationError) (\<lambda>_.
               pio_bind (refuse (sl_stream_id cl = sl_stream_id l) TableValidationError) (\<lambda>_.
                 ss_write S REPLACE written (Some c))))))))))))))"

definition delete_stream ::
    "('s, 't content) session \<Rightarrow> string option \<Rightarrow> string option \<Rightarrow> string option \<Rightarrow> string option \<Rightarrow> ('s, unit) pio" where
  "delete_stream S ns t v fmt =
     pio_bind (resolved_version S ns t v True) (\<lambda>v'.
     pio_bind (get_stream S ns t v' fmt) (\<lambda>found.
     pio_bind (required StreamNotFoundError found) (\<lambda>old.
     pio_bind (pio_of (stream_data_of old)) (\<lambda>d.
     pio_bind (ss_write S txn_op_type.DELETE (with_content (StreamC (d\<lparr>sd_state := Some commit_state.DEPRECATED\<rparr>)) old) None)
       (\<lambda>_. pio_return ())))))"

subsection \<open>Creating table versions\<close>

text \<open>The first field locator of a key; a nested name is a list, which cannot be looked up in a set.\<close>

definition key_field_known :: "string list \<Rightarrow> field_locator list option \<Rightarrow> bool res" where
  "key_field_known names key = (case key of
     None \<Rightarrow> Inl TypeError
   | Some [] \<Rightarrow> Inl IndexError
   | Some (LName n # _) \<Rightarrow> Inr (n \<in> set names)
   | Some (LPath _ # _) \<Rightarrow> Inl TypeError
   | Some (LId _ # _) \<Rightarrow> Inr False)"

fun check_key_fields :: "string list \<Rightarrow> field_locator list option list \<Rightarrow> unit res" where
  "check_key_fields names [] = Inr ()"
| "check_key_fields names (k # ks) = rbind (key_field_known names k) (\<lambda>known.
     if known then check_key_fields names ks else Inl SchemaValidationError)"

definition validate_schemes_against_schema ::
    "'t schema option \<Rightarrow> partition_key scheme option \<Rightarrow> sort_key scheme option \<Rightarrow> unit res" where
  "validate_schemes_against_schema schema pscheme sscheme = (case schema of
     None \<Rightarrow> Inr ()
   | Some s \<Rightarrow>
       let names = map af_name (as_fields (s_arrow s));
           pkeys = (case pscheme of None \<Rightarrow> [] | Some p \<Rightarrow> (case sc_keys p of None \<Rightarrow> [] | Some ks \<Rightarrow> map (\<lambda>k. Some (pk_key k)) ks));
           skeys = (case sscheme of None \<Rightarrow> [] | Some p \<Rightarrow> (case sc_keys p of None \<Rightarrow> [] | Some ks \<Rightarrow> map sk_key ks))
       in rbind (check_key_fields names pkeys) (\<lambda>_. check_key_fields names skeys))"

text \<open>The identifier of the new version of a table: the next one, which a given one has to agree with in its number.\<close>

definition new_version_id :: "string option \<Rightarrow> table_data \<Rightarrow> string res" where
  "new_version_id table_version d =
     rbind (next_version (td_latest_table_version d)) (\<lambda>expected.
       if \<not> truthy table_version then Inr expected
       else rbind (parse_table_version table_version) (\<lambda>(_, n).
            rbind (parse_table_version (Some expected)) (\<lambda>(_, expected_n).
              if n \<noteq> expected_n then Inl TableVersionAlreadyExistsError else Inr (the table_version))))"

definition registered_table ::
    "string \<Rightarrow> lifecycle_state option \<Rightarrow> string option \<Rightarrow> pyval \<Rightarrow> table_data \<Rightarrow> table_data" where
  "registered_table version lifecycle description properties d =
     d\<lparr>td_description := (if description \<noteq> None then description else td_description d),
       td_properties := (if properties \<noteq> PNone then properties else td_properties d),
       td_latest_table_version := Some version,
       td_latest_active_table_version := (if lifecycle = Some ACTIVE then Some version else None)\<rparr>"

text \<open>How the table is written, the table to start from, its latest version and the new version.\<close>

definition version_target ::
    "string option \<Rightarrow> string option \<Rightarrow> string option \<Rightarrow> 't object option \<Rightarrow> (txn_op_type \<times> 't object \<times> string option \<times> string) res" where
  "version_target ns t table_version prev = (case prev of
     None \<Rightarrow> Inr (CREATE, table_of (table_locator_at ns t) None PNone, None, the (str_or table_version (Some DEFAULT_TABLE_VERSION)))
   | Some p \<Rightarrow> rbind (table_data_of p) (\<lambda>d.
       rbind (new_version_id table_version d) (\<lambda>v. Inr (UPDATE, p, td_latest_table_version d, v))))"

record 't version_args =
  va_lifecycle_state :: "lifecycle_state option"
  va_schema :: "'t schema option"
  va_partition_scheme :: "partition_key scheme option"
  va_sort_keys :: "sort_key scheme option"
  va_description :: "string option"
  va_properties :: pyval
  va_table_description :: "string option"
  va_table_properties :: pyval
  va_content_types :: "content_type list option"

definition created_version_data :: "'t version_args \<Rightarrow> string option \<Rightarrow> 't table_version_data" where
  "created_version_data a previous =
     (let ps = (case va_partition_scheme a of None \<Rightarrow> UNPARTITIONED_SCHEME | Some p \<Rightarrow> p);
          ss = (case va_sort_keys a of None \<Rightarrow> UNSORTED_SCHEME | Some p \<Rightarrow> p)
      in \<lparr>tvd_schema = va_schema a, tvd_partition_scheme = Some ps, tvd_description = va_description a,
          tvd_properties = va_properties a, tvd_content_types = va_content_types a, tvd_sort_scheme = Some ss,
          tvd_watermark = None, tvd_state = va_lifecycle_state a, tvd_schemas = map_option (\<lambda>s. [s]) (va_schema a),
          tvd_partition_schemes = Some [ps], tvd_sort_schemes = Some [ss], tvd_previous_table_version = previous\<rparr>)"

text \<open>\<open>uuid\<close> is the identifier of the default stream.\<close>

definition create_table_version ::
    "('s, 't content) session \<Rightarrow> string \<Rightarrow> string option \<Rightarrow> string option \<Rightarrow> string option \<Rightarrow> 't version_args \<Rightarrow>
     ('s, 't object \<times> 't object \<times> 't object) pio" where
  "create_table_version S uuid ns t table_version a =
     pio_bind (namespace_exists S ns) (\<lambda>there.
     pio_bind (refuse (\<not> there) NamespaceNotFoundError) (\<lambda>_.
     pio_bind (pio_of (validate_schemes_against_schema (va_schema a) (va_partition_scheme a) (va_sort_keys a))) (\<lambda>_.
     pio_bind (get_table S ns t) (\<lambda>prev.
     pio_bind (pio_of (version_target ns t table_version prev)) (\<lambda>(op, base, prev_version, version).
     pio_bind (pio_of (table_data_of base)) (\<lambda>d.
       let new_table = with_content (TableC (registered_table version (va_lifecycle_state a)
                          (va_table_description a) (va_table_properties a) d)) base
       in pio_bind (pio_of (table_version_locator_at ns t (Some version))) (\<lambda>l.
          pio_bind (renaming ObjectAlreadyExistsError TableAlreadyExistsError (ss_write S op new_table prev)) (\<lambda>table'.
          pio_bind (renaming ObjectAlreadyExistsError TableVersionAlreadyExistsError
                      (ss_write S CREATE (table_version_of l (created_version_data a prev_version)) None)) (\<lambda>version'.
          pio_bind (renaming ObjectAlreadyExistsError StreamAlreadyExistsError
                      (ss_write S CREATE (stream_of (stream_locator_of (Some l) (Some uuid) (Some DELTACAT_FORMAT))
                         (tvd_partition_scheme (created_version_data a prev_version)) (Some COMMITTED)) None)) (\<lambda>stream'.
            pio_return (table', version', stream')))))))))))"

subsection \<open>Updating table versions\<close>

definition supported_reader_types_key :: string where
  "supported_reader_types_key = ''supported_reader_types''"

definition dataset_types :: "string list" where
  "dataset_types = [''numpy'', ''pandas'', ''polars'', ''pyarrow'', ''pyarrow_parquet'', ''daft'', ''ray_dataset'']"

text \<open>\<^verbatim>\<open>read_table_property\<close> of the supported reader types: the members of a list have to be dataset types.\<close>

definition read_supported_reader_types :: "pyval \<Rightarrow> pyval res" where
  "read_supported_reader_types properties =
     rbind (case properties of PDict kvs \<Rightarrow> Inr kvs | v \<Rightarrow> if py_truthy v then Inl AttributeError else Inr []) (\<lambda>kvs.
       let value = (case map_of kvs supported_reader_types_key of None \<Rightarrow> PList (map PStr dataset_types) | Some v \<Rightarrow> v)
       in case value of
            PList vs \<Rightarrow> rbind (res_map (\<lambda>v. if v \<in> set (map PStr dataset_types) then Inr v else Inl ValueError) vs)
                          (\<lambda>vs'. Inr (PList vs'))
          | v \<Rightarrow> Inr v)"

text \<open>Python's \<^verbatim>\<open>set(v)\<close>; lists and dictionaries cannot be members.\<close>

fun hashable :: "pyval \<Rightarrow> bool" where
  "hashable (PList vs) = False"
| "hashable (PDict kvs) = False"
| "hashable (PTuple vs) = list_all hashable vs"
| "hashable v = True"

definition py_set :: "pyval \<Rightarrow> pyval list res" where
  "py_set v = rbind (iter_py v) (\<lambda>vs. if list_all hashable vs then Inr (map canon vs) else Inl TypeError)"

definition check_reader_types :: "pyval \<Rightarrow> pyval \<Rightarrow> unit res" where
  "check_reader_types old_properties new_properties =
     rbind (read_supported_reader_types new_properties) (\<lambda>new.
       if \<not> py_truthy new then Inr ()
       else rbind (read_supported_reader_types old_properties) (\<lambda>old.
            rbind (py_set new) (\<lambda>ns.
            rbind (py_set (if py_truthy old then old else PDict [])) (\<lambda>os.
              if set ns \<subseteq> set os then Inr () else Inl TableValidationError))))"

text \<open>The history of schemas or schemes with a changed one added: its identifier has to be new.\<close>

definition extended_history :: "('a \<Rightarrow> 'i res) \<Rightarrow> bool res \<Rightarrow> 'a \<Rightarrow> 'a list option \<Rightarrow> 'a list option res" where
  "extended_history ident same x history =
     rbind same (\<lambda>b. if b then Inr history
       else rbind (ident x) (\<lambda>i.
            rbind (of_option TypeError history) (\<lambda>old.
            rbind (res_map ident old) (\<lambda>ids.
              if i \<in> set ids then Inl TableValidationError else Inr (Some (old @ [x]))))))"

text \<open>The new contents of a table version. A schema is replaced where it differs, a scheme where one is given.\<close>

definition updated_schema :: "'t version_args \<Rightarrow> 't table_version_data \<Rightarrow> 't table_version_data res" where
  "updated_schema a d = (case va_schema a of None \<Rightarrow> Inr d
     | Some s \<Rightarrow> let same = equivalent_to s (tvd_schema d) True in
         rbind (extended_history schema_id (Inr same) s (tvd_schemas d)) (\<lambda>h.
           Inr (d\<lparr>tvd_schema := (if same then tvd_schema d else Some s), tvd_schemas := h\<rparr>)))"

definition updated_partition_scheme :: "'t version_args \<Rightarrow> 't table_version_data \<Rightarrow> 't table_version_data res" where
  "updated_partition_scheme a d = (case va_partition_scheme a of None \<Rightarrow> Inr d
     | Some p \<Rightarrow> rbind (extended_history (\<lambda>s. Inr (sc_id s)) (partition_scheme_equivalent p (tvd_partition_scheme d) True) p
                          (tvd_partition_schemes d))
         (\<lambda>h. Inr (d\<lparr>tvd_partition_scheme := Some p, tvd_partition_schemes := h\<rparr>)))"

definition updated_sort_scheme :: "'t version_args \<Rightarrow> 't table_version_data \<Rightarrow> 't table_version_data res" where
  "updated_sort_scheme a d = (case va_sort_keys a of None \<Rightarrow> Inr d
     | Some p \<Rightarrow> rbind (extended_history (\<lambda>s. Inr (sc_id s)) (sort_scheme_equivalent p (tvd_sort_scheme d) True) p
                          (tvd_sort_schemes d))
         (\<lambda>h. Inr (d\<lparr>tvd_sort_scheme := Some p, tvd_sort_schemes := h\<rparr>)))"

definition updated_table_version :: "'t version_args \<Rightarrow> 't table_version_data \<Rightarrow> 't table_version_data res" where
  "updated_table_version a old =
     rbind (validate_schemes_against_schema (if va_schema a \<noteq> None then va_schema a else tvd_schema old)
              (va_partition_scheme a) (va_sort_keys a)) (\<lambda>_.
     rbind (updated_schema a (old\<lparr>tvd_state := (if va_lifecycle_state a \<noteq> None then va_lifecycle_state a else tvd_state old)\<rparr>)) (\<lambda>d.
       let d' = d\<lparr>tvd_description := (if va_description a \<noteq> None then va_description a else tvd_description old),
                  tvd_properties := (if va_properties a \<noteq> PNone then va_properties a else tvd_properties old)\<rparr>
       in rbind (check_reader_types (tvd_properties old) (tvd_properties d')) (\<lambda>_.
          rbind (updated_partition_scheme a d') (updated_sort_scheme a))))"

text \<open>The table whose version becomes active names the version, unless it already names a later one.\<close>

definition activated_table :: "string option \<Rightarrow> table_data \<Rightarrow> table_data option res" where
  "activated_table version d =
     rbind (if truthy (td_latest_active_table_version d) then current_version_number (td_latest_active_table_version d)
            else Inr None) (\<lambda>old_number.
     rbind (parse_table_version version) (\<lambda>(_, number).
       Inr (if (case old_number of None \<Rightarrow> True | Some n \<Rightarrow> n < number)
            then Some (d\<lparr>td_latest_active_table_version := version\<rparr>) else None)))"

definition update_table_version ::
    "('s, 't content) session \<Rightarrow> string option \<Rightarrow> string option \<Rightarrow> string option \<Rightarrow> 't version_args \<Rightarrow>
     ('s, 't object option \<times> 't object \<times> 't object option) pio" where
  "update_table_version S ns t v a =
     pio_bind (get_table_version S ns t v) (\<lambda>found.
     pio_bind (required TableVersionNotFoundError found) (\<lambda>old.
     pio_bind (pio_of (table_version_data_of old)) (\<lambda>old_d.
     pio_bind (pio_of (updated_table_version a old_d)) (\<lambda>d.
     pio_bind (get_table S ns t) (\<lambda>found_table.
     pio_bind (if va_lifecycle_state a = Some ACTIVE \<and> tvd_state old_d \<noteq> Some ACTIVE
               then pio_bind (required AttributeError found_table) (\<lambda>table.
                    pio_bind (pio_of (table_data_of table)) (\<lambda>td.
                    pio_bind (pio_of (activated_table v td)) (\<lambda>new_td. case new_td of
                      None \<Rightarrow> pio_return None
                    | Some td' \<Rightarrow> pio_bind (ss_write S UPDATE (with_content (TableC td') table) (Some table))
                        (\<lambda>w. pio_return (Some w)))))
               else pio_return None) (\<lambda>new_table.
     pio_bind (renaming ObjectAlreadyExistsError TableVersionAlreadyExistsError
                 (ss_write S UPDATE (with_content (TableVersionC d) old) (Some old))) (\<lambda>new_version.
     pio_bind (case va_partition_scheme a of
                 None \<Rightarrow> pio_return None
               | Some p \<Rightarrow>
                   pio_bind (get_stream S ns t v (Some DELTACAT_FORMAT)) (\<lambda>found_stream.
                   pio_bind (required AttributeError found_stream) (\<lambda>stream.
                   pio_bind (pio_of (stream_data_of stream)) (\<lambda>sd.
                   pio_bind (ss_write S UPDATE (with_content (StreamC (sd\<lparr>sd_partition_scheme := Some p\<rparr>)) stream) (Some stream))
                     (\<lambda>w. pio_return (Some w)))))) (\<lambda>new_stream.
       pio_return (new_table, new_version, new_stream)))))))))"

end
