(* ===== verification/StorageDeltas.thy ===== *)
theory StorageDeltas
  imports Storage
begin

text \<open>
  The storage operations of \<^verbatim>\<open>storage/main/impl.py\<close> on partitions and deltas. Identifiers that the code draws
  with \<^verbatim>\<open>uuid4\<close> are arguments. Partition values are Python values where they are checked, and the text
  by which locators name them elsewhere; \<open>str_list\<close> is \<^verbatim>\<open>str\<close> of a list. The function that writes the slices of a
  table is an argument of the code itself.
\<close>

subsection \<open>Looking up partitions\<close>

definition get_partition_by_id ::
    "('s, 't content) session \<Rightarrow> stream_locator option \<Rightarrow> string option \<Rightarrow> ('s, 't object option) pio" where
  "get_partition_by_id S sl pid = storage_latest S (partition_of (partition_locator_of sl None pid) None None None)"

text \<open>
  Without a scheme identifier or without a stream identifier both come from the committed stream, even
  where the other one was given.
\<close>

definition get_partition ::
    "('s, 't content) session \<Rightarrow> stream_locator option \<Rightarrow> string option \<Rightarrow> string option \<Rightarrow> ('s, 't object option) pio" where
  "get_partition S sl partition_values scheme_id =
     pio_bind (if truthy scheme_id \<and> (case sl of None \<Rightarrow> False | Some l \<Rightarrow> truthy (sl_stream_id l))
               then pio_return (sl, scheme_id)
               else pio_bind (required AttributeError sl) (\<lambda>l.
                    pio_bind (get_stream S (sl_namespace l) (sl_table_name l) (sl_table_version l) (Some DELTACAT_FORMAT)) (\<lambda>found.
                    pio_bind (required StreamNotFoundError found) (\<lambda>stream.
                    pio_bind (pio_of (stream_data_of stream)) (\<lambda>d.
                    pio_bind (required AttributeError (sd_partition_scheme d)) (\<lambda>scheme.
                    pio_bind (pio_of (stream_locator_of_object stream)) (\<lambda>l'.
                      pio_return (Some l', sc_id scheme)))))))) (\<lambda>(l, sid).
       storage_latest S (partition_of (partition_locator_of l partition_values None) None (Some COMMITTED) sid))"

definition placeholder_partition :: "stream_locator \<Rightarrow> 't object" where
  "placeholder_partition l =
     partition_of (partition_locator_of (Some l) (Some (''['' @ [CHR 0x27] @ ''placeholder'' @ [CHR 0x27] @ '']'')) (Some ''placeholder'')) None None None"

definition list_partitions ::
    "('s, 't content) session \<Rightarrow> string option \<Rightarrow> string option \<Rightarrow> string option \<Rightarrow> int option \<Rightarrow> ('s, 't object option list) pio" where
  "list_partitions S ns t v limit =
     pio_bind (refuse (\<not> truthy ns) ValueError) (\<lambda>_.
     pio_bind (refuse (\<not> truthy t) ValueError) (\<lambda>_.
     pio_bind (get_stream S ns t v (Some DELTACAT_FORMAT)) (\<lambda>found.
     pio_bind (required StreamNotFoundError found) (\<lambda>stream.
     pio_bind (pio_of (stream_locator_of_object stream)) (\<lambda>l.
       renaming ObjectNotFoundError StreamNotFoundError (storage_list S (placeholder_partition l) READ_SIBLINGS limit))))))"

definition list_stream_partitions ::
    "('s, 't content) session \<Rightarrow> 't object \<Rightarrow> int option \<Rightarrow> ('s, 't object option list) pio" where
  "list_stream_partitions S stream limit =
     pio_bind (pio_of (stream_locator_of_object stream)) (\<lambda>l.
     pio_bind (refuse (sl_format l \<noteq> Some DELTACAT_FORMAT) ValueError) (\<lambda>_.
       renaming ObjectNotFoundError StreamNotFoundError (storage_list S (placeholder_partition l) READ_SIBLINGS limit)))"

subsection \<open>Staging, committing and deleting partitions\<close>

text \<open>\<open>int32\<close> and \<open>null\<close> are the types of that name of the array library.\<close>

definition transform_return_type :: "'t \<Rightarrow> 't \<Rightarrow> transform \<Rightarrow> 't option" where
  "transform_return_type int32 null tr =
     map_option (\<lambda>r. case r of Int32Return \<Rightarrow> int32 | NullReturn \<Rightarrow> null) (t_return_type tr)"

definition partition_field_type :: "'t arrow \<Rightarrow> 't \<Rightarrow> 't \<Rightarrow> 't schema \<Rightarrow> partition_key \<Rightarrow> 't res" where
  "partition_field_type A int32 null s k =
     rbind (of_option AttributeError (pk_transform k)) (\<lambda>tr.
       case transform_return_type int32 null tr of
         Some ty \<Rightarrow> Inr ty
       | None \<Rightarrow> (case pk_key k of
           [] \<Rightarrow> Inl IndexError
         | loc # _ \<Rightarrow> rbind (schema_field A s loc) (\<lambda>f. Inr (af_type (f_arrow f)))))"

fun check_partition_value :: "'t arrow \<Rightarrow> 't \<Rightarrow> pyval \<Rightarrow> unit res" where
  "check_partition_value A ty v = (case pa_array_of A v ty of
     None \<Rightarrow> Inr ()
   | Some ArrowInvalid \<Rightarrow> Inl TableValidationError
   | Some ArrowTypeError \<Rightarrow> Inl TableValidationError
   | Some e \<Rightarrow> Inl (raised e))"

fun check_partition_values ::
    "'t arrow \<Rightarrow> 't \<Rightarrow> 't \<Rightarrow> 't schema \<Rightarrow> partition_key list \<Rightarrow> pyval list \<Rightarrow> unit res" where
  "check_partition_values A int32 null s (k # ks) (v # vs) =
     rbind (partition_field_type A int32 null s k) (\<lambda>ty.
     rbind (check_partition_value A ty v) (\<lambda>_. check_partition_values A int32 null s ks vs))"
| "check_partition_values A int32 null s _ _ = Inr ()"

definition validate_partition_values_against_scheme ::
    "'t arrow \<Rightarrow> 't \<Rightarrow> 't \<Rightarrow> pyval list \<Rightarrow> partition_key scheme \<Rightarrow> 't schema option \<Rightarrow> unit res" where
  "validate_partition_values_against_scheme A int32 null vs scheme schema =
     (if vs = [] then Inl TableValidationError
      else case schema of None \<Rightarrow> Inl TableValidationError
      | Some s \<Rightarrow> rbind (of_option TypeError (sc_keys scheme)) (\<lambda>ks.
          if length vs \<noteq> length ks then Inl TableValidationError
          else check_partition_values A int32 null s ks vs))"

definition staged_scheme_id :: "pyval list \<Rightarrow> string option \<Rightarrow> partition_key scheme option \<Rightarrow> string option res" where
  "staged_scheme_id vs scheme_id stream_scheme =
     (if vs = [] then Inr (Some UNPARTITIONED_SCHEME_ID)
      else if scheme_id = None then rbind (of_option AttributeError stream_scheme) (\<lambda>p. Inr (sc_id p))
      else Inr scheme_id)"

text \<open>The checks of \<^verbatim>\<open>stage_partition\<close> against the parent table version; the result is the identifier of the scheme.\<close>

definition check_staged_partition ::
    "'t arrow \<Rightarrow> 't \<Rightarrow> 't \<Rightarrow> pyval list \<Rightarrow> string option \<Rightarrow> stream_data \<Rightarrow> 't table_version_data \<Rightarrow> string option res" where
  "check_staged_partition A int32 null vs scheme_id sd tvd =
     rbind (staged_scheme_id vs scheme_id (sd_partition_scheme sd)) (\<lambda>sid.
       let schemes = (case tvd_partition_schemes tvd of None \<Rightarrow> [] | Some ps \<Rightarrow> ps)
       in if sid \<notin> set (map sc_id schemes) then Inl TableValidationError
          else rbind (of_option AttributeError (sd_partition_scheme sd)) (\<lambda>p.
            if sc_id p \<notin> set (map sc_id schemes) then Inl TableValidationError
            else if vs = [] then Inr sid
            else if sid = Some UNPARTITIONED_SCHEME_ID then Inl TableValidationError
            else rbind (validate_partition_values_against_scheme A int32 null vs
                          (the (find (\<lambda>ps. sc_id ps = sid) schemes)) (tvd_schema tvd)) (\<lambda>_. Inr sid)))"

definition values_text :: "(pyval list \<Rightarrow> string) \<Rightarrow> pyval list \<Rightarrow> string option" where
  "values_text str_list vs = (if vs = [] then None else Some (str_list vs))"

definition stage_partition ::
    "'t arrow \<Rightarrow> 't \<Rightarrow> 't \<Rightarrow> (pyval list \<Rightarrow> string) \<Rightarrow> ('s, 't content) session \<Rightarrow> string \<Rightarrow> 't object \<Rightarrow>
     pyval list \<Rightarrow> string option \<Rightarrow> ('s, 't object) pio" where
  "stage_partition A int32 null str_list S uuid stream vs scheme_id =
     pio_bind (pio_of (stream_locator_of_object stream)) (\<lambda>l.
     pio_bind (get_table_version S (sl_namespace l) (sl_table_name l) (sl_table_version l)) (\<lambda>found.
     pio_bind (required TableVersionNotFoundError found) (\<lambda>tv.
     pio_bind (pio_of (table_version_data_of tv)) (\<lambda>tvd.
     pio_bind (pio_of (stream_data_of stream)) (\<lambda>sd.
     pio_bind (pio_of (check_staged_partition A int32 null vs scheme_id sd tvd)) (\<lambda>sid.
     pio_bind (get_partition S (Some l) (values_text str_list vs) sid) (\<lambda>prev.
     pio_bind (case prev of
                 None \<Rightarrow> pio_return None
               | Some p \<Rightarrow> pio_bind (pio_of (partition_locator_of_object p)) (\<lambda>pl. pio_return (pl_partition_id pl))) (\<lambda>prev_id.
     pio_bind (refuse (prev_id = Some uuid) TableValidationError) (\<lambda>_.
       renaming ObjectAlreadyExistsError PartitionAlreadyExistsError
         (ss_write S CREATE (new_object
            (PartitionLoc (partition_locator_of (Some l) (values_text str_list vs) (Some uuid)))
            (PartitionC \<lparr>pd_content_types = tvd_content_types tvd, pd_state = Some STAGED, pd_previous_stream_position = None,
               pd_previous_partition_id = prev_id, pd_stream_position = None, pd_partition_scheme_id = sid,
               pd_compaction_round_completion_info = PNone\<rparr>)) None))))))))))"

definition committed_partition :: "partition_data \<Rightarrow> partition_data \<Rightarrow> 't object \<Rightarrow> 't object" where
  "committed_partition given d staged = with_content (PartitionC (d\<lparr>pd_state := Some COMMITTED,
     pd_compaction_round_completion_info :=
       (if pd_compaction_round_completion_info given \<noteq> PNone then pd_compaction_round_completion_info given
        else pd_compaction_round_completion_info d)\<rparr>)) staged"

text \<open>
  The partition given to \<^verbatim>\<open>commit_partition\<close> names the staged one and says what it expects to replace: only
  where it names a previous partition is the committed one looked up.
\<close>

definition commit_partition ::
    "('s, 't content) session \<Rightarrow> partition_locator \<Rightarrow> partition_data \<Rightarrow> bool \<Rightarrow> ('s, 't object) pio" where
  "commit_partition S pl pd previous_given =
     pio_bind (refuse previous_given NotImplementedError) (\<lambda>_.
     pio_bind (refuse (\<not> truthy (pl_partition_id pl)) ValueError) (\<lambda>_.
     pio_bind (refuse (pl_stream_locator pl = None) ValueError) (\<lambda>_.
     pio_bind (get_partition_by_id S (pl_stream_locator pl) (pl_partition_id pl)) (\<lambda>found.
     pio_bind (required PartitionNotFoundError found) (\<lambda>staged.
     pio_bind (pio_of (partition_data_of staged)) (\<lambda>d.
     pio_bind (refuse (pd_state d \<noteq> Some STAGED) TableValidationError) (\<lambda>_.
     pio_bind (if pd_previous_partition_id pd = None then pio_return None
               else get_partition S (pl_stream_locator pl) (pl_partition_values pl) (pd_partition_scheme_id pd)) (\<lambda>committed.
       let new = committed_partition pd d staged
       in (case committed of
             None \<Rightarrow> ss_write S UPDATE new (Some staged)
           | Some c \<Rightarrow>
               pio_bind (pio_of (partition_locator_of_object c)) (\<lambda>cl.
               pio_bind (refuse (pl_partition_id cl \<noteq> pd_previous_partition_id pd) ConcurrentModificationError) (\<lambda>_.
               pio_bind (refuse (pl_partition_id cl = pl_partition_id pl) TableValidationError) (\<lambda>_.
               pio_bind (ss_write S REPLACE new (Some staged)) (\<lambda>written.
                 ss_write S REPLACE written (Some c))))))))))))))"

definition delete_partition ::
    "('s, 't content) session \<Rightarrow> stream_locator option \<Rightarrow> string option \<Rightarrow> string option \<Rightarrow> ('s, unit) pio" where
  "delete_partition S sl partition_values scheme_id =
     pio_bind (get_partition S sl partition_values scheme_id) (\<lambda>found.
     pio_bind (required PartitionNotFoundError found) (\<lambda>old.
     pio_bind (pio_of (partition_data_of old)) (\<lambda>d.
     pio_bind (ss_write S txn_op_type.DELETE (with_content (PartitionC (d\<lparr>pd_state := Some commit_state.DEPRECATED\<rparr>)) old) None)
       (\<lambda>_. pio_return ()))))"

subsection \<open>Listing deltas\<close>

definition delta_position :: "'t object option \<Rightarrow> int option res" where
  "delta_position m = rbind (of_option AttributeError m) (\<lambda>d. rbind (delta_locator_of_object d) (\<lambda>l. Inr (dl_stream_position l)))"

definition position_check :: "(int \<Rightarrow> int \<Rightarrow> bool) \<Rightarrow> int option \<Rightarrow> 't object option \<Rightarrow> bool res" where
  "position_check le bound m = (case bound of None \<Rightarrow> Inr True
     | Some b \<Rightarrow> rbind (delta_position m) (\<lambda>pos. rbind (of_option TypeError pos) (\<lambda>n. Inr (le b n))))"

definition in_range :: "int option \<Rightarrow> int option \<Rightarrow> 't object option \<Rightarrow> bool res" where
  "in_range lo hi m = rbind (position_check (\<le>) lo m) (\<lambda>b. if b then position_check (\<ge>) hi m else Inr False)"

fun res_filter :: "('a \<Rightarrow> bool res) \<Rightarrow> 'a list \<Rightarrow> 'a list res" where
  "res_filter p [] = Inr []"
| "res_filter p (x # xs) = rbind (p x) (\<lambda>b. rbind (res_filter p xs) (\<lambda>ys. Inr (if b then x # ys else ys)))"

text \<open>Sorting computes the key of every delta, and compares keys where there are two.\<close>

definition sort_by_position :: "bool \<Rightarrow> 't object option list \<Rightarrow> 't object option list res" where
  "sort_by_position ascending ms =
     rbind (res_map delta_position ms) (\<lambda>ps.
       if 1 < length ps \<and> None \<in> set ps then Inl TypeError
       else let keyed = zip (map (\<lambda>p. case p of None \<Rightarrow> 0 | Some n \<Rightarrow> n) ps) ms
            in Inr (map snd (if ascending then sort_key fst keyed else sort_desc fst keyed)))"

definition selected_deltas ::
    "int option \<Rightarrow> int option \<Rightarrow> bool \<Rightarrow> 't object option list \<Rightarrow> 't object option list res" where
  "selected_deltas lo hi ascending ms =
     rbind (res_filter (in_range lo hi) ms) (sort_by_position ascending)"

definition bad_range :: "int option \<Rightarrow> int option \<Rightarrow> bool" where
  "bad_range lo hi \<longleftrightarrow> (case (lo, hi) of (Some a, Some b) \<Rightarrow> b < a | _ \<Rightarrow> False)"

definition list_partition_deltas ::
    "('s, 't content) session \<Rightarrow> partition_locator option \<Rightarrow> int option \<Rightarrow> int option \<Rightarrow> bool \<Rightarrow> int option \<Rightarrow>
     ('s, 't object option list) pio" where
  "list_partition_deltas S pl lo hi ascending limit =
     pio_bind (refuse (bad_range lo hi) ValueError) (\<lambda>_.
     pio_bind (renaming ObjectNotFoundError PartitionNotFoundError
                 (storage_list S (delta_object (delta_locator_of pl None) no_delta_data) READ_SIBLINGS limit)) (\<lambda>ms.
       pio_of (selected_deltas lo hi ascending ms)))"

text \<open>The partition of a table version, which the operations below start from.\<close>

definition resolved_partition ::
    "('s, 't content) session \<Rightarrow> string option \<Rightarrow> string option \<Rightarrow> string option \<Rightarrow> string option \<Rightarrow> string option \<Rightarrow>
     ('s, 't object) pio" where
  "resolved_partition S ns t v partition_values scheme_id =
     pio_bind (get_stream S ns t v (Some DELTACAT_FORMAT)) (\<lambda>found.
     pio_bind (required StreamNotFoundError found) (\<lambda>stream.
     pio_bind (pio_of (stream_locator_of_object stream)) (\<lambda>l.
     pio_bind (get_partition S (Some l) partition_values scheme_id) (\<lambda>found'.
       required PartitionNotFoundError found'))))"

definition list_deltas ::
    "('s, 't content) session \<Rightarrow> string option \<Rightarrow> string option \<Rightarrow> string option \<Rightarrow> string option \<Rightarrow> string option \<Rightarrow>
     int option \<Rightarrow> int option \<Rightarrow> bool \<Rightarrow> int option \<Rightarrow> ('s, 't object option list) pio" where
  "list_deltas S ns t v partition_values scheme_id lo hi ascending limit =
     pio_bind (refuse (bad_range lo hi) ValueError) (\<lambda>_.
     pio_bind (resolved_partition S ns t v partition_values scheme_id) (\<lambda>p.
     pio_bind (pio_of (partition_locator_of_object p)) (\<lambda>pl.
       list_partition_deltas S (Some pl) lo hi ascending limit)))"

subsection \<open>Reading deltas\<close>

definition get_partition_delta ::
    "('s, 't content) session \<Rightarrow> partition_locator \<Rightarrow> int \<Rightarrow> ('s, 't object option) pio" where
  "get_partition_delta S pl pos = storage_latest S (delta_object (delta_locator_of (Some pl) (Some pos)) no_delta_data)"

definition without_manifest :: "'t object \<Rightarrow> 't object res" where
  "without_manifest m = rbind (delta_data_of m) (\<lambda>d. Inr (with_content (DeltaC (d\<lparr>dd_manifest := None\<rparr>)) m))"

definition read_delta ::
    "('s, 't content) session \<Rightarrow> partition_locator \<Rightarrow> int \<Rightarrow> bool \<Rightarrow> ('s, 't object option) pio" where
  "read_delta S pl pos include_manifest =
     pio_bind (get_partition_delta S pl pos) (\<lambda>found. case found of
       None \<Rightarrow> pio_return None
     | Some d \<Rightarrow> if include_manifest then pio_return (Some d)
                 else pio_bind (pio_of (without_manifest d)) (\<lambda>d'. pio_return (Some d')))"

definition get_delta ::
    "('s, 't content) session \<Rightarrow> string option \<Rightarrow> string option \<Rightarrow> string option \<Rightarrow> string option \<Rightarrow> string option \<Rightarrow>
     int \<Rightarrow> bool \<Rightarrow> ('s, 't object option) pio" where
  "get_delta S ns t v partition_values scheme_id pos include_manifest =
     pio_bind (resolved_partition S ns t v partition_values scheme_id) (\<lambda>p.
     pio_bind (pio_of (partition_locator_of_object p)) (\<lambda>pl. read_delta S pl pos include_manifest))"

definition get_latest_delta ::
    "('s, 't content) session \<Rightarrow> string option \<Rightarrow> string option \<Rightarrow> string option \<Rightarrow> string option \<Rightarrow> string option \<Rightarrow>
     bool \<Rightarrow> ('s, 't object option) pio" where
  "get_latest_delta S ns t v partition_values scheme_id include_manifest =
     pio_bind (resolved_partition S ns t v partition_values scheme_id) (\<lambda>p.
     pio_bind (pio_of (partition_locator_of_object p)) (\<lambda>pl.
     pio_bind (pio_of (partition_data_of p)) (\<lambda>d.
       case pd_stream_position d of
         None \<Rightarrow> pio_return None
       | Some pos \<Rightarrow> if pos = 0 then pio_return None else read_delta S pl pos include_manifest)))"

text \<open>A manifest is always a non-empty dictionary.\<close>

definition get_delta_manifest :: "('s, 't content) session \<Rightarrow> delta_locator \<Rightarrow> ('s, manifest) pio" where
  "get_delta_manifest S dl =
     pio_bind (storage_latest S (delta_object dl no_delta_data)) (\<lambda>found.
     pio_bind (required DeltaNotFoundError found) (\<lambda>m.
     pio_bind (pio_of (delta_data_of m)) (\<lambda>d. required DeltaNotFoundError (dd_manifest d))))"

subsection \<open>Staging deltas\<close>

record 't writer_kwargs =
  wk_schema_id :: "int option option"
  wk_schema :: "'t arrow_schema option"
  wk_sort_scheme_id :: "string option"

text \<open>The schema is one of DeltaCAT's, whose identifier is passed on too, or one of the array library.\<close>

definition with_schema :: "('t schema + 't arrow_schema) option \<Rightarrow> 't writer_kwargs \<Rightarrow> 't writer_kwargs res" where
  "with_schema schema k = (case schema of
     None \<Rightarrow> Inr k
   | Some (Inl s) \<Rightarrow> rbind (schema_id s) (\<lambda>i.
       Inr (k\<lparr>wk_schema_id := Some i, wk_schema := (if wk_schema k = None then Some (s_arrow s) else wk_schema k)\<rparr>))
   | Some (Inr p) \<Rightarrow> Inr (k\<lparr>wk_schema := (if wk_schema k = None then Some p else wk_schema k)\<rparr>))"

definition write_table ::
    "('t writer_kwargs \<Rightarrow> ('s, manifest_entry list) pio) \<Rightarrow> string \<Rightarrow> manifest_author option \<Rightarrow> entry_type option \<Rightarrow>
     pyval \<Rightarrow> 't writer_kwargs \<Rightarrow> ('s, manifest) pio" where
  "write_table write_table_slices uuid author entry_type entry_params k =
     pio_bind (write_table_slices k) (\<lambda>es. pio_of (manifest_of uuid (Some es) author (Some uuid) entry_type entry_params))"

definition stage_delta ::
    "(string option \<Rightarrow> 't writer_kwargs \<Rightarrow> ('s, manifest_entry list) pio) \<Rightarrow> string \<Rightarrow> partition_locator \<Rightarrow> partition_data \<Rightarrow>
     delta_type option \<Rightarrow> manifest_author option \<Rightarrow> pyval \<Rightarrow> 't writer_kwargs \<Rightarrow> content_type \<Rightarrow> pyval \<Rightarrow> entry_type option \<Rightarrow>
     ('t schema + 't arrow_schema) option \<Rightarrow> string option \<Rightarrow> ('s, 't object) pio" where
  "stage_delta write_table_slices uuid pl pd delta_type author properties k content_type entry_params entry_type schema sort_scheme_id =
     pio_bind (refuse (\<not> is_supported_content_type pd content_type) TableValidationError) (\<lambda>_.
     pio_bind (refuse (pd_state pd = Some commit_state.DEPRECATED) TableValidationError) (\<lambda>_.
     pio_bind (pio_of (with_schema schema k)) (\<lambda>k'.
       let k'' = (if sort_scheme_id \<noteq> None then k'\<lparr>wk_sort_scheme_id := sort_scheme_id\<rparr> else k')
       in pio_bind (write_table (write_table_slices (pl_partition_id pl)) uuid author entry_type entry_params k'') (\<lambda>manifest.
          pio_return (delta_object (delta_locator_of (Some pl) None)
            \<lparr>dd_type = delta_type, dd_meta = mn_meta manifest, dd_properties = properties, dd_manifest = Some manifest,
             dd_previous_stream_position = (if delta_type \<noteq> Some ADD then pd_stream_position pd else None)\<rparr>)))))"

subsection \<open>Committing deltas\<close>

definition UNSIGNED_INT32_MAX_VALUE :: int where
  "UNSIGNED_INT32_MAX_VALUE = 2 ^ 32 - 1"

text \<open>The position of an unordered delta: identifiers are drawn until their lower 63 bits exceed the reserved range.\<close>

partial_function (option) draw_position :: "(nat \<Rightarrow> nat) \<Rightarrow> nat \<Rightarrow> int option" where
  "draw_position uuids i =
     (let p = int (uuids i) mod 2 ^ 63
      in if p \<le> UNSIGNED_INT32_MAX_VALUE then draw_position uuids (Suc i) else Some p)"

declare draw_position.simps [code]

text \<open>The position of the delta, and its previous position where it is ordered.\<close>

definition delta_target ::
    "(nat \<Rightarrow> nat) \<Rightarrow> delta_type \<Rightarrow> int option \<Rightarrow> int option \<Rightarrow> (int \<times> int option) res option" where
  "delta_target uuids type parent_position position =
     (if type = ADD then map_option (\<lambda>p. Inr (p, None)) (draw_position uuids 0)
      else let previous = (case parent_position of None \<Rightarrow> 0 | Some n \<Rightarrow> n)
           in case position of
                None \<Rightarrow> Some (Inr (previous + 1, Some previous))
              | Some p \<Rightarrow> if p \<le> previous then Some (Inl TableValidationError) else Some (Inr (p, Some previous)))"

definition committed_delta ::
    "pyval \<Rightarrow> delta_type \<Rightarrow> partition_locator \<Rightarrow> int \<Rightarrow> int option \<Rightarrow> delta_data \<Rightarrow> 't object \<Rightarrow> 't object" where
  "committed_delta properties type pl pos previous d delta =
     with_locator (DeltaLoc (delta_locator_of (Some pl) (Some pos)))
       (with_content (DeltaC (d\<lparr>dd_type := Some type,
          dd_properties := (if py_truthy properties then properties else dd_properties d),
          dd_previous_stream_position := (if previous \<noteq> None then previous else dd_previous_stream_position d)\<rparr>)) delta)"

definition resolved_delta_type :: "delta_data \<Rightarrow> delta_type" where
  "resolved_delta_type d = (case dd_type d of None \<Rightarrow> UPSERT | Some ty \<Rightarrow> ty)"

definition delta_parent :: "('s, 't content) session \<Rightarrow> delta_locator \<Rightarrow> ('s, 't object option) pio" where
  "delta_parent S dl =
     (if truthy (dl_partition_id dl) then get_partition_by_id S (dl_stream_locator dl) (dl_partition_id dl)
      else get_partition S (dl_stream_locator dl) (dl_partition_values dl) None)"

definition commit_delta ::
    "(nat \<Rightarrow> nat) \<Rightarrow> pyval \<Rightarrow> ('s, 't content) session \<Rightarrow> 't object \<Rightarrow> ('s, 't object) pio" where
  "commit_delta uuids properties S delta =
     pio_bind (pio_of (delta_data_of delta)) (\<lambda>d.
     pio_bind (pio_of (delta_locator_of_object delta)) (\<lambda>dl.
       let type = resolved_delta_type d
       in pio_bind (delta_parent S dl) (\<lambda>found.
          pio_bind (required PartitionNotFoundError found) (\<lambda>parent.
          pio_bind (pio_of (partition_data_of parent)) (\<lambda>pd.
          pio_bind (pio_of (partition_locator_of_object parent)) (\<lambda>pl.
          pio_bind (pio_ask (\<lambda>_. delta_target uuids type (pd_stream_position pd) (dl_stream_position dl))) (\<lambda>(pos, previous).
          pio_bind (renaming ObjectAlreadyExistsError DeltaAlreadyExistsError
                      (ss_write S CREATE (committed_delta properties type pl pos previous d delta) None)) (\<lambda>written.
          pio_bind (if type = ADD then pio_return parent
                    else ss_write S UPDATE (with_content (PartitionC (pd\<lparr>pd_stream_position := Some pos\<rparr>)) parent) (Some parent)) (\<lambda>_.
            pio_return written)))))))))"

end
