(* ===== verification/StorageLaws.thy ===== *)
theory StorageLaws
  imports StorageDeltas TransactionLifecycle
begin

text \<open>
  What every storage operation does to the state it runs on, from what a single step of its session
  does. \<open>keeps R m\<close> says that a run of \<open>m\<close> relates its states by \<open>R\<close>; the rules \<open>keeps_intros\<close> follow the composition of an
  operation. The locale \<open>session_reads\<close> is a session whose reading steps keep \<open>R\<close>, and then all reading operations do;
  \<open>session_steps\<close> is one whose writing steps do as well. They are interpreted on the sessions of transactions and on
  \<open>recording\<close>, the session that notes the writes an operation asks for.
\<close>

named_theorems keeps_intros

definition keeps :: "('s \<Rightarrow> 's \<Rightarrow> bool) \<Rightarrow> ('s, 'a) pio \<Rightarrow> bool" where
  "keeps R m \<longleftrightarrow> (\<forall>s r s'. m s = Some (r, s') \<longrightarrow> R s s')"

lemma keepsI: "(\<And>s r s'. m s = Some (r, s') \<Longrightarrow> R s s') \<Longrightarrow> keeps R m"
  by (simp add: keeps_def)

lemma keepsD: "keeps R m \<Longrightarrow> m s = Some (r, s') \<Longrightarrow> R s s'"
  by (simp add: keeps_def)

lemma keeps_if [keeps_intros]: "keeps R m \<Longrightarrow> keeps R m' \<Longrightarrow> keeps R (if b then m else m')"
  by simp

lemma keeps_case_option [keeps_intros]: "keeps R m \<Longrightarrow> (\<And>x. keeps R (f x)) \<Longrightarrow> keeps R (case x of None \<Rightarrow> m | Some y \<Rightarrow> f y)"
  by (cases x) simp_all

lemma keeps_case_prod [keeps_intros]: "(\<And>x y. keeps R (f x y)) \<Longrightarrow> keeps R (case p of (x, y) \<Rightarrow> f x y)"
  by (cases p) simp

lemma keeps_Let [keeps_intros]: "keeps R (f x) \<Longrightarrow> keeps R (let y = x in f y)"
  by (simp add: Let_def)

subsection \<open>Sessions whose steps keep a relation\<close>

locale session_reads =
  fixes S :: "('s, 't content) session" and R :: "'s \<Rightarrow> 's \<Rightarrow> bool"
  assumes kept_refl: "R s s"
    and kept_trans: "R s t \<Longrightarrow> R t u \<Longrightarrow> R s u"
    and kept_read: "is_read_operation k \<Longrightarrow> ss_read S k m limit s = Some (r, s') \<Longrightarrow> R s s'"
begin

lemma keeps_return [keeps_intros]: "keeps R (pio_return x)"
  by (simp add: keeps_def kept_refl)

lemma keeps_raise [keeps_intros]: "keeps R (pio_raise e)"
  by (simp add: keeps_def kept_refl)

lemma keeps_of [keeps_intros]: "keeps R (pio_of r)"
  by (simp add: keeps_def pio_of_def kept_refl)

lemma keeps_ask [keeps_intros]: "keeps R (pio_ask f)"
  by (auto simp: keeps_def pio_ask_def kept_refl)

lemma keeps_bind [keeps_intros]:
  assumes "keeps R m" "\<And>x. keeps R (f x)"
  shows "keeps R (pio_bind m f)"
proof (rule keepsI)
  fix s r s' assume "pio_bind m f s = Some (r, s')"
  then obtain q t where q: "m s = Some (q, t)" by (auto simp: pio_bind_def split: option.splits)
  show "R s s'"
  proof (cases q)
    case (Inl e)
    then show ?thesis using q \<open>pio_bind m f s = _\<close> keepsD [OF assms(1) q] by (simp add: pio_bind_def)
  next
    case (Inr x)
    then have "f x t = Some (r, s')" using q \<open>pio_bind m f s = _\<close> by (simp add: pio_bind_def)
    then show ?thesis using kept_trans [OF keepsD [OF assms(1) q] keepsD [OF assms(2)]] by blast
  qed
qed

lemma keeps_try [keeps_intros]:
  assumes "keeps R m" "\<And>e. keeps R (h e)"
  shows "keeps R (pio_try m h)"
proof (rule keepsI)
  fix s r s' assume "pio_try m h s = Some (r, s')"
  then obtain q t where q: "m s = Some (q, t)" by (auto simp: pio_try_def split: option.splits)
  show "R s s'"
  proof (cases q)
    case (Inr x)
    then show ?thesis using q \<open>pio_try m h s = _\<close> keepsD [OF assms(1) q] by (simp add: pio_try_def)
  next
    case (Inl e)
    then have "h e t = Some (r, s')" using q \<open>pio_try m h s = _\<close> by (simp add: pio_try_def)
    then show ?thesis using kept_trans [OF keepsD [OF assms(1) q] keepsD [OF assms(2)]] by blast
  qed
qed

lemma keeps_renaming [keeps_intros]: "keeps R m \<Longrightarrow> keeps R (renaming e e' m)"
  unfolding renaming_def by (intro keeps_intros)

lemma keeps_required [keeps_intros]: "keeps R (required e x)"
  unfolding required_def by (intro keeps_intros)

lemma keeps_refuse [keeps_intros]: "keeps R (refuse b e)"
  unfolding refuse_def by (intro keeps_intros)

lemma keeps_list: "is_read_operation k \<Longrightarrow> keeps R (storage_list S m k limit)"
  unfolding storage_list_def by (rule keepsI) (rule kept_read)

lemma keeps_siblings [keeps_intros]: "keeps R (storage_list S m READ_SIBLINGS limit)"
  by (rule keeps_list) (simp add: is_read_operation_def read_operations_def)

lemma keeps_latest [keeps_intros]: "keeps R (storage_latest S m)"
  unfolding storage_latest_def by (intro keeps_intros keeps_list) (simp add: is_read_operation_def read_operations_def)

lemma keeps_exists [keeps_intros]: "keeps R (storage_exists S m)"
  unfolding storage_exists_def by (intro keeps_intros keeps_list) (simp add: is_read_operation_def read_operations_def)

lemma keeps_namespaces [keeps_intros]:
  "keeps R (get_namespace S ns)" "keeps R (namespace_exists S ns)" "keeps R (list_namespaces S limit)"
  unfolding get_namespace_def namespace_exists_def list_namespaces_def by (intro keeps_intros)+

lemma keeps_tables [keeps_intros]:
  "keeps R (get_table S ns t)" "keeps R (table_exists S ns t)" "keeps R (list_tables S ns limit)"
  unfolding get_table_def table_exists_def list_tables_def by (intro keeps_intros)+

lemma keeps_version_ids [keeps_intros]:
  "keeps R (resolve_latest_active_table_version_id S ns t b)" "keeps R (resolve_latest_table_version_id S ns t b)"
  unfolding resolve_latest_active_table_version_id_def resolve_latest_table_version_id_def by (intro keeps_intros)+

lemma keeps_get_table_version [keeps_intros]: "keeps R (get_table_version S ns t v)"
  unfolding get_table_version_def by (intro keeps_intros)

lemma keeps_table_versions [keeps_intros]:
  "keeps R (table_version_exists S ns t v)" "keeps R (list_table_versions S ns t limit)"
  "keeps R (get_latest_table_version S ns t)" "keeps R (get_latest_active_table_version S ns t)"
  unfolding table_version_exists_def list_table_versions_def get_latest_table_version_def get_latest_active_table_version_def
  by (intro keeps_intros)+

lemma keeps_get_table_version_schema [keeps_intros]: "keeps R (get_table_version_schema S ns t v)"
  unfolding get_table_version_schema_def by (intro keeps_intros)

lemma keeps_column_names [keeps_intros]: "keeps R (get_table_version_column_names S ns t v)"
  unfolding get_table_version_column_names_def by (intro keeps_intros)

lemma keeps_resolved_version [keeps_intros]: "keeps R (resolved_version S ns t v b)"
  unfolding resolved_version_def by (intro keeps_intros)

lemma keeps_streams [keeps_intros]:
  "keeps R (get_stream_by_id S tvl sid)" "keeps R (get_stream S ns t v fmt)" "keeps R (stream_exists S ns t v fmt)"
  "keeps R (list_streams S ns t v limit)"
  unfolding get_stream_by_id_def get_stream_def stream_exists_def list_streams_def by (intro keeps_intros)+

lemma keeps_partitions [keeps_intros]:
  "keeps R (get_partition_by_id S sl pid)" "keeps R (get_partition S sl vs sid)" "keeps R (list_partitions S ns t v limit)"
  "keeps R (list_stream_partitions S stream limit)"
  unfolding get_partition_by_id_def get_partition_def list_partitions_def list_stream_partitions_def by (intro keeps_intros)+

lemma keeps_delta_parent [keeps_intros]: "keeps R (delta_parent S dl)"
  unfolding delta_parent_def by (intro keeps_intros)

lemma keeps_resolved_partition [keeps_intros]: "keeps R (resolved_partition S ns t v vs sid)"
  unfolding resolved_partition_def by (intro keeps_intros)

lemma keeps_list_partition_deltas [keeps_intros]: "keeps R (list_partition_deltas S pl lo hi asc limit)"
  unfolding list_partition_deltas_def by (intro keeps_intros)

lemma keeps_read_delta [keeps_intros]: "keeps R (read_delta S pl pos b)"
  unfolding read_delta_def get_partition_delta_def by (intro keeps_intros)

lemma keeps_deltas [keeps_intros]:
  "keeps R (list_deltas S ns t v vs sid lo hi asc limit)" "keeps R (get_delta S ns t v vs sid pos b)"
  "keeps R (get_latest_delta S ns t v vs sid b)" "keeps R (get_delta_manifest S dl)"
  unfolding list_deltas_def get_delta_def get_latest_delta_def get_delta_manifest_def by (intro keeps_intros)+

end

locale session_steps = session_reads +
  assumes kept_write: "ss_write S k m src s = Some (r, s') \<Longrightarrow> R s s'"
begin

lemma keeps_write [keeps_intros]: "keeps R (ss_write S k m src)"
  by (rule keepsI) (rule kept_write)

lemma keeps_namespace_writes:
  "keeps R (create_namespace S ns properties)" "keeps R (update_namespace S ns properties new)"
  "keeps R (delete_namespace S ns purge)"
  unfolding create_namespace_def update_namespace_def delete_namespace_def by (intro keeps_intros)+

lemma keeps_table_writes:
  "keeps R (create_table S ns t desc properties)" "keeps R (update_table S ns t desc properties new)"
  "keeps R (delete_table S ns t purge)"
  unfolding create_table_def update_table_def delete_table_def by (intro keeps_intros)+

lemma keeps_version_writes:
  "keeps R (create_table_version S uuid ns t v a)" "keeps R (update_table_version S ns t v a)"
  unfolding create_table_version_def update_table_version_def by (intro keeps_intros)+

lemma keeps_stream_writes:
  "keeps R (stage_stream S uuid ns t v fmt)" "keeps R (commit_stream S sl)" "keeps R (delete_stream S ns t v fmt)"
  unfolding stage_stream_def commit_stream_def delete_stream_def by (intro keeps_intros)+

lemma keeps_partition_writes:
  "keeps R (stage_partition A int32 null str_list S uuid stream vs sid)" "keeps R (commit_partition S pl pd b)"
  "keeps R (delete_partition S sl txt sid)"
  unfolding stage_partition_def commit_partition_def delete_partition_def by (intro keeps_intros)+

lemma keeps_commit_delta: "keeps R (commit_delta uuids properties S delta)"
  unfolding commit_delta_def by (intro keeps_intros)

end

subsection \<open>Operations on two sessions\<close>

text \<open>
  \<open>matches rel m m'\<close>: from related states both return, or neither does, with the same result and in related states. Where
  the steps of two sessions match, every operation does.
\<close>

named_theorems matches_intros

definition matches :: "('s \<Rightarrow> 's' \<Rightarrow> bool) \<Rightarrow> ('s, 'a) pio \<Rightarrow> ('s', 'a) pio \<Rightarrow> bool" where
  "matches rel m m' \<longleftrightarrow> (\<forall>s s'. rel s s' \<longrightarrow> rel_option (rel_prod (=) rel) (m s) (m' s'))"

lemma matchesI: "(\<And>s s'. rel s s' \<Longrightarrow> rel_option (rel_prod (=) rel) (m s) (m' s')) \<Longrightarrow> matches rel m m'"
  by (simp add: matches_def)

lemma matchesD: "matches rel m m' \<Longrightarrow> rel s s' \<Longrightarrow> rel_option (rel_prod (=) rel) (m s) (m' s')"
  by (simp add: matches_def)

lemma matches_if [matches_intros]:
  "matches rel m m' \<Longrightarrow> matches rel n n' \<Longrightarrow> matches rel (if b then m else n) (if b then m' else n')"
  by simp

lemma matches_case_option [matches_intros]:
  "matches rel m m' \<Longrightarrow> (\<And>x. matches rel (f x) (f' x)) \<Longrightarrow>
   matches rel (case x of None \<Rightarrow> m | Some y \<Rightarrow> f y) (case x of None \<Rightarrow> m' | Some y \<Rightarrow> f' y)"
  by (cases x) simp_all

lemma matches_case_prod [matches_intros]:
  "(\<And>x y. matches rel (f x y) (f' x y)) \<Longrightarrow> matches rel (case p of (x, y) \<Rightarrow> f x y) (case p of (x, y) \<Rightarrow> f' x y)"
  by (cases p) simp

lemma matches_Let [matches_intros]: "matches rel (f x) (f' x) \<Longrightarrow> matches rel (let y = x in f y) (let y = x in f' y)"
  by (simp add: Let_def)

lemma matches_pure [matches_intros]:
  "matches rel (pio_return x) (pio_return x)" "matches rel (pio_raise e) (pio_raise e)" "matches rel (pio_of r) (pio_of r)"
  "matches rel (pio_ask (\<lambda>_. q)) (pio_ask (\<lambda>_. q))"
  by (cases q; simp add: matches_def pio_of_def pio_ask_def)+

lemma matches_bind [matches_intros]:
  assumes "matches rel m m'" "\<And>x. matches rel (f x) (f' x)"
  shows "matches rel (pio_bind m f) (pio_bind m' f')"
proof (rule matchesI)
  fix s s' assume "rel s s'"
  from matchesD [OF assms(1) this] show "rel_option (rel_prod (=) rel) (pio_bind m f s) (pio_bind m' f' s')"
    by (cases rule: option.rel_cases)
      (auto simp: pio_bind_def rel_prod_sel split: sum.splits prod.splits dest: matchesD [OF assms(2)])
qed

lemma matches_renaming [matches_intros]:
  assumes "matches rel m m'"
  shows "matches rel (renaming e e' m) (renaming e e' m')"
proof (rule matchesI)
  fix s s' assume "rel s s'"
  from matchesD [OF assms this] show "rel_option (rel_prod (=) rel) (renaming e e' m s) (renaming e e' m' s')"
    by (cases rule: option.rel_cases) (auto simp: renaming_def pio_try_def rel_prod_conv split: sum.splits prod.splits)
qed

lemma matches_checks [matches_intros]:
  "matches rel (required e x) (required e x)" "matches rel (refuse b e) (refuse b e)"
  unfolding required_def refuse_def by (intro matches_intros)+

locale session_match =
  fixes S :: "('s, 't content) session" and S' :: "('s', 't content) session" and rel :: "'s \<Rightarrow> 's' \<Rightarrow> bool"
  assumes match_read: "matches rel (ss_read S k m limit) (ss_read S' k m limit)"
    and match_write: "matches rel (ss_write S k m src) (ss_write S' k m src)"
begin

lemma matches_lookups [matches_intros]:
  "matches rel (storage_list S m k limit) (storage_list S' m k limit)"
  "matches rel (storage_latest S m) (storage_latest S' m)"
  "matches rel (storage_exists S m) (storage_exists S' m)"
  unfolding storage_latest_def storage_exists_def storage_list_def by (intro matches_intros match_read)+

lemma matches_get_table [matches_intros]:
  "matches rel (get_table S ns t) (get_table S' ns t)" "matches rel (namespace_exists S ns) (namespace_exists S' ns)"
  "matches rel (get_table_version S ns t v) (get_table_version S' ns t v)"
  "matches rel (resolve_latest_active_table_version_id S ns t b) (resolve_latest_active_table_version_id S' ns t b)"
  unfolding get_table_def namespace_exists_def get_table_version_def resolve_latest_active_table_version_id_def
  by (intro matches_intros)+

lemma matches_get_stream [matches_intros]:
  "matches rel (resolved_version S ns t v b) (resolved_version S' ns t v b)"
  "matches rel (get_stream S ns t v fmt) (get_stream S' ns t v fmt)"
  "matches rel (get_stream_by_id S tvl sid) (get_stream_by_id S' tvl sid)"
  unfolding get_stream_def get_stream_by_id_def resolved_version_def by (intro matches_intros)+

lemma matches_get_partition [matches_intros]:
  "matches rel (get_partition S sl vs sid) (get_partition S' sl vs sid)"
  "matches rel (get_partition_by_id S sl pid) (get_partition_by_id S' sl pid)"
  unfolding get_partition_def get_partition_by_id_def by (intro matches_intros)+

lemma matches_version_writes:
  "matches rel (create_table_version S uuid ns t v a) (create_table_version S' uuid ns t v a)"
  "matches rel (update_table_version S ns t v a) (update_table_version S' ns t v a)"
  unfolding create_table_version_def update_table_version_def by (intro matches_intros match_write)+

lemma matches_stream_writes:
  "matches rel (stage_stream S uuid ns t v fmt) (stage_stream S' uuid ns t v fmt)"
  "matches rel (commit_stream S sl) (commit_stream S' sl)"
  unfolding stage_stream_def commit_stream_def by (intro matches_intros match_write)+

lemma matches_partition_writes:
  "matches rel (stage_partition A int32 null str_list S uuid stream vs sid) (stage_partition A int32 null str_list S' uuid stream vs sid)"
  "matches rel (commit_partition S pl pd b) (commit_partition S' pl pd b)"
  unfolding stage_partition_def commit_partition_def by (intro matches_intros match_write)+

lemma matches_commit_delta:
  "matches rel (commit_delta uuids properties S delta) (commit_delta uuids properties S' delta)"
  unfolding commit_delta_def delta_parent_def by (intro matches_intros match_write)

end

subsection \<open>Recorded writes\<close>

text \<open>The session that also notes every write it is asked for, in order, with its source object.\<close>

type_synonym 'c write_call = "txn_op_type \<times> 'c metafile \<times> 'c metafile option"

definition recording :: "('s, 'c) session \<Rightarrow> ('s \<times> 'c write_call list, 'c) session" where
  "recording S =
     \<lparr>ss_read = (\<lambda>k m limit s. map_option (\<lambda>(r, s'). (r, (s', snd s))) (ss_read S k m limit (fst s))),
      ss_write = (\<lambda>k m src s. map_option (\<lambda>(r, s'). (r, (s', snd s @ [(k, m, src)]))) (ss_write S k m src (fst s)))\<rparr>"

interpretation recorded_reads: session_reads "recording S" "\<lambda>s s'. snd s' = snd s" for S
  by unfold_locales (auto simp: recording_def)

interpretation recorded_steps: session_steps "recording S" "\<lambda>s s'. \<exists>calls. snd s' = snd s @ calls" for S
  by unfold_locales (auto simp: recording_def)

interpretation recorded_match: session_match S "recording S" "\<lambda>s s'. fst s' = s" for S
  by unfold_locales (auto simp: recording_def matches_def option.rel_map rel_prod_conv split: prod.splits intro!: option.rel_refl_strong)

subsection \<open>Sessions of transactions\<close>

lemma txn_op_of_type: "txn_op_of k (Some m) src limit = Inr op \<Longrightarrow> op_type op = k"
  by (auto simp: txn_op_of_def split: if_splits)

lemma session_read_step:
  assumes "ss_read (txn_session T) k m limit s = Some (r, s')"
  shows "s' = s \<or> (\<exists>op q. op_type op = k \<and> txn_step T 0 op s = Some (q, s'))"
  using assms
  by (auto simp: txn_session_def pio_bind_def pio_of_def txn_op_of_type
      split: sum.splits option.splits prod.splits step_result.splits)

lemma session_write_step:
  assumes "ss_write (txn_session T) k m src s = Some (r, s')"
  shows "s' = s \<or> (\<exists>op q. op_type op = k \<and> txn_step T 0 op s = Some (q, s'))"
  using assms
  by (auto simp: txn_session_def pio_bind_def pio_of_def txn_op_of_type split: sum.splits option.splits prod.splits)

lemma reading_step_files:
  assumes "is_read_operation (op_type op)" "txn_step T k op s = Some (r, s')"
  shows "fst s' = fst s"
proof -
  obtain q t where q: "get_txn_id (te_uuid T) s = Some (q, t)"
    using assms(2) by (auto simp: txn_step_def pio_bind_def split: option.splits)
  show ?thesis
  proof (cases q)
    case (Inl e)
    then show ?thesis using assms(2) q get_txn_id_state [OF q] by (auto simp: txn_step_def pio_bind_def)
  next
    case (Inr i)
    let ?t = "if txn_interactive (snd t) then (snd t)\<lparr>txn_operations := txn_operations (snd t) @ [op]\<rparr> else snd t"
    have "step_read T op i (fst t, ?t) = Some (r, s')"
      using assms q Inr by (simp add: txn_step_def pio_bind_def Let_def)
    from step_read_state [OF this] show ?thesis using get_txn_id_state [OF q] by simp
  qed
qed

interpretation txn_reads: session_reads "txn_session T" "\<lambda>s s'. fst s' = fst s" for T
  by unfold_locales (auto dest!: session_read_step intro: reading_step_files)

interpretation historic_session: session_steps "txn_session T"
  "\<lambda>s s'. historic_txn (snd s) \<longrightarrow> (\<forall>p. p \<notin> written \<longrightarrow> contents (fst s') p = contents (fst s) p) \<and> historic_txn (snd s')"
  for T and contents :: "'fs \<Rightarrow> 'p \<Rightarrow> 'v" and written
  by unfold_locales (auto dest!: session_read_step session_write_step dest: historic_step)

end
