(* ===== verification/StorageTraces.thy ===== *)
theory StorageTraces
  imports StorageLaws
begin

text \<open>
  The writes of the storage operations, in order: what a run on a recording session notes. The rules \<open>writing_bind\<close> take
  an operation apart that has written something: everything before its first write has succeeded.
\<close>

subsection \<open>Taking runs apart\<close>

lemma pio_of_Inr: "pio_of r s = Some (Inr x, t) \<longleftrightarrow> r = Inr x \<and> t = s"
  by (auto simp: pio_of_def)

lemma required_Inr: "required e x s = Some (Inr y, t) \<longleftrightarrow> x = Some y \<and> t = s"
  by (cases x) (auto simp: required_def pio_of_def of_option_def)

lemma refuse_Inr: "refuse b e s = Some (Inr u, t) \<longleftrightarrow> \<not> b \<and> t = s"
  by (auto simp: refuse_def)

lemma renaming_Inr: "renaming e e' m s = Some (Inr x, t) \<longleftrightarrow> m s = Some (Inr x, t)"
  by (auto simp: renaming_def pio_try_def split: option.splits sum.splits)

lemmas run_Inr = pio_bind_Inr_iff pio_of_Inr required_Inr refuse_Inr renaming_Inr

lemma pio_bind_Some:
  "pio_bind m f s = Some (r, t) \<longleftrightarrow>
     (\<exists>e. m s = Some (Inl e, t) \<and> r = Inl e) \<or> (\<exists>x u. m s = Some (Inr x, u) \<and> f x u = Some (r, t))"
  by (auto simp: pio_bind_def split: option.splits sum.splits)

lemma recorded_write:
  "ss_write (recording S) k m src s = Some (r, t) \<Longrightarrow> snd t = snd s @ [(k, m, src)]"
  by (auto simp: recording_def)

lemma recorded_renamed_write:
  "renaming e e' (ss_write (recording S) k m src) s = Some (r, t) \<Longrightarrow> snd t = snd s @ [(k, m, src)]"
  by (auto simp: renaming_def pio_try_def dest: recorded_write split: option.splits sum.splits)

definition silent :: "('s \<times> 'w list, 'a) pio \<Rightarrow> bool" where
  "silent m \<longleftrightarrow> keeps (\<lambda>s s'. snd s' = snd s) m"

lemma silentD: "silent m \<Longrightarrow> m s = Some (r, t) \<Longrightarrow> snd t = snd s"
  unfolding silent_def by (rule keepsD)

lemma silent_reads [simp]:
  "silent (namespace_exists (recording S) ns)" "silent (get_table (recording S) ns t)"
  "silent (get_table_version (recording S) ns t v)" "silent (get_stream (recording S) ns t v fmt)"
  "silent (get_stream_by_id (recording S) tvl sid)" "silent (get_partition_by_id (recording S) sl pid)"
  "silent (get_partition (recording S) sl vs scheme_id)" "silent (delta_parent (recording S) dl)"
  "silent (resolved_version (recording S) ns t v b)"
  unfolding silent_def by (intro keeps_intros)+

text \<open>Runs that write: everything before the first write succeeds.\<close>

lemma silent_bind:
  "snd t \<noteq> snd s \<Longrightarrow> silent m \<Longrightarrow>
   pio_bind m f s = Some (r, t) \<longleftrightarrow> (\<exists>x u. m s = Some (Inr x, u) \<and> snd u = snd s \<and> f x u = Some (r, t))"
  by (auto simp: pio_bind_Some dest: silentD)

lemma refuse_bind: "snd t \<noteq> snd s \<Longrightarrow> pio_bind (refuse b e) f s = Some (r, t) \<longleftrightarrow> \<not> b \<and> f () s = Some (r, t)"
  by (auto simp: refuse_def pio_bind_def)

lemma required_bind:
  "snd t \<noteq> snd s \<Longrightarrow> pio_bind (required e x) f s = Some (r, t) \<longleftrightarrow> (\<exists>y. x = Some y \<and> f y s = Some (r, t))"
  by (cases x) (auto simp: required_def of_option_def pio_of_def pio_bind_def)

lemma pure_bind:
  "snd t \<noteq> snd s \<Longrightarrow> pio_bind (pio_of q) f s = Some (r, t) \<longleftrightarrow> (\<exists>y. q = Inr y \<and> f y s = Some (r, t))"
  by (cases q) (auto simp: pio_of_def pio_bind_def)

lemmas writing_bind = silent_bind refuse_bind required_bind pure_bind

lemma pio_bind_write:
  assumes "pio_bind (ss_write (recording S) k m src) f s = Some (r, t)"
  shows "(\<exists>e. r = Inl e \<and> snd t = snd s @ [(k, m, src)]) \<or>
    (\<exists>w u. snd u = snd s @ [(k, m, src)] \<and> f w u = Some (r, t))"
proof -
  from assms consider e where "ss_write (recording S) k m src s = Some (Inl e, t)" "r = Inl e"
    | w u where "ss_write (recording S) k m src s = Some (Inr w, u)" "f w u = Some (r, t)"
    by (auto simp: pio_bind_Some)
  then show ?thesis
  proof cases
    case 1
    then show ?thesis using recorded_write [OF 1(1)] by blast
  next
    case 2
    then show ?thesis using recorded_write [OF 2(1)] by blast
  qed
qed

subsection \<open>Positions of unordered deltas\<close>

lemma draw_position_Some:
  assumes "draw_position uuids i = Some p"
  shows "UNSIGNED_INT32_MAX_VALUE < p \<and> p < 2 ^ 63"
proof (rule draw_position.raw_induct [OF _ assms, of "\<lambda>_ _ p. UNSIGNED_INT32_MAX_VALUE < p \<and> p < 2 ^ 63"])
  fix draw uuids i p
  assume IH: "\<And>uuids i p. draw uuids i = Some p \<Longrightarrow> UNSIGNED_INT32_MAX_VALUE < p \<and> p < 2 ^ 63"
    and eq: "(let p = int (uuids i) mod 2 ^ 63 in if p \<le> UNSIGNED_INT32_MAX_VALUE then draw uuids (Suc i) else Some p) = Some p"
  define q where "q = int (uuids i) mod 2 ^ 63"
  have "q < 2 ^ 63" by (simp add: q_def)
  moreover have "(if q \<le> UNSIGNED_INT32_MAX_VALUE then draw uuids (Suc i) else Some q) = Some p"
    using eq by (simp only: Let_def q_def)
  ultimately show "UNSIGNED_INT32_MAX_VALUE < p \<and> p < 2 ^ 63"
    using IH by (cases "q \<le> UNSIGNED_INT32_MAX_VALUE") auto
qed

lemma draw_position_returns:
  assumes "UNSIGNED_INT32_MAX_VALUE < int (uuids (i + n)) mod 2 ^ 63"
  shows "\<exists>p. draw_position uuids i = Some p"
  using assms
proof (induction n arbitrary: i)
  case 0
  then show ?case by (subst draw_position.simps) (simp add: Let_def)
next
  case (Suc n)
  from Suc.IH [of "Suc i"] Suc.prems show ?case by (subst draw_position.simps) (simp add: Let_def)
qed

subsection \<open>Committing deltas\<close>

lemma delta_target_ordered:
  assumes "delta_target uuids ty parent_position position = Some (Inr (pos, previous))" "ty \<noteq> ADD"
  shows "previous = Some (case parent_position of None \<Rightarrow> 0 | Some n \<Rightarrow> n) \<and> (case parent_position of None \<Rightarrow> 0 | Some n \<Rightarrow> n) < pos \<and>
    (case position of None \<Rightarrow> pos = (case parent_position of None \<Rightarrow> 0 | Some n \<Rightarrow> n) + 1 | Some p \<Rightarrow> pos = p)"
  using assms by (auto simp: delta_target_def Let_def split: option.splits if_splits)

lemma delta_target_unordered:
  assumes "delta_target uuids ADD parent_position position = Some (Inr (pos, previous))"
  shows "previous = None \<and> UNSIGNED_INT32_MAX_VALUE < pos \<and> pos < 2 ^ 63"
  using assms draw_position_Some [of uuids 0] by (auto simp: delta_target_def)

lemma commit_delta_run:
  assumes "commit_delta uuids properties (recording S) delta s = Some (Inr written, t)"
  obtains d dl parent pd pl pos previous u where
    "delta_data_of delta = Inr d" "delta_locator_of_object delta = Inr dl"
    "delta_parent (recording S) dl s = Some (Inr (Some parent), u)"
    "partition_data_of parent = Inr pd" "partition_locator_of_object parent = Inr pl"
    "delta_target uuids (resolved_delta_type d) (pd_stream_position pd) (dl_stream_position dl) = Some (Inr (pos, previous))"
    "snd t = snd s @ (CREATE, committed_delta properties (resolved_delta_type d) pl pos previous d delta, None) #
       (if resolved_delta_type d = ADD then []
        else [(UPDATE, with_content (PartitionC (pd\<lparr>pd_stream_position := Some pos\<rparr>)) parent, Some parent)])"
proof -
  from assms obtain d dl parent u pd pl pos previous w v v' where
    run: "delta_data_of delta = Inr d" "delta_locator_of_object delta = Inr dl"
      "delta_parent (recording S) dl s = Some (Inr (Some parent), u)"
      "partition_data_of parent = Inr pd" "partition_locator_of_object parent = Inr pl"
      "delta_target uuids (resolved_delta_type d) (pd_stream_position pd) (dl_stream_position dl) = Some (Inr (pos, previous))"
    and first: "ss_write (recording S) CREATE (committed_delta properties (resolved_delta_type d) pl pos previous d delta) None u = Some (Inr w, v)"
    and second: "(if resolved_delta_type d = ADD then pio_return parent
        else ss_write (recording S) UPDATE (with_content (PartitionC (pd\<lparr>pd_stream_position := Some pos\<rparr>)) parent) (Some parent)) v = Some (Inr v', t)"
    by (fastforce simp: commit_delta_def run_Inr pio_ask_Inr_iff Let_def)
  have "snd u = snd s" using run(3) by (rule silentD [rotated]) simp
  then have "snd t = snd s @ (CREATE, committed_delta properties (resolved_delta_type d) pl pos previous d delta, None) #
       (if resolved_delta_type d = ADD then []
        else [(UPDATE, with_content (PartitionC (pd\<lparr>pd_stream_position := Some pos\<rparr>)) parent, Some parent)])"
    using recorded_write [OF first] second by (cases "resolved_delta_type d = ADD") (auto dest: recorded_write)
  from that [OF run this] show thesis .
qed

subsection \<open>Committing partitions and streams\<close>

text \<open>The committed partition that a commit expects to replace; it is not looked up where none is expected.\<close>

definition replaced_partition ::
    "('s, 't content) session \<Rightarrow> partition_locator \<Rightarrow> partition_data \<Rightarrow> ('s, 't object option) pio" where
  "replaced_partition S pl pd =
     (if pd_previous_partition_id pd = None then pio_return None
      else get_partition S (pl_stream_locator pl) (pl_partition_values pl) (pd_partition_scheme_id pd))"

lemma silent_replaced_partition [simp]: "silent (replaced_partition (recording S) pl pd)"
  unfolding replaced_partition_def silent_def by (intro keeps_intros)

lemma commit_partition_run:
  assumes "commit_partition (recording S) pl pd b s = Some (r, t)" "snd t \<noteq> snd s"
  obtains staged d committed u v where
    "get_partition_by_id (recording S) (pl_stream_locator pl) (pl_partition_id pl) s = Some (Inr (Some staged), u)"
    "partition_data_of staged = Inr d" "pd_state d = Some STAGED"
    "replaced_partition (recording S) pl pd u = Some (Inr committed, v)"
    "case committed of
       None \<Rightarrow> snd t = snd s @ [(UPDATE, committed_partition pd d staged, Some staged)]
     | Some c \<Rightarrow> \<exists>cl calls. partition_locator_of_object c = Inr cl \<and> pl_partition_id cl = pd_previous_partition_id pd \<and>
         pl_partition_id cl \<noteq> pl_partition_id pl \<and>
         snd t = snd s @ (REPLACE, committed_partition pd d staged, Some staged) # calls \<and> (\<forall>w. r = Inr w \<longrightarrow> calls \<noteq> []) \<and>
         (calls = [] \<or> (\<exists>w. calls = [(REPLACE, w, Some c)]))"
proof -
  let ?S = "recording S"
  from assms obtain staged d committed u v where
    run: "get_partition_by_id ?S (pl_stream_locator pl) (pl_partition_id pl) s = Some (Inr (Some staged), u)"
      "partition_data_of staged = Inr d" "pd_state d = Some STAGED" "replaced_partition ?S pl pd u = Some (Inr committed, v)"
    and log: "snd v = snd s"
    and rest: "(case committed of
        None \<Rightarrow> ss_write ?S UPDATE (committed_partition pd d staged) (Some staged)
      | Some c \<Rightarrow> pio_bind (pio_of (partition_locator_of_object c)) (\<lambda>cl.
          pio_bind (refuse (pl_partition_id cl \<noteq> pd_previous_partition_id pd) ConcurrentModificationError) (\<lambda>_.
          pio_bind (refuse (pl_partition_id cl = pl_partition_id pl) TableValidationError) (\<lambda>_.
          pio_bind (ss_write ?S REPLACE (committed_partition pd d staged) (Some staged)) (\<lambda>written.
            ss_write ?S REPLACE written (Some c)))))) v = Some (r, t)"
    by (auto simp: commit_partition_def writing_bind Let_def simp flip: replaced_partition_def cong: conj_cong)
  have "snd t \<noteq> snd v" using assms(2) log by simp
  with rest have "case committed of
       None \<Rightarrow> snd t = snd s @ [(UPDATE, committed_partition pd d staged, Some staged)]
     | Some c \<Rightarrow> \<exists>cl calls. partition_locator_of_object c = Inr cl \<and> pl_partition_id cl = pd_previous_partition_id pd \<and>
         pl_partition_id cl \<noteq> pl_partition_id pl \<and>
         snd t = snd s @ (REPLACE, committed_partition pd d staged, Some staged) # calls \<and> (\<forall>w. r = Inr w \<longrightarrow> calls \<noteq> []) \<and>
         (calls = [] \<or> (\<exists>w. calls = [(REPLACE, w, Some c)]))"
    by (cases committed) (auto simp: writing_bind log dest!: recorded_write pio_bind_write)
  from that [OF run this] show thesis .
qed

lemma commit_stream_run:
  assumes "commit_stream (recording S) sl s = Some (r, t)" "snd t \<noteq> snd s"
  obtains staged d l committed u v where
    "get_stream_by_id (recording S) (sl_table_version_locator sl) (sl_stream_id sl) s = Some (Inr (Some staged), u)"
    "stream_data_of staged = Inr d" "sd_state d = Some STAGED" "stream_locator_of_object staged = Inr l"
    "get_stream (recording S) (sl_namespace l) (sl_table_name l) (sl_table_version l) (sl_format l) u = Some (Inr committed, v)"
    "case committed of
       None \<Rightarrow> snd t = snd s @ [(UPDATE, with_content (StreamC (d\<lparr>sd_state := Some COMMITTED\<rparr>)) staged, Some staged)]
     | Some c \<Rightarrow> \<exists>calls. snd t = snd s @ (REPLACE, with_content (StreamC (d\<lparr>sd_state := Some COMMITTED\<rparr>)) staged, Some staged) # calls \<and>
         (\<forall>w. r = Inr w \<longrightarrow> calls \<noteq> []) \<and>
         (calls = [] \<or> (\<exists>cl w. calls = [(REPLACE, w, Some c)] \<and> stream_locator_of_object c = Inr cl \<and>
            sl_stream_id cl = sd_previous_stream_id d \<and> sl_stream_id cl \<noteq> sl_stream_id l))"
proof -
  let ?S = "recording S"
  from assms obtain staged d l committed u v where
    run: "get_stream_by_id ?S (sl_table_version_locator sl) (sl_stream_id sl) s = Some (Inr (Some staged), u)"
      "stream_data_of staged = Inr d" "sd_state d = Some STAGED" "stream_locator_of_object staged = Inr l"
      "get_stream ?S (sl_namespace l) (sl_table_name l) (sl_table_version l) (sl_format l) u = Some (Inr committed, v)"
    and log: "snd v = snd s"
    and rest: "(let new = with_content (StreamC (d\<lparr>sd_state := Some COMMITTED\<rparr>)) staged
       in (case committed of
             None \<Rightarrow> ss_write ?S UPDATE new (Some staged)
           | Some c \<Rightarrow>
               pio_bind (ss_write ?S REPLACE new (Some staged)) (\<lambda>written.
               pio_bind (pio_of (stream_locator_of_object c)) (\<lambda>cl.
               pio_bind (refuse (sl_stream_id cl \<noteq> sd_previous_stream_id d) ConcurrentModificationError) (\<lambda>_.
               pio_bind (refuse (sl_stream_id cl = sl_stream_id l) TableValidationError) (\<lambda>_.
                 ss_write ?S REPLACE written (Some c))))))) v = Some (r, t)"
    by (auto simp: commit_stream_def writing_bind cong: conj_cong)
  have "case committed of
       None \<Rightarrow> snd t = snd s @ [(UPDATE, with_content (StreamC (d\<lparr>sd_state := Some COMMITTED\<rparr>)) staged, Some staged)]
     | Some c \<Rightarrow> \<exists>calls. snd t = snd s @ (REPLACE, with_content (StreamC (d\<lparr>sd_state := Some COMMITTED\<rparr>)) staged, Some staged) # calls \<and>
         (\<forall>w. r = Inr w \<longrightarrow> calls \<noteq> []) \<and>
         (calls = [] \<or> (\<exists>cl w. calls = [(REPLACE, w, Some c)] \<and> stream_locator_of_object c = Inr cl \<and>
            sl_stream_id cl = sd_previous_stream_id d \<and> sl_stream_id cl \<noteq> sl_stream_id l))"
  proof (cases committed)
    case None
    then show ?thesis using rest log by (auto dest: recorded_write)
  next
    case (Some c)
    let ?rest = "\<lambda>written. pio_bind (pio_of (stream_locator_of_object c)) (\<lambda>cl.
       pio_bind (refuse (sl_stream_id cl \<noteq> sd_previous_stream_id d) ConcurrentModificationError) (\<lambda>_.
       pio_bind (refuse (sl_stream_id cl = sl_stream_id l) TableValidationError) (\<lambda>_. ss_write ?S REPLACE written (Some c))))"
    have "(\<exists>e. r = Inl e \<and> snd t = snd u) \<or> (\<exists>cl. snd t = snd u @ [(REPLACE, w, Some c)] \<and> stream_locator_of_object c = Inr cl \<and>
        sl_stream_id cl = sd_previous_stream_id d \<and> sl_stream_id cl \<noteq> sl_stream_id l)"
      if "?rest w u = Some (r, t)" for w u
      using that by (auto simp: pio_bind_Some pio_of_def refuse_def split: if_splits dest: recorded_write)
    then show ?thesis using rest log Some by (fastforce simp: Let_def dest!: pio_bind_write)
  qed
  from that [OF run this] show thesis .
qed

subsection \<open>Creating table versions\<close>

lemma new_version_id_number:
  assumes "new_version_id given d = Inr v" "td_latest_table_version d = Some old"
    "parse_table_version (Some old) = Inr (prefix, n)" "parse_table_version (Some v) = Inr (prefix', k)"
  shows "k = n + 1"
proof -
  let ?next = "version_text prefix (n + 1)"
  have next_v: "next_version (Some old) = Inr ?next" by (rule next_version_text [OF assms(3)])
  have parts: "version_parts prefix (n + 1)"
    using parse_table_version_Inr(1) [OF assms(3)] by (simp add: version_parts_def)
  have parsed: "m = n + 1" if "parse_table_version (Some ?next) = Inr (q, m)" for q m
    using parse_table_version_Inr(2) [OF that] parse_version_text [OF parts] that by simp
  show ?thesis
  proof (cases "truthy given")
    case False
    then have "v = ?next" using assms(1,2) next_v by (simp add: new_version_id_def)
    then show ?thesis using parsed assms(4) by blast
  next
    case True
    then obtain q q' m where parses: "parse_table_version given = Inr (q, m)" "parse_table_version (Some ?next) = Inr (q', m)"
      and v: "v = the given"
      using assms(1,2) next_v by (auto simp: new_version_id_def rbind_Inr_iff split: if_splits prod.splits)
    have "given = Some v" using True v by (auto simp: truthy_def)
    then have "k = m" using parses(1) assms(4) by simp
    then show ?thesis using parsed [OF parses(2)] by simp
  qed
qed

lemma table_version_locator_parsed:
  assumes "table_version_locator_at ns t (Some version) = Inr l"
  obtains prefix n where "parse_table_version (Some version) = Inr (prefix, n)"
  using assms by (auto simp: table_version_locator_at_def table_version_locator_of_def set_table_version_def rbind_Inr_iff)

lemma create_table_version_run:
  assumes "create_table_version (recording S) uuid ns t given a s = Some (Inr result, s')"
  obtains prev op base previous version d l u u' where
    "namespace_exists (recording S) ns s = Some (Inr True, u)" "get_table (recording S) ns t u = Some (Inr prev, u')"
    "validate_schemes_against_schema (va_schema a) (va_partition_scheme a) (va_sort_keys a) = Inr ()"
    "version_target ns t given prev = Inr (op, base, previous, version)"
    "table_data_of base = Inr d" "table_version_locator_at ns t (Some version) = Inr l"
    "snd s' = snd s @
       [(op, with_content (TableC (registered_table version (va_lifecycle_state a) (va_table_description a) (va_table_properties a) d)) base, prev),
        (CREATE, table_version_of l (created_version_data a previous), None),
        (CREATE, stream_of (stream_locator_of (Some l) (Some uuid) (Some DELTACAT_FORMAT))
           (tvd_partition_scheme (created_version_data a previous)) (Some COMMITTED), None)]"
proof -
  let ?S = "recording S"
  from assms obtain prev op base previous version d l u u' w1 v1 w2 v2 w3 where
    run: "namespace_exists ?S ns s = Some (Inr True, u)" "get_table ?S ns t u = Some (Inr prev, u')"
      "validate_schemes_against_schema (va_schema a) (va_partition_scheme a) (va_sort_keys a) = Inr ()"
      "version_target ns t given prev = Inr (op, base, previous, version)"
      "table_data_of base = Inr d" "table_version_locator_at ns t (Some version) = Inr l"
    and w: "ss_write ?S op (with_content (TableC (registered_table version (va_lifecycle_state a) (va_table_description a)
         (va_table_properties a) d)) base) prev u' = Some (Inr w1, v1)"
      "ss_write ?S CREATE (table_version_of l (created_version_data a previous)) None v1 = Some (Inr w2, v2)"
      "ss_write ?S CREATE (stream_of (stream_locator_of (Some l) (Some uuid) (Some DELTACAT_FORMAT))
           (tvd_partition_scheme (created_version_data a previous)) (Some COMMITTED)) None v2 = Some (Inr w3, s')"
    by (fastforce simp: create_table_version_def run_Inr Let_def)
  have "snd u' = snd s" using silentD [OF silent_reads(1) run(1)] silentD [OF silent_reads(2) run(2)] by simp
  then have "snd s' = snd s @
       [(op, with_content (TableC (registered_table version (va_lifecycle_state a) (va_table_description a) (va_table_properties a) d)) base, prev),
        (CREATE, table_version_of l (created_version_data a previous), None),
        (CREATE, stream_of (stream_locator_of (Some l) (Some uuid) (Some DELTACAT_FORMAT))
           (tvd_partition_scheme (created_version_data a previous)) (Some COMMITTED), None)]"
    using w [THEN recorded_write] by simp
  from that [OF run this] show thesis .
qed

subsection \<open>Updating table versions\<close>

lemma activated_table_forward:
  assumes "activated_table version d = Inr (Some d')"
  shows "td_latest_active_table_version d' = version \<and> td_latest_table_version d' = td_latest_table_version d \<and>
    (\<exists>prefix n. parse_table_version version = Inr (prefix, n) \<and>
      (\<forall>prefix' m. parse_table_version (td_latest_active_table_version d) = Inr (prefix', m) \<longrightarrow> m < n))"
  using assms parse_table_version_Inr(2) [of "td_latest_active_table_version d"]
  by (auto simp: activated_table_def current_version_number_def rbind_Inr_iff truthy_def split: if_splits option.splits)

text \<open>The write of the table, if the version becomes the active one, that of the version, and that of the stream.\<close>

lemma update_table_version_run:
  assumes "update_table_version (recording S) ns t v a s = Some (Inr result, s')"
  obtains old old_d d u table_calls stream_calls where
    "get_table_version (recording S) ns t v s = Some (Inr (Some old), u)" "table_version_data_of old = Inr old_d"
    "updated_table_version a old_d = Inr d"
    "snd s' = snd s @ table_calls @ (UPDATE, with_content (TableVersionC d) old, Some old) # stream_calls"
    "table_calls = [] \<or> va_lifecycle_state a = Some ACTIVE \<and> tvd_state old_d \<noteq> Some ACTIVE \<and>
       (\<exists>table td td'. table_data_of table = Inr td \<and> activated_table v td = Inr (Some td') \<and>
          table_calls = [(UPDATE, with_content (TableC td') table, Some table)])"
    "stream_calls = [] \<and> va_partition_scheme a = None \<or>
       (\<exists>stream sd. va_partition_scheme a \<noteq> None \<and> stream_data_of stream = Inr sd \<and>
          stream_calls = [(UPDATE, with_content (StreamC (sd\<lparr>sd_partition_scheme := va_partition_scheme a\<rparr>)) stream, Some stream)])"
proof -
  let ?S = "recording S"
  let ?tables = "\<lambda>found_table old_d. if va_lifecycle_state a = Some ACTIVE \<and> tvd_state old_d \<noteq> Some ACTIVE
               then pio_bind (required AttributeError found_table) (\<lambda>table.
                    pio_bind (pio_of (table_data_of table)) (\<lambda>td.
                    pio_bind (pio_of (activated_table v td)) (\<lambda>new_td. case new_td of
                      None \<Rightarrow> pio_return None
                    | Some td' \<Rightarrow> pio_bind (ss_write ?S UPDATE (with_content (TableC td') table) (Some table))
                        (\<lambda>w. pio_return (Some w)))))
               else pio_return None"
  let ?streams = "case va_partition_scheme a of
                 None \<Rightarrow> pio_return None
               | Some p \<Rightarrow>
                   pio_bind (get_stream ?S ns t v (Some DELTACAT_FORMAT)) (\<lambda>found_stream.
                   pio_bind (required AttributeError found_stream) (\<lambda>stream.
                   pio_bind (pio_of (stream_data_of stream)) (\<lambda>sd.
                   pio_bind (ss_write ?S UPDATE (with_content (StreamC (sd\<lparr>sd_partition_scheme := Some p\<rparr>)) stream) (Some stream))
                     (\<lambda>w. pio_return (Some w)))))"
  from assms obtain old old_d d u found_table u2 nt u3 w u4 ns' where
    run: "get_table_version ?S ns t v s = Some (Inr (Some old), u)" "table_version_data_of old = Inr old_d"
      "updated_table_version a old_d = Inr d"
    and gt: "get_table ?S ns t u = Some (Inr found_table, u2)"
    and tables: "?tables found_table old_d u2 = Some (Inr nt, u3)"
    and version: "ss_write ?S UPDATE (with_content (TableVersionC d) old) (Some old) u3 = Some (Inr w, u4)"
    and streams: "?streams u4 = Some (Inr ns', s')"
    by (fastforce simp: update_table_version_def run_Inr)
  have u2: "snd u2 = snd s" using silentD [OF silent_reads(3) run(1)] silentD [OF silent_reads(2) gt] by simp
  have "\<exists>calls. snd u3 = snd u2 @ calls \<and> (calls = [] \<or> va_lifecycle_state a = Some ACTIVE \<and> tvd_state old_d \<noteq> Some ACTIVE \<and>
       (\<exists>table td td'. table_data_of table = Inr td \<and> activated_table v td = Inr (Some td') \<and>
          calls = [(UPDATE, with_content (TableC td') table, Some table)]))"
    using tables by (fastforce simp: run_Inr split: if_splits option.splits dest: recorded_write)
  then obtain tc where tc: "snd u3 = snd s @ tc" "tc = [] \<or> va_lifecycle_state a = Some ACTIVE \<and> tvd_state old_d \<noteq> Some ACTIVE \<and>
       (\<exists>table td td'. table_data_of table = Inr td \<and> activated_table v td = Inr (Some td') \<and>
          tc = [(UPDATE, with_content (TableC td') table, Some table)])"
    using u2 by auto
  have "\<exists>calls. snd s' = snd u4 @ calls \<and> (calls = [] \<and> va_partition_scheme a = None \<or>
       (\<exists>stream sd. va_partition_scheme a \<noteq> None \<and> stream_data_of stream = Inr sd \<and>
          calls = [(UPDATE, with_content (StreamC (sd\<lparr>sd_partition_scheme := va_partition_scheme a\<rparr>)) stream, Some stream)]))"
  proof (cases "va_partition_scheme a")
    case None
    then show ?thesis using streams by simp
  next
    case (Some p)
    then obtain stream sd u5 w' where g: "get_stream ?S ns t v (Some DELTACAT_FORMAT) u4 = Some (Inr (Some stream), u5)"
      and sd: "stream_data_of stream = Inr sd"
      and w': "ss_write ?S UPDATE (with_content (StreamC (sd\<lparr>sd_partition_scheme := Some p\<rparr>)) stream) (Some stream) u5 = Some (Inr w', s')"
      using streams by (fastforce simp: run_Inr)
    have "snd s' = snd u4 @ [(UPDATE, with_content (StreamC (sd\<lparr>sd_partition_scheme := Some p\<rparr>)) stream, Some stream)]"
      using recorded_write [OF w'] silentD [OF silent_reads(4) g] by simp
    then show ?thesis using Some sd by auto
  qed
  then obtain sc where sc: "snd s' = snd u4 @ sc" "sc = [] \<and> va_partition_scheme a = None \<or>
       (\<exists>stream sd. va_partition_scheme a \<noteq> None \<and> stream_data_of stream = Inr sd \<and>
          sc = [(UPDATE, with_content (StreamC (sd\<lparr>sd_partition_scheme := va_partition_scheme a\<rparr>)) stream, Some stream)])"
    by auto
  have "snd s' = snd s @ tc @ (UPDATE, with_content (TableVersionC d) old, Some old) # sc"
    using tc(1) sc(1) recorded_write [OF version] by simp
  from that [OF run this tc(2) sc(2)] show thesis .
qed

subsection \<open>Staging partitions\<close>

lemma stage_partition_run:
  assumes "stage_partition A int32 null str_list (recording S) uuid stream vs scheme_id s = Some (Inr result, s')"
  obtains l tv tvd sd sid prev u u' where
    "stream_locator_of_object stream = Inr l" "stream_data_of stream = Inr sd"
    "get_table_version (recording S) (sl_namespace l) (sl_table_name l) (sl_table_version l) s = Some (Inr (Some tv), u)"
    "table_version_data_of tv = Inr tvd" "check_staged_partition A int32 null vs scheme_id sd tvd = Inr sid"
    "get_partition (recording S) (Some l) (values_text str_list vs) sid u = Some (Inr prev, u')"
    "\<exists>prev_id. (case prev of None \<Rightarrow> prev_id = None
        | Some p \<Rightarrow> (\<exists>pl. partition_locator_of_object p = Inr pl \<and> pl_partition_id pl = prev_id)) \<and> prev_id \<noteq> Some uuid \<and>
      snd s' = snd s @ [(CREATE, new_object (PartitionLoc (partition_locator_of (Some l) (values_text str_list vs) (Some uuid)))
        (PartitionC \<lparr>pd_content_types = tvd_content_types tvd, pd_state = Some STAGED, pd_previous_stream_position = None,
           pd_previous_partition_id = prev_id, pd_stream_position = None, pd_partition_scheme_id = sid,
           pd_compaction_round_completion_info = PNone\<rparr>), None)]"
proof -
  let ?S = "recording S"
  from assms obtain l tv tvd sd sid prev u u' prev_id u2 where
    run: "stream_locator_of_object stream = Inr l" "stream_data_of stream = Inr sd"
      "get_table_version ?S (sl_namespace l) (sl_table_name l) (sl_table_version l) s = Some (Inr (Some tv), u)"
      "table_version_data_of tv = Inr tvd" "check_staged_partition A int32 null vs scheme_id sd tvd = Inr sid"
      "get_partition ?S (Some l) (values_text str_list vs) sid u = Some (Inr prev, u')"
    and prev: "(case prev of None \<Rightarrow> pio_return None
        | Some p \<Rightarrow> pio_bind (pio_of (partition_locator_of_object p)) (\<lambda>pl. pio_return (pl_partition_id pl))) u' = Some (Inr prev_id, u2)"
    and other: "prev_id \<noteq> Some uuid"
    and w: "ss_write ?S CREATE (new_object (PartitionLoc (partition_locator_of (Some l) (values_text str_list vs) (Some uuid)))
        (PartitionC \<lparr>pd_content_types = tvd_content_types tvd, pd_state = Some STAGED, pd_previous_stream_position = None,
           pd_previous_partition_id = prev_id, pd_stream_position = None, pd_partition_scheme_id = sid,
           pd_compaction_round_completion_info = PNone\<rparr>)) None u2 = Some (Inr result, s')"
    unfolding stage_partition_def run_Inr by (elim exE conjE) (hypsubst, rule that, assumption+)
  have prev': "u2 = u'" "case prev of None \<Rightarrow> prev_id = None
        | Some p \<Rightarrow> (\<exists>pl. partition_locator_of_object p = Inr pl \<and> pl_partition_id pl = prev_id)"
    using prev by (auto simp: run_Inr split: option.splits)
  have "snd u2 = snd s" using silentD [OF silent_reads(3) run(3)] silentD [OF silent_reads(7) run(6)] prev'(1) by simp
  with prev'(2) other recorded_write [OF w] have "\<exists>prev_id. (case prev of None \<Rightarrow> prev_id = None
        | Some p \<Rightarrow> (\<exists>pl. partition_locator_of_object p = Inr pl \<and> pl_partition_id pl = prev_id)) \<and> prev_id \<noteq> Some uuid \<and>
      snd s' = snd s @ [(CREATE, new_object (PartitionLoc (partition_locator_of (Some l) (values_text str_list vs) (Some uuid)))
        (PartitionC \<lparr>pd_content_types = tvd_content_types tvd, pd_state = Some STAGED, pd_previous_stream_position = None,
           pd_previous_partition_id = prev_id, pd_stream_position = None, pd_partition_scheme_id = sid,
           pd_compaction_round_completion_info = PNone\<rparr>), None)]"
    by (intro exI [of _ prev_id] conjI) simp_all
  from that [OF run this] show thesis .
qed

end
