(* ===== verification/StorageVersions.thy ===== *)
theory StorageVersions
  imports StorageTraces
begin

text \<open>
  What the histories of a table version are worth, which deltas a listing returns and in which order, and
  what a staged partition has passed.
\<close>

subsection \<open>Histories of schemas and schemes\<close>

definition tracked :: "('a \<Rightarrow> 'i) \<Rightarrow> 'a option \<Rightarrow> 'a list option \<Rightarrow> bool" where
  "tracked ident current history = (case (current, history) of
     (Some x, Some h) \<Rightarrow> ident x \<in> set (map ident h) \<and> distinct (map ident h)
   | _ \<Rightarrow> False)"

text \<open>A table version has no schema and no history of them, or a history that has the identifier of the current one.\<close>

definition version_ok :: "'t table_version_data \<Rightarrow> bool" where
  "version_ok d \<longleftrightarrow>
     (tvd_schema d = None \<and> tvd_schemas d = None \<or> tracked schema_id (tvd_schema d) (tvd_schemas d)) \<and>
     tracked sc_id (tvd_partition_scheme d) (tvd_partition_schemes d) \<and> tracked sc_id (tvd_sort_scheme d) (tvd_sort_schemes d)"

text \<open>The contents that creating and updating table versions can lead to.\<close>

inductive table_version_reachable :: "'t table_version_data \<Rightarrow> bool" where
  version_created: "table_version_reachable (created_version_data a previous)"
| version_updated: "table_version_reachable d \<Longrightarrow> updated_table_version a d = Inr d' \<Longrightarrow> table_version_reachable d'"

lemma res_map_ids: "res_map ident xs = Inr ids \<Longrightarrow> map ident xs = map Inr ids"
  by (induction xs arbitrary: ids) (auto simp: rbind_Inr_iff)

lemma extended_history_Inr:
  assumes "extended_history ident same x history = Inr history'"
  shows "same = Inr True \<and> history' = history \<or>
    same = Inr False \<and> (\<exists>old. history = Some old \<and> history' = Some (old @ [x]) \<and> ident x \<notin> set (map ident old))"
proof -
  from assms consider "same = Inr True" "history' = history"
    | i old ids where "same = Inr False" "ident x = Inr i" "history = Some old" "res_map ident old = Inr ids" "i \<notin> set ids"
        "history' = Some (old @ [x])"
    by (auto simp: extended_history_def rbind_Inr_iff of_option_def split: if_splits option.splits)
  then show ?thesis
  proof cases
    case 2
    then have "ident x \<notin> set (map ident old)" unfolding res_map_ids [OF 2(4)] by auto
    then show ?thesis using 2 by simp
  qed simp
qed

lemma scheme_equivalent_ids:
  "scheme_equivalent eq p other True = Inr True \<Longrightarrow> \<exists>q. other = Some q \<and> sc_id p = sc_id q"
  by (auto simp: scheme_equivalent_def Let_def rbind_Inr_iff split: option.splits)

lemma extended_history_tracked:
  assumes "extended_history (\<lambda>s. Inr (sc_id s)) (scheme_equivalent eq p current True) p history = Inr history'"
    "tracked sc_id current history"
  shows "tracked sc_id (Some p) history'"
proof -
  have *: "(\<lambda>s. Inr (sc_id s) :: string option res) = Inr \<circ> sc_id" by (simp add: fun_eq_iff)
  from extended_history_Inr [OF assms(1)] consider "scheme_equivalent eq p current True = Inr True" "history' = history"
    | old where "history = Some old" "history' = Some (old @ [p])" "sc_id p \<notin> set (map sc_id old)"
    by auto
  then show ?thesis
  proof cases
    case 1
    then show ?thesis using scheme_equivalent_ids [OF 1(1)] assms(2) by (auto simp: tracked_def split: option.splits)
  next
    case 2
    then show ?thesis using assms(2) by (auto simp: tracked_def split: option.splits)
  qed
qed

lemma updated_partition_scheme_ok:
  assumes "updated_partition_scheme a d = Inr d'" "version_ok d"
  shows "version_ok d' \<and> tvd_schema d' = tvd_schema d"
proof (cases "va_partition_scheme a")
  case None
  then show ?thesis using assms by (simp add: updated_partition_scheme_def)
next
  case (Some p)
  then show ?thesis
    using assms extended_history_tracked [of "partition_key_equivalent True" p "tvd_partition_scheme d" "tvd_partition_schemes d"]
    by (auto simp: updated_partition_scheme_def partition_scheme_equivalent_def rbind_Inr_iff version_ok_def)
qed

lemma updated_sort_scheme_ok:
  assumes "updated_sort_scheme a d = Inr d'" "version_ok d"
  shows "version_ok d' \<and> tvd_schema d' = tvd_schema d"
proof (cases "va_sort_keys a")
  case None
  then show ?thesis using assms by (simp add: updated_sort_scheme_def)
next
  case (Some p)
  then show ?thesis
    using assms extended_history_tracked [of sort_key_equivalent p "tvd_sort_scheme d" "tvd_sort_schemes d"]
    by (auto simp: updated_sort_scheme_def sort_scheme_equivalent_def rbind_Inr_iff version_ok_def)
qed

lemma updated_schema_ok:
  assumes "updated_schema a d = Inr d'" "version_ok d"
  shows "version_ok d' \<and> (tvd_schema d = None \<longrightarrow> tvd_schema d' = None)"
proof (cases "va_schema a")
  case None
  then show ?thesis using assms by (simp add: updated_schema_def)
next
  case (Some s)
  let ?same = "equivalent_to s (tvd_schema d) True"
  obtain h where h: "extended_history schema_id (Inr ?same) s (tvd_schemas d) = Inr h"
    and d': "d' = d\<lparr>tvd_schema := (if ?same then tvd_schema d else Some s), tvd_schemas := h\<rparr>"
    using assms(1) Some by (auto simp: updated_schema_def Let_def rbind_Inr_iff)
  from extended_history_Inr [OF h] consider "?same" "h = tvd_schemas d"
    | old where "\<not> ?same" "tvd_schemas d = Some old" "h = Some (old @ [s])" "schema_id s \<notin> set (map schema_id old)"
    by auto
  then show ?thesis
  proof cases
    case 1
    then show ?thesis using assms(2) d' by (simp add: version_ok_def)
  next
    case 2
    then show ?thesis using assms(2) d' by (auto simp: version_ok_def tracked_def split: option.splits)
  qed
qed

lemma updated_table_version_ok:
  assumes "updated_table_version a d = Inr d'" "version_ok d"
  shows "version_ok d' \<and> (tvd_schema d = None \<longrightarrow> tvd_schema d' = None)"
proof -
  let ?start = "d\<lparr>tvd_state := (if va_lifecycle_state a \<noteq> None then va_lifecycle_state a else tvd_state d)\<rparr>"
  obtain d1 d2 where 1: "updated_schema a ?start = Inr d1"
    and 2: "updated_partition_scheme a (d1\<lparr>tvd_description := (if va_description a \<noteq> None then va_description a else tvd_description d),
                  tvd_properties := (if va_properties a \<noteq> PNone then va_properties a else tvd_properties d)\<rparr>) = Inr d2"
    and 3: "updated_sort_scheme a d2 = Inr d'"
    using assms(1) by (auto simp: updated_table_version_def Let_def rbind_Inr_iff)
  have "version_ok ?start" using assms(2) by (simp add: version_ok_def)
  from updated_schema_ok [OF 1 this] have d1: "version_ok d1" "tvd_schema d = None \<longrightarrow> tvd_schema d1 = None" by simp_all
  have "version_ok (d1\<lparr>tvd_description := x, tvd_properties := y\<rparr>)" for x y using d1(1) by (simp add: version_ok_def)
  from updated_partition_scheme_ok [OF 2 this] have "version_ok d2 \<and> tvd_schema d2 = tvd_schema d1" by simp
  then show ?thesis using updated_sort_scheme_ok [OF 3] d1(2) by simp
qed

lemma created_version_ok: "version_ok (created_version_data a previous)"
  by (auto simp: version_ok_def created_version_data_def tracked_def Let_def split: option.splits)

lemma reachable_version_ok: "table_version_reachable d \<Longrightarrow> version_ok d"
  by (induction rule: table_version_reachable.induct) (simp_all add: created_version_ok updated_table_version_ok)

subsection \<open>Listing deltas\<close>

definition position_of :: "'t object option \<Rightarrow> int" where
  "position_of m = (case delta_position m of Inr (Some n) \<Rightarrow> n | _ \<Rightarrow> 0)"

definition has_position :: "'t object option \<Rightarrow> bool" where
  "has_position m \<longleftrightarrow> delta_position m = Inr (Some (position_of m))"

definition within_positions :: "int option \<Rightarrow> int option \<Rightarrow> int \<Rightarrow> bool" where
  "within_positions lo hi n \<longleftrightarrow> (case lo of None \<Rightarrow> True | Some a \<Rightarrow> a \<le> n) \<and> (case hi of None \<Rightarrow> True | Some b \<Rightarrow> n \<le> b)"

lemma in_range_positioned: "has_position m \<Longrightarrow> in_range lo hi m = Inr (within_positions lo hi (position_of m))"
  by (auto simp: in_range_def position_check_def within_positions_def has_position_def of_option_def split: option.splits)

lemma res_filter_positioned:
  "\<forall>m \<in> set ms. has_position m \<Longrightarrow> res_filter (in_range lo hi) ms = Inr (filter (\<lambda>m. within_positions lo hi (position_of m)) ms)"
  by (induction ms) (auto simp: in_range_positioned)

lemma insort_keyed: "insort_key fst (f x, x) (map (\<lambda>x. (f x, x)) ys) = map (\<lambda>x. (f x, x)) (insort_key f x ys)"
  by (induction ys) auto

lemma sort_keyed: "sort_key fst (map (\<lambda>x. (f x, x)) xs) = map (\<lambda>x. (f x, x)) (sort_key f xs)"
  by (induction xs) (simp_all add: insort_keyed)

lemma sort_desc_keyed: "sort_desc fst (map (\<lambda>x. (f x, x)) xs) = map (\<lambda>x. (f x, x)) (sort_desc f xs)"
  by (simp add: sort_desc_def rev_map sort_keyed)

lemma res_map_positions:
  "\<forall>m \<in> set ms. has_position m \<Longrightarrow> res_map delta_position ms = Inr (map (\<lambda>m. Some (position_of m)) ms)"
  by (induction ms) (auto simp: has_position_def)

lemma sort_by_position_positioned:
  assumes "\<forall>m \<in> set ms. has_position m"
  shows "sort_by_position asc ms = Inr (if asc then sort_key position_of ms else sort_desc position_of ms)"
proof -
  have "zip (map position_of ms) ms = map (\<lambda>m. (position_of m, m)) ms" by (induction ms) simp_all
  then show ?thesis
    using res_map_positions [OF assms]
    by (auto simp: sort_by_position_def Let_def sort_keyed sort_desc_keyed comp_def)
qed

lemma selected_deltas_positioned:
  assumes "\<forall>m \<in> set ms. has_position m"
  shows "selected_deltas lo hi asc ms = Inr ((if asc then sort_key position_of else sort_desc position_of)
    (filter (\<lambda>m. within_positions lo hi (position_of m)) ms))"
  using assms by (auto simp: selected_deltas_def res_filter_positioned sort_by_position_positioned)

subsection \<open>Staged partitions\<close>

lemma check_partition_values_Inr:
  assumes "check_partition_values A int32 null s ks vs = Inr ()" "length vs = length ks" "i < length ks"
  shows "\<exists>ty. partition_field_type A int32 null s (ks ! i) = Inr ty \<and> pa_array_of A (vs ! i) ty = None"
  using assms
proof (induction A int32 null s ks vs arbitrary: i rule: check_partition_values.induct)
  case (1 A int32 null s k ks v vs)
  then obtain ty where ty: "partition_field_type A int32 null s k = Inr ty" "check_partition_value A ty v = Inr ()"
      "check_partition_values A int32 null s ks vs = Inr ()"
    by (auto simp: rbind_Inr_iff)
  have "pa_array_of A v ty = None" using ty(2) by (auto split: option.splits pa_error.splits)
  then show ?case using ty 1 by (cases i) auto
qed auto

lemma check_staged_partition_Inr:
  assumes "check_staged_partition A int32 null vs scheme_id sd tvd = Inr sid"
  shows "\<exists>p schemes. tvd_partition_schemes tvd = Some schemes \<and> p \<in> set schemes \<and> sc_id p = sid \<and>
    (if vs = [] then sid = Some UNPARTITIONED_SCHEME_ID
     else sid \<noteq> Some UNPARTITIONED_SCHEME_ID \<and> (\<exists>s ks. tvd_schema tvd = Some s \<and> sc_keys p = Some ks \<and> length vs = length ks \<and>
       (\<forall>i < length ks. \<exists>ty. partition_field_type A int32 null s (ks ! i) = Inr ty \<and> pa_array_of A (vs ! i) ty = None)))"
proof -
  obtain schemes where sch: "tvd_partition_schemes tvd = Some schemes" "sid \<in> set (map sc_id schemes)"
    and st: "staged_scheme_id vs scheme_id (sd_partition_scheme sd) = Inr sid"
    using assms by (auto simp: check_staged_partition_def rbind_Inr_iff Let_def split: option.splits if_splits)
  then obtain p where p: "find (\<lambda>ps. sc_id ps = sid) schemes = Some p"
    by (cases "find (\<lambda>ps. sc_id ps = sid) schemes") (auto simp: find_None_iff)
  then have in_p: "p \<in> set schemes" "sc_id p = sid" by (auto simp: find_Some_iff in_set_conv_nth)
  show ?thesis
  proof (cases "vs = []")
    case True
    then show ?thesis using sch in_p st by (auto simp: staged_scheme_id_def)
  next
    case False
    then have "sid \<noteq> Some UNPARTITIONED_SCHEME_ID" "validate_partition_values_against_scheme A int32 null vs p (tvd_schema tvd) = Inr ()"
      using assms sch p by (auto simp: check_staged_partition_def rbind_Inr_iff Let_def split: option.splits if_splits)
    then show ?thesis
      using False sch in_p check_partition_values_Inr
      by (fastforce simp: validate_partition_values_against_scheme_def rbind_Inr_iff of_option_def split: option.splits if_splits)
  qed
qed

end
