(* ===== verification/StorageRequests.thy ===== *)
theory StorageRequests
  imports StorageLaws
begin

text \<open>
  The storage operations as requests to a session, and runs of several of them: what every step of a
  session and the writer of table slices keep, every run keeps. All writing operations but \<^verbatim>\<open>stage_delta\<close> go
  through the transaction of the session; \<^verbatim>\<open>stage_delta\<close> calls the writer of table slices and does not look at a
  transaction.
\<close>

datatype 't read_request =
    GetNamespace "string option" | NamespaceExists "string option" | ListNamespaces "int option"
  | GetTable "string option" "string option" | TableExists "string option" "string option" | ListTables "string option" "int option"
  | GetTableVersion "string option" "string option" "string option"
  | TableVersionExists "string option" "string option" "string option"
  | ListTableVersions "string option" "string option" "int option"
  | GetLatestTableVersion "string option" "string option" | GetLatestActiveTableVersion "string option" "string option"
  | GetColumnNames "string option" "string option" "string option"
  | GetStreamById "table_version_locator option" "string option"
  | GetStream "string option" "string option" "string option" "string option"
  | StreamExists "string option" "string option" "string option" "string option"
  | ListStreams "string option" "string option" "string option" "int option"
  | GetPartitionById "stream_locator option" "string option" | GetPartition "stream_locator option" "string option" "string option"
  | ListPartitions "string option" "string option" "string option" "int option" | ListStreamPartitions "'t object" "int option"
  | ListDeltas "string option" "string option" "string option" "string option" "string option" "int option" "int option" bool "int option"
  | ListPartitionDeltas "partition_locator option" "int option" "int option" bool "int option"
  | GetDelta "string option" "string option" "string option" "string option" "string option" int bool
  | GetLatestDelta "string option" "string option" "string option" "string option" "string option" bool
  | GetDeltaManifest delta_locator

definition ignoring :: "('s, 'a) pio \<Rightarrow> ('s, unit) pio" where
  "ignoring m = pio_bind m (\<lambda>_. pio_return ())"

fun run_read :: "('s, 't content) session \<Rightarrow> 't read_request \<Rightarrow> ('s, unit) pio" where
  "run_read S (GetNamespace ns) = ignoring (get_namespace S ns)"
| "run_read S (NamespaceExists ns) = ignoring (namespace_exists S ns)"
| "run_read S (ListNamespaces limit) = ignoring (list_namespaces S limit)"
| "run_read S (GetTable ns t) = ignoring (get_table S ns t)"
| "run_read S (TableExists ns t) = ignoring (table_exists S ns t)"
| "run_read S (ListTables ns limit) = ignoring (list_tables S ns limit)"
| "run_read S (GetTableVersion ns t v) = ignoring (get_table_version S ns t v)"
| "run_read S (TableVersionExists ns t v) = ignoring (table_version_exists S ns t v)"
| "run_read S (ListTableVersions ns t limit) = ignoring (list_table_versions S ns t limit)"
| "run_read S (GetLatestTableVersion ns t) = ignoring (get_latest_table_version S ns t)"
| "run_read S (GetLatestActiveTableVersion ns t) = ignoring (get_latest_active_table_version S ns t)"
| "run_read S (GetColumnNames ns t v) = ignoring (get_table_version_column_names S ns t v)"
| "run_read S (GetStreamById tvl sid) = ignoring (get_stream_by_id S tvl sid)"
| "run_read S (GetStream ns t v fmt) = ignoring (get_stream S ns t v fmt)"
| "run_read S (StreamExists ns t v fmt) = ignoring (stream_exists S ns t v fmt)"
| "run_read S (ListStreams ns t v limit) = ignoring (list_streams S ns t v limit)"
| "run_read S (GetPartitionById sl pid) = ignoring (get_partition_by_id S sl pid)"
| "run_read S (GetPartition sl vs sid) = ignoring (get_partition S sl vs sid)"
| "run_read S (ListPartitions ns t v limit) = ignoring (list_partitions S ns t v limit)"
| "run_read S (ListStreamPartitions st limit) = ignoring (list_stream_partitions S st limit)"
| "run_read S (ListDeltas ns t v vs sid lo hi asc limit) = ignoring (list_deltas S ns t v vs sid lo hi asc limit)"
| "run_read S (ListPartitionDeltas pl lo hi asc limit) = ignoring (list_partition_deltas S pl lo hi asc limit)"
| "run_read S (GetDelta ns t v vs sid pos m) = ignoring (get_delta S ns t v vs sid pos m)"
| "run_read S (GetLatestDelta ns t v vs sid m) = ignoring (get_latest_delta S ns t v vs sid m)"
| "run_read S (GetDeltaManifest dl) = ignoring (get_delta_manifest S dl)"

datatype 't write_request =
    CreateNamespace "string option" pyval | UpdateNamespace "string option" pyval "string option" | DeleteNamespace "string option" bool
  | CreateTable "string option" "string option" "string option" pyval
  | UpdateTable "string option" "string option" "string option" pyval "string option"
  | DeleteTable "string option" "string option" bool
  | CreateTableVersion string "string option" "string option" "string option" "'t version_args"
  | UpdateTableVersion "string option" "string option" "string option" "'t version_args"
  | StageStream string "string option" "string option" "string option" "string option" | CommitStream stream_locator
  | DeleteStream "string option" "string option" "string option" "string option"
  | StagePartition "'t arrow" 't 't "pyval list \<Rightarrow> string" string "'t object" "pyval list" "string option" | CommitPartition partition_locator partition_data bool
  | DeletePartition "stream_locator option" "string option" "string option"
  | CommitDelta "nat \<Rightarrow> nat" pyval "'t object"

fun run_write ::
    "('s, 't content) session \<Rightarrow> 't write_request \<Rightarrow> ('s, unit) pio" where
  "run_write S (CreateNamespace ns p) = ignoring (create_namespace S ns p)"
| "run_write S (UpdateNamespace ns p new) = ignoring (update_namespace S ns p new)"
| "run_write S (DeleteNamespace ns purge) = ignoring (delete_namespace S ns purge)"
| "run_write S (CreateTable ns t d p) = ignoring (create_table S ns t d p)"
| "run_write S (UpdateTable ns t d p new) = ignoring (update_table S ns t d p new)"
| "run_write S (DeleteTable ns t purge) = ignoring (delete_table S ns t purge)"
| "run_write S (CreateTableVersion uuid ns t v a) = ignoring (create_table_version S uuid ns t v a)"
| "run_write S (UpdateTableVersion ns t v a) = ignoring (update_table_version S ns t v a)"
| "run_write S (StageStream uuid ns t v fmt) = ignoring (stage_stream S uuid ns t v fmt)"
| "run_write S (CommitStream sl) = ignoring (commit_stream S sl)"
| "run_write S (DeleteStream ns t v fmt) = ignoring (delete_stream S ns t v fmt)"
| "run_write S (StagePartition A i n str uuid st vs sid) = ignoring (stage_partition A i n str S uuid st vs sid)"
| "run_write S (CommitPartition pl pd b) = ignoring (commit_partition S pl pd b)"
| "run_write S (DeletePartition sl vs sid) = ignoring (delete_partition S sl vs sid)"
| "run_write S (CommitDelta uuids p d) = ignoring (commit_delta uuids p S d)"

text \<open>A sequence of operations in one session, whatever they return; deltas are staged with the writer \<open>slices\<close>.\<close>

inductive storage_run ::
    "('s, 't content) session \<Rightarrow> (string option \<Rightarrow> 't writer_kwargs \<Rightarrow> ('s, manifest_entry list) pio) \<Rightarrow> 's \<Rightarrow> 's \<Rightarrow> bool"
  for S slices where
  run_nothing: "storage_run S slices s s"
| run_one_read: "storage_run S slices s s' \<Longrightarrow> run_read S q s' = Some (r, s'') \<Longrightarrow> storage_run S slices s s''"
| run_one_write: "storage_run S slices s s' \<Longrightarrow> run_write S q s' = Some (r, s'') \<Longrightarrow> storage_run S slices s s''"
| run_stage_delta: "storage_run S slices s s' \<Longrightarrow>
    stage_delta slices uuid pl pd ty author properties k content_type entry_params entry_type schema sort_scheme_id s' = Some (r, s'') \<Longrightarrow>
    storage_run S slices s s''"

context session_reads
begin

lemma keeps_run_read: "keeps R (run_read S q)"
  by (cases q) (simp_all only: run_read.simps ignoring_def, (intro keeps_intros)+)

end

context session_steps
begin

lemmas keeps_writes = keeps_namespace_writes keeps_table_writes keeps_version_writes keeps_stream_writes keeps_partition_writes
  keeps_commit_delta

lemma keeps_run_write: "keeps R (run_write S q)"
  by (cases q) (simp_all only: run_write.simps ignoring_def, (intro keeps_intros keeps_writes)+)

lemma keeps_stage_delta:
  assumes "\<And>pid k. keeps R (slices pid k)"
  shows "keeps R (stage_delta slices uuid pl pd ty author properties k content_type entry_params entry_type schema sort_scheme_id)"
  unfolding stage_delta_def write_table_def by (intro keeps_intros assms)

lemma keeps_storage_run:
  assumes "storage_run S slices s s'" and slices: "\<And>pid k. keeps R (slices pid k)"
  shows "R s s'"
  using assms(1)
proof (induction rule: storage_run.induct)
  case (run_stage_delta s s')
  then show ?case using kept_trans keepsD [OF keeps_stage_delta [where slices = slices, OF slices]] by blast
qed (auto intro: kept_refl kept_trans keepsD [OF keeps_run_read] keepsD [OF keeps_run_write])

end

end
