(* ===== verification/StorageProperties.thy ===== *)
theory StorageProperties
  imports StorageVersions StorageRequests MemoryFS
begin

text \<open>
  The properties of the storage layer, over the runs of \<^verbatim>\<open>StorageTraces\<close> and the lemmas of \<^verbatim>\<open>StorageVersions\<close>. A log of writes
  is that of a recording session, which gives the results of the session it records
  (\<open>recorded_match\<close> of \<^verbatim>\<open>StorageLaws\<close>).
\<close>

subsection \<open>Examples\<close>

text \<open>A transaction environment on the file system in memory whose files hold the objects themselves.\<close>

definition ex_store :: "(nat object option mem, nat content, nat object option) txn_env" where
  "ex_store =
     \<lparr>te_env = \<lparr>env_fs = mem_F (\<lambda>d. case d of None \<Rightarrow> 0 | Some _ \<Rightarrow> 1), env_sha1 = id, env_serialize = (\<lambda>m. Inr (Some m)),
        env_load = (\<lambda>_ _ d. of_option ValueError d), env_empty = None\<rparr>,
      te_dumps = (\<lambda>_. None), te_uuid = ''a0eebc99-9c0b-4ef8-bb6d-6bb9bd380a11'', te_uuids = (''src-id'', ''dest-id'')\<rparr>"

definition ex_reader :: "nat content txn" where
  "ex_reader = (txn_of None None)\<lparr>txn_start_time := Some 100, txn_historic_timestamp := Some 100, txn_id := Some ''100_u'',
     txn_root := ''root''\<rparr>"

text \<open>A session on a list of objects: objects are found by their identifier, alias or locator below their parent.\<close>

definition ex_named :: "'t object \<Rightarrow> 't object \<Rightarrow> bool" where
  "ex_named m x \<longleftrightarrow>
     (if truthy (immutable_id (mf_locator m))
      then immutable_id (mf_locator m) = immutable_id (mf_locator x) \<and> locator_parent (mf_locator m) = locator_parent (mf_locator x)
      else if mf_locator_alias m \<noteq> None then mf_locator_alias m = mf_locator_alias x else mf_locator m = mf_locator x)"

definition ex_objects_session :: "('t object list, 't content) session" where
  "ex_objects_session =
     \<lparr>ss_read = (\<lambda>k m _ xs. Some (Inr (map Some (filter (if k = READ_SIBLINGS
          then (\<lambda>x. locator_parent (mf_locator x) = locator_parent (mf_locator m)) else ex_named m) xs)), xs)),
      ss_write = (\<lambda>k m src xs. Some (Inr m, case src of None \<Rightarrow> xs @ [m]
          | Some old \<Rightarrow> map (\<lambda>x. if mf_locator x = mf_locator old then m else x) xs))\<rparr>"

definition ex_stream_locator :: stream_locator where
  "ex_stream_locator = stream_locator_of (case table_version_locator_at (Some ''ns'') (Some ''t'') (Some ''1'') of Inr l \<Rightarrow> Some l | _ \<Rightarrow> None)
     (Some ''s1'') (Some DELTACAT_FORMAT)"

definition ex_partition_locator :: "string \<Rightarrow> partition_locator" where
  "ex_partition_locator pid = partition_locator_of (Some ex_stream_locator) None (Some pid)"

definition ex_partition :: "string \<Rightarrow> commit_state \<Rightarrow> string option \<Rightarrow> int option \<Rightarrow> partition_data" where
  "ex_partition pid state previous pos =
     \<lparr>pd_content_types = None, pd_state = Some state, pd_previous_stream_position = None, pd_previous_partition_id = previous,
      pd_stream_position = pos, pd_partition_scheme_id = Some UNPARTITIONED_SCHEME_ID, pd_compaction_round_completion_info = PNone\<rparr>"

definition ex_partition_object :: "string \<Rightarrow> partition_data \<Rightarrow> nat object" where
  "ex_partition_object pid d = new_object (PartitionLoc (ex_partition_locator pid)) (PartitionC d)"

definition ex_new_delta :: "delta_type \<Rightarrow> nat object" where
  "ex_new_delta ty = delta_object (delta_locator_of (Some (ex_partition_locator ''p1'')) None) (no_delta_data\<lparr>dd_type := Some ty\<rparr>)"

text \<open>The result of a run that returns without an error.\<close>

definition succeeds :: "('a res \<times> 's) option \<Rightarrow> bool" where
  "succeeds x \<longleftrightarrow> (case x of Some (Inr _, _) \<Rightarrow> True | _ \<Rightarrow> False)"

lemma succeedsE:
  assumes "succeeds x"
  obtains y s where "x = Some (Inr y, s)"
  using assms by (auto simp: succeeds_def split: option.splits sum.splits prod.splits)

definition write_kinds :: "('a res \<times> 's \<times> 'c write_call list) option \<Rightarrow> txn_op_type list option" where
  "write_kinds x = map_option (\<lambda>y. map fst (snd (snd y))) x"

lemma write_kindsD: "x = Some (r, t) \<Longrightarrow> write_kinds x = Some ks \<Longrightarrow> map fst (snd t) = ks"
  by (simp add: write_kinds_def)

subsection \<open>Reading and historic transactions\<close>

text \<open>C16: none of the reading operations of the storage layer changes a file of the catalog, whatever it returns.\<close>

theorem storage_reads_keep_files:
  assumes "run_read (txn_session T) q s = Some (r, s')"
  shows "fst s' = fst s"
  using assms by (rule keepsD [OF txn_reads.keeps_run_read])

theorem storage_reads_keep_files_witness:
  "\<exists>r s'. run_read (txn_session ex_store) (GetNamespace (Some ''ns'')) ([(''root/a'', None)], ex_reader) = Some (r, s') \<and>
     fst s' = [(''root/a'', None)]"
proof -
  have "succeeds (run_read (txn_session ex_store) (GetNamespace (Some ''ns'')) ([(''root/a'', None)], ex_reader))" by code_simp
  then obtain y s' where run: "run_read (txn_session ex_store) (GetNamespace (Some ''ns'')) ([(''root/a'', None)], ex_reader) = Some (Inr y, s')"
    by (rule succeedsE)
  from storage_reads_keep_files [OF run] have "fst s' = [(''root/a'', None)]" by simp
  with run show ?thesis by blast
qed

text \<open>C17: in a transaction that reads the past no sequence of storage operations, also of writing ones, records a write,
  and the only files it changes are those that the writer of table slices writes when a delta is staged: staging a delta does
  not look at the transaction, every other operation leaves all files as they are.\<close>

theorem storage_historic_read_only:
  assumes run: "storage_run (txn_session T) slices s s'"
    and slices: "\<And>pid k s r s' p. slices pid k s = Some (r, s') \<Longrightarrow> snd s' = snd s \<and> (p \<notin> written \<longrightarrow> contents (fst s') p = contents (fst s) p)"
    and t: "txn_historic_timestamp (snd s) \<noteq> None" "txn_interactive (snd s)" "\<not> has_write_operations (snd s)"
  shows "(\<forall>p. p \<notin> written \<longrightarrow> contents (fst s') p = contents (fst s) p) \<and> \<not> has_write_operations (snd s')"
proof -
  have "keeps (\<lambda>s s'. historic_txn (snd s) \<longrightarrow> (\<forall>p. p \<notin> written \<longrightarrow> contents (fst s') p = contents (fst s) p) \<and> historic_txn (snd s'))
      (slices pid k)" for pid k
    by (rule keepsI) (use slices in metis)
  from historic_session.keeps_storage_run [OF run this] t show ?thesis by (simp add: historic_txn_def)
qed

definition ex_slices :: "string option \<Rightarrow> nat writer_kwargs \<Rightarrow> (nat object option mem \<times> nat content txn, manifest_entry list) pio" where
  "ex_slices pid k s = Some (Inr [], ((''root/data/part-0'', None) # fst s, snd s))"

theorem storage_historic_read_only_witness:
  "\<exists>s'. storage_run (txn_session ex_store) ex_slices ([(''root/a'', None)], ex_reader) s' \<and>
     map_of (fst s') ''root/data/part-0'' = Some None \<and>
     (\<forall>p. p \<notin> {''root/data/part-0''} \<longrightarrow> map_of (fst s') p = map_of [(''root/a'', None)] p) \<and> \<not> has_write_operations (snd s')"
proof -
  let ?s = "([(''root/a'', None :: nat object option)], ex_reader)"
  let ?s' = "((''root/data/part-0'', None) # fst ?s, ex_reader)"
  let ?stage = "stage_delta ex_slices ''u'' (ex_partition_locator ''p1'') (ex_partition ''p1'' STAGED None None) None None PNone
    \<lparr>wk_schema_id = None, wk_schema = None, wk_sort_scheme_id = None\<rparr> PARQUET PNone None None None"
  have "run_write (txn_session ex_store) (CreateNamespace (Some ''ns'') PNone) ?s = Some (Inl RuntimeError, ?s)"
    by (simp add: ignoring_def create_namespace_def renaming_def pio_try_def pio_bind_def txn_session_def pio_of_def txn_op_of_def
        txn_step_def get_txn_id_def assign_txn_id_def truthy_def is_read_operation_def read_operations_def ex_reader_def Let_def)
  then have run: "storage_run (txn_session ex_store) ex_slices ?s ?s" by (rule run_one_write [OF run_nothing])
  have "map_option snd (?stage ?s) = Some ?s'" by code_simp
  then obtain r where "?stage ?s = Some (r, ?s')" by auto
  from run_stage_delta [OF run this] have run': "storage_run (txn_session ex_store) ex_slices ?s ?s'" .
  have "(\<forall>p. p \<notin> {''root/data/part-0''} \<longrightarrow> map_of (fst ?s') p = map_of (fst ?s) p) \<and> \<not> has_write_operations (snd ?s')"
    by (rule storage_historic_read_only [OF run']) (auto simp: ex_slices_def ex_reader_def txn_of_def has_write_operations_def)
  then show ?thesis by (intro exI [of _ ?s'] conjI run') simp_all
qed

subsection \<open>Committing deltas\<close>

text \<open>C9: a committed delta is written below the partition it belongs to. An ordered delta gets a position above the last one
  of the partition: the given one, or the next; the partition is then written with that position. An
  unordered delta gets a position above the range of the ordered ones that fits into 63 bits, and the partition is not
  written.\<close>

theorem commit_delta_writes:
  assumes "commit_delta uuids properties (recording S) delta (s, []) = Some (Inr written, (s', log))"
  shows "\<exists>d dl parent pd pl pos previous u. delta_data_of delta = Inr d \<and> delta_locator_of_object delta = Inr dl \<and>
    delta_parent (recording S) dl (s, []) = Some (Inr (Some parent), u) \<and>
    partition_data_of parent = Inr pd \<and> partition_locator_of_object parent = Inr pl \<and>
    log = (CREATE, committed_delta properties (resolved_delta_type d) pl pos previous d delta, None) #
      (if resolved_delta_type d = ADD then []
       else [(UPDATE, with_content (PartitionC (pd\<lparr>pd_stream_position := Some pos\<rparr>)) parent, Some parent)]) \<and>
    (if resolved_delta_type d = ADD then UNSIGNED_INT32_MAX_VALUE < pos \<and> pos < 2 ^ 63
     else let old = (case pd_stream_position pd of None \<Rightarrow> 0 | Some n \<Rightarrow> n)
          in previous = Some old \<and> old < pos \<and> (case dl_stream_position dl of None \<Rightarrow> pos = old + 1 | Some p \<Rightarrow> pos = p))"
proof (rule commit_delta_run [OF assms])
  fix d dl parent pd pl pos previous u
  let ?ty = "resolved_delta_type d"
  assume run: "delta_data_of delta = Inr d" "delta_locator_of_object delta = Inr dl"
      "delta_parent (recording S) dl (s, []) = Some (Inr (Some parent), u)"
      "partition_data_of parent = Inr pd" "partition_locator_of_object parent = Inr pl"
    and target: "delta_target uuids ?ty (pd_stream_position pd) (dl_stream_position dl) = Some (Inr (pos, previous))"
    and log: "snd (s', log) = snd (s, []) @ (CREATE, committed_delta properties ?ty pl pos previous d delta, None) #
       (if ?ty = ADD then [] else [(UPDATE, with_content (PartitionC (pd\<lparr>pd_stream_position := Some pos\<rparr>)) parent, Some parent)])"
  have "if ?ty = ADD then UNSIGNED_INT32_MAX_VALUE < pos \<and> pos < 2 ^ 63
     else let old = (case pd_stream_position pd of None \<Rightarrow> 0 | Some n \<Rightarrow> n)
          in previous = Some old \<and> old < pos \<and> (case dl_stream_position dl of None \<Rightarrow> pos = old + 1 | Some p \<Rightarrow> pos = p)"
  proof (cases "?ty = ADD")
    case True
    then show ?thesis using delta_target_unordered target by simp
  next
    case False
    then show ?thesis using delta_target_ordered [OF target False] by (simp only: Let_def if_False)
  qed
  then show ?thesis using run log by (intro exI conjI) simp_all
qed

definition ex_parent :: "nat object" where
  "ex_parent = ex_partition_object ''p1'' (ex_partition ''p1'' COMMITTED None (Some 4))"

definition ex_commit_delta :: "(nat object res \<times> nat object list \<times> nat content write_call list) option" where
  "ex_commit_delta = commit_delta (\<lambda>_. 0) PNone (recording ex_objects_session) (ex_new_delta APPEND) ([ex_parent], [])"

theorem commit_delta_writes_witness:
  "\<exists>written s' log. ex_commit_delta = Some (Inr written, (s', log)) \<and> map fst log = [CREATE, UPDATE] \<and>
     (\<exists>d dl parent pd pl pos previous u. delta_data_of (ex_new_delta APPEND) = Inr d \<and> delta_locator_of_object (ex_new_delta APPEND) = Inr dl \<and>
        delta_parent (recording ex_objects_session) dl ([ex_parent], []) = Some (Inr (Some parent), u) \<and> partition_data_of parent = Inr pd \<and>
        log = (CREATE, committed_delta PNone (resolved_delta_type d) pl pos previous d (ex_new_delta APPEND), None) #
          (if resolved_delta_type d = ADD then []
           else [(UPDATE, with_content (PartitionC (pd\<lparr>pd_stream_position := Some pos\<rparr>)) parent, Some parent)]))"
proof -
  have "succeeds ex_commit_delta" by code_simp
  then obtain y t where run: "ex_commit_delta = Some (Inr y, t)" by (rule succeedsE)
  have "write_kinds ex_commit_delta = Some [CREATE, UPDATE]" by code_simp
  with run have kinds: "map fst (snd t) = [CREATE, UPDATE]" by (rule write_kindsD)
  have "commit_delta (\<lambda>_. 0) PNone (recording ex_objects_session) (ex_new_delta APPEND) ([ex_parent], []) = Some (Inr y, (fst t, snd t))"
    using run by (simp add: ex_commit_delta_def)
  note facts = this commit_delta_writes [OF this]
  have "\<exists>d dl parent pd pl pos previous u. delta_data_of (ex_new_delta APPEND) = Inr d \<and> delta_locator_of_object (ex_new_delta APPEND) = Inr dl \<and>
        delta_parent (recording ex_objects_session) dl ([ex_parent], []) = Some (Inr (Some parent), u) \<and> partition_data_of parent = Inr pd \<and>
        snd t = (CREATE, committed_delta PNone (resolved_delta_type d) pl pos previous d (ex_new_delta APPEND), None) #
          (if resolved_delta_type d = ADD then []
           else [(UPDATE, with_content (PartitionC (pd\<lparr>pd_stream_position := Some pos\<rparr>)) parent, Some parent)])"
    using facts(2) by (elim exE conjE) (intro exI conjI, assumption+)
  then show ?thesis
    using facts(1) kinds unfolding ex_commit_delta_def [symmetric]
    by (intro exI [of _ y] exI [of _ "fst t"] exI [of _ "snd t"] conjI)
qed

subsection \<open>Replacing committed objects\<close>

text \<open>C10: a commit of a partition writes only after its checks: the named partition is staged, and the committed partition that
  it replaces is the one it expects and another one. It then writes the staged partition as committed and, where
  there is one to replace, replaces it; otherwise nothing is written.\<close>

theorem commit_partition_writes:
  assumes "commit_partition (recording S) pl pd b (s, []) = Some (r, (s', log))" "log \<noteq> []"
  shows "\<exists>staged d committed u v.
    get_partition_by_id (recording S) (pl_stream_locator pl) (pl_partition_id pl) (s, []) = Some (Inr (Some staged), u) \<and>
    partition_data_of staged = Inr d \<and> pd_state d = Some STAGED \<and> replaced_partition (recording S) pl pd u = Some (Inr committed, v) \<and>
    (case committed of
       None \<Rightarrow> log = [(UPDATE, committed_partition pd d staged, Some staged)]
     | Some c \<Rightarrow> \<exists>cl calls. partition_locator_of_object c = Inr cl \<and> pl_partition_id cl = pd_previous_partition_id pd \<and>
         pl_partition_id cl \<noteq> pl_partition_id pl \<and>
         log = (REPLACE, committed_partition pd d staged, Some staged) # calls \<and> (\<forall>w. r = Inr w \<longrightarrow> calls \<noteq> []) \<and>
         (calls = [] \<or> (\<exists>w. calls = [(REPLACE, w, Some c)])))"
proof -
  from assms(2) have "snd (s', log) \<noteq> snd (s, [])" by simp
  note run = commit_partition_run [OF assms(1) this, unfolded snd_conv append_Nil]
  show ?thesis by (rule run) (intro exI conjI, assumption+)
qed

definition ex_staged :: partition_data where
  "ex_staged = ex_partition ''p2'' STAGED (Some ''p1'') None"

definition ex_commit_partition :: "string \<Rightarrow> (nat object res \<times> nat object list \<times> nat content write_call list) option" where
  "ex_commit_partition expected = commit_partition (recording ex_objects_session) (ex_partition_locator ''p2'')
     (ex_staged\<lparr>pd_previous_partition_id := Some expected\<rparr>) False ([ex_parent, ex_partition_object ''p2'' ex_staged], [])"

text \<open>A commit that expects another partition than the committed one is refused before it writes.\<close>

lemma commit_partition_refused:
  "map_option (\<lambda>(r, s, log). (case r of Inl e \<Rightarrow> Some e | Inr _ \<Rightarrow> None, log)) (ex_commit_partition ''p0'') =
     Some (Some ConcurrentModificationError, [])"
  by code_simp

theorem commit_partition_writes_witness:
  "\<exists>r s' log. ex_commit_partition ''p1'' = Some (r, (s', log)) \<and> map fst log = [REPLACE, REPLACE] \<and>
     (\<exists>staged d u. get_partition_by_id (recording ex_objects_session) (Some ex_stream_locator) (Some ''p2'')
         ([ex_parent, ex_partition_object ''p2'' ex_staged], []) = Some (Inr (Some staged), u) \<and>
       partition_data_of staged = Inr d \<and> pd_state d = Some STAGED)"
proof -
  have "succeeds (ex_commit_partition ''p1'')" by code_simp
  then obtain y t where run: "ex_commit_partition ''p1'' = Some (Inr y, t)" by (rule succeedsE)
  have "write_kinds (ex_commit_partition ''p1'') = Some [REPLACE, REPLACE]" by code_simp
  with run have kinds: "map fst (snd t) = [REPLACE, REPLACE]" by (rule write_kindsD)
  then have "snd t \<noteq> []" by auto
  have "commit_partition (recording ex_objects_session) (ex_partition_locator ''p2'') (ex_staged\<lparr>pd_previous_partition_id := Some ''p1''\<rparr>)
      False ([ex_parent, ex_partition_object ''p2'' ex_staged], []) = Some (Inr y, (fst t, snd t))"
    using run by (simp add: ex_commit_partition_def)
  from this \<open>snd t \<noteq> []\<close> obtain staged d u where "get_partition_by_id (recording ex_objects_session) (pl_stream_locator (ex_partition_locator ''p2''))
      (pl_partition_id (ex_partition_locator ''p2'')) ([ex_parent, ex_partition_object ''p2'' ex_staged], []) = Some (Inr (Some staged), u)"
    "partition_data_of staged = Inr d" "pd_state d = Some STAGED"
    by (rule exE [OF commit_partition_writes], elim exE conjE) (rule that, assumption+)
  then show ?thesis
    using run kinds by (intro exI [of _ "Inr y"] exI [of _ "fst t"] exI [of _ "snd t"]) (auto simp: ex_partition_locator_def partition_locator_of_def)
qed

text \<open>C15: a commit of a stream writes the staged stream as committed and replaces the committed stream of the same format only
  where that is the one recorded at staging and another one. A commit that returns has replaced it; one that is
  refused because of another committed stream has already asked for the first of the two writes.\<close>

theorem commit_stream_writes:
  assumes "commit_stream (recording S) sl (s, []) = Some (r, (s', log))" "log \<noteq> []"
  shows "\<exists>staged d l committed u v.
    get_stream_by_id (recording S) (sl_table_version_locator sl) (sl_stream_id sl) (s, []) = Some (Inr (Some staged), u) \<and>
    stream_data_of staged = Inr d \<and> sd_state d = Some STAGED \<and> stream_locator_of_object staged = Inr l \<and>
    get_stream (recording S) (sl_namespace l) (sl_table_name l) (sl_table_version l) (sl_format l) u = Some (Inr committed, v) \<and>
    (let new = with_content (StreamC (d\<lparr>sd_state := Some COMMITTED\<rparr>)) staged in
     case committed of
       None \<Rightarrow> log = [(UPDATE, new, Some staged)]
     | Some c \<Rightarrow> \<exists>calls. log = (REPLACE, new, Some staged) # calls \<and> (\<forall>w. r = Inr w \<longrightarrow> calls \<noteq> []) \<and>
         (calls = [] \<or> (\<exists>cl w. calls = [(REPLACE, w, Some c)] \<and> stream_locator_of_object c = Inr cl \<and>
            sl_stream_id cl = sd_previous_stream_id d \<and> sl_stream_id cl \<noteq> sl_stream_id l)))"
proof -
  from assms(2) have "snd (s', log) \<noteq> snd (s, [])" by simp
  note run = commit_stream_run [OF assms(1) this, unfolded snd_conv append_Nil]
  show ?thesis unfolding Let_def by (rule run) (intro exI conjI, assumption+)
qed

definition ex_stream :: "string \<Rightarrow> commit_state \<Rightarrow> string option \<Rightarrow> nat object" where
  "ex_stream sid state previous = new_object (StreamLoc (ex_stream_locator\<lparr>sl_stream_id := Some sid\<rparr>)) (StreamC
     \<lparr>sd_partition_scheme = Some UNPARTITIONED_SCHEME, sd_state = Some state, sd_previous_stream_id = previous, sd_watermark = None\<rparr>)"

definition ex_commit_stream :: "string \<Rightarrow> (nat object res \<times> nat object list \<times> nat content write_call list) option" where
  "ex_commit_stream expected = commit_stream (recording ex_objects_session) (ex_stream_locator\<lparr>sl_stream_id := Some ''s2''\<rparr>)
     ([ex_stream ''s1'' COMMITTED None, ex_stream ''s2'' STAGED (Some expected)], [])"

lemma commit_stream_refused_late:
  "map_option (\<lambda>(r, s, log). (case r of Inl e \<Rightarrow> Some e | Inr _ \<Rightarrow> None, map fst log)) (ex_commit_stream ''s0'') =
     Some (Some ConcurrentModificationError, [REPLACE])"
  by code_simp

theorem commit_stream_writes_witness:
  "\<exists>r s' log. ex_commit_stream ''s1'' = Some (r, (s', log)) \<and> map fst log = [REPLACE, REPLACE] \<and>
     (\<exists>staged d u. get_stream_by_id (recording ex_objects_session) (sl_table_version_locator (ex_stream_locator\<lparr>sl_stream_id := Some ''s2''\<rparr>))
         (sl_stream_id (ex_stream_locator\<lparr>sl_stream_id := Some ''s2''\<rparr>))
         ([ex_stream ''s1'' COMMITTED None, ex_stream ''s2'' STAGED (Some ''s1'')], []) = Some (Inr (Some staged), u) \<and>
       stream_data_of staged = Inr d \<and> sd_state d = Some STAGED)"
proof -
  have "succeeds (ex_commit_stream ''s1'')" by code_simp
  then obtain y t where run: "ex_commit_stream ''s1'' = Some (Inr y, t)" by (rule succeedsE)
  have "write_kinds (ex_commit_stream ''s1'') = Some [REPLACE, REPLACE]" by code_simp
  with run have kinds: "map fst (snd t) = [REPLACE, REPLACE]" by (rule write_kindsD)
  then have "snd t \<noteq> []" by auto
  have "commit_stream (recording ex_objects_session) (ex_stream_locator\<lparr>sl_stream_id := Some ''s2''\<rparr>)
     ([ex_stream ''s1'' COMMITTED None, ex_stream ''s2'' STAGED (Some ''s1'')], []) = Some (Inr y, (fst t, snd t))"
    using run by (simp add: ex_commit_stream_def)
  from this \<open>snd t \<noteq> []\<close> obtain staged d u where "get_stream_by_id (recording ex_objects_session) (sl_table_version_locator (ex_stream_locator\<lparr>sl_stream_id := Some ''s2''\<rparr>))
         (sl_stream_id (ex_stream_locator\<lparr>sl_stream_id := Some ''s2''\<rparr>))
         ([ex_stream ''s1'' COMMITTED None, ex_stream ''s2'' STAGED (Some ''s1'')], []) = Some (Inr (Some staged), u)"
       "stream_data_of staged = Inr d" "sd_state d = Some STAGED"
    by (rule exE [OF commit_stream_writes], elim exE conjE) (rule that, assumption+)
  then show ?thesis using run kinds by (intro exI [of _ "Inr y"] exI [of _ "fst t"] exI [of _ "snd t"]) auto
qed

subsection \<open>Table versions\<close>

text \<open>C11: a created table version is written with its table and its default stream, in one order. Where the table exists it
  is updated, and the number of the version is the next one after the latest version of the table, also where the caller
  names the version. The table then names the new version as its latest one, and as the active one only if it is created as
  active.\<close>

theorem create_table_version_writes:
  assumes "create_table_version (recording S) uuid ns t given a (s, []) = Some (Inr result, (s', log))"
  shows "\<exists>prev op base previous version d l u u'. get_table (recording S) ns t u = Some (Inr prev, u') \<and>
    table_data_of base = Inr d \<and> table_version_locator_at ns t (Some version) = Inr l \<and>
    log = [(op, with_content (TableC (registered_table version (va_lifecycle_state a) (va_table_description a) (va_table_properties a) d)) base, prev),
      (CREATE, table_version_of l (created_version_data a previous), None),
      (CREATE, stream_of (stream_locator_of (Some l) (Some uuid) (Some DELTACAT_FORMAT))
         (tvd_partition_scheme (created_version_data a previous)) (Some COMMITTED), None)] \<and>
    (case prev of
       None \<Rightarrow> op = CREATE \<and> previous = None
     | Some p \<Rightarrow> op = UPDATE \<and> base = p \<and> previous = td_latest_table_version d \<and>
         (\<forall>old prefix n. previous = Some old \<and> parse_table_version previous = Inr (prefix, n) \<longrightarrow>
            (\<exists>prefix'. parse_table_version (Some version) = Inr (prefix', n + 1))))"
proof (rule create_table_version_run [OF assms, unfolded snd_conv append_Nil])
  fix prev op base previous version d l u u'
  assume target: "version_target ns t given prev = Inr (op, base, previous, version)"
    and run: "get_table (recording S) ns t u = Some (Inr prev, u')" "table_data_of base = Inr d"
      "table_version_locator_at ns t (Some version) = Inr l"
    and log: "log = [(op, with_content (TableC (registered_table version (va_lifecycle_state a) (va_table_description a) (va_table_properties a) d)) base, prev),
      (CREATE, table_version_of l (created_version_data a previous), None),
      (CREATE, stream_of (stream_locator_of (Some l) (Some uuid) (Some DELTACAT_FORMAT))
         (tvd_partition_scheme (created_version_data a previous)) (Some COMMITTED), None)]"
  obtain q k where parsed: "parse_table_version (Some version) = Inr (q, k)" using run(3) by (rule table_version_locator_parsed)
  have "case prev of
       None \<Rightarrow> op = CREATE \<and> previous = None
     | Some p \<Rightarrow> op = UPDATE \<and> base = p \<and> previous = td_latest_table_version d \<and>
         (\<forall>old prefix n. previous = Some old \<and> parse_table_version previous = Inr (prefix, n) \<longrightarrow>
            (\<exists>prefix'. parse_table_version (Some version) = Inr (prefix', n + 1)))"
  proof (cases prev)
    case None
    then show ?thesis using target by (simp add: version_target_def)
  next
    case (Some p)
    then have facts: "op = UPDATE" "base = p" "previous = td_latest_table_version d" "new_version_id given d = Inr version"
      using target run(2) by (auto simp: version_target_def rbind_Inr_iff)
    have "\<exists>prefix'. parse_table_version (Some version) = Inr (prefix', n + 1)"
      if "previous = Some old" "parse_table_version previous = Inr (prefix, n)" for old prefix n
      using new_version_id_number [OF facts(4) _ _ parsed] that facts(3) parsed by simp
    then show ?thesis using Some facts by auto
  qed
  then show ?thesis using run log by (intro exI conjI) 
qed

definition ex_version_args :: "nat version_args" where
  "ex_version_args = \<lparr>va_lifecycle_state = Some CREATED, va_schema = None, va_partition_scheme = None, va_sort_keys = None,
     va_description = None, va_properties = PNone, va_table_description = None, va_table_properties = PNone, va_content_types = None\<rparr>"

definition ex_objects :: "nat object list" where
  "ex_objects = [namespace_of (namespace_locator_of (Some ''ns'')) PNone,
     new_object (TableLoc (table_locator_at (Some ''ns'') (Some ''t''))) (TableC
       \<lparr>td_description = None, td_properties = PNone, td_latest_active_table_version = Some ''v.4'', td_latest_table_version = Some ''v.4''\<rparr>)]"

definition ex_create :: "((nat object \<times> nat object \<times> nat object) res \<times> nat object list \<times> nat content write_call list) option" where
  "ex_create = create_table_version (recording ex_objects_session) ''s1'' (Some ''ns'') (Some ''t'') None ex_version_args (ex_objects, [])"

theorem create_table_version_writes_witness:
  "\<exists>result s' log. ex_create = Some (Inr result, (s', log)) \<and> map fst log = [UPDATE, CREATE, CREATE] \<and>
     (\<exists>prev u u'. get_table (recording ex_objects_session) (Some ''ns'') (Some ''t'') u = Some (Inr prev, u') \<and> snd (snd (hd log)) = prev)"
proof -
  have "succeeds ex_create" by code_simp
  then obtain y t where run: "ex_create = Some (Inr y, t)" by (rule succeedsE)
  have "write_kinds ex_create = Some [UPDATE, CREATE, CREATE]" by code_simp
  with run have kinds: "map fst (snd t) = [UPDATE, CREATE, CREATE]" by (rule write_kindsD)
  have "create_table_version (recording ex_objects_session) ''s1'' (Some ''ns'') (Some ''t'') None ex_version_args (ex_objects, []) =
      Some (Inr y, (fst t, snd t))"
    using run by (simp add: ex_create_def)
  from create_table_version_writes [OF this] obtain prev u u' op m rest where
    "get_table (recording ex_objects_session) (Some ''ns'') (Some ''t'') u = Some (Inr prev, u')" "snd t = (op, m, prev) # rest"
    by (elim exE conjE) (rule that, assumption+)
  then have "\<exists>prev u u'. get_table (recording ex_objects_session) (Some ''ns'') (Some ''t'') u = Some (Inr prev, u') \<and> snd (snd (hd (snd t))) = prev"
    by (intro exI conjI) simp_all
  then show ?thesis
    using run kinds by (intro exI [of _ y] exI [of _ "fst t"] exI [of _ "snd t"] conjI) simp_all
qed

text \<open>C12: whatever is created and updated, a table version keeps its histories: the identifiers of its schemas, partition schemes
  and sort schemes are different from each other, and those of the current ones are among them.\<close>

theorem table_version_histories:
  assumes "table_version_reachable d"
  shows "version_ok d"
  using assms by (rule reachable_version_ok)

definition ex_scheme :: "partition_key scheme" where
  "ex_scheme = \<lparr>sc_keys = Some [\<lparr>pk_key = [LName ''a''], pk_name = None, pk_id = None,
     pk_transform = Some (simple_transform IdentityTransform ''identity'')\<rparr>], sc_name = None, sc_id = Some ''by-a''\<rparr>"

definition ex_updated :: "nat table_version_data res" where
  "ex_updated = updated_table_version (ex_version_args\<lparr>va_partition_scheme := Some ex_scheme\<rparr>) (created_version_data ex_version_args None)"

theorem table_version_histories_witness:
  "\<exists>d. ex_updated = Inr d \<and> version_ok d \<and> map_option (map sc_id) (tvd_partition_schemes d) = Some [Some UNPARTITIONED_SCHEME_ID, Some ''by-a'']"
proof -
  let ?ids = "\<lambda>d. map_option (map sc_id) (tvd_partition_schemes d) = Some [Some UNPARTITIONED_SCHEME_ID, Some ''by-a'']"
  have ok: "case ex_updated of Inr d \<Rightarrow> ?ids d | Inl _ \<Rightarrow> False" by code_simp
  obtain d where d: "ex_updated = Inr d" "?ids d"
  proof (cases ex_updated)
    case (Inl e)
    from ok [unfolded Inl] show ?thesis by simp
  next
    case (Inr d)
    from ok [unfolded Inr] show ?thesis by (intro that [OF Inr]) simp
  qed
  have "table_version_reachable d"
    by (rule version_updated [OF version_created d(1) [unfolded ex_updated_def]])
  from d(1) table_version_histories [OF this] d(2) show ?thesis by (intro exI conjI)
qed

text \<open>C19: a table version that was created without a schema never gets one: an update that gives it a schema fails with a type
  error, because the history it would be added to is absent.\<close>

theorem schemaless_version_update:
  assumes "table_version_reachable d" "tvd_schema d = None" "va_schema a = Some s" "schema_id s = Inr i"
    "va_partition_scheme a = None" "va_sort_keys a = None"
  shows "updated_table_version a d = Inl TypeError"
proof -
  have "tvd_schemas d = None" using reachable_version_ok [OF assms(1)] assms(2) by (simp add: version_ok_def tracked_def)
  then show ?thesis
    using assms(2-)
    by (simp add: updated_table_version_def updated_schema_def extended_history_def validate_schemes_against_schema_def
        equivalent_to_def of_option_def Let_def)
qed

definition ex_schema :: "nat schema" where
  "ex_schema = \<lparr>s_arrow = \<lparr>as_fields = [], as_metadata = []\<rparr>, s_merge_keys = None, s_fields = [], s_max_field_id = 0, s_native = PNone\<rparr>"

theorem schemaless_version_update_witness:
  "updated_table_version (ex_version_args\<lparr>va_schema := Some ex_schema\<rparr>) (created_version_data ex_version_args None) = Inl TypeError"
  by (rule schemaless_version_update [OF version_created, of _ _ _ ex_schema None])
    (simp_all add: created_version_data_def ex_version_args_def ex_schema_def schema_id_def Let_def)

text \<open>C13: a table version is updated with exactly the contents computed from the old ones. Its table is written only where the
  version becomes active, and then names it as the active one, with a number above that of the version named
  before. The stream is written exactly where a partition scheme is given, and takes over that scheme.\<close>

theorem update_table_version_writes:
  assumes "update_table_version (recording S) ns t v a (s, []) = Some (Inr result, (s', log))"
  shows "\<exists>old old_d d u table_calls stream_calls.
    get_table_version (recording S) ns t v (s, []) = Some (Inr (Some old), u) \<and> table_version_data_of old = Inr old_d \<and>
    updated_table_version a old_d = Inr d \<and>
    log = table_calls @ (UPDATE, with_content (TableVersionC d) old, Some old) # stream_calls \<and>
    (table_calls = [] \<or> va_lifecycle_state a = Some ACTIVE \<and> tvd_state old_d \<noteq> Some ACTIVE \<and>
       (\<exists>table td td' prefix n. table_data_of table = Inr td \<and> table_calls = [(UPDATE, with_content (TableC td') table, Some table)] \<and>
          td_latest_active_table_version td' = v \<and> td_latest_table_version td' = td_latest_table_version td \<and>
          parse_table_version v = Inr (prefix, n) \<and>
          (\<forall>prefix' m. parse_table_version (td_latest_active_table_version td) = Inr (prefix', m) \<longrightarrow> m < n))) \<and>
    (stream_calls = [] \<and> va_partition_scheme a = None \<or>
       (\<exists>stream sd. va_partition_scheme a \<noteq> None \<and> stream_data_of stream = Inr sd \<and>
          stream_calls = [(UPDATE, with_content (StreamC (sd\<lparr>sd_partition_scheme := va_partition_scheme a\<rparr>)) stream, Some stream)]))"
proof (rule update_table_version_run [OF assms, unfolded snd_conv append_Nil])
  fix old old_d d u table_calls stream_calls
  assume run: "get_table_version (recording S) ns t v (s, []) = Some (Inr (Some old), u)" "table_version_data_of old = Inr old_d"
      "updated_table_version a old_d = Inr d"
      "log = table_calls @ (UPDATE, with_content (TableVersionC d) old, Some old) # stream_calls"
    and tables: "table_calls = [] \<or> va_lifecycle_state a = Some ACTIVE \<and> tvd_state old_d \<noteq> Some ACTIVE \<and>
       (\<exists>table td td'. table_data_of table = Inr td \<and> activated_table v td = Inr (Some td') \<and>
          table_calls = [(UPDATE, with_content (TableC td') table, Some table)])"
    and streams: "stream_calls = [] \<and> va_partition_scheme a = None \<or>
       (\<exists>stream sd. va_partition_scheme a \<noteq> None \<and> stream_data_of stream = Inr sd \<and>
          stream_calls = [(UPDATE, with_content (StreamC (sd\<lparr>sd_partition_scheme := va_partition_scheme a\<rparr>)) stream, Some stream)])"
  have "table_calls = [] \<or> va_lifecycle_state a = Some ACTIVE \<and> tvd_state old_d \<noteq> Some ACTIVE \<and>
       (\<exists>table td td' prefix n. table_data_of table = Inr td \<and> table_calls = [(UPDATE, with_content (TableC td') table, Some table)] \<and>
          td_latest_active_table_version td' = v \<and> td_latest_table_version td' = td_latest_table_version td \<and>
          parse_table_version v = Inr (prefix, n) \<and>
          (\<forall>prefix' m. parse_table_version (td_latest_active_table_version td) = Inr (prefix', m) \<longrightarrow> m < n))"
  proof (cases "table_calls = []")
    case False
    with tables obtain table td td' where t: "table_data_of table = Inr td" "activated_table v td = Inr (Some td')"
        "table_calls = [(UPDATE, with_content (TableC td') table, Some table)]"
      and active: "va_lifecycle_state a = Some ACTIVE" "tvd_state old_d \<noteq> Some ACTIVE"
      by auto
    from activated_table_forward [OF t(2)] t(1,3) have "\<exists>table td td' prefix n. table_data_of table = Inr td \<and>
        table_calls = [(UPDATE, with_content (TableC td') table, Some table)] \<and>
        td_latest_active_table_version td' = v \<and> td_latest_table_version td' = td_latest_table_version td \<and>
        parse_table_version v = Inr (prefix, n) \<and>
        (\<forall>prefix' m. parse_table_version (td_latest_active_table_version td) = Inr (prefix', m) \<longrightarrow> m < n)"
      by (elim exE conjE) (intro exI conjI, assumption+)
    with active show ?thesis by simp
  qed simp
  then show ?thesis using run streams by (intro exI conjI)
qed

definition ex_update_objects :: "nat object list" where
  "ex_update_objects = ex_objects @ [table_version_of (case table_version_locator_at (Some ''ns'') (Some ''t'') (Some ''v.5'') of Inr l \<Rightarrow> l)
     (created_version_data ex_version_args (Some ''v.4''))]"

definition ex_version_update ::
    "((nat object option \<times> nat object \<times> nat object option) res \<times> nat object list \<times> nat content write_call list) option" where
  "ex_version_update = update_table_version (recording ex_objects_session) (Some ''ns'') (Some ''t'') (Some ''v.5'')
     (ex_version_args\<lparr>va_lifecycle_state := Some ACTIVE\<rparr>) (ex_update_objects, [])"

theorem update_table_version_writes_witness:
  "\<exists>result s' log. ex_version_update = Some (Inr result, (s', log)) \<and> map fst log = [UPDATE, UPDATE] \<and>
     (\<exists>old u. get_table_version (recording ex_objects_session) (Some ''ns'') (Some ''t'') (Some ''v.5'') (ex_update_objects, []) = Some (Inr (Some old), u))"
proof -
  have "succeeds ex_version_update" by code_simp
  then obtain y t where run: "ex_version_update = Some (Inr y, t)" by (rule succeedsE)
  have "write_kinds ex_version_update = Some [UPDATE, UPDATE]" by code_simp
  with run have kinds: "map fst (snd t) = [UPDATE, UPDATE]" by (rule write_kindsD)
  have "update_table_version (recording ex_objects_session) (Some ''ns'') (Some ''t'') (Some ''v.5'')
     (ex_version_args\<lparr>va_lifecycle_state := Some ACTIVE\<rparr>) (ex_update_objects, []) = Some (Inr y, (fst t, snd t))"
    using run by (simp add: ex_version_update_def)
  from update_table_version_writes [OF this]
  have "\<exists>old u. get_table_version (recording ex_objects_session) (Some ''ns'') (Some ''t'') (Some ''v.5'') (ex_update_objects, []) = Some (Inr (Some old), u)"
    by (elim exE conjE) (intro exI, assumption)
  then show ?thesis using run kinds by (intro exI [of _ y] exI [of _ "fst t"] exI [of _ "snd t"] conjI) simp_all
qed

subsection \<open>Partitions and listings\<close>

text \<open>C14: a partition is staged with a partition scheme of its table version. Without values that is the unpartitioned scheme.
  Otherwise it is another one, with one value for each of its keys, and each value fits the type of its key. The staged
  partition records which committed partition it is going to replace.\<close>

theorem stage_partition_writes:
  assumes "stage_partition A int32 null str_list (recording S) uuid stream vs scheme_id (s, []) = Some (Inr result, (s', log))"
  shows "\<exists>l tv tvd sid prev prev_id u u' p schemes.
    stream_locator_of_object stream = Inr l \<and> table_version_data_of tv = Inr tvd \<and>
    get_table_version (recording S) (sl_namespace l) (sl_table_name l) (sl_table_version l) (s, []) = Some (Inr (Some tv), u) \<and>
    tvd_partition_schemes tvd = Some schemes \<and> p \<in> set schemes \<and> sc_id p = sid \<and>
    (if vs = [] then sid = Some UNPARTITIONED_SCHEME_ID
     else sid \<noteq> Some UNPARTITIONED_SCHEME_ID \<and> (\<exists>sc ks. tvd_schema tvd = Some sc \<and> sc_keys p = Some ks \<and> length vs = length ks \<and>
       (\<forall>i < length ks. \<exists>ty. partition_field_type A int32 null sc (ks ! i) = Inr ty \<and> pa_array_of A (vs ! i) ty = None))) \<and>
    get_partition (recording S) (Some l) (values_text str_list vs) sid u = Some (Inr prev, u') \<and>
    (case prev of None \<Rightarrow> prev_id = None | Some q \<Rightarrow> (\<exists>pl. partition_locator_of_object q = Inr pl \<and> pl_partition_id pl = prev_id)) \<and>
    prev_id \<noteq> Some uuid \<and>
    log = [(CREATE, new_object (PartitionLoc (partition_locator_of (Some l) (values_text str_list vs) (Some uuid)))
      (PartitionC \<lparr>pd_content_types = tvd_content_types tvd, pd_state = Some STAGED, pd_previous_stream_position = None,
         pd_previous_partition_id = prev_id, pd_stream_position = None, pd_partition_scheme_id = sid,
         pd_compaction_round_completion_info = PNone\<rparr>), None)]"
  by (rule stage_partition_run [OF assms, unfolded snd_conv append_Nil], drule check_staged_partition_Inr)
    (elim exE conjE, intro exI conjI, assumption+)

definition ex_stage_objects :: "nat object list" where
  "ex_stage_objects = [table_version_of (case table_version_locator_at (Some ''ns'') (Some ''t'') (Some ''1'') of Inr l \<Rightarrow> l)
     (created_version_data ex_version_args None), ex_stream ''s1'' COMMITTED None, ex_parent]"

text \<open>An array library without types and conversions.\<close>

definition ex_no_arrow :: "nat arrow" where
  "ex_no_arrow = \<lparr>is_string = \<lambda>_. False, is_large_string = \<lambda>_. False, is_primitive = \<lambda>_. False, is_integer = \<lambda>_. False, is_floating = \<lambda>_. False,
     is_date = \<lambda>_. False, is_binary = \<lambda>_. False, is_struct = \<lambda>_. False, is_list = \<lambda>_. False, is_map = \<lambda>_. False, type_str = \<lambda>_. [],
     bit_width = \<lambda>_. 0, struct_fields = \<lambda>_. [], struct_field = \<lambda>_ _. Inl KeyError, value_type = id, key_type = id, item_type = id,
     pa_scalar = \<lambda>_ _. Some ArrowInvalid, pa_array_of = \<lambda>_ _. Some ArrowInvalid, unify_schemas = \<lambda>_. Inl ArrowInvalid,
     msgpack_dumps = \<lambda>_. Inl TypeError, msgpack_loads = \<lambda>_. Inl ValueError, recursion_limit = 1\<rparr>"

definition ex_stage :: "(nat object res \<times> nat object list \<times> nat content write_call list) option" where
  "ex_stage = stage_partition ex_no_arrow 0 1 (\<lambda>_. []) (recording ex_objects_session) ''p2'' (ex_stream ''s1'' COMMITTED None) [] None
     (ex_stage_objects, [])"

theorem stage_partition_writes_witness:
  "\<exists>result s' log. ex_stage = Some (Inr result, (s', log)) \<and> map fst log = [CREATE] \<and>
     (\<exists>l. stream_locator_of_object (ex_stream ''s1'' COMMITTED None) = Inr l)"
proof -
  have "succeeds ex_stage" by code_simp
  then obtain y t where run: "ex_stage = Some (Inr y, t)" by (rule succeedsE)
  have "write_kinds ex_stage = Some [CREATE]" by code_simp
  with run have kinds: "map fst (snd t) = [CREATE]" by (rule write_kindsD)
  have "stage_partition ex_no_arrow 0 1 (\<lambda>_. []) (recording ex_objects_session) ''p2'' (ex_stream ''s1'' COMMITTED None) [] None
     (ex_stage_objects, []) = Some (Inr y, (fst t, snd t))"
    using run by (simp add: ex_stage_def)
  from stage_partition_writes [OF this] have "\<exists>l. stream_locator_of_object (ex_stream ''s1'' COMMITTED None) = Inr l"
    by (elim exE conjE) (intro exI, assumption)
  then show ?thesis using run kinds by (intro exI [of _ y] exI [of _ "fst t"] exI [of _ "snd t"] conjI) simp_all
qed

text \<open>C18: listing the deltas of a partition returns exactly those whose position is within the given bounds, both inclusive, in
  ascending or descending order of their positions.\<close>

theorem list_partition_deltas_exact:
  assumes "storage_list S (delta_object (delta_locator_of pl None) no_delta_data) READ_SIBLINGS limit s = Some (Inr ms, s')"
    "\<forall>m \<in> set ms. has_position m" "\<not> bad_range lo hi"
  shows "list_partition_deltas S pl lo hi ascending limit s =
    Some (Inr ((if ascending then sort_key position_of else sort_desc position_of) (filter (\<lambda>m. within_positions lo hi (position_of m)) ms)), s')"
proof -
  let ?m = "storage_list S (delta_object (delta_locator_of pl None) no_delta_data) READ_SIBLINGS limit"
  have "renaming ObjectNotFoundError PartitionNotFoundError ?m s = Some (Inr ms, s')" using assms(1) by (simp add: renaming_Inr)
  then show ?thesis
    using assms(3) selected_deltas_positioned [OF assms(2)]
    by (simp add: list_partition_deltas_def refuse_def pio_bind_def pio_of_def)
qed

definition ex_listed :: "nat object list" where
  "ex_listed = map (\<lambda>n. delta_object (delta_locator_of (Some (ex_partition_locator ''p1'')) (Some n)) no_delta_data) [3, 1, 2, 5]"

theorem list_partition_deltas_exact_witness:
  "\<exists>ms. list_partition_deltas ex_objects_session (Some (ex_partition_locator ''p1'')) (Some 2) None False None ex_listed = Some (Inr ms, ex_listed) \<and>
     map position_of ms = [5, 3, 2]"
proof -
  let ?r = "map Some ex_listed" and ?pl = "Some (ex_partition_locator ''p1'')"
  have run: "storage_list ex_objects_session (delta_object (delta_locator_of ?pl None) no_delta_data) READ_SIBLINGS None ex_listed =
      Some (Inr ?r, ex_listed)"
    by (simp add: storage_list_def ex_objects_session_def ex_listed_def delta_object_def new_object_def delta_locator_of_def)
  have pos: "\<forall>m \<in> set ?r. has_position m"
    by (simp add: ex_listed_def has_position_def position_of_def delta_position_def delta_locator_of_object_def delta_object_def
        new_object_def delta_locator_of_def of_option_def)
  have range: "\<not> bad_range (Some 2) None" by (simp add: bad_range_def)
  have "map position_of ((if False then sort_key position_of else sort_desc position_of)
      (filter (\<lambda>m. within_positions (Some 2) None (position_of m)) ?r)) = [5, 3, 2]"
    by code_simp
  with list_partition_deltas_exact [OF run pos range, of False] show ?thesis by (intro exI conjI)
qed

end
