(* ===== verification/CompactionResults.thy ===== *)
theory CompactionResults
  imports Deltas
begin

text \<open>
  The results of a compaction (\<^verbatim>\<open>compute/compactor/model/pyarrow_write_result.py\<close>,
  \<^verbatim>\<open>compute/compactor/model/materialize_result.py\<close>, \<^verbatim>\<open>_process_merge_results\<close> of
  \<^verbatim>\<open>compute/compactor_v2/private/compaction_utils.py\<close> and the copying of files by reference of
  \<^verbatim>\<open>compute/compactor_v2/steps/merge.py\<close>). Every hash bucket that was merged gives a delta with new files.
  The deltas of all buckets are merged to the compacted delta, and the round completion info keeps for every
  bucket the range of its entries in the manifest, from which the next round takes the files of a bucket
  without new records. Measurements (peak memory, telemetry, completion times) are left out.
\<close>

subsection \<open>Write and materialize results\<close>

record write_result =
  wr_files :: int
  wr_pyarrow_bytes :: "int option"
  wr_file_bytes :: "int option"
  wr_records :: "int option"

definition write_result_of :: "int \<Rightarrow> int option \<Rightarrow> int option \<Rightarrow> int option \<Rightarrow> write_result" where
  "write_result_of file_count pyarrow_bytes file_bytes record_count =
     \<lparr>wr_files = file_count, wr_pyarrow_bytes = pyarrow_bytes, wr_file_bytes = file_bytes, wr_records = record_count\<rparr>"

text \<open>A sum over values of which one is \<^verbatim>\<open>None\<close> is Python's \<^verbatim>\<open>TypeError\<close>.\<close>

definition sum_known :: "int option list \<Rightarrow> int option res" where
  "sum_known ns = (if None \<in> set ns then Inl TypeError else Inr (Some (sum_list (map the ns))))"

definition write_result_union :: "write_result list \<Rightarrow> write_result res" where
  "write_result_union results =
     rbind (sum_known (map wr_pyarrow_bytes results)) (\<lambda>pyarrow_bytes.
     rbind (sum_known (map wr_file_bytes results)) (\<lambda>file_bytes.
     rbind (sum_known (map wr_records results)) (\<lambda>records.
       Inr (write_result_of (sum_list (map wr_files results)) pyarrow_bytes file_bytes records))))"

record materialize_result =
  mr_delta :: delta
  mr_task_index :: int
  mr_write_result :: write_result
  mr_referenced_write_result :: "write_result option"

definition materialize_result_of ::
    "delta \<Rightarrow> int \<Rightarrow> write_result \<Rightarrow> write_result option \<Rightarrow> materialize_result" where
  "materialize_result_of delta task_index pyarrow_write_result referenced_pyarrow_write_result =
     \<lparr>mr_delta = delta, mr_task_index = task_index, mr_write_result = pyarrow_write_result,
      mr_referenced_write_result = referenced_pyarrow_write_result\<rparr>"

subsection \<open>Processing the results of all merge tasks\<close>

text \<open>The variables of the loop over the results in the order of their hash buckets.\<close>

type_synonym entry_ranges = "(string \<times> int \<times> int) list"

record range_state =
  rs_ranges :: entry_ranges
  rs_file_index :: int
  rs_previous_task_index :: int
  rs_duplicates :: int

definition range_start :: range_state where
  "range_start = \<lparr>rs_ranges = [], rs_file_index = 0, rs_previous_task_index = -1, rs_duplicates = 0\<rparr>"

definition add_range :: "int \<Rightarrow> materialize_result \<Rightarrow> range_state \<Rightarrow> range_state res" where
  "add_range num_rounds m st =
     (let files = wr_files (mr_write_result m); key = int_to_str (mr_task_index m);
          duplicates = (if mr_task_index m = rs_previous_task_index st then rs_duplicates st + 1 else 0)
      in if \<not> 1 \<le> files then Inl AssertionError
         else if \<not> duplicates < num_rounds then Inl AssertionError
         else Inr \<lparr>rs_ranges = dict_set key
                     (case map_of (rs_ranges st) key of None \<Rightarrow> rs_file_index st | Some (first, _) \<Rightarrow> first,
                      rs_file_index st + files) (rs_ranges st),
                   rs_file_index = rs_file_index st + files,
                   rs_previous_task_index = mr_task_index m, rs_duplicates = duplicates\<rparr>)"

fun add_ranges :: "int \<Rightarrow> materialize_result list \<Rightarrow> range_state \<Rightarrow> range_state res" where
  "add_ranges num_rounds [] st = Inr st"
| "add_ranges num_rounds (m # ms) st = rbind (add_range num_rounds m st) (add_ranges num_rounds ms)"

definition MAX_DELTA_STREAM_POSITION :: int where
  "MAX_DELTA_STREAM_POSITION = 2 ^ 63 - 1"

text \<open>The results of a merge task are the list \<^verbatim>\<open>materialize_results\<close> of its \<^verbatim>\<open>MergeResult\<close>.\<close>

definition process_merge_results ::
    "(string \<Rightarrow> 'h) \<Rightarrow> string \<Rightarrow> int \<Rightarrow> int \<Rightarrow> materialize_result list list \<Rightarrow>
     (delta \<times> materialize_result list \<times> entry_ranges) res" where
  "process_merge_results sha1 fresh num_rounds last_stream_position_to_compact merge_results =
     (let mat_results = sort_key mr_task_index (concat merge_results)
      in rbind (add_ranges num_rounds mat_results range_start) (\<lambda>st.
         rbind (merge_deltas sha1 fresh (map mr_delta mat_results) None
                  (Some (if last_stream_position_to_compact \<noteq> MAX_DELTA_STREAM_POSITION
                         then last_stream_position_to_compact else 1)) PNone) (\<lambda>merged_delta.
           Inr (merged_delta, mat_results, rs_ranges st))))"

subsection \<open>Copying the files of a bucket by reference\<close>

text \<open>Python's \<^verbatim>\<open>xs[i]\<close>, which counts a negative index from the end.\<close>

definition py_item :: "'a list \<Rightarrow> int \<Rightarrow> 'a res" where
  "py_item xs i = (let j = (if i < 0 then i + int (length xs) else i)
                   in if 0 \<le> j \<and> j < int (length xs) then Inr (xs ! nat j) else Inl IndexError)"

definition referenced_entry :: "manifest option \<Rightarrow> int \<Rightarrow> manifest_entry res" where
  "referenced_entry compacted_manifest entry_index =
     rbind (of_option AttributeError compacted_manifest) (\<lambda>m.
     rbind (of_option TypeError (mn_entries m)) (\<lambda>entries.
       if \<not> entry_index < int (length entries) then Inl AssertionError else py_item entries entry_index))"

text \<open>
  The loop keeps one list of entries, to which every bucket appends and which every new manifest holds by
  reference until its property \<^verbatim>\<open>entries\<close> is read, which replaces it by a copy. The manifest of the latest
  result is read when the next bucket has entries. A result comes with whether its list is its own; the others
  have the final list.
\<close>

record copy_state =
  cp_referenced :: "manifest_entry list"
  cp_manifest :: "manifest option"
  cp_results :: "(materialize_result \<times> bool) list"

definition own_entries :: "(materialize_result \<times> bool) list \<Rightarrow> (materialize_result \<times> bool) list" where
  "own_entries rs = (if rs = [] then [] else butlast rs @ [(fst (last rs), True)])"

definition copy_bucket ::
    "(int \<Rightarrow> string) \<Rightarrow> partition_locator option \<Rightarrow> int option \<Rightarrow> entry_ranges \<Rightarrow> int \<Rightarrow> copy_state \<Rightarrow> copy_state res" where
  "copy_bucket fresh partition_locator stream_position ranges hb_index st =
     (case map_of ranges (int_to_str hb_index) of None \<Rightarrow> Inr st
      | Some (start, stop) \<Rightarrow>
          rbind (res_map (referenced_entry (cp_manifest st)) [start..stop - 1]) (\<lambda>entries.
            let referenced = cp_referenced st @ entries
            in rbind (manifest_of (fresh hb_index) (Some referenced) None (Some (fresh hb_index)) None PNone) (\<lambda>m.
              let meta = the (mn_meta m);
                  delta = delta_of (Some (delta_locator_of partition_locator None)) (Some APPEND) (mn_meta m) (PDict [])
                            (Some m) stream_position;
                  written = write_result_of (int (length referenced)) (mm_source_content_length meta)
                              (mm_content_length meta) (mm_record_count meta)
              in Inr \<lparr>cp_referenced = referenced, cp_manifest = Some m,
                      cp_results = (if start < stop then own_entries (cp_results st) else cp_results st) @
                        [(materialize_result_of delta hb_index written (Some written), False)]\<rparr>)))"

fun copy_buckets ::
    "(int \<Rightarrow> string) \<Rightarrow> partition_locator option \<Rightarrow> int option \<Rightarrow> entry_ranges \<Rightarrow> int list \<Rightarrow> copy_state \<Rightarrow> copy_state res" where
  "copy_buckets fresh pl pos ranges [] st = Inr st"
| "copy_buckets fresh pl pos ranges (hb # hbs) st =
     rbind (copy_bucket fresh pl pos ranges hb st) (copy_buckets fresh pl pos ranges hbs)"

definition with_entries :: "manifest_entry list \<Rightarrow> materialize_result \<Rightarrow> materialize_result" where
  "with_entries es r = r\<lparr>mr_delta := (mr_delta r)\<lparr>d_manifest :=
     map_option (\<lambda>m. m\<lparr>mn_entries := Some es\<rparr>) (d_manifest (mr_delta r))\<rparr>\<rparr>"

definition copy_all_manifest_files_from_old_hash_buckets ::
    "(int \<Rightarrow> string) \<Rightarrow> int list \<Rightarrow> entry_ranges option \<Rightarrow> partition_locator option \<Rightarrow> int option \<Rightarrow> manifest option \<Rightarrow>
     materialize_result list res" where
  "copy_all_manifest_files_from_old_hash_buckets fresh hb_index_copy_by_reference hb_index_to_indices
     partition_locator stream_position compacted_manifest =
     (case hb_index_to_indices of None \<Rightarrow> Inr []
      | Some ranges \<Rightarrow>
          rbind (copy_buckets fresh partition_locator stream_position ranges hb_index_copy_by_reference
                   \<lparr>cp_referenced = [], cp_manifest = compacted_manifest, cp_results = []\<rparr>) (\<lambda>st.
            Inr (map (\<lambda>(r, own). if own then r else with_entries (cp_referenced st) r) (cp_results st))))"

subsection \<open>The ranges of the buckets\<close>

lemma nat_to_str_eq_iff [simp]: "nat_to_str m = nat_to_str n \<longleftrightarrow> m = n"
  by (metis digits_value_nat_to_str)

lemma nat_to_str_no_sign: "CHR ''-'' # s \<noteq> nat_to_str n"
  using is_decimal_nat_to_str [of n] by (auto simp: is_decimal_def dest: arg_cong [of _ _ "list_all is_decimal"])

lemma int_to_str_eq_iff [simp]: "int_to_str i = int_to_str j \<longleftrightarrow> i = j"
  by (auto simp: int_to_str_def nat_to_str_no_sign nat_to_str_no_sign [symmetric])

definition delta_entries :: "delta \<Rightarrow> manifest_entry list" where
  "delta_entries d = (case Option.bind (d_manifest d) mn_entries of None \<Rightarrow> [] | Some es \<Rightarrow> es)"

definition result_entries :: "materialize_result list \<Rightarrow> manifest_entry list" where
  "result_entries ms = concat (map (\<lambda>m. delta_entries (mr_delta m)) ms)"

definition counts_files :: "materialize_result \<Rightarrow> bool" where
  "counts_files m \<longleftrightarrow> wr_files (mr_write_result m) = int (length (delta_entries (mr_delta m)))"

definition bucket_results :: "int \<Rightarrow> materialize_result list \<Rightarrow> materialize_result list" where
  "bucket_results t ms = filter (\<lambda>m. mr_task_index m = t) ms"

definition bucket_range :: "materialize_result list \<Rightarrow> int \<Rightarrow> (int \<times> int) option" where
  "bucket_range ms t = (if t \<in> mr_task_index ` set ms then
     Some (int (length (result_entries (filter (\<lambda>m. mr_task_index m < t) ms))),
           int (length (result_entries (filter (\<lambda>m. mr_task_index m \<le> t) ms)))) else None)"

lemma result_entries_append [simp]: "result_entries (xs @ ys) = result_entries xs @ result_entries ys"
  by (simp add: result_entries_def)

lemma result_entries_Nil [simp]: "result_entries [] = []"
  by (simp add: result_entries_def)

definition ranges_of :: "materialize_result list \<Rightarrow> range_state \<Rightarrow> bool" where
  "ranges_of ms st \<longleftrightarrow> rs_file_index st = int (length (result_entries ms)) \<and>
     (\<forall>t. map_of (rs_ranges st) (int_to_str t) = bucket_range ms t)"

lemma add_range_step:
  assumes "add_range n m st = Inr st'" "ranges_of ms st" "sorted (map mr_task_index (ms @ [m]))" "counts_files m"
  shows "ranges_of (ms @ [m]) st'"
proof -
  have le: "\<forall>x \<in> set ms. mr_task_index x \<le> mr_task_index m"
    using assms(3) by (auto simp: sorted_append)
  have all: "filter (\<lambda>x. mr_task_index x \<le> mr_task_index m) ms = ms" using le by simp
  have lt: "mr_task_index m \<notin> mr_task_index ` set ms \<Longrightarrow> filter (\<lambda>x. mr_task_index x < mr_task_index m) ms = ms"
    using le by (simp add: filter_id_conv) (metis image_eqI order_less_le)
  have "bucket_range (ms @ [m]) t = (if t = mr_task_index m
      then Some (case bucket_range ms t of None \<Rightarrow> rs_file_index st | Some (first, _) \<Rightarrow> first,
                 rs_file_index st + wr_files (mr_write_result m)) else bucket_range ms t)" for t
    using assms(2,4) all lt le by (auto simp: bucket_range_def ranges_of_def counts_files_def result_entries_def)
  then show ?thesis
    using assms(1,2,4) unfolding ranges_of_def
    by (auto simp: add_range_def Let_def counts_files_def result_entries_def split: if_splits)
qed

lemma add_ranges_all:
  assumes "add_ranges n xs st = Inr st'" "ranges_of ms st" "sorted (map mr_task_index (ms @ xs))" "\<forall>m \<in> set xs. counts_files m"
  shows "ranges_of (ms @ xs) st'"
  using assms
proof (induction xs arbitrary: ms st)
  case (Cons x xs)
  then obtain st1 where st1: "add_range n x st = Inr st1" "add_ranges n xs st1 = Inr st'"
    by (auto simp: rbind_Inr_iff)
  have "ranges_of (ms @ [x]) st1"
    using add_range_step [OF st1(1) Cons.prems(2)] Cons.prems(3,4) by (simp add: sorted_append)
  from Cons.IH [OF st1(2) this] Cons.prems(3,4) show ?case by simp
qed simp

lemma sorted_split_at:
  assumes "sorted (map f xs)"
  shows "xs = filter (\<lambda>x. f x < t) xs @ filter (\<lambda>x. f x = t) xs @ filter (\<lambda>x. t < f x) xs"
  using assms
proof (induction xs)
  case (Cons x xs)
  then have IH: "xs = filter (\<lambda>x. f x < t) xs @ filter (\<lambda>x. f x = t) xs @ filter (\<lambda>x. t < f x) xs" by simp
  have ge: "\<forall>y \<in> set xs. f x \<le> f y" using Cons.prems by auto
  consider "f x < t" | "f x = t" | "t < f x" by (meson linorder_cases)
  then show ?case
  proof cases
    case 2
    then have "filter (\<lambda>x. f x < t) xs = []" using ge by (fastforce simp: filter_empty_conv)
    with 2 IH show ?thesis by simp
  next
    case 3
    then have "filter (\<lambda>x. f x < t) xs = []" "filter (\<lambda>x. f x = t) xs = []" using ge by (fastforce simp: filter_empty_conv)+
    with 3 IH show ?thesis by (simp add: not_less less_imp_le less_imp_neq [symmetric] dual_order.strict_implies_not_eq)
  qed (use IH in auto)
qed simp

lemma sorted_upto_at:
  assumes "sorted (map f xs)"
  shows "filter (\<lambda>x. f x \<le> t) xs = filter (\<lambda>x. f x < t) xs @ filter (\<lambda>x. f x = t) xs"
proof -
  have "filter (\<lambda>x. f x \<le> t) xs = filter (\<lambda>x. f x \<le> t)
      (filter (\<lambda>x. f x < t) xs @ filter (\<lambda>x. f x = t) xs @ filter (\<lambda>x. t < f x) xs)"
    using sorted_split_at [OF assms, of t] by simp
  also have "\<dots> = filter (\<lambda>x. f x < t) xs @ filter (\<lambda>x. f x = t) xs"
    by (auto simp: filter_empty_conv not_le intro!: arg_cong2 [where f = append] filter_cong)
  finally show ?thesis .
qed

text \<open>The entries from a position on, up to another one.\<close>

definition slice_of :: "int \<Rightarrow> int \<Rightarrow> 'a list \<Rightarrow> 'a list" where
  "slice_of lo hi xs = take (nat (hi - lo)) (drop (nat lo) xs)"

lemma bucket_range_slice:
  assumes "sorted (map mr_task_index ms)" "bucket_range ms t = Some (lo, hi)"
  shows "slice_of lo hi (result_entries ms) = result_entries (bucket_results t ms)"
proof -
  let ?lt = "filter (\<lambda>m. mr_task_index m < t) ms" and ?gt = "filter (\<lambda>m. t < mr_task_index m) ms"
  have r: "lo = int (length (result_entries ?lt))" "hi = lo + int (length (result_entries (bucket_results t ms)))"
    using assms(2) sorted_upto_at [OF assms(1), of t]
    by (auto simp: bucket_range_def bucket_results_def split: if_splits)
  have "result_entries ms = result_entries ?lt @ result_entries (bucket_results t ms) @ result_entries ?gt"
    unfolding bucket_results_def using sorted_split_at [OF assms(1), of t] by (metis result_entries_append)
  then show ?thesis unfolding slice_of_def r by simp
qed

lemma bucket_results_sort [simp]: "bucket_results t (sort_key mr_task_index ms) = bucket_results t ms"
  unfolding bucket_results_def by (rule sort_key_stable)

lemma merge_manifests_known:
  assumes "merge_manifests fresh ms author = Inr m" "m' \<in> set ms"
  shows "mn_entries m' \<noteq> None"
proof -
  obtain ess where "res_map (\<lambda>m. of_option TypeError (mn_entries m)) ms = Inr ess"
    using assms(1) by (rule merge_manifests_entries)
  then show ?thesis using assms(2) by (induction ms arbitrary: ess) (auto simp: rbind_Inr_iff)
qed

lemma merged_delta_entries:
  assumes "merge_deltas sha1 fresh ds author position properties = Inr d"
  shows "delta_entries d = concat (map delta_entries ds)"
proof -
  obtain m where m: "\<forall>d \<in> set ds. d_manifest d \<noteq> None" "merge_manifests fresh (map (\<lambda>d. the (d_manifest d)) ds) author = Inr m"
    "d_manifest d = Some m"
    using assms by (rule merge_deltas_parts) (simp add: delta_of_def)
  have all: "\<forall>m' \<in> set (map (\<lambda>d. the (d_manifest d)) ds). mn_entries m' \<noteq> None"
    using merge_manifests_known [OF m(2)] by blast
  have "delta_entries d' = the (mn_entries (the (d_manifest d')))" if "d' \<in> set ds" for d'
    using that m(1) all by (fastforce simp: delta_entries_def)
  moreover have "delta_entries d = concat (map (\<lambda>d. the (mn_entries (the (d_manifest d)))) ds)"
    using merged_entries_concat [OF m(2)] m(3) by (simp add: delta_entries_def comp_def)
  ultimately show ?thesis by (metis (no_types, lifting) map_cong)
qed

lemma process_merge_results_parts:
  assumes "process_merge_results sha1 fresh rounds position rs = Inr (d, mats, ranges)" "\<forall>m \<in> set (concat rs). counts_files m"
  shows "mats = sort_key mr_task_index (concat rs)" "delta_entries d = result_entries mats"
    "map_of ranges (int_to_str t) = bucket_range mats t"
proof -
  obtain st where st: "add_ranges rounds (sort_key mr_task_index (concat rs)) range_start = Inr st" "ranges = rs_ranges st"
    "mats = sort_key mr_task_index (concat rs)"
    and d: "\<exists>pos. merge_deltas sha1 fresh (map mr_delta mats) None pos PNone = Inr d"
    using assms(1) by (auto simp: process_merge_results_def Let_def rbind_Inr_iff)
  show m: "mats = sort_key mr_task_index (concat rs)" by (fact st(3))
  show "delta_entries d = result_entries mats"
    using d by (auto dest!: merged_delta_entries simp: result_entries_def comp_def)
  have "ranges_of [] range_start" by (simp add: ranges_of_def range_start_def bucket_range_def)
  from add_ranges_all [OF st(1) this] assms(2) have "ranges_of mats st" by (simp add: m)
  then show "map_of ranges (int_to_str t) = bucket_range mats t" by (simp add: ranges_of_def st(2))
qed

text \<open>The assertions of the loop: every result has a file, and no bucket has more results than there are rounds.\<close>

definition counts_duplicates :: "materialize_result list \<Rightarrow> range_state \<Rightarrow> bool" where
  "counts_duplicates ms st \<longleftrightarrow> (if ms = [] then rs_previous_task_index st = -1 \<and> rs_duplicates st = 0
     else rs_previous_task_index st = mr_task_index (last ms) \<and>
          rs_duplicates st = int (length (bucket_results (mr_task_index (last ms)) ms)) - 1)"

lemma bucket_results_append [simp]: "bucket_results t (xs @ ys) = bucket_results t xs @ bucket_results t ys"
  by (simp add: bucket_results_def)

lemma bucket_results_Cons: "bucket_results t (x # xs) = (if mr_task_index x = t then x # bucket_results t xs else bucket_results t xs)"
  by (simp add: bucket_results_def)

lemma bucket_results_Nil [simp]: "bucket_results t [] = []"
  by (simp add: bucket_results_def)

lemma sorted_snoc_earlier:
  assumes "sorted (map mr_task_index (ms @ [x]))" "ms \<noteq> []" "mr_task_index x \<noteq> mr_task_index (last ms)"
  shows "bucket_results (mr_task_index x) ms = []"
proof -
  have "mr_task_index m \<le> mr_task_index (last ms)" if "m \<in> set ms" for m
    using assms(1) that by (induction ms) (auto simp: last_in_set)
  moreover have "mr_task_index (last ms) \<le> mr_task_index x"
    using assms(1,2) by (simp add: sorted_append)
  ultimately show ?thesis using assms(3) by (force simp: bucket_results_def filter_empty_conv)
qed

lemma duplicates_now:
  assumes "counts_duplicates ms st" "sorted (map mr_task_index (ms @ [x]))" "0 \<le> mr_task_index x"
  shows "(if mr_task_index x = rs_previous_task_index st then rs_duplicates st + 1 else 0) =
    int (length (bucket_results (mr_task_index x) ms))"
  using assms sorted_snoc_earlier [OF assms(2)]
  by (cases "ms = []") (auto simp: counts_duplicates_def)

lemma add_range_decides:
  assumes "counts_duplicates ms st" "sorted (map mr_task_index (ms @ [x]))" "0 \<le> mr_task_index x"
  shows "if 1 \<le> wr_files (mr_write_result x) \<and> int (length (bucket_results (mr_task_index x) ms)) < n
    then \<exists>st'. add_range n x st = Inr st' \<and> counts_duplicates (ms @ [x]) st' else add_range n x st = Inl AssertionError"
  using duplicates_now [OF assms]
  by (auto simp: add_range_def Let_def counts_duplicates_def bucket_results_Cons split: if_splits)

lemma bucket_length_mono: "length (bucket_results t ms) \<le> length (bucket_results t (ms @ xs))"
  by simp

lemma add_ranges_decide:
  assumes "counts_duplicates ms st" "sorted (map mr_task_index (ms @ xs))" "\<forall>x \<in> set xs. 0 \<le> mr_task_index x"
  shows "if (\<forall>x \<in> set xs. 1 \<le> wr_files (mr_write_result x) \<and> int (length (bucket_results (mr_task_index x) (ms @ xs))) \<le> n)
    then \<exists>st'. add_ranges n xs st = Inr st' else add_ranges n xs st = Inl AssertionError"
  using assms
proof (induction xs arbitrary: ms st)
  case (Cons x xs)
  let ?ok = "1 \<le> wr_files (mr_write_result x) \<and> int (length (bucket_results (mr_task_index x) ms)) < n"
  have s: "sorted (map mr_task_index (ms @ [x]))" using Cons.prems(2) by (simp add: sorted_append)
  note d = add_range_decides [OF Cons.prems(1) s, of n]
  show ?case
  proof (cases ?ok)
    case True
    then obtain st' where st': "add_range n x st = Inr st'" "counts_duplicates (ms @ [x]) st'"
      using d Cons.prems(3) by auto
    have last: "int (length (bucket_results (mr_task_index x) (ms @ x # xs))) \<le> n"
      if "\<forall>y \<in> set xs. int (length (bucket_results (mr_task_index y) (ms @ x # xs))) \<le> n"
    proof (cases "bucket_results (mr_task_index x) xs = []")
      case False
      then obtain y where "y \<in> set xs" "mr_task_index y = mr_task_index x" by (auto simp: bucket_results_def filter_empty_conv)
      with that show ?thesis by metis
    qed (use True in \<open>simp add: bucket_results_Cons\<close>)
    show ?thesis using Cons.IH [OF st'(2)] Cons.prems(2,3) True st'(1) last by (auto split: if_splits)
  next
    case False
    then have "\<not> (1 \<le> wr_files (mr_write_result x) \<and> int (length (bucket_results (mr_task_index x) (ms @ x # xs))) \<le> n)"
      by (auto simp: bucket_results_Cons)
    then show ?thesis using d False Cons.prems(3) by auto
  qed
qed simp

subsection \<open>The files of a bucket are found again\<close>

lemma referenced_range:
  assumes "mn_entries m = Some es" "0 \<le> lo" "hi \<le> int (length es)"
  shows "res_map (referenced_entry (Some m)) [lo..hi - 1] = Inr (slice_of lo hi es)"
proof -
  have "res_map (referenced_entry (Some m)) [lo..hi - 1] = Inr (map (\<lambda>i. es ! nat i) [lo..hi - 1])"
    using assms by (intro res_map_all_Inr) (auto simp: referenced_entry_def py_item_def Let_def)
  moreover have "map (\<lambda>i. es ! nat i) [lo..hi - 1] = slice_of lo hi es"
    using assms(2,3) by (intro nth_equalityI) (auto simp: slice_of_def nth_upto min_def nat_add_distrib)
  ultimately show ?thesis by simp
qed

lemma referenced_beyond:
  assumes "mn_entries m = Some es" "int (length es) \<le> lo" "lo < hi"
  shows "res_map (referenced_entry (Some m)) [lo..hi - 1] = Inl AssertionError"
  using assms by (simp add: upto.simps referenced_entry_def)

lemma manifest_of_entries: "manifest_of fresh entries author uuid entry_type entry_params = Inr m \<Longrightarrow> mn_entries m = entries"
  by (erule manifest_of_parts) simp

lemma bucket_range_bounds:
  assumes "bucket_range ms t = Some (lo, hi)" "sorted (map mr_task_index ms)"
  shows "0 \<le> lo" "hi = lo + int (length (result_entries (bucket_results t ms)))" "hi \<le> int (length (result_entries ms))"
proof -
  have r: "lo = int (length (result_entries (filter (\<lambda>m. mr_task_index m < t) ms)))"
      "hi = int (length (result_entries (filter (\<lambda>m. mr_task_index m \<le> t) ms)))"
    using assms(1) by (auto simp: bucket_range_def split: if_splits)
  show "0 \<le> lo" by (simp add: r)
  show "hi = lo + int (length (result_entries (bucket_results t ms)))"
    unfolding r bucket_results_def using sorted_upto_at [OF assms(2), of t] by simp
  have "length (result_entries ms) = length (result_entries (filter (\<lambda>m. mr_task_index m < t) ms @
      filter (\<lambda>m. mr_task_index m = t) ms @ filter (\<lambda>m. t < mr_task_index m) ms))"
    using sorted_split_at [OF assms(2), of t] by simp
  then show "hi \<le> int (length (result_entries ms))"
    unfolding r using sorted_upto_at [OF assms(2), of t] by simp
qed

lemma bucket_range_None: "bucket_range ms t = None \<longleftrightarrow> bucket_results t ms = []"
  by (auto simp: bucket_range_def bucket_results_def filter_empty_conv)

definition range_selects :: "materialize_result list \<Rightarrow> materialize_result list \<Rightarrow> int \<Rightarrow> bool" where
  "range_selects ms rs t \<longleftrightarrow> (case bucket_range ms t of None \<Rightarrow> bucket_results t rs = []
     | Some (lo, hi) \<Rightarrow> 0 \<le> lo \<and> lo < hi \<and> hi \<le> int (length (result_entries ms)) \<and>
         slice_of lo hi (result_entries ms) = result_entries (bucket_results t rs))"

lemma bucket_range_selects:
  assumes "sorted (map mr_task_index ms)" "\<forall>m \<in> set ms. counts_files m \<and> 1 \<le> wr_files (mr_write_result m)"
  shows "range_selects ms ms t"
proof (cases "bucket_range ms t")
  case (Some r)
  then obtain lo hi where r: "bucket_range ms t = Some (lo, hi)" by (cases r) simp
  obtain m where m: "m \<in> set (bucket_results t ms)" "m \<in> set ms"
    using r by (auto simp: bucket_range_def bucket_results_def split: if_splits)
  then have "delta_entries (mr_delta m) \<noteq> []" using assms(2) by (force simp: counts_files_def)
  then have "result_entries (bucket_results t ms) \<noteq> []" using m(1) by (auto simp: result_entries_def)
  then show ?thesis
    using r bucket_range_bounds [OF r assms(1)] bucket_range_slice [OF assms(1) r] by (simp add: range_selects_def)
qed (simp add: range_selects_def bucket_range_None [symmetric])

lemma copy_first_bucket:
  assumes "map_of ranges (int_to_str t) = Some (lo, hi)" "mn_entries m = Some es" "0 \<le> lo" "hi \<le> int (length es)"
    "manifest_of (fresh t) (Some (slice_of lo hi es)) None (Some (fresh t)) None PNone = Inr m'"
  shows "\<exists>r. copy_bucket fresh pl pos ranges t \<lparr>cp_referenced = [], cp_manifest = Some m, cp_results = []\<rparr> =
      Inr \<lparr>cp_referenced = slice_of lo hi es, cp_manifest = Some m', cp_results = [(r, False)]\<rparr> \<and>
    mr_task_index r = t \<and> d_manifest (mr_delta r) = Some m' \<and> d_type (mr_delta r) = Some APPEND \<and>
    wr_files (mr_write_result r) = int (length (slice_of lo hi es))"
  using assms referenced_range [OF assms(2,3,4)]
  by (simp add: copy_bucket_def Let_def own_entries_def materialize_result_of_def delta_of_def write_result_of_def)

lemma copied_bucket:
  assumes "map_of ranges (int_to_str t) = Some (lo, hi)" "mn_entries m = Some es" "0 \<le> lo" "hi \<le> int (length es)"
    "manifest_of (fresh t) (Some (slice_of lo hi es)) None (Some (fresh t)) None PNone = Inr m'"
  shows "\<exists>r. copy_all_manifest_files_from_old_hash_buckets fresh [t] (Some ranges) pl pos (Some m) = Inr [r] \<and>
    mr_task_index r = t \<and> d_type (mr_delta r) = Some APPEND \<and> delta_entries (mr_delta r) = slice_of lo hi es \<and> counts_files r"
proof -
  obtain r where r: "copy_bucket fresh pl pos ranges t \<lparr>cp_referenced = [], cp_manifest = Some m, cp_results = []\<rparr> =
      Inr \<lparr>cp_referenced = slice_of lo hi es, cp_manifest = Some m', cp_results = [(r, False)]\<rparr>"
    "mr_task_index r = t" "d_manifest (mr_delta r) = Some m'" "d_type (mr_delta r) = Some APPEND"
    "wr_files (mr_write_result r) = int (length (slice_of lo hi es))"
    using copy_first_bucket [where fresh = fresh, OF assms] by blast
  then show ?thesis
    by (simp add: copy_all_manifest_files_from_old_hash_buckets_def with_entries_def delta_entries_def counts_files_def)
qed

lemma second_bucket_beyond:
  assumes "map_of ranges (int_to_str t) = Some (lo, hi)" "map_of ranges (int_to_str t') = Some (lo', hi')"
    "mn_entries m = Some es" "0 \<le> lo" "hi \<le> int (length es)" "hi \<le> lo'" "lo' < hi'"
    "manifest_of (fresh t) (Some (slice_of lo hi es)) None (Some (fresh t)) None PNone = Inr m'" "lo \<le> hi"
  shows "copy_all_manifest_files_from_old_hash_buckets fresh (t # t' # ts) (Some ranges) pl pos (Some m) = Inl AssertionError"
proof -
  obtain r where r: "copy_bucket fresh pl pos ranges t \<lparr>cp_referenced = [], cp_manifest = Some m, cp_results = []\<rparr> =
      Inr \<lparr>cp_referenced = slice_of lo hi es, cp_manifest = Some m', cp_results = [(r, False)]\<rparr>"
    using copy_first_bucket [where fresh = fresh, OF assms(1,3,4,5,8)] by blast
  have "int (length (slice_of lo hi es)) \<le> lo'" using assms(4,5,6,9) by (auto simp: slice_of_def)
  then have "res_map (referenced_entry (Some m')) [lo'..hi' - 1] = Inl AssertionError"
    using referenced_beyond [of m'] manifest_of_entries [OF assms(8)] assms(7) by simp
  then show ?thesis using r assms(2) by (simp add: copy_all_manifest_files_from_old_hash_buckets_def copy_bucket_def)
qed

lemma merged_delta_manifest:
  assumes "merge_deltas sha1 fresh ds author position properties = Inr d"
  obtains m where "d_manifest d = Some m" "mn_entries m = Some (delta_entries d)"
proof -
  obtain m where "merge_manifests fresh (map (\<lambda>d. the (d_manifest d)) ds) author = Inr m" "d_manifest d = Some m"
    using assms by (rule merge_deltas_parts) (simp add: delta_of_def)
  with merged_entries_concat [OF this(1)] show thesis using that by (simp add: delta_entries_def)
qed

lemma process_merge_results_manifest:
  assumes "process_merge_results sha1 fresh rounds position rs = Inr (d, mats, ranges)"
  obtains m where "d_manifest d = Some m" "mn_entries m = Some (delta_entries d)"
proof -
  obtain pos where "merge_deltas sha1 fresh (map mr_delta mats) None pos PNone = Inr d"
    using assms by (auto simp: process_merge_results_def Let_def rbind_Inr_iff)
  then show thesis using that by (rule merged_delta_manifest)
qed

lemma add_ranges_files:
  "add_ranges n xs st = Inr st' \<Longrightarrow> x \<in> set xs \<Longrightarrow> 1 \<le> wr_files (mr_write_result x)"
  by (induction xs arbitrary: st) (auto simp: rbind_Inr_iff add_range_def Let_def split: if_splits)

lemma process_merge_results_selects:
  assumes "process_merge_results sha1 fresh rounds position rs = Inr (d, mats, ranges)" "\<forall>m \<in> set (concat rs). counts_files m"
    "t \<in> mr_task_index ` set (concat rs)"
  obtains lo hi where "map_of ranges (int_to_str t) = Some (lo, hi)" "bucket_range mats t = Some (lo, hi)" "0 \<le> lo" "lo < hi"
    "hi \<le> int (length (delta_entries d))" "slice_of lo hi (delta_entries d) = result_entries (bucket_results t (concat rs))"
proof -
  note p = process_merge_results_parts [OF assms(1,2)]
  obtain st where "add_ranges rounds mats range_start = Inr st"
    using assms(1) by (auto simp: process_merge_results_def Let_def rbind_Inr_iff)
  then have "range_selects mats mats t"
    using add_ranges_files assms(2) by (intro bucket_range_selects) (auto simp: p(1))
  moreover obtain lo hi where r: "bucket_range mats t = Some (lo, hi)"
    using assms(3) by (auto simp: bucket_range_def p(1))
  ultimately show thesis
    using that [of lo hi] r p(2) p(3) [of t] by (simp add: range_selects_def p(1))
qed

lemma bucket_ranges_ordered:
  assumes "bucket_range ms t = Some (lo, hi)" "bucket_range ms t' = Some (lo', hi')" "t < t'" "sorted (map mr_task_index ms)"
  shows "hi \<le> lo'"
proof -
  have f: "filter (\<lambda>m. mr_task_index m \<le> t) (filter (\<lambda>m. mr_task_index m < t') ms) = filter (\<lambda>m. mr_task_index m \<le> t) ms"
    using assms(3) by (auto intro: filter_cong)
  have s: "sorted (map mr_task_index (filter (\<lambda>m. mr_task_index m < t') ms))"
    using assms(4) by (simp add: sorted_filter)
  have "length (result_entries (filter (\<lambda>m. mr_task_index m \<le> t) (filter (\<lambda>m. mr_task_index m < t') ms)))
      \<le> length (result_entries (filter (\<lambda>m. mr_task_index m < t') ms))"
    using sorted_upto_at [OF s, of t] sorted_split_at [OF s, of t]
    by (metis append_assoc le_add1 length_append result_entries_append)
  then show ?thesis using assms(1,2) unfolding f by (auto simp: bucket_range_def split: if_splits)
qed

end
