(* ===== verification/CompactionProperties.thy ===== *)
theory CompactionProperties
  imports CompactionResults ManifestProperties
begin

text \<open>
  What the results of a compaction promise to the next one: the ranges recorded for the hash buckets select the
  files of the buckets in the compacted delta, and a bucket without new records is copied by reference.
\<close>

text \<open>C38: Processing the results of the merge tasks. When every result has at least one file and no hash bucket has
  more results than there are rounds, the compacted delta lists the entries of all results in the order of their
  buckets, and the recorded range of a bucket selects from its manifest exactly the entries that were written
  for the bucket, in the order in which they were written; buckets without results have no range. Otherwise an
  assertion fails.
\<close>

theorem merge_results_ranges:
  assumes "\<forall>m \<in> set (concat rs). counts_files m \<and> 0 \<le> mr_task_index m"
  shows "if (\<forall>m \<in> set (concat rs). 1 \<le> wr_files (mr_write_result m) \<and>
            int (length (bucket_results (mr_task_index m) (concat rs))) \<le> rounds)
    then (\<forall>d. merge_deltas sha1 fresh (map mr_delta (sort_key mr_task_index (concat rs))) None
            (Some (if position \<noteq> MAX_DELTA_STREAM_POSITION then position else 1)) PNone = Inr d \<longrightarrow>
        (\<exists>ranges. process_merge_results sha1 fresh rounds position rs = Inr (d, sort_key mr_task_index (concat rs), ranges) \<and>
          delta_entries d = result_entries (sort_key mr_task_index (concat rs)) \<and>
          (\<forall>t. case map_of ranges (int_to_str t) of None \<Rightarrow> bucket_results t (concat rs) = []
             | Some (lo, hi) \<Rightarrow> 0 \<le> lo \<and> lo < hi \<and> hi \<le> int (length (delta_entries d)) \<and>
                 slice_of lo hi (delta_entries d) = result_entries (bucket_results t (concat rs)))))
    else process_merge_results sha1 fresh rounds position rs = Inl AssertionError"
proof -
  let ?ms = "sort_key mr_task_index (concat rs)"
  let ?ok = "\<forall>m \<in> set (concat rs). 1 \<le> wr_files (mr_write_result m) \<and>
      int (length (bucket_results (mr_task_index m) (concat rs))) \<le> rounds"
  have "counts_duplicates [] range_start" by (simp add: counts_duplicates_def range_start_def)
  note decide = add_ranges_decide [OF this, of ?ms rounds]
  have parts: "map_of ranges (int_to_str t) = bucket_range ?ms t" "delta_entries d = result_entries ?ms"
    if "process_merge_results sha1 fresh rounds position rs = Inr (d, ?ms, ranges)" for d ranges t
    using process_merge_results_parts [OF that] assms by auto
  show ?thesis
  proof (cases ?ok)
    case True
    then obtain st where st: "add_ranges rounds ?ms range_start = Inr st" using decide assms by auto
    have "range_selects ?ms ?ms t" for t
      using True assms by (intro bucket_range_selects) auto
    then have range: "range_selects ?ms (concat rs) t" for t
      by (simp only: range_selects_def bucket_results_sort)
    show ?thesis unfolding if_P [OF True]
    proof (intro allI impI)
      fix d
      assume "merge_deltas sha1 fresh (map mr_delta ?ms) None
        (Some (if position \<noteq> MAX_DELTA_STREAM_POSITION then position else 1)) PNone = Inr d"
      then have run: "process_merge_results sha1 fresh rounds position rs = Inr (d, ?ms, rs_ranges st)"
        using st by (simp add: process_merge_results_def Let_def)
      show "\<exists>ranges. process_merge_results sha1 fresh rounds position rs = Inr (d, ?ms, ranges) \<and>
          delta_entries d = result_entries ?ms \<and>
          (\<forall>t. case map_of ranges (int_to_str t) of None \<Rightarrow> bucket_results t (concat rs) = []
             | Some (lo, hi) \<Rightarrow> 0 \<le> lo \<and> lo < hi \<and> hi \<le> int (length (delta_entries d)) \<and>
                 slice_of lo hi (delta_entries d) = result_entries (bucket_results t (concat rs)))"
        unfolding parts(2) [OF run]
        by (intro exI [of _ "rs_ranges st"] conjI allI run refl) (use range in \<open>simp only: parts(1) [OF run] range_selects_def\<close>)
    qed
  next
    case False
    then have "add_ranges rounds ?ms range_start = Inl AssertionError" using decide assms by auto
    then show ?thesis unfolding if_not_P [OF False] by (simp add: process_merge_results_def)
  qed
qed


text \<open>Two merge tasks: the first merged bucket 1 and wrote two files, the second one bucket 0 and wrote one.\<close>

definition ex_result :: "int \<Rightarrow> manifest \<Rightarrow> int \<Rightarrow> materialize_result" where
  "ex_result t m n = materialize_result_of (ex_delta ''t'' APPEND m 4) t (write_result_of n (Some 10) (Some 10) (Some 3)) None"

definition ex_results :: "materialize_result list list" where
  "ex_results = [[ex_result 1 ex_m2 2], [ex_result 0 ex_m1 1]]"

lemma ex_m_entries:
  "mn_entries ex_m1 = Some [ex_entry ''a'' 3 PARQUET (Some 1)]"
  "mn_entries ex_m2 = Some [ex_entry ''b'' 4 PARQUET (Some 2), ex_entry ''c'' 5 PARQUET None]"
  by code_simp+

lemma ex_result_entries: "delta_entries (mr_delta (ex_result t m n)) = (case mn_entries m of None \<Rightarrow> [] | Some es \<Rightarrow> es)"
  by (simp add: delta_entries_def ex_result_def ex_delta_def delta_of_def materialize_result_of_def)

lemma ex_results_facts:
  "sort_key mr_task_index (concat ex_results) = [ex_result 0 ex_m1 1, ex_result 1 ex_m2 2]"
  "\<forall>m \<in> set (concat ex_results). counts_files m \<and> 0 \<le> mr_task_index m"
  "\<forall>m \<in> set (concat ex_results). 1 \<le> wr_files (mr_write_result m) \<and> int (length (bucket_results (mr_task_index m) (concat ex_results))) \<le> 1"
  "result_entries (bucket_results 1 (concat ex_results)) = [ex_entry ''b'' 4 PARQUET (Some 2), ex_entry ''c'' 5 PARQUET None]"
proof -
  have i: "mr_task_index (ex_result t m n) = t" "wr_files (mr_write_result (ex_result t m n)) = n" for t m n
    by (simp_all add: ex_result_def materialize_result_of_def write_result_of_def)
  show "sort_key mr_task_index (concat ex_results) = [ex_result 0 ex_m1 1, ex_result 1 ex_m2 2]"
    by (simp add: ex_results_def i)
  show "\<forall>m \<in> set (concat ex_results). counts_files m \<and> 0 \<le> mr_task_index m"
    by (simp add: ex_results_def counts_files_def i ex_result_entries ex_m_entries)
  show "\<forall>m \<in> set (concat ex_results). 1 \<le> wr_files (mr_write_result m) \<and> int (length (bucket_results (mr_task_index m) (concat ex_results))) \<le> 1"
    by (simp add: ex_results_def bucket_results_def i)
  show "result_entries (bucket_results 1 (concat ex_results)) = [ex_entry ''b'' 4 PARQUET (Some 2), ex_entry ''c'' 5 PARQUET None]"
    by (simp add: ex_results_def bucket_results_def i result_entries_def ex_result_entries ex_m_entries)
qed

lemma ex_results_merge: "\<exists>d. merge_deltas (\<lambda>s. s) ''u'' (map mr_delta (sort_key mr_task_index (concat ex_results))) None (Some 5) PNone = Inr d"
proof -
  have "\<not> isl (merge_deltas (\<lambda>s. s) ''u'' (map mr_delta [ex_result 0 ex_m1 1, ex_result 1 ex_m2 2]) None (Some 5) PNone)" by code_simp
  then show ?thesis unfolding ex_results_facts(1) by (metis sum.collapse(2))
qed

theorem merge_results_ranges_witness:
  "\<exists>d mats ranges lo hi. process_merge_results (\<lambda>s. s) ''u'' 1 5 ex_results = Inr (d, mats, ranges) \<and>
     map_of ranges (int_to_str 1) = Some (lo, hi) \<and>
     slice_of lo hi (delta_entries d) = [ex_entry ''b'' 4 PARQUET (Some 2), ex_entry ''c'' 5 PARQUET None]"
proof -
  obtain d where d: "merge_deltas (\<lambda>s. s) ''u'' (map mr_delta (sort_key mr_task_index (concat ex_results))) None (Some 5) PNone = Inr d"
    using ex_results_merge by blast
  have pos: "(if 5 \<noteq> MAX_DELTA_STREAM_POSITION then 5 else 1) = 5" by (simp add: MAX_DELTA_STREAM_POSITION_def)
  from merge_results_ranges [OF ex_results_facts(2), of 1 "\<lambda>s. s" "''u''" 5, unfolded if_P [OF ex_results_facts(3)] pos, rule_format, OF d]
  obtain ranges where r: "process_merge_results (\<lambda>s. s) ''u'' 1 5 ex_results = Inr (d, sort_key mr_task_index (concat ex_results), ranges)"
    "\<forall>t. case map_of ranges (int_to_str t) of None \<Rightarrow> bucket_results t (concat ex_results) = []
       | Some (lo, hi) \<Rightarrow> 0 \<le> lo \<and> lo < hi \<and> hi \<le> int (length (delta_entries d)) \<and>
           slice_of lo hi (delta_entries d) = result_entries (bucket_results t (concat ex_results))"
    by blast
  have "bucket_results 1 (concat ex_results) \<noteq> []" using ex_results_facts(4) by auto
  then obtain lo hi where "map_of ranges (int_to_str 1) = Some (lo, hi)"
    "slice_of lo hi (delta_entries d) = [ex_entry ''b'' 4 PARQUET (Some 2), ex_entry ''c'' 5 PARQUET None]"
    using spec [OF r(2), of 1] unfolding ex_results_facts(4) by (cases "map_of ranges (int_to_str 1)") auto
  then show ?thesis using r(1) by blast
qed

text \<open>C39: The files of a hash bucket survive to the next round. When a later round copies one bucket by reference
  from the manifest of the compacted delta and the ranges recorded with it, it gets a single result for the
  bucket with exactly the entries that were written for it, and the result counts them.
\<close>

theorem bucket_copied_by_reference:
  assumes "process_merge_results sha1 fresh rounds position rs = Inr (d, mats, ranges)" "\<forall>m \<in> set (concat rs). counts_files m"
    "t \<in> mr_task_index ` set (concat rs)"
    "manifest_of (fresh' t) (Some (result_entries (bucket_results t (concat rs)))) None (Some (fresh' t)) None PNone = Inr m"
  shows "\<exists>r. copy_all_manifest_files_from_old_hash_buckets fresh' [t] (Some ranges) pl pos (d_manifest d) = Inr [r] \<and>
    mr_task_index r = t \<and> d_type (mr_delta r) = Some APPEND \<and> counts_files r \<and>
    delta_entries (mr_delta r) = result_entries (bucket_results t (concat rs))"
proof -
  obtain lo hi where r: "map_of ranges (int_to_str t) = Some (lo, hi)" "0 \<le> lo" "hi \<le> int (length (delta_entries d))"
    "slice_of lo hi (delta_entries d) = result_entries (bucket_results t (concat rs))"
    using assms(1-3) by (rule process_merge_results_selects)
  obtain m0 where "d_manifest d = Some m0" "mn_entries m0 = Some (delta_entries d)"
    using assms(1) by (rule process_merge_results_manifest)
  with copied_bucket [where fresh = fresh' and m' = m, OF r(1) this(2) r(2,3)] assms(4) r(4) show ?thesis by auto
qed

lemma ex_results_processed: "\<exists>d mats ranges. process_merge_results (\<lambda>s. s) ''u'' 1 5 ex_results = Inr (d, mats, ranges)"
proof -
  have "\<not> isl (process_merge_results (\<lambda>s. s) ''u'' 1 5 ex_results)" by code_simp
  then show ?thesis by (metis prod_cases3 sum.collapse(2))
qed

theorem bucket_copied_by_reference_witness:
  "\<exists>d mats ranges r. process_merge_results (\<lambda>s. s) ''u'' 1 5 ex_results = Inr (d, mats, ranges) \<and>
     copy_all_manifest_files_from_old_hash_buckets (\<lambda>_. ''v'') [1] (Some ranges) None (Some 9) (d_manifest d) = Inr [r] \<and>
     delta_entries (mr_delta r) = [ex_entry ''b'' 4 PARQUET (Some 2), ex_entry ''c'' 5 PARQUET None]"
proof -
  obtain d mats ranges where p: "process_merge_results (\<lambda>s. s) ''u'' 1 5 ex_results = Inr (d, mats, ranges)"
    using ex_results_processed by blast
  have "\<not> isl (manifest_of ''v'' (Some [ex_entry ''b'' 4 PARQUET (Some 2), ex_entry ''c'' 5 PARQUET None]) None (Some ''v'') None PNone)"
    by code_simp
  then obtain m where m: "manifest_of ''v'' (Some (result_entries (bucket_results 1 (concat ex_results)))) None (Some ''v'') None PNone = Inr m"
    unfolding ex_results_facts(4) by (metis sum.collapse(2))
  have "\<forall>m \<in> set (concat ex_results). counts_files m" "1 \<in> mr_task_index ` set (concat ex_results)"
    using ex_results_facts(2) by (auto simp: ex_results_def ex_result_def materialize_result_of_def)
  from bucket_copied_by_reference [where fresh' = "\<lambda>_. ''v''" and pl = None and pos = "Some 9", OF p this m] p
  show ?thesis unfolding ex_results_facts(4) by blast
qed

text \<open>
  Copying a second bucket fails. The loop looks up the entries of every bucket in the manifest it built for the
  bucket before, so that a merge task with two buckets to copy by reference, in the order of their indices, ends
  with an assertion error.
\<close>

lemma second_bucket_not_copied:
  assumes "process_merge_results sha1 fresh rounds position rs = Inr (d, mats, ranges)" "\<forall>m \<in> set (concat rs). counts_files m"
    "t \<in> mr_task_index ` set (concat rs)" "t' \<in> mr_task_index ` set (concat rs)" "t < t'"
    "manifest_of (fresh' t) (Some (result_entries (bucket_results t (concat rs)))) None (Some (fresh' t)) None PNone = Inr m"
  shows "copy_all_manifest_files_from_old_hash_buckets fresh' (t # t' # ts) (Some ranges) pl pos (d_manifest d) = Inl AssertionError"
proof -
  obtain lo hi where r: "map_of ranges (int_to_str t) = Some (lo, hi)" "bucket_range mats t = Some (lo, hi)" "0 \<le> lo" "lo < hi"
    "hi \<le> int (length (delta_entries d))" "slice_of lo hi (delta_entries d) = result_entries (bucket_results t (concat rs))"
    using assms(1-3) by (rule process_merge_results_selects)
  obtain lo' hi' where r': "map_of ranges (int_to_str t') = Some (lo', hi')" "bucket_range mats t' = Some (lo', hi')" "lo' < hi'"
    using assms(1,2,4) by (rule process_merge_results_selects)
  have "hi \<le> lo'"
    using bucket_ranges_ordered [OF r(2) r'(2) assms(5)] process_merge_results_parts(1) [OF assms(1,2)] by simp
  moreover obtain m0 where "d_manifest d = Some m0" "mn_entries m0 = Some (delta_entries d)"
    using assms(1) by (rule process_merge_results_manifest)
  ultimately show ?thesis
    using second_bucket_beyond [where fresh = fresh' and m' = m and m = m0, OF r(1) r'(1)] r(3-6) r'(3) assms(6) by simp
qed

end
