(* ===== verification/HashBuckets.thy ===== *)
theory HashBuckets
  imports Deltas "HOL-Library.Word"
begin

text \<open>
  How the records of a compaction reach the merge tasks (\<^verbatim>\<open>compute/compactor_v2/utils/primary_key_index.py\<close>,
  \<^verbatim>\<open>compute/compactor_v2/model/merge_file_group.py\<close>, \<^verbatim>\<open>_run_hash_and_merge\<close> of
  \<^verbatim>\<open>compute/compactor_v2/private/compaction_utils.py\<close> and the object stores of \<^verbatim>\<open>io\<close>). A hash bucket task splits
  the records of its delta by hash bucket, puts the buckets of every hash group as one object into the object
  store, and the merge task of the group gets the objects of all hash bucket tasks. Tables are Arrow tables; their
  sizes in bytes and rows are parameters. Sizes are summed in 64 bit integers.
\<close>

subsection \<open>Object stores\<close>

text \<open>
  \<^verbatim>\<open>FileObjectStore\<close>: one file per object, named by a fresh identifier in the directory of the store and opened
  for exclusive creation. A file is modelled by the object whose pickled form it holds.
\<close>

record 'o file_objects =
  fo_files :: "(string \<times> 'o) list"
  fo_next :: nat

definition object_ref :: "string \<Rightarrow> (nat \<Rightarrow> string) \<Rightarrow> nat \<Rightarrow> string" where
  "object_ref dir uuids n = dir @ ''/'' @ uuids n"

fun put_many :: "string \<Rightarrow> (nat \<Rightarrow> string) \<Rightarrow> 'o list \<Rightarrow> ('o file_objects, string list) io" where
  "put_many dir uuids [] s = (Inr [], s)"
| "put_many dir uuids (obj # objects) s =
     (let ref = object_ref dir uuids (fo_next s); s1 = s\<lparr>fo_next := fo_next s + 1\<rparr>
      in if map_of (fo_files s) ref \<noteq> None then (Inl FileExistsError, s1)
         else io_bind (put_many dir uuids objects) (\<lambda>refs. io_return (ref # refs))
                (s1\<lparr>fo_files := dict_set ref obj (fo_files s)\<rparr>))"

definition store_put :: "string \<Rightarrow> (nat \<Rightarrow> string) \<Rightarrow> 'o \<Rightarrow> ('o file_objects, string) io" where
  "store_put dir uuids obj = io_bind (put_many dir uuids [obj]) (\<lambda>refs. io_return (hd refs))"

definition get_many :: "string list \<Rightarrow> ('o file_objects, 'o list) io" where
  "get_many refs = io_lift (\<lambda>s. res_map (\<lambda>ref. of_option FileNotFoundError (map_of (fo_files s) ref)) refs)"

definition store_get :: "string \<Rightarrow> ('o file_objects, 'o) io" where
  "store_get ref = io_bind (get_many [ref]) (\<lambda>objects. io_return (hd objects))"

fun delete_many_from :: "string list \<Rightarrow> int \<Rightarrow> 'o file_objects \<Rightarrow> int \<times> 'o file_objects" where
  "delete_many_from [] num_deleted s = (num_deleted, s)"
| "delete_many_from (ref # refs) num_deleted s =
     (if map_of (fo_files s) ref = None then delete_many_from refs num_deleted s
      else delete_many_from refs (num_deleted + 1) (s\<lparr>fo_files := dict_del ref (fo_files s)\<rparr>))"

definition delete_many :: "string list \<Rightarrow> ('o file_objects, bool) io" where
  "delete_many refs s = (case delete_many_from refs 0 s of (num_deleted, s') \<Rightarrow> (Inr (num_deleted = int (length refs)), s'))"

subsection \<open>Envelopes\<close>

text \<open>An envelope holds its table itself; the strategies that store the table elsewhere are left out.\<close>

record 't delta_file_envelope =
  dfe_stream_position :: int
  dfe_file_index :: "int option"
  dfe_delta_type :: delta_type
  dfe_table :: 't
  dfe_is_src_delta :: bool
  dfe_file_record_count :: "int option"

definition delta_file_envelope_of ::
    "int option \<Rightarrow> delta_type option \<Rightarrow> 't option \<Rightarrow> int option \<Rightarrow> bool \<Rightarrow> int option \<Rightarrow> 't delta_file_envelope res" where
  "delta_file_envelope_of stream_position delta_type table file_index is_src_delta file_record_count =
     (case (stream_position, delta_type, table) of
        (Some p, Some d, Some t) \<Rightarrow>
          Inr \<lparr>dfe_stream_position = p, dfe_file_index = file_index, dfe_delta_type = d, dfe_table = t,
               dfe_is_src_delta = is_src_delta, dfe_file_record_count = file_record_count\<rparr>
      | _ \<Rightarrow> Inl ValueError)"

subsection \<open>Buckets and groups\<close>

definition pk_digest_to_hash_bucket_index :: "string option \<Rightarrow> int \<Rightarrow> int res" where
  "pk_digest_to_hash_bucket_index digest num_buckets =
     (case digest of None \<Rightarrow> Inr 0
      | Some d \<Rightarrow> rbind (of_option ValueError (py_int_base 16 d)) (\<lambda>n.
          if num_buckets = 0 then Inl ZeroDivisionError else Inr (n mod num_buckets)))"

definition hash_bucket_index_to_hash_group_index :: "int \<Rightarrow> int \<Rightarrow> int res" where
  "hash_bucket_index_to_hash_group_index hb_index num_groups =
     (if num_groups = 0 then Inl ZeroDivisionError else Inr (hb_index mod num_groups))"

text \<open>Python's \<^verbatim>\<open>range(start, stop, step)\<close>.\<close>

definition py_range :: "int \<Rightarrow> int \<Rightarrow> int \<Rightarrow> int list res" where
  "py_range start stop step = (if step = 0 then Inl ValueError
     else Inr (map (\<lambda>k. start + int k * step) [0..<nat ((stop - start + step - sgn step) div step)]))"

definition hash_group_index_to_hash_bucket_indices :: "int \<Rightarrow> int \<Rightarrow> int \<Rightarrow> int list res" where
  "hash_group_index_to_hash_bucket_indices hb_group num_buckets num_groups =
     (if hb_group > num_buckets then Inr [] else py_range hb_group num_buckets num_groups)"

subsection \<open>Storing the buckets of a task\<close>

text \<open>
  An array of hash buckets has the envelopes of a bucket or \<^verbatim>\<open>None\<close>. A hash group that has been started has
  such an array for its own buckets and the size and rows of its envelopes.
\<close>

type_synonym 'e bucket_array = "'e list option list"

record 'e hash_group =
  hg_objects :: "'e bucket_array"
  hg_size :: "64 word"
  hg_num_rows :: "64 word"

definition np_empty :: "int \<Rightarrow> 'a option list res" where
  "np_empty n = (if n < 0 then Inl ValueError else Inr (replicate (nat n) None))"

fun add_sizes :: "('e \<Rightarrow> int res) \<Rightarrow> ('e \<Rightarrow> int) \<Rightarrow> 'e list \<Rightarrow> 'e hash_group \<Rightarrow> 'e hash_group res" where
  "add_sizes size_bytes num_rows [] g = Inr g"
| "add_sizes size_bytes num_rows (dfe # dfes) g =
     rbind (size_bytes dfe) (\<lambda>n. add_sizes size_bytes num_rows dfes
       (g\<lparr>hg_size := hg_size g + word_of_int n, hg_num_rows := hg_num_rows g + word_of_int (num_rows dfe)\<rparr>))"

definition group_bucket ::
    "('e \<Rightarrow> int res) \<Rightarrow> ('e \<Rightarrow> int) \<Rightarrow> int \<Rightarrow> int \<Rightarrow> nat \<times> 'e list option \<Rightarrow> 'e hash_group option list \<Rightarrow>
     'e hash_group option list res" where
  "group_bucket size_bytes num_rows num_buckets num_groups p groups =
     (case p of
        (hb_index, Some (dfe # dfes)) \<Rightarrow>
          rbind (hash_bucket_index_to_hash_group_index (int hb_index) num_groups) (\<lambda>hb_group.
            let i = nat hb_group
            in rbind (case groups ! i of Some g \<Rightarrow> Inr g
                      | None \<Rightarrow> rbind (np_empty num_buckets) (\<lambda>array. Inr \<lparr>hg_objects = array, hg_size = 0, hg_num_rows = 0\<rparr>)) (\<lambda>g.
                 if \<not> hb_index < length (hg_objects g) then Inl IndexError
                 else rbind (add_sizes size_bytes num_rows (dfe # dfes)
                        (g\<lparr>hg_objects := (hg_objects g)[hb_index := Some (dfe # dfes)]\<rparr>)) (\<lambda>g'.
                      Inr (groups[i := Some g']))))
      | _ \<Rightarrow> Inr groups)"

fun group_buckets ::
    "('e \<Rightarrow> int res) \<Rightarrow> ('e \<Rightarrow> int) \<Rightarrow> int \<Rightarrow> int \<Rightarrow> (nat \<times> 'e list option) list \<Rightarrow> 'e hash_group option list \<Rightarrow>
     'e hash_group option list res" where
  "group_buckets size_bytes num_rows num_buckets num_groups [] groups = Inr groups"
| "group_buckets size_bytes num_rows num_buckets num_groups (p # ps) groups =
     rbind (group_bucket size_bytes num_rows num_buckets num_groups p groups)
       (group_buckets size_bytes num_rows num_buckets num_groups ps)"

type_synonym 'r group_refs = "('r \<times> 64 word \<times> 64 word) option list"

fun put_groups :: "('e bucket_array \<Rightarrow> ('s, 'r) io) \<Rightarrow> 'e hash_group option list \<Rightarrow> ('s, 'r group_refs) io" where
  "put_groups put [] = io_return []"
| "put_groups put (None # gs) = io_bind (put_groups put gs) (\<lambda>refs. io_return (None # refs))"
| "put_groups put (Some g # gs) =
     io_bind (put (hg_objects g)) (\<lambda>object_ref.
     io_bind (put_groups put gs) (\<lambda>refs. io_return (Some (object_ref, hg_size g, hg_num_rows g) # refs)))"

definition io_res :: "'a res \<Rightarrow> ('s, 'a) io" where
  "io_res r s = (r, s)"

text \<open>Closing the connections of the store keeps its objects and is left out.\<close>

definition group_hash_bucket_indices ::
    "('e \<Rightarrow> int res) \<Rightarrow> ('e \<Rightarrow> int) \<Rightarrow> ('e bucket_array \<Rightarrow> ('s, 'r) io) \<Rightarrow> 'e bucket_array option \<Rightarrow> int \<Rightarrow> int \<Rightarrow>
     ('s, 'r group_refs) io" where
  "group_hash_bucket_indices size_bytes num_rows put hash_bucket_object_groups num_buckets num_groups =
     (if num_groups < 0 then io_raise ValueError
      else case hash_bucket_object_groups of None \<Rightarrow> io_return (replicate (nat num_groups) None)
        | Some objects \<Rightarrow>
            io_bind (io_res (group_buckets size_bytes num_rows num_buckets num_groups (enumerate 0 objects)
                               (replicate (nat num_groups) None))) (put_groups put))"

text \<open>
  The hash bucket tasks of a round, one per input delta. Ray runs them in parallel; each only adds objects to the
  store, and the results are taken in the order of the inputs.
\<close>

fun hash_bucket_tasks ::
    "('e \<Rightarrow> int res) \<Rightarrow> ('e \<Rightarrow> int) \<Rightarrow> ('e bucket_array \<Rightarrow> ('s, 'r) io) \<Rightarrow> int \<Rightarrow> int \<Rightarrow> 'e bucket_array option list \<Rightarrow>
     ('s, 'r group_refs list) io" where
  "hash_bucket_tasks size_bytes num_rows put num_buckets num_groups [] = io_return []"
| "hash_bucket_tasks size_bytes num_rows put num_buckets num_groups (a # as) =
     io_bind (group_hash_bucket_indices size_bytes num_rows put a num_buckets num_groups) (\<lambda>result.
     io_bind (hash_bucket_tasks size_bytes num_rows put num_buckets num_groups as) (\<lambda>results.
       io_return (result # results)))"

subsection \<open>Collecting the references of every group\<close>

record 'r group_input =
  gi_refs :: "'r list"
  gi_size_bytes :: int
  gi_num_rows :: int

definition initial_groups :: "int \<Rightarrow> (int \<times> 'r group_input) list" where
  "initial_groups hash_group_count =
     map (\<lambda>g. (g, \<lparr>gi_refs = [], gi_size_bytes = 0, gi_num_rows = 0\<rparr>)) [0..hash_group_count - 1]"

text \<open>The dictionaries are default dictionaries, so that a missing group starts empty.\<close>

definition group_input_at :: "(int \<times> 'r group_input) list \<Rightarrow> int \<Rightarrow> 'r group_input" where
  "group_input_at d g = (case map_of d g of None \<Rightarrow> \<lparr>gi_refs = [], gi_size_bytes = 0, gi_num_rows = 0\<rparr> | Some i \<Rightarrow> i)"

definition collect_ref ::
    "nat \<times> ('r \<times> 64 word \<times> 64 word) option \<Rightarrow> (int \<times> 'r group_input) list \<Rightarrow> (int \<times> 'r group_input) list" where
  "collect_ref p d = (case p of (_, None) \<Rightarrow> d
     | (hash_group_index, Some (ref, bytes, num_rows)) \<Rightarrow>
         let g = int hash_group_index; i = group_input_at d g
         in dict_set g \<lparr>gi_refs = gi_refs i @ [ref], gi_size_bytes = gi_size_bytes i + sint bytes,
                        gi_num_rows = gi_num_rows i + sint num_rows\<rparr> d)"

definition collect_hash_groups :: "int \<Rightarrow> 'r group_refs list \<Rightarrow> (int \<times> 'r group_input) list" where
  "collect_hash_groups hash_group_count hb_results =
     fold (\<lambda>hb_result. fold collect_ref (enumerate 0 hb_result)) hb_results (initial_groups hash_group_count)"

subsection \<open>The file groups of a merge task\<close>

record 'e merge_file_group =
  mfg_hb_index :: int
  mfg_dfe_groups :: "'e list list option"

definition merge_file_group_of :: "int \<Rightarrow> 'e list list option \<Rightarrow> 'e merge_file_group" where
  "merge_file_group_of hb_index dfe_groups = \<lparr>mfg_hb_index = hb_index, mfg_dfe_groups = dfe_groups\<rparr>"

definition add_envelopes :: "nat \<times> 'e list option \<Rightarrow> (int \<times> 'e list list) list \<Rightarrow> (int \<times> 'e list list) list" where
  "add_envelopes p d = (case p of
       (hb_idx, Some (dfe # dfes)) \<Rightarrow>
         dict_set (int hb_idx) ((case map_of d (int hb_idx) of None \<Rightarrow> [] | Some l \<Rightarrow> l) @ [dfe # dfes]) d
     | _ \<Rightarrow> d)"

fun index_envelopes :: "int \<Rightarrow> 'e bucket_array list \<Rightarrow> (int \<times> 'e list list) list \<Rightarrow> (int \<times> 'e list list) list res" where
  "index_envelopes hash_bucket_count [] d = Inr d"
| "index_envelopes hash_bucket_count (a # as) d =
     (if hash_bucket_count \<noteq> int (length a) then Inl AssertionError
      else index_envelopes hash_bucket_count as (fold add_envelopes (enumerate 0 a) d))"

definition load_deltas_from_object_store ::
    "('r list \<Rightarrow> ('s, 'e bucket_array list) io) \<Rightarrow> int \<Rightarrow> 'r list \<Rightarrow> int \<Rightarrow> int \<Rightarrow> ('s, 'e merge_file_group list) io" where
  "load_deltas_from_object_store get hash_group_index dfe_groups_refs hash_bucket_count num_hash_groups =
     io_bind (get dfe_groups_refs) (\<lambda>arrays.
     io_res (rbind (index_envelopes hash_bucket_count arrays []) (\<lambda>d.
       rbind (hash_group_index_to_hash_bucket_indices hash_group_index hash_bucket_count num_hash_groups) (\<lambda>indices.
         if int (length (filter (\<lambda>i. map_of d i \<noteq> None \<and> map_of d i \<noteq> Some []) indices)) \<noteq> int (length d) then Inl AssertionError
         else Inr (map (\<lambda>i. merge_file_group_of i (case map_of d i of Some (l # ls) \<Rightarrow> Some (l # ls) | _ \<Rightarrow> None)) indices)))))"

subsection \<open>What a task stores for a group\<close>

definition filled :: "'e list option \<Rightarrow> bool" where
  "filled b \<longleftrightarrow> b \<noteq> None \<and> b \<noteq> Some []"

lemma filled_iff: "filled b \<longleftrightarrow> (\<exists>e es. b = Some (e # es))"
  by (cases b) (auto simp: filled_def neq_Nil_conv)

text \<open>The buckets of a group among the first \<open>k\<close> of an array.\<close>

definition own_buckets :: "nat \<Rightarrow> nat \<Rightarrow> nat \<Rightarrow> 'e bucket_array \<Rightarrow> 'e bucket_array" where
  "own_buckets k n g a = map (\<lambda>hb. if hb < k \<and> hb mod n = g \<and> filled (a ! hb) then a ! hb else None) [0..<length a]"

definition grouped :: "nat \<Rightarrow> nat \<Rightarrow> 'e bucket_array \<Rightarrow> 'e hash_group option list \<Rightarrow> bool" where
  "grouped k n a gs \<longleftrightarrow> length gs = n \<and> (\<forall>g < n. case gs ! g of
       None \<Rightarrow> \<forall>hb < k. hb mod n = g \<longrightarrow> \<not> filled (a ! hb)
     | Some grp \<Rightarrow> hg_objects grp = own_buckets k n g a \<and> (\<exists>hb < k. hb mod n = g \<and> filled (a ! hb)))"

lemma add_sizes_objects: "add_sizes size_bytes num_rows es g = Inr g' \<Longrightarrow> hg_objects g' = hg_objects g"
  by (induction es arbitrary: g) (auto simp: rbind_Inr_iff)

lemma own_buckets_skip: "\<not> (k mod n = g \<and> filled (a ! k)) \<Longrightarrow> own_buckets (Suc k) n g a = own_buckets k n g a"
  by (auto simp: own_buckets_def less_Suc_eq)

lemma own_buckets_add:
  "k < length a \<Longrightarrow> k mod n = g \<Longrightarrow> filled (a ! k) \<Longrightarrow> own_buckets (Suc k) n g a = (own_buckets k n g a)[k := a ! k]"
  by (rule nth_equalityI) (auto simp: own_buckets_def nth_list_update less_Suc_eq)

lemma own_buckets_none:
  "\<forall>hb < k. hb mod n = g \<longrightarrow> \<not> filled (a ! hb) \<Longrightarrow> own_buckets k n g a = replicate (length a) None"
  by (rule nth_equalityI) (auto simp: own_buckets_def)

lemma group_bucket_step:
  assumes "group_bucket size_bytes num_rows (int (length a)) (int n) (k, a ! k) gs = Inr gs'"
    "grouped k n a gs" "k < length a" "0 < n"
  shows "grouped (Suc k) n a gs'"
proof (cases "filled (a ! k)")
  case False
  then have "gs' = gs" using assms(1) by (auto simp: group_bucket_def filled_def split: option.splits list.splits)
  then show ?thesis using assms(2) False by (auto simp: grouped_def own_buckets_skip less_Suc_eq split: option.splits)
next
  case True
  then obtain e es where e: "a ! k = Some (e # es)" by (auto simp: filled_iff)
  let ?i = "k mod n"
  have i: "?i < n" "length gs = n" using assms(2,4) by (auto simp: grouped_def)
  have idx: "nat (int k mod int n) = ?i" by (simp flip: zmod_int)
  obtain objs g' where g: "(gs ! ?i = None \<and> objs = replicate (length a) None) \<or> (\<exists>g. gs ! ?i = Some g \<and> objs = hg_objects g)"
    "hg_objects g' = objs[k := a ! k]" "gs' = gs[?i := Some g']"
    using assms(1,3,4) unfolding group_bucket_def e
    by (auto simp: hash_bucket_index_to_hash_group_index_def Let_def idx rbind_Inr_iff np_empty_def e
        dest!: add_sizes_objects split: option.splits if_splits)
  have "objs = own_buckets k n ?i a"
    using g(1) assms(2) i own_buckets_none [of k n ?i a] by (auto simp: grouped_def split: option.splits)
  then have new: "hg_objects g' = own_buckets (Suc k) n ?i a" using g(2) own_buckets_add [OF assms(3) refl True] by simp
  show ?thesis
    using assms(2) new i True unfolding grouped_def g(3)
    by (auto simp: nth_list_update own_buckets_skip less_Suc_eq split: option.splits)
qed

lemma group_buckets_all:
  assumes "group_buckets size_bytes num_rows (int (length a)) (int n) (enumerate k (drop k a)) gs = Inr gs'"
    "grouped k n a gs" "k \<le> length a" "0 < n"
  shows "grouped (length a) n a gs'"
  using assms
proof (induction "length a - k" arbitrary: k gs)
  case (Suc m)
  then have k: "k < length a" by simp
  then have "enumerate k (drop k a) = (k, a ! k) # enumerate (Suc k) (drop (Suc k) a)" by (simp add: Cons_nth_drop_Suc [symmetric])
  then obtain gs1 where gs1: "group_bucket size_bytes num_rows (int (length a)) (int n) (k, a ! k) gs = Inr gs1"
    "group_buckets size_bytes num_rows (int (length a)) (int n) (enumerate (Suc k) (drop (Suc k) a)) gs1 = Inr gs'"
    using Suc.prems(1) by (auto simp: rbind_Inr_iff)
  show ?case using Suc.hyps(1) [OF _ gs1(2) group_bucket_step [OF gs1(1) Suc.prems(2) k Suc.prems(4)]] Suc.hyps(2) k Suc.prems(4) by simp
qed simp

subsection \<open>What a merge task reads\<close>

definition envelopes_at :: "nat \<Rightarrow> 'e bucket_array list \<Rightarrow> 'e list list" where
  "envelopes_at hb as = map the (filter filled (map (\<lambda>a. a ! hb) as))"

lemma map_of_add_envelopes:
  "map_of (fold add_envelopes (enumerate k a) d) i =
     (if int k \<le> i \<and> i < int (k + length a) \<and> filled (a ! (nat i - k))
      then Some ((case map_of d i of None \<Rightarrow> [] | Some l \<Rightarrow> l) @ [the (a ! (nat i - k))]) else map_of d i)"
proof (induction a arbitrary: k d)
  case (Cons b a)
  have b: "map_of (add_envelopes (k, b) d) i = (if i = int k \<and> filled b
      then Some ((case map_of d i of None \<Rightarrow> [] | Some l \<Rightarrow> l) @ [the b]) else map_of d i)"
    by (auto simp: add_envelopes_def filled_def split: option.splits list.splits)
  show ?case
    using Cons.IH [of "Suc k" "add_envelopes (k, b) d"] b by (auto simp: nth_Cons' nat_diff_distrib' split: if_splits)
qed auto

lemma distinct_add_envelopes: "distinct (map fst d) \<Longrightarrow> distinct (map fst (fold add_envelopes ps d))"
  by (induction ps arbitrary: d) (auto simp: add_envelopes_def split: prod.splits option.splits list.splits)

definition indexed :: "nat \<Rightarrow> 'e bucket_array list \<Rightarrow> (int \<times> 'e list list) list \<Rightarrow> bool" where
  "indexed nb as d \<longleftrightarrow> distinct (map fst d) \<and>
     (\<forall>i. map_of d i = (if 0 \<le> i \<and> i < int nb \<and> envelopes_at (nat i) as \<noteq> [] then Some (envelopes_at (nat i) as) else None))"

lemma indexed_step:
  assumes "indexed nb as d" "length a = nb"
  shows "indexed nb (as @ [a]) (fold add_envelopes (enumerate 0 a) d)"
  using assms distinct_add_envelopes [of d] unfolding indexed_def
  by (auto simp: map_of_add_envelopes envelopes_at_def)

lemma index_envelopes_all:
  assumes "\<forall>a \<in> set as. length a = nb" "indexed nb bs d"
  shows "\<exists>d'. index_envelopes (int nb) as d = Inr d' \<and> indexed nb (bs @ as) d'"
  using assms
proof (induction as arbitrary: bs d)
  case (Cons a as)
  with Cons.IH [OF _ indexed_step [of nb bs d a]] show ?case by simp
qed simp

lemma stepped_below:
  assumes "0 < n" "g < (nb :: nat)"
  shows "k < (nb - g + n - 1) div n \<longleftrightarrow> g + k * n < nb"
proof -
  have "k < (nb - g + n - 1) div n \<longleftrightarrow> (k + 1) * n \<le> nb - g + n - 1"
    using less_eq_div_iff_mult_less_eq [OF assms(1), of "Suc k"] by (simp add: Suc_le_eq)
  then show ?thesis using assms by auto
qed

lemma group_indices_eq:
  assumes "g < n"
  shows "hash_group_index_to_hash_bucket_indices (int g) (int nb) (int n) = Inr (map int (filter (\<lambda>hb. hb mod n = g) [0..<nb]))"
proof (cases "nb \<le> g")
  case True
  have "filter (\<lambda>hb. hb mod n = g) [0..<nb] = []" using True assms by (auto simp: filter_empty_conv)
  moreover have "(int nb - int g + int n - 1) div int n \<le> 0"
    using True assms zdiv_mono1 [of "int nb - int g + int n - 1" "int n - 1" "int n"] by simp
  ultimately show ?thesis using assms by (auto simp: hash_group_index_to_hash_bucket_indices_def py_range_def)
next
  case False
  let ?m = "nat ((int nb - int g + int n - 1) div int n)"
  have "int nb - int g + int n - 1 = int (nb - g + n - 1)" using False assms by (simp add: of_nat_diff)
  then have m: "?m = (nb - g + n - 1) div n" by (metis nat_int zdiv_int)
  have "map (\<lambda>k. g + k * n) [0..<?m] = filter (\<lambda>hb. hb mod n = g) [0..<nb]"
  proof (rule sorted_distinct_set_unique)
    show "sorted (map (\<lambda>k. g + k * n) [0..<?m])" by (simp add: sorted_iff_nth_mono)
    show "distinct (map (\<lambda>k. g + k * n) [0..<?m])" using assms by (simp add: distinct_map inj_on_def)
    show "set (map (\<lambda>k. g + k * n) [0..<?m]) = set (filter (\<lambda>hb. hb mod n = g) [0..<nb])"
    proof (intro set_eqI)
      fix hb
      have "\<exists>k. hb = hb mod n + k * n" by (rule exI [of _ "hb div n"]) simp
      then have mod: "hb mod n = g \<longleftrightarrow> (\<exists>k. hb = g + k * n)" using assms by auto
      have "hb \<in> set (map (\<lambda>k. g + k * n) [0..<?m]) \<longleftrightarrow> (\<exists>k. hb = g + k * n \<and> k < (nb - g + n - 1) div n)"
        unfolding m by (simp add: image_iff Bex_def conj_commute)
      also have "\<dots> \<longleftrightarrow> (\<exists>k. hb = g + k * n) \<and> hb < nb"
        using stepped_below [of n g nb] assms False by (metis bot_nat_0.not_eq_extremum not_less_zero not_le)
      finally show "hb \<in> set (map (\<lambda>k. g + k * n) [0..<?m]) \<longleftrightarrow> hb \<in> set (filter (\<lambda>hb. hb mod n = g) [0..<nb])"
        using mod by auto
    qed
  qed (simp_all add: sorted_wrt_filter)
  from this [symmetric] have "map int (filter (\<lambda>hb. hb mod n = g) [0..<nb]) = map (\<lambda>k. int g + int k * int n) [0..<?m]"
    by (simp add: comp_def)
  then show ?thesis using False assms by (simp add: hash_group_index_to_hash_bucket_indices_def py_range_def)
qed

lemma int_image_Collect: "i \<in> int ` {n. P n} \<longleftrightarrow> 0 \<le> i \<and> P (nat i)"
  by (cases "0 \<le> i") (auto elim!: nonneg_int_cases)

lemma indexed_length:
  assumes "indexed nb as d"
  shows "length d = card {hb. hb < nb \<and> envelopes_at hb as \<noteq> []}"
proof -
  have "i \<in> set (map fst d) \<longleftrightarrow> i \<in> int ` {hb. hb < nb \<and> envelopes_at hb as \<noteq> []}" for i
  proof -
    have "i \<in> set (map fst d) \<longleftrightarrow> map_of d i \<noteq> None" by (simp only: map_of_eq_None_iff set_map not_not)
    also have "\<dots> \<longleftrightarrow> 0 \<le> i \<and> i < int nb \<and> envelopes_at (nat i) as \<noteq> []" using assms by (simp add: indexed_def)
    also have "\<dots> \<longleftrightarrow> i \<in> int ` {hb. hb < nb \<and> envelopes_at hb as \<noteq> []}"
      by (simp only: int_image_Collect) (auto simp: nat_less_iff)
    finally show ?thesis .
  qed
  then have "set (map fst d) = int ` {hb. hb < nb \<and> envelopes_at hb as \<noteq> []}" by blast
  moreover have "distinct (map fst d)" using assms by (simp add: indexed_def)
  ultimately show ?thesis using distinct_card [of "map fst d"] by (simp add: card_image)
qed

lemma load_group:
  assumes "get refs s = (Inr as, s)" "\<forall>a \<in> set as. length a = nb" "g < n"
    "\<forall>hb < nb. envelopes_at hb as \<noteq> [] \<longrightarrow> hb mod n = g"
  shows "load_deltas_from_object_store get (int g) refs (int nb) (int n) s =
    (Inr (map (\<lambda>hb. merge_file_group_of (int hb) (if envelopes_at hb as = [] then None else Some (envelopes_at hb as)))
            (filter (\<lambda>hb. hb mod n = g) [0..<nb])), s)"
proof -
  have "indexed nb [] []" by (simp add: indexed_def envelopes_at_def)
  then obtain d where d: "index_envelopes (int nb) as [] = Inr d" "indexed nb as d"
    using index_envelopes_all [of as nb "[]" "[]"] assms(2) by auto
  have found: "map_of d (int hb) = (if envelopes_at hb as = [] then None else Some (envelopes_at hb as))" if "hb < nb" for hb
    using d(2) that by (auto simp: indexed_def)
  have len: "length d = card {hb. hb < nb \<and> envelopes_at hb as \<noteq> []}" using d(2) by (rule indexed_length)
  have "length (filter (\<lambda>hb. envelopes_at hb as \<noteq> []) (filter (\<lambda>hb. hb mod n = g) [0..<nb])) =
      card (set (filter (\<lambda>hb. envelopes_at hb as \<noteq> []) (filter (\<lambda>hb. hb mod n = g) [0..<nb])))"
    by (rule distinct_card [symmetric]) simp
  also have "set (filter (\<lambda>hb. envelopes_at hb as \<noteq> []) (filter (\<lambda>hb. hb mod n = g) [0..<nb])) = {hb. hb < nb \<and> envelopes_at hb as \<noteq> []}"
    using assms(4) by auto
  also have "length (filter (\<lambda>hb. envelopes_at hb as \<noteq> []) (filter (\<lambda>hb. hb mod n = g) [0..<nb])) =
      length (filter (\<lambda>i. map_of d i \<noteq> None \<and> map_of d i \<noteq> Some []) (map int (filter (\<lambda>hb. hb mod n = g) [0..<nb])))"
    unfolding filter_map length_map by (intro arg_cong [where f = length] filter_cong) (auto simp: found)
  finally have "length (filter (\<lambda>i. map_of d i \<noteq> None \<and> map_of d i \<noteq> Some []) (map int (filter (\<lambda>hb. hb mod n = g) [0..<nb]))) = length d"
    unfolding len .
  then show ?thesis
    using d(1) group_indices_eq [OF assms(3), of nb] assms(1)
    by (auto simp: load_deltas_from_object_store_def io_bind_def io_res_def found split: list.splits)
qed

subsection \<open>From the tasks to the merge groups\<close>

text \<open>The arrays that the tasks store for a group, and the references to them.\<close>

definition group_arrays :: "nat \<Rightarrow> nat \<Rightarrow> 'e bucket_array option list \<Rightarrow> 'e bucket_array list" where
  "group_arrays n g as = map (\<lambda>a. own_buckets (length (the a)) n g (the a))
     (filter (\<lambda>a. a \<noteq> None \<and> (\<exists>hb < length (the a). hb mod n = g \<and> filled (the a ! hb))) as)"

definition refs_at :: "nat \<Rightarrow> 'r group_refs list \<Rightarrow> 'r list" where
  "refs_at g results = map (\<lambda>r. fst (the (r ! g))) (filter (\<lambda>r. r ! g \<noteq> None) results)"

lemma envelopes_at_group:
  assumes "\<forall>a \<in> set as. \<forall>b. a = Some b \<longrightarrow> length b = nb" "hb < nb"
  shows "envelopes_at hb (group_arrays n g as) =
    (if hb mod n = g then envelopes_at hb (map the (filter (\<lambda>a. a \<noteq> None) as)) else [])"
  using assms
proof (induction as)
  case (Cons a as)
  then show ?case
    by (cases a) (auto simp: envelopes_at_def group_arrays_def own_buckets_def filled_def)
qed (simp add: envelopes_at_def group_arrays_def)

text \<open>What the compactor relies on of an object store: an object that was put is read back and never replaced.\<close>

locale object_store =
  fixes put :: "'e list option list \<Rightarrow> 's \<Rightarrow> 'r res \<times> 's"
    and get :: "'r list \<Rightarrow> 's \<Rightarrow> 'e list option list list res \<times> 's"
    and stored :: "'s \<Rightarrow> 'r \<Rightarrow> 'e list option list \<Rightarrow> bool"
  assumes put_stored: "put a s = (Inr r, s') \<Longrightarrow> stored s' r a"
    and put_keeps: "put a s = (x, s') \<Longrightarrow> stored s r b \<Longrightarrow> stored s' r b"
    and get_stored: "list_all2 (stored s) refs as \<Longrightarrow> get refs s = (Inr as, s)"
begin

lemma put_groups_keeps: "put_groups put gs s = (x, s') \<Longrightarrow> stored s r b \<Longrightarrow> stored s' r b"
proof (induction gs arbitrary: s x)
  case (Cons g gs)
  then show ?case by (cases g) (auto simp: io_bind_def split: prod.splits sum.splits dest: put_keeps)
qed simp

definition put_result :: "'s \<Rightarrow> 'e hash_group option \<Rightarrow> ('r \<times> 64 word \<times> 64 word) option \<Rightarrow> bool" where
  "put_result s g r \<longleftrightarrow> (case g of None \<Rightarrow> r = None
     | Some grp \<Rightarrow> \<exists>ref. r = Some (ref, hg_size grp, hg_num_rows grp) \<and> stored s ref (hg_objects grp))"

lemma put_groups_stored: "put_groups put gs s = (Inr refs, s') \<Longrightarrow> list_all2 (put_result s') gs refs"
proof (induction gs arbitrary: s refs)
  case (Cons g gs)
  show ?case
  proof (cases g)
    case (Some grp)
    with Cons.prems obtain ref s1 refs' where r: "put (hg_objects grp) s = (Inr ref, s1)" "put_groups put gs s1 = (Inr refs', s')"
      "refs = Some (ref, hg_size grp, hg_num_rows grp) # refs'"
      by (auto simp: io_bind_Inr_iff)
    then show ?thesis
      using Cons.IH [OF r(2)] put_groups_keeps [OF r(2) put_stored [OF r(1)]] Some by (simp add: put_result_def)
  qed (use Cons in \<open>auto simp: io_bind_Inr_iff put_result_def\<close>)
qed simp

lemma task_keeps:
  "group_hash_bucket_indices size_bytes num_rows put a nb n s = (x, s') \<Longrightarrow> stored s r b \<Longrightarrow> stored s' r b"
  by (auto simp: group_hash_bucket_indices_def io_bind_def io_res_def split: if_splits option.splits prod.splits sum.splits
      dest: put_groups_keeps)

lemma tasks_keep:
  "hash_bucket_tasks size_bytes num_rows put nb n as s = (x, s') \<Longrightarrow> stored s r b \<Longrightarrow> stored s' r b"
proof (induction as arbitrary: s x)
  case (Cons a as)
  then show ?case by (auto simp: io_bind_def split: prod.splits sum.splits dest: task_keeps)
qed simp

lemma task_stores:
  assumes "group_hash_bucket_indices size_bytes num_rows put (Some a) (int (length a)) (int n) s = (Inr refs, s')" "0 < n"
  shows "length refs = n" "g < n \<Longrightarrow> (case refs ! g of
      None \<Rightarrow> \<forall>hb < length a. hb mod n = g \<longrightarrow> \<not> filled (a ! hb)
    | Some (ref, _) \<Rightarrow> stored s' ref (own_buckets (length a) n g a) \<and> (\<exists>hb < length a. hb mod n = g \<and> filled (a ! hb)))"
proof -
  obtain gs where gs: "group_buckets size_bytes num_rows (int (length a)) (int n) (enumerate 0 a) (replicate n None) = Inr gs"
    "put_groups put gs s = (Inr refs, s')"
    using assms(1) by (auto simp: group_hash_bucket_indices_def io_bind_Inr_iff io_res_def)
  have "grouped (length a) n a gs"
    using group_buckets_all [of size_bytes num_rows a n 0] gs(1) assms(2) by (simp add: grouped_def)
  note g = this put_groups_stored [OF gs(2)]
  then show "length refs = n" by (auto simp: grouped_def list_all2_lengthD)
  then show "case refs ! g of None \<Rightarrow> \<forall>hb < length a. hb mod n = g \<longrightarrow> \<not> filled (a ! hb)
    | Some (ref, _) \<Rightarrow> stored s' ref (own_buckets (length a) n g a) \<and> (\<exists>hb < length a. hb mod n = g \<and> filled (a ! hb))"
    if "g < n"
  proof -
    have "put_result s' (gs ! g) (refs ! g)" using g that by (auto simp: grouped_def list_all2_nthD)
    then show ?thesis using g(1) that by (auto simp: put_result_def grouped_def split: option.splits)
  qed
qed

lemma tasks_store:
  assumes "hash_bucket_tasks size_bytes num_rows put (int nb) (int n) as s = (Inr results, s')" "0 < n"
    "\<forall>a \<in> set as. \<forall>b. a = Some b \<longrightarrow> length b = nb"
  shows "(\<forall>r \<in> set results. length r = n) \<and> (g < n \<longrightarrow> list_all2 (stored s') (refs_at g results) (group_arrays n g as))"
  using assms
proof (induction as arbitrary: s results)
  case (Cons a as)
  then obtain r s1 rs where r: "group_hash_bucket_indices size_bytes num_rows put a (int nb) (int n) s = (Inr r, s1)"
    "hash_bucket_tasks size_bytes num_rows put (int nb) (int n) as s1 = (Inr rs, s')" "results = r # rs"
    by (auto simp: io_bind_Inr_iff)
  note IH = Cons.IH [OF r(2)]
  show ?case
  proof (cases a)
    case None
    then have "r = replicate n None" using r(1) by (auto simp: group_hash_bucket_indices_def)
    then show ?thesis using IH Cons.prems None by (simp add: r(3) refs_at_def group_arrays_def)
  next
    case (Some b)
    then have b: "length b = nb" using Cons.prems by simp
    then have "group_hash_bucket_indices size_bytes num_rows put (Some b) (int (length b)) (int n) s = (Inr r, s1)"
      using Some r(1) by simp
    note t = task_stores [OF this Cons.prems(2)] Some b
    have "list_all2 (stored s') (refs_at g [r]) (group_arrays n g [a])" if g: "g < n"
      using t(2) [OF g] Some tasks_keep [OF r(2)] by (cases "r ! g") (auto simp: refs_at_def group_arrays_def)
    moreover have "refs_at g (r # rs) = refs_at g [r] @ refs_at g rs" "group_arrays n g (a # as) = group_arrays n g [a] @ group_arrays n g as"
      by (auto simp: refs_at_def group_arrays_def)
    ultimately show ?thesis using IH Cons.prems(2,3) t by (auto simp: r(3) intro: list_all2_appendI)
  qed
qed (simp add: refs_at_def group_arrays_def)

lemma group_loaded:
  assumes "hash_bucket_tasks size_bytes num_rows put (int nb) (int n) as s = (Inr results, s')"
    "\<forall>a \<in> set as. \<forall>b. a = Some b \<longrightarrow> length b = nb" "g < n"
  shows "load_deltas_from_object_store get (int g) (refs_at g results) (int nb) (int n) s' =
    (Inr (map (\<lambda>hb. merge_file_group_of (int hb)
                 (let es = envelopes_at hb (map the (filter (\<lambda>a. a \<noteq> None) as)) in if es = [] then None else Some es))
            (filter (\<lambda>hb. hb mod n = g) [0..<nb])), s')"
proof -
  have "get (refs_at g results) s' = (Inr (group_arrays n g as), s')"
    using tasks_store [OF assms(1) _ assms(2), of g] assms(3) by (intro get_stored) simp
  moreover have "\<forall>a \<in> set (group_arrays n g as). length a = nb"
    using assms(2) by (auto simp: group_arrays_def own_buckets_def)
  moreover have "\<forall>hb < nb. envelopes_at hb (group_arrays n g as) \<noteq> [] \<longrightarrow> hb mod n = g"
    using envelopes_at_group [OF assms(2)] by auto
  ultimately have "load_deltas_from_object_store get (int g) (refs_at g results) (int nb) (int n) s' =
    (Inr (map (\<lambda>hb. merge_file_group_of (int hb)
        (if envelopes_at hb (group_arrays n g as) = [] then None else Some (envelopes_at hb (group_arrays n g as))))
      (filter (\<lambda>hb. hb mod n = g) [0..<nb])), s')"
    using assms(3) by (intro load_group) auto
  then show ?thesis using envelopes_at_group [OF assms(2)] by (auto simp: Let_def)
qed

end

text \<open>The file store keeps its promise.\<close>

definition file_stored :: "'o file_objects \<Rightarrow> string \<Rightarrow> 'o \<Rightarrow> bool" where
  "file_stored s ref obj \<longleftrightarrow> map_of (fo_files s) ref = Some obj"

lemma store_put_cases:
  "store_put dir uuids obj s =
     (if map_of (fo_files s) (object_ref dir uuids (fo_next s)) \<noteq> None then (Inl FileExistsError, s\<lparr>fo_next := fo_next s + 1\<rparr>)
      else (Inr (object_ref dir uuids (fo_next s)),
            s\<lparr>fo_next := fo_next s + 1, fo_files := dict_set (object_ref dir uuids (fo_next s)) obj (fo_files s)\<rparr>))"
  by (simp add: store_put_def io_bind_def Let_def)

lemma get_many_stored:
  assumes "list_all2 (file_stored s) refs as"
  shows "get_many refs s = (Inr as, s)"
proof -
  have "res_map (\<lambda>ref. of_option FileNotFoundError (map_of (fo_files s) ref)) refs = Inr as"
    using assms by (induction refs as rule: list_all2_induct) (auto simp: file_stored_def)
  then show ?thesis by (simp add: get_many_def)
qed

interpretation file_objects: object_store "store_put dir uuids" get_many file_stored for dir uuids
proof
  fix a s r s' x b
  show "store_put dir uuids a s = (Inr r, s') \<Longrightarrow> file_stored s' r a"
    by (auto simp: store_put_cases file_stored_def split: if_splits)
  show "store_put dir uuids a s = (x, s') \<Longrightarrow> file_stored s r b \<Longrightarrow> file_stored s' r b"
    by (auto simp: store_put_cases file_stored_def split: if_splits)
qed (rule get_many_stored)

subsection \<open>The references reach their group\<close>

lemma map_int_upt: "[0..int n - 1] = map int [0..<n]"
proof (induction n)
  case (Suc n)
  have "[0..int (Suc n) - 1] = [0..int n - 1] @ [int n]" by (simp add: upto_rec2)
  with Suc show ?case by simp
qed simp

lemma dict_set_same_keys: "k \<in> set (map fst d) \<Longrightarrow> map fst (dict_set k v d) = map fst d"
  by (induction d) force+

lemma group_input_at_set: "group_input_at (dict_set g i d) h = (if h = g then i else group_input_at d h)"
  by (simp add: group_input_at_def)

lemma collected_refs:
  "gi_refs (group_input_at (fold collect_ref (enumerate k r) d) (int g)) = gi_refs (group_input_at d (int g)) @
     (if k \<le> g \<and> g < k + length r \<and> r ! (g - k) \<noteq> None then [fst (the (r ! (g - k)))] else [])"
proof (induction r arbitrary: k d)
  case (Cons x r)
  have "gi_refs (group_input_at (collect_ref (k, x) d) (int g)) = gi_refs (group_input_at d (int g)) @
      (if g = k \<and> x \<noteq> None then [fst (the x)] else [])"
    by (auto simp: collect_ref_def Let_def group_input_at_set split: option.splits)
  with Cons.IH [of "Suc k" "collect_ref (k, x) d"] show ?case by (auto simp: nth_Cons')
qed simp

lemma collect_ref_keys: "k + length r \<le> n \<Longrightarrow> map fst d = map int [0..<n] \<Longrightarrow>
  map fst (fold collect_ref (enumerate k r) d) = map int [0..<n]"
proof (induction r arbitrary: k d)
  case (Cons x r)
  have "int k \<in> set (map fst d)" unfolding Cons.prems(2) using Cons.prems(1) by simp
  then have "map fst (collect_ref (k, x) d) = map fst d"
    by (auto simp: collect_ref_def Let_def dict_set_same_keys split: option.splits)
  with Cons show ?case by simp
qed simp

lemma collect_hash_groups_refs:
  assumes "\<forall>r \<in> set results. length r = n"
  shows "map fst (collect_hash_groups (int n) results) = map int [0..<n]"
    "g < n \<Longrightarrow> gi_refs (group_input_at (collect_hash_groups (int n) results) (int g)) = refs_at g results"
proof -
  have all: "map fst (fold (\<lambda>r. fold collect_ref (enumerate 0 r)) results d) = map int [0..<n] \<and>
      (g < n \<longrightarrow> gi_refs (group_input_at (fold (\<lambda>r. fold collect_ref (enumerate 0 r)) results d) (int g)) =
        gi_refs (group_input_at d (int g)) @ refs_at g results)"
    if "map fst d = map int [0..<n]" for d
    using assms that
  proof (induction results arbitrary: d)
    case (Cons r rs)
    have "map fst (fold collect_ref (enumerate 0 r) d) = map int [0..<n]"
      using Cons.prems by (intro collect_ref_keys) auto
    from Cons.IH [OF _ this] Cons.prems show ?case by (simp add: collected_refs refs_at_def)
  qed (simp add: refs_at_def)
  have init: "map fst (initial_groups (int n)) = map int [0..<n]"
    by (simp add: initial_groups_def comp_def map_int_upt)
  have "gi_refs (group_input_at (initial_groups (int n)) (int g)) = []"
    by (auto simp: initial_groups_def group_input_at_def dest!: map_of_SomeD split: option.splits)
  then show "map fst (collect_hash_groups (int n) results) = map int [0..<n]"
    "g < n \<Longrightarrow> gi_refs (group_input_at (collect_hash_groups (int n) results) (int g)) = refs_at g results"
    using all [OF init] by (simp_all add: collect_hash_groups_def)
qed

subsection \<open>The tasks return\<close>

text \<open>Names that were never drawn before, and tables whose size can be determined.\<close>

definition fresh_names :: "string \<Rightarrow> (nat \<Rightarrow> string) \<Rightarrow> 'o file_objects \<Rightarrow> bool" where
  "fresh_names dir uuids s \<longleftrightarrow> inj uuids \<and> (\<forall>k \<ge> fo_next s. map_of (fo_files s) (object_ref dir uuids k) = None)"

definition sized :: "('e \<Rightarrow> int res) \<Rightarrow> 'e list option \<Rightarrow> bool" where
  "sized size_bytes b \<longleftrightarrow> (\<forall>es. b = Some es \<longrightarrow> (\<forall>e \<in> set es. \<exists>n. size_bytes e = Inr n))"

lemma store_put_returns:
  assumes "fresh_names dir uuids s"
  shows "\<exists>r s'. store_put dir uuids a s = (Inr r, s') \<and> fresh_names dir uuids s'"
  using assms by (auto simp: store_put_cases fresh_names_def object_ref_def inj_eq)

lemma put_groups_returns:
  "fresh_names dir uuids s \<Longrightarrow> \<exists>refs s'. put_groups (store_put dir uuids) gs s = (Inr refs, s') \<and> fresh_names dir uuids s'"
proof (induction gs arbitrary: s)
  case (Cons g gs)
  show ?case
  proof (cases g)
    case None
    then show ?thesis using Cons.IH [OF Cons.prems] by (auto simp: io_bind_def)
  next
    case (Some grp)
    obtain r s1 where r: "store_put dir uuids (hg_objects grp) s = (Inr r, s1)" "fresh_names dir uuids s1"
      using store_put_returns [OF Cons.prems] by blast
    then show ?thesis using Cons.IH [OF r(2)] Some by (auto simp: io_bind_def)
  qed
qed simp

lemma add_sizes_returns: "\<forall>e \<in> set es. \<exists>n. size_bytes e = Inr n \<Longrightarrow> \<exists>g'. add_sizes size_bytes num_rows es g = Inr g'"
  by (induction es arbitrary: g) auto

lemma group_bucket_returns:
  assumes "grouped k n a gs" "k < length a" "0 < n" "sized size_bytes (a ! k)"
  shows "\<exists>gs'. group_bucket size_bytes num_rows (int (length a)) (int n) (k, a ! k) gs = Inr gs'"
proof (cases "filled (a ! k)")
  case False
  then show ?thesis by (auto simp: group_bucket_def filled_def split: option.splits list.splits)
next
  case True
  then obtain e es where e: "a ! k = Some (e # es)" by (auto simp: filled_iff)
  have idx: "nat (int k mod int n) = k mod n" by (simp flip: zmod_int)
  have sizes: "\<exists>g'. add_sizes size_bytes num_rows (e # es) g = Inr g'" for g :: "'a hash_group"
    using assms(4) e by (intro add_sizes_returns) (auto simp: sized_def)
  have len: "length (hg_objects g) = length a" if "gs ! (k mod n) = Some g" for g
    using assms(1,3) that by (auto simp: grouped_def own_buckets_def dest!: spec [of _ "k mod n"])
  define start where "start = (case gs ! (k mod n) of None \<Rightarrow> \<lparr>hg_objects = replicate (length a) None, hg_size = 0, hg_num_rows = 0\<rparr> | Some g \<Rightarrow> g)"
  have "k < length (hg_objects start)" using len assms(2) by (simp add: start_def split: option.split)
  moreover have "(case gs ! (k mod n) of None \<Rightarrow> rbind (np_empty (int (length a))) (\<lambda>array. Inr \<lparr>hg_objects = array, hg_size = 0, hg_num_rows = 0\<rparr>)
      | Some g \<Rightarrow> Inr g) = Inr start"
    by (simp add: start_def np_empty_def split: option.split)
  moreover obtain g' where "add_sizes size_bytes num_rows (e # es) (start\<lparr>hg_objects := (hg_objects start)[k := Some (e # es)]\<rparr>) = Inr g'"
    using sizes by blast
  ultimately show ?thesis
    using assms(3) by (simp add: group_bucket_def e hash_bucket_index_to_hash_group_index_def idx Let_def del: add_sizes.simps)
qed

lemma group_buckets_return:
  assumes "grouped k n a gs" "k \<le> length a" "0 < n" "\<forall>b \<in> set a. sized size_bytes b"
  shows "\<exists>gs'. group_buckets size_bytes num_rows (int (length a)) (int n) (enumerate k (drop k a)) gs = Inr gs'"
  using assms
proof (induction "length a - k" arbitrary: k gs)
  case (Suc m)
  then have k: "k < length a" by simp
  then obtain gs1 where gs1: "group_bucket size_bytes num_rows (int (length a)) (int n) (k, a ! k) gs = Inr gs1"
    using group_bucket_returns [OF Suc.prems(1) k Suc.prems(3)] Suc.prems(4) by fastforce
  have "\<exists>gs'. group_buckets size_bytes num_rows (int (length a)) (int n) (enumerate (Suc k) (drop (Suc k) a)) gs1 = Inr gs'"
    using Suc.hyps k Suc.prems(3,4) group_bucket_step [OF gs1 Suc.prems(1) k Suc.prems(3)] by (intro Suc.hyps(1)) auto
  moreover have "enumerate k (drop k a) = (k, a ! k) # enumerate (Suc k) (drop (Suc k) a)"
    using k by (simp add: Cons_nth_drop_Suc [symmetric])
  ultimately show ?case using gs1 by simp
qed simp

lemma task_returns:
  assumes "fresh_names dir uuids s" "0 < n" "\<forall>b. a = Some b \<longrightarrow> length b = nb \<and> (\<forall>x \<in> set b. sized size_bytes x)"
  shows "\<exists>refs s'. group_hash_bucket_indices size_bytes num_rows (store_put dir uuids) a (int nb) (int n) s = (Inr refs, s') \<and>
    fresh_names dir uuids s'"
proof (cases a)
  case None
  then show ?thesis using assms(1) by (simp add: group_hash_bucket_indices_def)
next
  case (Some b)
  have "grouped 0 n b (replicate n None)" by (simp add: grouped_def)
  then obtain gs where "group_buckets size_bytes num_rows (int nb) (int n) (enumerate 0 b) (replicate n None) = Inr gs"
    using group_buckets_return [of 0 n b "replicate n None" size_bytes num_rows] assms(2,3) Some by auto
  then show ?thesis
    using put_groups_returns [OF assms(1), of gs] Some assms(2) by (simp add: group_hash_bucket_indices_def io_bind_def io_res_def)
qed

lemma tasks_return:
  assumes "fresh_names dir uuids s" "0 < n" "\<forall>a \<in> set as. \<forall>b. a = Some b \<longrightarrow> length b = nb \<and> (\<forall>x \<in> set b. sized size_bytes x)"
  shows "\<exists>results s'. hash_bucket_tasks size_bytes num_rows (store_put dir uuids) (int nb) (int n) as s = (Inr results, s')"
  using assms
proof (induction as arbitrary: s)
  case (Cons a as)
  then obtain r s1 where r: "group_hash_bucket_indices size_bytes num_rows (store_put dir uuids) a (int nb) (int n) s = (Inr r, s1)"
    "fresh_names dir uuids s1"
    using task_returns [OF Cons.prems(1,2), of a nb size_bytes num_rows] by auto
  then show ?case using Cons.IH [OF r(2)] Cons.prems by (auto simp: io_bind_def)
qed simp

subsection \<open>Properties\<close>

text \<open>C37: Every record reaches the merge task of its hash bucket. With fresh names in the file object store the hash
  bucket tasks of a round return, whatever their buckets hold; there is exactly one merge task for every hash group,
  and when it loads the objects whose references were collected for it, no assertion fails and it gets the hash
  buckets that are congruent to it, in ascending order, each with the lists of envelopes of all tasks for the bucket in
  the order of the tasks.
\<close>

theorem merge_groups_complete:
  assumes "fresh_names dir uuids s" "0 < n" "\<forall>a \<in> set as. \<forall>b. a = Some b \<longrightarrow> length b = nb \<and> (\<forall>x \<in> set b. sized size_bytes x)"
  shows "\<exists>results s'. hash_bucket_tasks size_bytes num_rows (store_put dir uuids) (int nb) (int n) as s = (Inr results, s') \<and>
    map fst (collect_hash_groups (int n) results) = map int [0..<n] \<and>
    (\<forall>g < n. load_deltas_from_object_store get_many (int g)
        (gi_refs (group_input_at (collect_hash_groups (int n) results) (int g))) (int nb) (int n) s' =
      (Inr (map (\<lambda>hb. merge_file_group_of (int hb)
          (let es = envelopes_at hb (map the (filter (\<lambda>a. a \<noteq> None) as)) in if es = [] then None else Some es))
         (filter (\<lambda>hb. hb mod n = g) [0..<nb])), s'))"
proof -
  obtain results s' where run: "hash_bucket_tasks size_bytes num_rows (store_put dir uuids) (int nb) (int n) as s = (Inr results, s')"
    using tasks_return [OF assms] by blast
  have len: "\<forall>a \<in> set as. \<forall>b. a = Some b \<longrightarrow> length b = nb" using assms(3) by blast
  have "\<forall>r \<in> set results. length r = n" using file_objects.tasks_store [OF run assms(2) len] by blast
  note refs = collect_hash_groups_refs [OF this]
  show ?thesis using run refs file_objects.group_loaded [OF run len] by auto
qed

text \<open>Two tasks with three buckets in two groups.\<close>

theorem merge_groups_complete_witness:
  "\<exists>results s'. hash_bucket_tasks (\<lambda>_. Inr 8) (\<lambda>_. 1) (store_put ''d'' nat_to_str) 3 2
      [Some [Some [1 :: nat], None, Some [2]], Some [None, Some [3], Some [4, 5]]] \<lparr>fo_files = [], fo_next = 0\<rparr> = (Inr results, s') \<and>
    load_deltas_from_object_store get_many 0 (gi_refs (group_input_at (collect_hash_groups 2 results) 0)) 3 2 s' =
      (Inr [merge_file_group_of 0 (Some [[1]]), merge_file_group_of 2 (Some [[2], [4, 5]])], s')"
proof -
  let ?as = "[Some [Some [1 :: nat], None, Some [2]], Some [None, Some [3], Some [4, 5]]]"
  have "fresh_names ''d'' nat_to_str (\<lparr>fo_files = [], fo_next = 0\<rparr> :: nat bucket_array file_objects)"
    by (simp add: fresh_names_def inj_def) (metis digits_value_nat_to_str)
  from merge_groups_complete [OF this, of 2 ?as 3 "\<lambda>_. Inr 8" "\<lambda>_. 1"]
  obtain results s' where r: "hash_bucket_tasks (\<lambda>_. Inr 8) (\<lambda>_. 1) (store_put ''d'' nat_to_str) 3 2 ?as \<lparr>fo_files = [], fo_next = 0\<rparr> = (Inr results, s')"
    "\<forall>g < 2. load_deltas_from_object_store get_many (int g) (gi_refs (group_input_at (collect_hash_groups 2 results) (int g))) 3 2 s' =
      (Inr (map (\<lambda>hb. merge_file_group_of (int hb)
          (let es = envelopes_at hb (map the (filter (\<lambda>a. a \<noteq> None) ?as)) in if es = [] then None else Some es))
         (filter (\<lambda>hb. hb mod 2 = g) [0..<3])), s')"
    by (auto simp: sized_def)
  have "filter (\<lambda>hb. hb mod 2 = (0 :: nat)) [0..<3] = [0, 2]" by (simp add: upt_rec)
  with r(1) spec [OF r(2), of 0] show ?thesis by (auto simp: envelopes_at_def filled_def Let_def)
qed

end
