(* ===== verification/Spec2Isabelle.thy ===== *)
theory Spec2Isabelle
  imports SnapshotIsolation CommitProtocol TimeProvider TransactionLifecycle SchemaProperties Schemes
    ManifestProperties StorageProperties CompactionProperties HashBuckets
begin

text \<open>
  A verification of the transactional metadata store, the schema evolution, the manifests, the storage
  operations and parts of the compactor of DeltaCAT (\<^verbatim>\<open>src/deltacat/storage/model\<close>, \<^verbatim>\<open>src/deltacat/storage/main/impl.py\<close>,
  \<^verbatim>\<open>src/deltacat/utils/filesystem.py\<close> and \<^verbatim>\<open>src/deltacat/compute/compactor_v2\<close>).

  \<^bold>\<open>The program.\<close> A catalog is a directory tree on a file system. Every catalog object (namespace,
  table, table version, stream, partition, delta) is a metafile whose revisions are files
  \<^verbatim>\<open><root>/<ancestor ids>/<id>/rev/<partition dirs>/<revision>_<operation>_<txn id>.mpk\<close>; objects with
  mutable names have a second directory, found by a digest of the name, whose revisions map the name to
  the identifier. A transaction writes revision files under its identifier, checks that no other
  transaction wrote the same revision number, and commits by writing a file named after its end time
  below \<^verbatim>\<open><root>/txn/success/<start time dirs>/<txn id>/\<close>. Readers take the newest revision whose transaction
  ended before they started, or that they wrote themselves. A failing transaction deletes what it wrote
  and leaves a log below \<^verbatim>\<open>txn/failed\<close>. A table version's contents include a schema: PyArrow fields whose
  DeltaCAT attributes (identifier, documentation, consistency, past and future defaults, keys) are encoded
  in the field metadata. A schema changes by a \<^verbatim>\<open>SchemaUpdate\<close>, a list of operations that are checked for
  backward compatibility before the next schema is built. A delta lists its data files in a manifest, whose
  entries carry record counts, sizes, media types and the schema they were written with; deltas are
  compacted by merging their manifests. The storage operations (\<^verbatim>\<open>impl.py\<close>) look objects up, create, update,
  stage, commit and delete them, each by a few reading and writing steps of one transaction: a table names its
  latest and its active version, a version keeps the history of its schemas and schemes, streams and
  partitions are staged and then committed in place of the one they expect, and every ordered delta takes the next
  position of its partition.

  \<^bold>\<open>The theories\<close>, in the order of the imports:

  \<^item> \<^verbatim>\<open>Prelude\<close>, \<^verbatim>\<open>PyStrings\<close>, \<^verbatim>\<open>PyNumbers\<close>: exceptions as values, results and stateful operations that keep
    the state they reached, Python's stable sort; the parts of \<^verbatim>\<open>str\<close>, \<^verbatim>\<open>posixpath\<close>, \<^verbatim>\<open>int\<close>, \<^verbatim>\<open>uuid\<close> that the
    sources use.
  \<^item> \<^verbatim>\<open>ExponentialPartitions\<close>, \<^verbatim>\<open>EpochPartitions\<close>: the two partition schemes of \<^verbatim>\<open>filesystem.py\<close>
    (\<^verbatim>\<open>exponential_partition_transform\<close>, \<^verbatim>\<open>parse_exponential_partitions\<close>, \<^verbatim>\<open>remove_exponential_partitions\<close>;
    \<^verbatim>\<open>epoch_timestamp_partition_transform\<close>, \<^verbatim>\<open>parse_epoch_timestamp_partitions\<close> with Python's calendar and
    floating-point division), their round trips and bounds.
  \<^item> \<^verbatim>\<open>Filesystem\<close>: the record \<open>filesystem\<close> of the \<^verbatim>\<open>pyarrow.fs\<close> calls the code makes, and over it the
    listing, lookup and writing functions of \<^verbatim>\<open>filesystem.py\<close>. \<^verbatim>\<open>PartitionedListing\<close>: the locale
    \<open>partition_scheme\<close>, under which a partitioned listing is exact; interpreted for the revisions.
    \<^verbatim>\<open>MemoryFS\<close>: an executable in-memory file system.
  \<^item> \<^verbatim>\<open>TransactionTypes\<close>, \<^verbatim>\<open>TransactionIds\<close>: the enumerations of \<^verbatim>\<open>types.py\<close>; identifiers, log paths and end
    times of \<^verbatim>\<open>transaction.py\<close>.
  \<^item> \<^verbatim>\<open>RevisionInfo\<close>: \<^verbatim>\<open>MetafileRevisionInfo\<close> of \<^verbatim>\<open>metafile.py\<close>. \<^verbatim>\<open>RevisionHistory\<close> relates it to an abstract
    history: the set of revision files (\<open>rev_file\<close>), the end times, what a transaction \<open>sees\<close>.
    \<^verbatim>\<open>RevisionProperties\<close>: the properties of reading and checking revisions.
  \<^item> \<^verbatim>\<open>TimeProvider\<close>: the clocks of \<^verbatim>\<open>transaction.py\<close>. A call is two steps, reading the times known to all threads and
    recording its own, and the order of start and end times is shown for every interleaving of calls (\<open>thread_step\<close>).
  \<^item> \<^verbatim>\<open>Locators\<close>: the locator classes of \<^verbatim>\<open>namespace.py\<close>, \<^verbatim>\<open>table.py\<close>, \<^verbatim>\<open>table_version.py\<close>, \<^verbatim>\<open>stream.py\<close>,
    \<^verbatim>\<open>partition.py\<close>, \<^verbatim>\<open>delta.py\<close>, \<^verbatim>\<open>locator.py\<close>, and table versions.
  \<^item> \<^verbatim>\<open>Metafile\<close>, \<^verbatim>\<open>MetafileTxn\<close>: \<^verbatim>\<open>Metafile\<close> of \<^verbatim>\<open>metafile.py\<close>: identifiers, ancestors, reading, and the files
    one transaction operation writes. \<^verbatim>\<open>Transaction\<close>: \<^verbatim>\<open>Transaction\<close> of \<^verbatim>\<open>transaction.py\<close>, every operation
    with its error paths; the state is the file system and the transaction.
  \<^item> \<^verbatim>\<open>FileStore\<close>: the locale \<open>file_store\<close>, the contract of a file system that the transaction properties
    assume, with its interpretation by the in-memory file system. \<^verbatim>\<open>TransactionOutcomes\<close>,
    \<^verbatim>\<open>TransactionLifecycle\<close>: sealing commits or removes everything; read-only, pausing and single-end
    properties. \<^verbatim>\<open>RevisionWrites\<close>, \<^verbatim>\<open>SnapshotIsolation\<close>: writing keeps the layout that reading relies on,
    and commits are seen exactly by later transactions.
  \<^item> \<^verbatim>\<open>CommitProtocol\<close>: two transactions that wrote the same revision number: once one is sealed, sealing the other
    raises and removes what it wrote; and the race that remains when the other had passed its check before.
  \<^item> \<^verbatim>\<open>PyValues\<close>: the Python values stored as field defaults, their equality and truth, \<^verbatim>\<open>base64\<close> with its
    round trip; the locales \<open>codec\<close> (interpreted by \<^verbatim>\<open>base64\<close>) and \<open>res_loop\<close> (a loop that stops at the
    first exception, with its invariant rule; interpreted by the loops over fields and operations).
  \<^item> \<^verbatim>\<open>SchemaTypes\<close>: PyArrow's data types and \<^verbatim>\<open>is_type_compatible\<close>. \<^verbatim>\<open>SchemaFields\<close>: \<^verbatim>\<open>Field\<close> of \<^verbatim>\<open>schema.py\<close>,
    what is written to and read from the metadata. \<^verbatim>\<open>Schemas\<close>: \<^verbatim>\<open>Schema.of\<close>, lookups, sub-schemas and the
    invariant \<open>schema_wf\<close>.
  \<^item> \<^verbatim>\<open>SchemaUpdates\<close>: \<^verbatim>\<open>SchemaUpdate\<close> with its operations and checks. \<^verbatim>\<open>SchemaEvolution\<close>: the invariants a
    sequence of operations keeps. \<^verbatim>\<open>SchemaProperties\<close>: the properties of fields, schemas and updates.
  \<^item> \<^verbatim>\<open>Schemes\<close>: sort keys and schemes of \<^verbatim>\<open>sort_key.py\<close>, transforms of \<^verbatim>\<open>transform.py\<close>, partition keys and
    schemes of \<^verbatim>\<open>partition.py\<close>.
  \<^item> \<^verbatim>\<open>CatalogRoots\<close>: the version files and full paths of \<^verbatim>\<open>catalog/model/properties.py\<close>. \<^verbatim>\<open>Manifests\<close>:
    \<^verbatim>\<open>manifest.py\<close> and the media types and file names of \<^verbatim>\<open>media.py\<close> and \<^verbatim>\<open>tables.py\<close>; the loop over the entries
    in closed form. \<^verbatim>\<open>Deltas\<close>: \<^verbatim>\<open>Delta\<close> of \<^verbatim>\<open>delta.py\<close> and \<^verbatim>\<open>merge_deltas\<close>. \<^verbatim>\<open>ListResults\<close>: the paging of
    \<^verbatim>\<open>list_result.py\<close>. \<^verbatim>\<open>ManifestProperties\<close>: what manifests and merged deltas say of their entries.
  \<^item> \<^verbatim>\<open>StorageObjects\<close>: the contents of the metafile classes \<^verbatim>\<open>Namespace\<close>, \<^verbatim>\<open>Table\<close>, \<^verbatim>\<open>TableVersion\<close>, \<^verbatim>\<open>Stream\<close>,
    \<^verbatim>\<open>Partition\<close>, \<^verbatim>\<open>Delta\<close> and the aliases by which they are found. \<^verbatim>\<open>Storage\<close>, \<^verbatim>\<open>StorageDeltas\<close>: the operations of
    \<^verbatim>\<open>storage/main/impl.py\<close>, the latter those on partitions and deltas. An operation runs on a \<open>session\<close>, the two kinds of step
    it takes; \<open>txn_session\<close> is the session of a transaction of \<^verbatim>\<open>Transaction\<close>.
  \<^item> \<^verbatim>\<open>StorageLaws\<close>: the locales \<open>session_reads\<close> and \<open>session_steps\<close> (what every step keeps, every operation keeps) and
    \<open>session_match\<close> (operations on two sessions whose steps match), interpreted on the sessions of transactions, of historic
    transactions, and on \<open>recording\<close>, which notes the writes an operation asks for. \<^verbatim>\<open>StorageRequests\<close>: the operations
    as requests and runs of several of them. \<^verbatim>\<open>StorageTraces\<close>: the writes of each operation, in order.
    \<^verbatim>\<open>StorageVersions\<close>: histories of table versions, listings, checks of staged partitions. \<^verbatim>\<open>StorageProperties\<close>: the
    properties of the storage operations.
  \<^item> \<^verbatim>\<open>HashBuckets\<close>: how the compactor (\<^verbatim>\<open>compute/compactor_v2\<close>) brings the envelopes of the hash bucket tasks to the merge
    tasks (\<^verbatim>\<open>group_hash_bucket_indices\<close>, the collection of references in \<^verbatim>\<open>_run_hash_and_merge\<close>,
    \<^verbatim>\<open>RemoteMergeFileGroupsProvider\<close>) through an object store; the locale \<open>object_store\<close>, interpreted by
    \<^verbatim>\<open>FileObjectStore\<close>. \<^verbatim>\<open>CompactionResults\<close>, \<^verbatim>\<open>CompactionProperties\<close>: \<^verbatim>\<open>_process_merge_results\<close> with the entry ranges
    of the hash buckets, and the copying of buckets by reference of \<^verbatim>\<open>steps/merge.py\<close>.

  \<^bold>\<open>Parameters.\<close> The file system (\<^verbatim>\<open>pyarrow\<close>), the serialization of contents and logs (\<^verbatim>\<open>msgpack\<close>), SHA-1,
  fresh UUIDs and the readings of the clock are arguments. So are the functions of PyArrow that the
  schemas call (the record \<open>arrow\<close>); what the properties assume of them is \<open>arrow_laws\<close>, shown to hold
  of \<open>sample_arrow\<close>. The identifiers that a storage operation draws, the text of a list of partition values and the
  function that writes the slices of a table are arguments too. The catalog root is the normalized one. What
  is assumed of the file system is \<open>file_store\<close>, \<open>partitioned_layout\<close> or \<open>revision_dir\<close>, each shown to
  hold of the in-memory file system, on which the witnesses of these properties are evaluated; those of the writes of storage
  operations are evaluated on a session over a list of objects. Exception messages and log
  output are not modelled.

  \<^bold>\<open>Bounds and loops.\<close> Revision numbers run to \<open>MAX_REVISION_NUMBER\<close>, the largest value the code passes;
  timestamps keep Python's unbounded integers. The loop of \<^verbatim>\<open>list_revisions\<close> and the waiting loops of the
  clock may run for ever on some inputs and return options; that they return is proved
  (\<open>latest_revision_concurrent\<close>, \<open>time_provider_returns\<close>), and so may turning the pages of a list
  result, which returns where the provider makes progress (\<open>all_items_flattens\<close>), and drawing the position of an
  unordered delta, which returns with the first identifier above the reserved range (\<open>draw_position_returns\<close>). \<^verbatim>\<open>is_type_compatible\<close> descends into nested
  types with the interpreter's recursion limit as fuel, and raises Python's \<open>RecursionError\<close> where it runs
  out. Everything else terminates by structural
  recursion.

  \<^bold>\<open>Not modelled.\<close> Resolving catalog names and URIs to file systems; validating and coercing tables
  and data frames against a schema, which is PyArrow, pandas, polars and Daft code; reading
  manifests from JSON and S3 objects; the queries of the transaction history; downloading deltas and writing the slices of tables; the catalog layer, which
  mostly joins storage operations with reading and writing tables, and of the compute layers everything but the
  grouping of hash buckets and the merge results, that is, the Ray jobs over tables; conversions between table libraries.
\<close>

end
